(* ===== verification/Prelude.thy ===== *)
theory Prelude
  imports Main "HOL-Library.AList" "HOL-Library.Char_ord" "HOL-Library.List_Lexorder"
begin

text \<open>
  What every component shares: Go's error values, Go's maps, the functions of the
  standard package \<open>strings\<close> the repository calls, and the interface of a store keyed
  by strings.

  \<^item> A Go \<open>error\<close> is a value of \<open>gerr\<close>; a function that returns a value and an error
    returns \<open>gerr + 'a\<close>. A run-time panic (nil dereference, index out of range, failed
    type assertion) is an error value too, built with \<open>Panic\<close>, so it is never
    confused with a result.
  \<^item> A Go map is the list of its entries in the order in which one \<open>range\<close> loop visits
    them. Go leaves this order open, so a theorem about all lists is a theorem about
    all iteration orders. A map that may be nil is an \<open>option\<close> of such a list.
  \<^item> A string is a list of bytes.
\<close>

section \<open>Errors\<close>

text \<open>
  Errors of the Kubernetes API keep the kind that \<open>apierrors.IsNotFound\<close>,
  \<open>IsGone\<close> and \<open>IsConflict\<close> test. \<open>Wrap\<close> is \<open>errors.Wrapf\<close>: with
  \<open>pkg/errors\<close> v0.8.1 and \<open>apimachinery\<close> v0.17 these tests do not look below a
  wrapper.
\<close>

datatype api_error = NotFound string | Gone string | Conflict string | OtherApi string

datatype gerr = Msg string | Api api_error | Wrap string gerr | Panic string | Aggregate "gerr list"

type_synonym 'a res = "gerr + 'a"

fun IsNotFound :: "gerr \<Rightarrow> bool" where
  "IsNotFound (Api (NotFound _)) = True"
| "IsNotFound _ = False"

fun IsGone :: "gerr \<Rightarrow> bool" where
  "IsGone (Api (Gone _)) = True"
| "IsGone _ = False"

fun IsConflict :: "gerr \<Rightarrow> bool" where
  "IsConflict (Api (Conflict _)) = True"
| "IsConflict _ = False"

fun api_text :: "api_error \<Rightarrow> string" where
  "api_text (NotFound s) = s"
| "api_text (Gone s) = s"
| "api_text (Conflict s) = s"
| "api_text (OtherApi s) = s"

text \<open>\<open>strings.Join(parts, sep)\<close>.\<close>

fun join :: "string \<Rightarrow> string list \<Rightarrow> string" where
  "join sep [] = []"
| "join sep [p] = p"
| "join sep (p # q # ps) = p @ sep @ join sep (q # ps)"

fun err_text :: "gerr \<Rightarrow> string" where
  "err_text (Msg s) = s"
| "err_text (Api e) = api_text e"
| "err_text (Wrap s e) = s @ '': '' @ err_text e"
| "err_text (Panic s) = s"
| "err_text (Aggregate es) = ''['' @ join '', '' (map err_text es) @ '']''"

fun is_panic :: "gerr \<Rightarrow> bool" where
  "is_panic (Panic _) = True"
| "is_panic _ = False"

abbreviation "nil_deref \<equiv> Panic ''nil pointer dereference''"

text \<open>\<open>errors.Wrapf\<close> of a result: a panic is not an error that can be wrapped.\<close>

definition wrapf :: "string \<Rightarrow> gerr \<Rightarrow> gerr" where
  "wrapf s e = (if is_panic e then e else Wrap s e)"

text \<open>\<open>utilerrors.NewAggregate\<close>: nil for no errors.\<close>

definition NewAggregate :: "gerr list \<Rightarrow> gerr option" where
  "NewAggregate errlist = (if errlist = [] then None else Some (Aggregate errlist))"

fun isOK :: "'a res \<Rightarrow> bool" where
  "isOK (Inl _) = False"
| "isOK (Inr _) = True"

lemma isOK_iff: "isOK r \<longleftrightarrow> (\<exists>v. r = Inr v)"
  by (cases r) auto

named_theorems go_map \<open>lookup facts for Go maps\<close>

section \<open>Go maps\<close>

type_synonym 'v gomap = "(string \<times> 'v) list"
type_synonym strmap = "string gomap"

abbreviation mput :: "string \<Rightarrow> 'v \<Rightarrow> 'v gomap \<Rightarrow> 'v gomap" where
  "mput \<equiv> AList.update"

abbreviation mdel :: "string \<Rightarrow> 'v gomap \<Rightarrow> 'v gomap" where
  "mdel \<equiv> AList.delete"

abbreviation mkeys :: "'v gomap \<Rightarrow> string list" where
  "mkeys m \<equiv> map fst m"

text \<open>\<open>len\<close>, \<open>range\<close> and indexing treat a nil map as an empty one.\<close>

fun mrange :: "'v gomap option \<Rightarrow> 'v gomap" where
  "mrange None = []"
| "mrange (Some m) = m"

lemmas map_of_mput [go_map, simp] = AList.update_conv'
lemmas map_of_mdel [go_map, simp] = AList.delete_conv'

lemma distinct_mput [simp]: "distinct (mkeys m) \<Longrightarrow> distinct (mkeys (mput k v m))"
  by (rule AList.distinct_update)

lemma distinct_mdel [simp]: "distinct (mkeys m) \<Longrightarrow> distinct (mkeys (mdel k m))"
  by (induction m) (auto simp: AList.delete_eq)

lemma mput_same: "map_of m k = Some v \<Longrightarrow> mput k v m = m"
  by (induction m) (auto split: if_splits)

lemma mput_value_in: "p \<in> set (mput k v m) \<Longrightarrow> p = (k, v) \<or> p \<in> set m"
  by (induction m) (auto split: if_splits)

lemma mput_absent: "k \<notin> fst ` set m \<Longrightarrow> mput k v m = m @ [(k, v)]"
  by (induction m) auto

lemma mdel_absent: "map_of m k = None \<Longrightarrow> mdel k m = m"
  by (induction m) (auto simp: AList.delete_eq split: if_splits)

lemma mkeys_dom: "set (mkeys m) = dom (map_of m)"
  by (simp add: dom_map_of_conv_image_fst)

lemma mem_mkeys_iff: "k \<in> set (mkeys m) \<longleftrightarrow> map_of m k \<noteq> None"
  by (metis mkeys_dom domIff)

lemma find_SomeD: "find P xs = Some x \<Longrightarrow> x \<in> set xs \<and> P x"
  by (induction xs) (auto split: if_splits)

lemma find_snoc:
  "find P (xs @ [x]) = (case find P xs of Some y \<Rightarrow> Some y | None \<Rightarrow> if P x then Some x else None)"
  by (induction xs) auto

lemma find_NoneD: "find P xs = None \<Longrightarrow> x \<in> set xs \<Longrightarrow> \<not> P x"
  by (auto simp: find_None_iff)

section \<open>Strings\<close>

text \<open>\<open>strings.Split(s, sep)\<close> for a separator of one byte.\<close>

fun split_on :: "char \<Rightarrow> string \<Rightarrow> string list" where
  "split_on c [] = [[]]"
| "split_on c (x # xs) =
     (if x = c then [] # split_on c xs
      else (case split_on c xs of [] \<Rightarrow> [[x]] | p # ps \<Rightarrow> (x # p) # ps))"

text \<open>\<open>strings.SplitN(s, sep, n)\<close> for a separator of one byte and \<open>n \<ge> 0\<close>.\<close>

fun splitN :: "char \<Rightarrow> nat \<Rightarrow> string \<Rightarrow> string list" where
  "splitN c 0 s = []"
| "splitN c (Suc 0) s = [s]"
| "splitN c (Suc (Suc n)) s =
     (if c \<in> set s
      then takeWhile (\<lambda>x. x \<noteq> c) s # splitN c (Suc n) (tl (dropWhile (\<lambda>x. x \<noteq> c) s))
      else [s])"

text \<open>\<open>strings.ReplaceAll(s, old, new)\<close> for a non-empty \<open>old\<close>.\<close>

function replace_all :: "string \<Rightarrow> string \<Rightarrow> string \<Rightarrow> string" where
  "replace_all old new [] = []"
| "replace_all old new (x # xs) =
     (if old \<noteq> [] \<and> take (length old) (x # xs) = old
      then new @ replace_all old new (drop (length old) (x # xs))
      else x # replace_all old new xs)"
  by pat_completeness auto
termination
  by (relation "measure (\<lambda>(old, new, s). length s)") auto

lemma split_on_nonempty [simp]: "split_on c s \<noteq> []"
  by (induction s) (auto split: list.splits)

lemma split_on_no_sep: "c \<notin> set s \<Longrightarrow> split_on c s = [s]"
  by (induction s) auto

lemma split_on_append: "c \<notin> set p \<Longrightarrow> split_on c (p @ c # s) = p # split_on c s"
  by (induction p) auto

lemma split_on_join:
  assumes "ps \<noteq> []" and "\<forall>p \<in> set ps. c \<notin> set p"
  shows "split_on c (join [c] ps) = ps"
  using assms
  by (induction "[c]" ps rule: join.induct) (auto simp: split_on_no_sep split_on_append)

lemma join_split_on: "join [c] (split_on c s) = s"
proof (induction s)
  case (Cons x xs)
  then show ?case
    by (cases "split_on c xs"; cases "tl (split_on c xs)") (auto split: list.splits)
qed simp

lemma takeWhile_sep: "c \<notin> set p \<Longrightarrow> takeWhile (\<lambda>x. x \<noteq> c) (p @ c # q) = p"
  by (induction p) auto

lemma dropWhile_sep: "c \<notin> set p \<Longrightarrow> dropWhile (\<lambda>x. x \<noteq> c) (p @ c # q) = c # q"
  by (induction p) auto

lemma splitN_append:
  "c \<notin> set p \<Longrightarrow> splitN c (Suc (Suc n)) (p @ c # s) = p # splitN c (Suc n) s"
  by (simp add: takeWhile_sep dropWhile_sep)

lemma splitN_no_sep: "c \<notin> set s \<Longrightarrow> splitN c (Suc n) s = [s]"
  by (cases n) auto

lemma splitN_2_cases:
  obtains (one) "splitN c 2 s = [s]" "c \<notin> set s"
  | (two) p q where "splitN c 2 s = [p, q]" "s = p @ c # q" "c \<notin> set p"
proof (cases "c \<in> set s")
  case True
  then obtain p q where pq: "s = p @ c # q" "c \<notin> set p"
    by (meson split_list_first)
  then have "splitN c 2 s = [p, q]"
    by (simp add: numeral_2_eq_2 takeWhile_sep dropWhile_sep)
  with pq show ?thesis using two by blast
next
  case False
  then show ?thesis using one by (simp add: numeral_2_eq_2 splitN_no_sep)
qed

text \<open>Decimal rendering of integers, Go's \<open>%v\<close> and \<open>%d\<close>.\<close>

fun show_nat :: "nat \<Rightarrow> string" where
  "show_nat n =
     (if n < 10 then [char_of (48 + n)]
      else show_nat (n div 10) @ [char_of (48 + n mod 10)])"

declare show_nat.simps [simp del]

definition show_int :: "int \<Rightarrow> string" where
  "show_int i = (if i < 0 then CHR ''-'' # show_nat (nat (- i)) else show_nat (nat i))"

text \<open>\<open>%q\<close> of a string without bytes that need escaping.\<close>

definition quoted :: "string \<Rightarrow> string" where
  "quoted s = [CHR 0x22] @ s @ [CHR 0x22]"

section \<open>Stores keyed by a composite key\<close>

text \<open>
  Several components keep a map whose key is built from two strings: the registries of
  API resources, informers and selectors, the update strategies and the claims of a
  rollout. This is what their clients rely on. \<open>valid\<close> says which pairs have a key of
  their own: two pairs outside it may share a key.
\<close>

locale keyed_store =
  fixes get :: "'s \<Rightarrow> string \<Rightarrow> string \<Rightarrow> 'v option"
    and put :: "string \<Rightarrow> string \<Rightarrow> 'v \<Rightarrow> 's \<Rightarrow> 's"
    and empty :: 's
    and valid :: "string \<Rightarrow> string \<Rightarrow> bool"
  assumes get_empty: "get empty a b = None"
    and get_put_same: "get (put a b v s) a b = Some v"
    and get_put_other:
      "valid a b \<Longrightarrow> valid a' b' \<Longrightarrow> (a, b) \<noteq> (a', b') \<Longrightarrow>
       get (put a b v s) a' b' = get s a' b'"
begin

fun puts :: "(string \<times> string \<times> 'v) list \<Rightarrow> 's \<Rightarrow> 's" where
  "puts [] s = s"
| "puts ((a, b, v) # es) s = puts es (put a b v s)"

lemma get_puts_absent:
  assumes "valid a b" and "\<forall>(a', b', v) \<in> set es. valid a' b' \<and> (a', b') \<noteq> (a, b)"
  shows "get (puts es s) a b = get s a b"
  using assms
  by (induction es s rule: puts.induct) (auto simp: get_put_other)

lemma get_puts_last:
  assumes "valid a b" and "\<forall>(a', b', v) \<in> set es'. valid a' b' \<and> (a', b') \<noteq> (a, b)"
  shows "get (puts (es @ (a, b, v) # es') s) a b = Some v"
proof -
  have "puts (es @ (a, b, v) # es') s = puts es' (put a b v (puts es s))"
    by (induction es s rule: puts.induct) auto
  with assms show ?thesis by (simp add: get_puts_absent get_put_same)
qed

lemma get_put_cases:
  assumes "valid a b" and "valid a' b'"
  shows "get (put a b v s) a' b' = (if (a, b) = (a', b') then Some v else get s a' b')"
  using assms by (auto simp: get_put_same get_put_other)

end

end
