(* ===== verification/Values.thy ===== *)
theory Values
  imports Prelude
begin

text \<open>
  The untyped values the controllers work on (Go's \<open>interface{}\<close> as \<open>encoding/json\<close>
  fills it) and the nested-field helpers of
  \<open>third_party/kubernetes/unstructured.go\<close>. Objects are passed by reference in Go and
  mutated; here an operation that mutates its argument returns the new value.

  \<^item> \<open>JInt\<close> is an \<open>int64\<close>: the code compares these values and never computes with them.
  \<^item> \<open>JFloat\<close> is a \<open>float64\<close>, identified by the shortest decimal text that Go's
    \<open>%v\<close> prints for it.
  \<^item> \<open>JNilSlice\<close> is a nil \<open>[]interface{}\<close> stored in an interface, which
    \<open>reflect.DeepEqual\<close> distinguishes from an empty slice and from nil.
\<close>

datatype json = JNull | JBool bool | JInt int | JFloat string | JStr string
  | JArr "json list" | JNilSlice | JObj "(string \<times> json) list"

type_synonym obj = "json gomap"

section \<open>Type assertions, equality and printing\<close>

text \<open>
  \<open>v, ok := x.(map[string]interface{})\<close> and \<open>v, ok := x.([]interface{})\<close>: a failed
  assertion gives the zero value, a nil map or slice, and \<open>ok = false\<close>.
\<close>

fun as_map :: "json \<Rightarrow> obj option \<times> bool" where
  "as_map (JObj m) = (Some m, True)"
| "as_map _ = (None, False)"

fun as_slice :: "json \<Rightarrow> json list option \<times> bool" where
  "as_slice (JArr xs) = (Some xs, True)"
| "as_slice JNilSlice = (None, True)"
| "as_slice _ = (None, False)"

fun as_string :: "json \<Rightarrow> string option" where
  "as_string (JStr s) = Some s"
| "as_string _ = None"

fun of_slice :: "json list option \<Rightarrow> json" where
  "of_slice None = JNilSlice"
| "of_slice (Some xs) = JArr xs"

fun elems :: "json list option \<Rightarrow> json list" where
  "elems None = []"
| "elems (Some xs) = xs"

text \<open>Indexing a map gives the zero value, nil, for a missing key.\<close>

definition index :: "obj \<Rightarrow> string \<Rightarrow> json" where
  "index m k = (case map_of m k of None \<Rightarrow> JNull | Some v \<Rightarrow> v)"

lemma index_Nil [simp]: "index [] k = JNull"
  by (simp add: index_def)

lemma index_mput [simp]: "index (mput k v m) k' = (if k = k' then v else index m k')"
  by (simp add: index_def)

lemma index_mdel [simp]: "index (mdel k m) k' = (if k = k' then JNull else index m k')"
  by (simp add: index_def)

text \<open>\<open>reflect.DeepEqual\<close>.\<close>

fun deep_equal :: "json \<Rightarrow> json \<Rightarrow> bool" where
  "deep_equal (JArr xs) (JArr ys) = list_all2 deep_equal xs ys"
| "deep_equal (JObj m) (JObj n) =
     (length m = length n \<and>
      (\<forall>(k, v) \<in> set m. case map_of n k of None \<Rightarrow> False | Some w \<Rightarrow> deep_equal v w))"
| "deep_equal a b = (a = b)"

text \<open>\<open>fmt.Sprintf("%v", x)\<close>: maps are printed in key order.\<close>

fun fmt_v :: "json \<Rightarrow> string" where
  "fmt_v JNull = ''<nil>''"
| "fmt_v (JBool b) = (if b then ''true'' else ''false'')"
| "fmt_v (JInt i) = show_int i"
| "fmt_v (JFloat s) = s"
| "fmt_v (JStr s) = s"
| "fmt_v (JArr xs) = ''['' @ join '' '' (map fmt_v xs) @ '']''"
| "fmt_v JNilSlice = ''[]''"
| "fmt_v (JObj m) =
     ''map['' @ join '' '' (map (\<lambda>(k, s). k @ '':'' @ s)
       (sort_key fst (map (\<lambda>(k, v). (k, fmt_v v)) m))) @ '']''"

text \<open>
  A Go map has one entry per key. This is the invariant of every value the model builds.
\<close>

fun wf_json :: "json \<Rightarrow> bool" where
  "wf_json (JArr xs) = list_all wf_json xs"
| "wf_json (JObj m) = (distinct (mkeys m) \<and> list_all (\<lambda>(k, v). wf_json v) m)"
| "wf_json _ = True"

text \<open>The number of values in a value: what the recursions over values decrease.\<close>

fun jsize :: "json \<Rightarrow> nat" where
  "jsize (JArr xs) = Suc (sum_list (map jsize xs))"
| "jsize (JObj m) = Suc (sum_list (map (\<lambda>(k, v). jsize v) m))"
| "jsize _ = 1"

lemma jsize_pos [simp]: "0 < jsize v"
  by (cases v) auto

lemma deep_equal_refl: "wf_json v \<Longrightarrow> deep_equal v v"
proof (induction v rule: wf_json.induct)
  case (1 xs)
  then show ?case by (auto simp: list_all_iff intro!: list.rel_refl_strong)
next
  case (2 m)
  then have "deep_equal v v" if "(k, v) \<in> set m" for k v
    using that by (fastforce simp: list_all_iff)
  moreover have "map_of m k = Some v" if "(k, v) \<in> set m" for k v
    using that "2.prems" by simp
  ultimately show ?case by auto
qed auto

lemma wf_json_index: "wf_json (JObj m) \<Longrightarrow> wf_json (index m k)"
  by (auto simp: index_def list_all_iff split: option.splits dest: map_of_SomeD)

lemma wf_json_mput: "wf_json (JObj m) \<Longrightarrow> wf_json v \<Longrightarrow> wf_json (JObj (mput k v m))"
  by (auto simp: list_all_iff dest: mput_value_in)

lemma wf_json_mdel: "wf_json (JObj m) \<Longrightarrow> wf_json (JObj (mdel k m))"
  using distinct_mdel [of m k] by (auto simp: list_all_iff AList.delete_eq)

section \<open>Nested fields\<close>

text \<open>\<open>GetNestedField\<close> walks the path; a missing field or a value that is no map is nil.\<close>

fun nested_walk :: "json \<Rightarrow> string list \<Rightarrow> json" where
  "nested_walk val [] = val"
| "nested_walk val (field # fields) =
     (case as_map val of
        (Some m, True) \<Rightarrow> nested_walk (index m field) fields
      | _ \<Rightarrow> JNull)"

definition GetNestedField :: "obj \<Rightarrow> string list \<Rightarrow> json" where
  "GetNestedField obj fields = nested_walk (JObj obj) fields"

text \<open>
  \<open>GetNestedFieldInto\<close> re-decodes the field into a typed target with the JSON package,
  whose two functions are parameters.
\<close>

definition GetNestedFieldInto ::
  "(json \<Rightarrow> string res) \<Rightarrow> (string \<Rightarrow> 'a \<Rightarrow> 'a res) \<Rightarrow> 'a \<Rightarrow> obj \<Rightarrow> string list \<Rightarrow> 'a res" where
  "GetNestedFieldInto marshal unmarshal out obj fields =
     (let objMap = GetNestedField obj fields in
      if objMap = JNull then Inr out
      else case marshal objMap of
        Inl e \<Rightarrow> Inl (Msg (''can't encode nested field '' @ join ''.'' fields @ '': '' @ err_text e))
      | Inr data \<Rightarrow>
          (case unmarshal data out of
             Inl e \<Rightarrow> Inl (Msg (''can't decode nested field '' @ join ''.'' fields @ '': '' @ err_text e))
           | Inr out' \<Rightarrow> Inr out'))"

definition GetNestedString :: "obj \<Rightarrow> string list \<Rightarrow> string" where
  "GetNestedString obj fields =
     (case GetNestedField obj fields of JStr str \<Rightarrow> str | _ \<Rightarrow> '''')"

definition GetNestedArray :: "obj \<Rightarrow> string list \<Rightarrow> json list option" where
  "GetNestedArray obj fields =
     (case as_slice (GetNestedField obj fields) of (arr, True) \<Rightarrow> arr | _ \<Rightarrow> None)"

definition GetNestedObject :: "obj \<Rightarrow> string list \<Rightarrow> obj option" where
  "GetNestedObject obj fields =
     (case as_map (GetNestedField obj fields) of (m, True) \<Rightarrow> m | _ \<Rightarrow> None)"

definition GetNestedInt64 :: "obj \<Rightarrow> string list \<Rightarrow> int" where
  "GetNestedInt64 obj fields = (case GetNestedField obj fields of JInt i \<Rightarrow> i | _ \<Rightarrow> 0)"

definition GetNestedInt64Pointer :: "obj \<Rightarrow> string list \<Rightarrow> int option" where
  "GetNestedInt64Pointer obj fields =
     (case GetNestedField obj fields of JInt n \<Rightarrow> Some n | _ \<Rightarrow> None)"

definition GetNestedSlice :: "obj \<Rightarrow> string list \<Rightarrow> string list option" where
  "GetNestedSlice obj fields =
     (case as_slice (GetNestedField obj fields) of
        (m, True) \<Rightarrow> Some (List.map_filter as_string (elems m))
      | _ \<Rightarrow> None)"

definition GetNestedMap :: "obj \<Rightarrow> string list \<Rightarrow> strmap option" where
  "GetNestedMap obj fields =
     (case as_map (GetNestedField obj fields) of
        (m, True) \<Rightarrow>
          Some (List.map_filter (\<lambda>(k, v). map_option (Pair k) (as_string v)) (mrange m))
      | _ \<Rightarrow> None)"

text \<open>
  \<open>SetNestedField\<close> replaces every missing or non-map parent by a new map. An empty path
  indexes out of range. The loop over the parents is \<open>set_path\<close>.
\<close>

fun set_path :: "obj \<Rightarrow> json \<Rightarrow> string \<Rightarrow> string list \<Rightarrow> obj" where
  "set_path m v field [] = mput field v m"
| "set_path m v field (f # fs) =
     (let sub = (case as_map (index m field) of (Some s, True) \<Rightarrow> s | _ \<Rightarrow> [])
      in mput field (JObj (set_path sub v f fs)) m)"

definition SetNestedField :: "obj \<Rightarrow> json \<Rightarrow> string list \<Rightarrow> obj res" where
  "SetNestedField obj v fields =
     (case fields of
        [] \<Rightarrow> Inl (Panic ''index out of range'')
      | f # fs \<Rightarrow> Inr (set_path obj v f fs))"

fun delete_path :: "obj \<Rightarrow> string \<Rightarrow> string list \<Rightarrow> obj" where
  "delete_path m field [] = mdel field m"
| "delete_path m field (f # fs) =
     (let sub = (case as_map (index m field) of (Some s, True) \<Rightarrow> s | _ \<Rightarrow> [])
      in mput field (JObj (delete_path sub f fs)) m)"

definition DeleteNestedField :: "obj \<Rightarrow> string list \<Rightarrow> obj res" where
  "DeleteNestedField obj fields =
     (case fields of
        [] \<Rightarrow> Inl (Panic ''index out of range'')
      | f # fs \<Rightarrow> Inr (delete_path obj f fs))"

definition SetNestedSlice :: "obj \<Rightarrow> string list \<Rightarrow> string list \<Rightarrow> obj res" where
  "SetNestedSlice obj v fields = SetNestedField obj (JArr (map JStr v)) fields"

definition SetNestedMap :: "obj \<Rightarrow> strmap \<Rightarrow> string list \<Rightarrow> obj res" where
  "SetNestedMap obj v fields = SetNestedField obj (JObj (map (\<lambda>(k, s). (k, JStr s)) v)) fields"

section \<open>What the nested-field operations do\<close>

text \<open>Two paths diverge when they differ at a position both have.\<close>

fun diverge :: "string list \<Rightarrow> string list \<Rightarrow> bool" where
  "diverge (a # p) (b # q) = (a \<noteq> b \<or> diverge p q)"
| "diverge _ _ = False"

lemma diverge_sym: "diverge p q = diverge q p"
  by (induction p q rule: diverge.induct) (auto elim: diverge.elims)

lemma nested_walk_null [simp]: "nested_walk JNull p = JNull"
  by (cases p) auto

lemma nested_walk_no_map: "as_map v = (None, False) \<Longrightarrow> p \<noteq> [] \<Longrightarrow> nested_walk v p = JNull"
  by (cases p) auto

lemma nested_walk_append: "nested_walk v (p @ q) = nested_walk (nested_walk v p) q"
  by (induction v p rule: nested_walk.induct) (auto split: prod.splits option.splits bool.splits)

lemma as_map_cases:
  obtains (map) s where "v = JObj s" "as_map v = (Some s, True)" | (other) "as_map v = (None, False)"
  by (cases v) auto

lemma walk_set_path_same: "nested_walk (JObj (set_path m v f fs)) (f # fs) = v"
  by (induction m v f fs rule: set_path.induct) auto

lemma walk_set_path_other:
  "diverge (f # fs) q \<Longrightarrow> nested_walk (JObj (set_path m v f fs)) q = nested_walk (JObj m) q"
proof (induction m v f fs arbitrary: q rule: set_path.induct)
  case (1 m v field)
  then show ?case by (cases q) (auto simp: Let_def)
next
  case (2 m v field f fs)
  then obtain b q' where q: "q = b # q'" by (cases q) auto
  show ?case
  proof (cases "b = field")
    case True
    with "2.prems" q have d: "diverge (f # fs) q'" by simp
    then have "q' \<noteq> []" by auto
    show ?thesis
    proof (cases "index m field" rule: as_map_cases)
      case (map s)
      with "2.IH" [of s q'] d q True show ?thesis by simp
    next
      case other
      with "2.IH" [of "[]" q'] d q True \<open>q' \<noteq> []\<close> show ?thesis
        by (cases q') (simp_all add: nested_walk_no_map)
    qed
  qed (simp add: q Let_def)
qed

lemma walk_delete_path_same: "nested_walk (JObj (delete_path m f fs)) (f # fs) = JNull"
  by (induction m f fs rule: delete_path.induct) auto

lemma wf_set_path:
  "wf_json (JObj m) \<Longrightarrow> wf_json v \<Longrightarrow> wf_json (JObj (set_path m v f fs))"
proof (induction m v f fs rule: set_path.induct)
  case (2 m v field f fs)
  show ?case
  proof (cases "index m field" rule: as_map_cases)
    case (map s)
    with "2.prems" have "wf_json (JObj s)" by (metis wf_json_index)
    with 2 map show ?thesis by (simp add: wf_json_mput del: wf_json.simps)
  next
    case other
    have "wf_json (JObj [])" by simp
    with 2 other have "wf_json (JObj (set_path [] v f fs))" by simp
    with other "2.prems" show ?thesis by (simp add: wf_json_mput del: wf_json.simps)
  qed
qed (simp add: wf_json_mput del: wf_json.simps)

lemma Get_Set_same: "SetNestedField m v p = Inr m' \<Longrightarrow> GetNestedField m' p = v"
  by (cases p) (auto simp: SetNestedField_def GetNestedField_def walk_set_path_same
      simp del: nested_walk.simps)

lemma Get_Set_other:
  "SetNestedField m v p = Inr m' \<Longrightarrow> diverge p q \<Longrightarrow> GetNestedField m' q = GetNestedField m q"
  by (cases p) (auto simp: SetNestedField_def GetNestedField_def walk_set_path_other
      simp del: nested_walk.simps)

lemma map_filter_strings: "List.map_filter as_string (map JStr v) = v"
  by (induction v) (auto simp: map_filter_simps)

lemma map_filter_string_map:
  "List.map_filter (\<lambda>(k, v). map_option (Pair k) (as_string v)) (map (\<lambda>(k, s). (k, JStr s)) v) = v"
  by (induction v) (auto simp: map_filter_simps)

end
