(* ===== verification/KubeLib.thy ===== *)
theory KubeLib
  imports Values
begin

text \<open>
  The Kubernetes libraries the repository imports (\<open>k8s.io/apimachinery\<close>,
  \<open>k8s.io/client-go\<close>) are not part of it. Their pure functions on objects are the
  fields of a record of type \<open>kube\<close>, a parameter of every definition that calls one.
  The locale \<open>kube_lib\<close> states what their documentation promises and the code relies
  on: each getter reads one field of the object, each setter writes one field, and the
  nested-field functions get, set and remove along a path. \<open>std_kube\<close> is an
  implementation over the nested maps, for which the promises are proved.
\<close>

record owner_ref =
  orAPIVersion :: string
  orKind :: string
  orName :: string
  orUID :: string
  orController :: "bool option"
  orBlock :: "bool option"

record kube =
  GetAPIVersion :: "obj \<Rightarrow> string"
  GetKind :: "obj \<Rightarrow> string"
  GetNamespace :: "obj \<Rightarrow> string"
  GetName :: "obj \<Rightarrow> string"
  GetUID :: "obj \<Rightarrow> string"
  GetResourceVersion :: "obj \<Rightarrow> string"
  GetGeneration :: "obj \<Rightarrow> int"
  GetDeletionTimestamp :: "obj \<Rightarrow> string option"
  GetLabels :: "obj \<Rightarrow> strmap option"
  GetAnnotations :: "obj \<Rightarrow> strmap option"
  GetFinalizers :: "obj \<Rightarrow> string list"
  GetOwnerReferences :: "obj \<Rightarrow> owner_ref list"
  GetControllerOf :: "obj \<Rightarrow> owner_ref option"
  SetLabels :: "obj \<Rightarrow> strmap \<Rightarrow> obj"
  SetAnnotations :: "obj \<Rightarrow> strmap \<Rightarrow> obj"
  SetFinalizers :: "obj \<Rightarrow> string list \<Rightarrow> obj"
  SetOwnerReferences :: "obj \<Rightarrow> owner_ref list \<Rightarrow> obj"
  SetResourceVersion :: "obj \<Rightarrow> string \<Rightarrow> obj"
  NestedField :: "obj \<Rightarrow> string list \<Rightarrow> json option res"
  SetField :: "obj \<Rightarrow> json \<Rightarrow> string list \<Rightarrow> obj res"
  RemoveField :: "obj \<Rightarrow> string list \<Rightarrow> obj"
  NestedString :: "obj \<Rightarrow> string list \<Rightarrow> string option res"
  NestedStringSlice :: "obj \<Rightarrow> string list \<Rightarrow> string list option res"
  NestedStringMap :: "obj \<Rightarrow> string list \<Rightarrow> strmap option res"
  GroupVersionString :: "string \<Rightarrow> string \<Rightarrow> string"
  Marshal :: "obj \<Rightarrow> string res"
  Unmarshal :: "string \<Rightarrow> obj res"

abbreviation "annotations_path \<equiv> [''metadata'', ''annotations'']"
abbreviation "labels_path \<equiv> [''metadata'', ''labels'']"
abbreviation "finalizers_path \<equiv> [''metadata'', ''finalizers'']"
abbreviation "owners_path \<equiv> [''metadata'', ''ownerReferences'']"

text \<open>
  A setter can write its field only when \<open>metadata\<close> is a map or missing; the library
  drops the write otherwise.
\<close>

definition meta_ok :: "obj \<Rightarrow> bool" where
  "meta_ok o' = (case map_of o' ''metadata'' of None \<Rightarrow> True | Some v \<Rightarrow> snd (as_map v))"

locale kube_lib =
  fixes K :: kube
  assumes local_apiVersion: "NestedField K a [''apiVersion''] = NestedField K b [''apiVersion''] \<Longrightarrow>
      GetAPIVersion K a = GetAPIVersion K b"
    and local_kind: "NestedField K a [''kind''] = NestedField K b [''kind''] \<Longrightarrow>
      GetKind K a = GetKind K b"
    and local_namespace: "NestedField K a [''metadata'', ''namespace''] =
      NestedField K b [''metadata'', ''namespace''] \<Longrightarrow> GetNamespace K a = GetNamespace K b"
    and local_name: "NestedField K a [''metadata'', ''name''] =
      NestedField K b [''metadata'', ''name''] \<Longrightarrow> GetName K a = GetName K b"
    and local_uid: "NestedField K a [''metadata'', ''uid''] =
      NestedField K b [''metadata'', ''uid''] \<Longrightarrow> GetUID K a = GetUID K b"
    and local_resourceVersion: "NestedField K a [''metadata'', ''resourceVersion''] =
      NestedField K b [''metadata'', ''resourceVersion''] \<Longrightarrow>
      GetResourceVersion K a = GetResourceVersion K b"
    and local_deletion: "NestedField K a [''metadata'', ''deletionTimestamp''] =
      NestedField K b [''metadata'', ''deletionTimestamp''] \<Longrightarrow>
      GetDeletionTimestamp K a = GetDeletionTimestamp K b"
    and local_labels: "NestedField K a labels_path = NestedField K b labels_path \<Longrightarrow>
      GetLabels K a = GetLabels K b"
    and local_annotations: "NestedField K a annotations_path = NestedField K b annotations_path \<Longrightarrow>
      GetAnnotations K a = GetAnnotations K b"
    and local_finalizers: "NestedField K a finalizers_path = NestedField K b finalizers_path \<Longrightarrow>
      GetFinalizers K a = GetFinalizers K b"
    and local_owners: "NestedField K a owners_path = NestedField K b owners_path \<Longrightarrow>
      GetOwnerReferences K a = GetOwnerReferences K b"
    and controller_of: "GetControllerOf K a =
      find (\<lambda>r. orController r = Some True) (GetOwnerReferences K a)"
    and get_set_annotations: "meta_ok a \<Longrightarrow> GetAnnotations K (SetAnnotations K a m) = Some m"
    and get_set_labels: "meta_ok a \<Longrightarrow> GetLabels K (SetLabels K a m) = Some m"
    and get_set_finalizers: "meta_ok a \<Longrightarrow> GetFinalizers K (SetFinalizers K a fs) = fs"
    and get_set_owners: "meta_ok a \<Longrightarrow> GetOwnerReferences K (SetOwnerReferences K a rs) = rs"
    and frame_annotations: "diverge annotations_path q \<Longrightarrow>
      NestedField K (SetAnnotations K a m) q = NestedField K a q"
    and frame_labels: "diverge labels_path q \<Longrightarrow>
      NestedField K (SetLabels K a m) q = NestedField K a q"
    and frame_finalizers: "diverge finalizers_path q \<Longrightarrow>
      NestedField K (SetFinalizers K a fs) q = NestedField K a q"
    and frame_owners: "diverge owners_path q \<Longrightarrow>
      NestedField K (SetOwnerReferences K a rs) q = NestedField K a q"
    and get_set_resourceVersion: "meta_ok a \<Longrightarrow>
      GetResourceVersion K (SetResourceVersion K a rv) = rv"
    and frame_resourceVersion: "diverge [''metadata'', ''resourceVersion''] q \<Longrightarrow>
      NestedField K (SetResourceVersion K a rv) q = NestedField K a q"
    and meta_ok_setters: "meta_ok a \<Longrightarrow> meta_ok (SetAnnotations K a m)"
      "meta_ok a \<Longrightarrow> meta_ok (SetLabels K a m)" "meta_ok a \<Longrightarrow> meta_ok (SetFinalizers K a fs)"
      "meta_ok a \<Longrightarrow> meta_ok (SetOwnerReferences K a rs)"
      "meta_ok a \<Longrightarrow> meta_ok (SetResourceVersion K a rv)"
    and field_set_same: "SetField K a v p = Inr b \<Longrightarrow> NestedField K b p = Inr (Some v)"
    and field_set_other: "SetField K a v p = Inr b \<Longrightarrow> diverge p q \<Longrightarrow>
      NestedField K b q = NestedField K a q"
    and field_remove_same: "p \<noteq> [] \<Longrightarrow> NestedField K a p = Inr x \<Longrightarrow>
      NestedField K (RemoveField K a p) p = Inr None"
    and field_remove_gone: "p \<noteq> [] \<Longrightarrow> NestedField K (RemoveField K a p) p \<noteq> Inr (Some v)"
    and field_remove_other: "diverge p q \<Longrightarrow>
      NestedField K (RemoveField K a p) q = NestedField K a q"
begin

lemma name_set_annotations [simp]: "GetName K (SetAnnotations K a m) = GetName K a"
  by (rule local_name) (simp add: frame_annotations)

lemma namespace_set_annotations [simp]:
  "GetNamespace K (SetAnnotations K a m) = GetNamespace K a"
  by (rule local_namespace) (simp add: frame_annotations)

lemma uid_set_annotations [simp]: "GetUID K (SetAnnotations K a m) = GetUID K a"
  by (rule local_uid) (simp add: frame_annotations)

lemma deletion_set_annotations [simp]:
  "GetDeletionTimestamp K (SetAnnotations K a m) = GetDeletionTimestamp K a"
  by (rule local_deletion) (simp add: frame_annotations)

lemma owners_set_annotations [simp]:
  "GetOwnerReferences K (SetAnnotations K a m) = GetOwnerReferences K a"
  by (rule local_owners) (simp add: frame_annotations)

lemma finalizers_set_annotations [simp]:
  "GetFinalizers K (SetAnnotations K a m) = GetFinalizers K a"
  by (rule local_finalizers) (simp add: frame_annotations)

lemma uid_set_finalizers [simp]: "GetUID K (SetFinalizers K a fs) = GetUID K a"
  by (rule local_uid) (simp add: frame_finalizers)

lemma name_set_owners [simp]: "GetName K (SetOwnerReferences K a rs) = GetName K a"
  by (rule local_name) (simp add: frame_owners)

lemma annotations_set_owners [simp]:
  "GetAnnotations K (SetOwnerReferences K a rs) = GetAnnotations K a"
  by (rule local_annotations) (simp add: frame_owners)

lemma uid_set_owners [simp]: "GetUID K (SetOwnerReferences K a rs) = GetUID K a"
  by (rule local_uid) (simp add: frame_owners)

lemma meta_ok_cong:
  assumes "map_of a ''metadata'' = map_of b ''metadata''"
  shows "meta_ok a = meta_ok b"
  using assms by (simp add: meta_ok_def)

end

section \<open>Label selectors\<close>

text \<open>
  \<open>metav1.LabelSelector\<close> and the \<open>labels.Selector\<close> made of it, which is what its
  \<open>Matches\<close> and \<open>Empty\<close> compute.
\<close>

record selector =
  selMatches :: "strmap \<Rightarrow> bool"
  selEmpty :: bool

record selector_requirement =
  srKey :: string
  srOperator :: string
  srValues :: "string list"

record label_selector =
  matchLabels :: strmap
  matchExpressions :: "selector_requirement list"

text \<open>The functions of apimachinery on label selectors, and its JSON codec for them.\<close>

record label_lib =
  AddLabelToSelector :: "label_selector \<Rightarrow> string \<Rightarrow> string \<Rightarrow> label_selector"
  LabelSelectorAsSelector :: "label_selector \<Rightarrow> selector res"
  marshalField :: "json \<Rightarrow> string res"
  unmarshalSelector :: "string \<Rightarrow> label_selector \<Rightarrow> label_selector res"

text \<open>
  \<open>GroupVersionKind().String()\<close>: that of an object whose API version does not parse is the
  empty one.
\<close>

definition gvk_String :: "(string \<Rightarrow> (string \<times> string) res) \<Rightarrow> kube \<Rightarrow> obj \<Rightarrow> string" where
  "gvk_String parse K x =
     (case parse (GetAPIVersion K x) of
        Inl err \<Rightarrow> ''/, Kind=''
      | Inr (apiGroup, version) \<Rightarrow> apiGroup @ ''/'' @ version @ '', Kind='' @ GetKind K x)"

section \<open>An implementation over nested maps\<close>

text \<open>
  \<open>NestedFieldNoCopy\<close>: not found when a key is missing, an error when the path runs
  into a value that is no map.
\<close>

fun std_nested :: "json \<Rightarrow> string list \<Rightarrow> json option res" where
  "std_nested v [] = Inr (Some v)"
| "std_nested v (f # fs) =
     (case as_map v of
        (Some m, True) \<Rightarrow>
          (case map_of m f of None \<Rightarrow> Inr None | Some w \<Rightarrow> std_nested w fs)
      | _ \<Rightarrow> Inl (Msg ''accessor error: not a map''))"

fun std_set :: "obj \<Rightarrow> json \<Rightarrow> string \<Rightarrow> string list \<Rightarrow> obj res" where
  "std_set m v f [] = Inr (mput f v m)"
| "std_set m v f (g # gs) =
     (case as_map (case map_of m f of None \<Rightarrow> JObj [] | Some w \<Rightarrow> w) of
        (Some s, True) \<Rightarrow>
          (case std_set s v g gs of Inl e \<Rightarrow> Inl e | Inr s' \<Rightarrow> Inr (mput f (JObj s') m))
      | _ \<Rightarrow> Inl (Msg ''value cannot be set: not a map''))"

fun std_remove :: "obj \<Rightarrow> string \<Rightarrow> string list \<Rightarrow> obj" where
  "std_remove m f [] = mdel f m"
| "std_remove m f (g # gs) =
     (case as_map (index m f) of
        (Some s, True) \<Rightarrow> mput f (JObj (std_remove s g gs)) m
      | _ \<Rightarrow> m)"

definition std_read :: "obj \<Rightarrow> string list \<Rightarrow> json" where
  "std_read m p = (case std_nested (JObj m) p of Inr (Some v) \<Rightarrow> v | _ \<Rightarrow> JNull)"

definition std_write :: "obj \<Rightarrow> json \<Rightarrow> string list \<Rightarrow> obj" where
  "std_write m v p =
     (case p of [] \<Rightarrow> m | f # fs \<Rightarrow> (case std_set m v f fs of Inl _ \<Rightarrow> m | Inr m' \<Rightarrow> m'))"

fun std_string :: "json \<Rightarrow> string" where
  "std_string (JStr s) = s"
| "std_string _ = ''''"

fun std_strings :: "json \<Rightarrow> string list option" where
  "std_strings (JArr xs) =
     (if list_all (\<lambda>x. as_string x \<noteq> None) xs then Some (List.map_filter as_string xs) else None)"
| "std_strings _ = None"

fun std_strmap :: "json \<Rightarrow> strmap option" where
  "std_strmap (JObj m) =
     (if list_all (\<lambda>(k, v). as_string v \<noteq> None) m
      then Some (List.map_filter (\<lambda>(k, v). map_option (Pair k) (as_string v)) m) else None)"
| "std_strmap _ = None"

fun std_bool :: "json \<Rightarrow> bool option" where
  "std_bool (JBool b) = Some b"
| "std_bool _ = None"

definition std_of_owner :: "owner_ref \<Rightarrow> json" where
  "std_of_owner r = JObj ([(''apiVersion'', JStr (orAPIVersion r)), (''kind'', JStr (orKind r)),
      (''name'', JStr (orName r)), (''uid'', JStr (orUID r))]
     @ (case orController r of None \<Rightarrow> [] | Some b \<Rightarrow> [(''controller'', JBool b)])
     @ (case orBlock r of None \<Rightarrow> [] | Some b \<Rightarrow> [(''blockOwnerDeletion'', JBool b)]))"

fun std_to_owner :: "json \<Rightarrow> owner_ref option" where
  "std_to_owner (JObj m) = Some
     \<lparr>orAPIVersion = std_string (index m ''apiVersion''), orKind = std_string (index m ''kind''),
      orName = std_string (index m ''name''), orUID = std_string (index m ''uid''),
      orController = std_bool (index m ''controller''),
      orBlock = std_bool (index m ''blockOwnerDeletion'')\<rparr>"
| "std_to_owner _ = None"

definition std_owners :: "obj \<Rightarrow> owner_ref list" where
  "std_owners m =
     (case std_read m owners_path of JArr xs \<Rightarrow> List.map_filter std_to_owner xs | _ \<Rightarrow> [])"

definition std_kube :: kube where
  "std_kube = \<lparr>
     GetAPIVersion = \<lambda>m. std_string (std_read m [''apiVersion'']),
     GetKind = \<lambda>m. std_string (std_read m [''kind'']),
     GetNamespace = \<lambda>m. std_string (std_read m [''metadata'', ''namespace'']),
     GetName = \<lambda>m. std_string (std_read m [''metadata'', ''name'']),
     GetUID = \<lambda>m. std_string (std_read m [''metadata'', ''uid'']),
     GetResourceVersion = \<lambda>m. std_string (std_read m [''metadata'', ''resourceVersion'']),
     GetGeneration = \<lambda>m. (case std_read m [''metadata'', ''generation''] of JInt i \<Rightarrow> i | _ \<Rightarrow> 0),
     GetDeletionTimestamp =
       \<lambda>m. as_string (std_read m [''metadata'', ''deletionTimestamp'']),
     GetLabels = \<lambda>m. std_strmap (std_read m labels_path),
     GetAnnotations = \<lambda>m. std_strmap (std_read m annotations_path),
     GetFinalizers = \<lambda>m. (case std_strings (std_read m finalizers_path) of None \<Rightarrow> [] | Some ss \<Rightarrow> ss),
     GetOwnerReferences = std_owners,
     GetControllerOf = \<lambda>m. find (\<lambda>r. orController r = Some True) (std_owners m),
     SetLabels = \<lambda>m a. std_write m (JObj (map (\<lambda>(k, s). (k, JStr s)) a)) labels_path,
     SetAnnotations = \<lambda>m a. std_write m (JObj (map (\<lambda>(k, s). (k, JStr s)) a)) annotations_path,
     SetFinalizers = \<lambda>m fs. std_write m (JArr (map JStr fs)) finalizers_path,
     SetOwnerReferences = \<lambda>m rs. std_write m (JArr (map std_of_owner rs)) owners_path,
     SetResourceVersion = \<lambda>m v. std_write m (JStr v) [''metadata'', ''resourceVersion''],
     NestedField = \<lambda>m p. std_nested (JObj m) p,
     SetField = \<lambda>m v p.
       (case p of [] \<Rightarrow> Inl (Msg ''no fields'') | f # fs \<Rightarrow> std_set m v f fs),
     RemoveField = \<lambda>m p. (case p of [] \<Rightarrow> m | f # fs \<Rightarrow> std_remove m f fs),
     NestedString = \<lambda>m p.
       (case std_nested (JObj m) p of Inl e \<Rightarrow> Inl e | Inr None \<Rightarrow> Inr None
        | Inr (Some (JStr s)) \<Rightarrow> Inr (Some s)
        | Inr (Some _) \<Rightarrow> Inl (Msg ''accessor error: not a string'')),
     NestedStringSlice = \<lambda>m p.
       (case std_nested (JObj m) p of Inl e \<Rightarrow> Inl e | Inr None \<Rightarrow> Inr None
        | Inr (Some v) \<Rightarrow>
            (case std_strings v of Some ss \<Rightarrow> Inr (Some ss)
             | None \<Rightarrow> Inl (Msg ''accessor error: not a list of strings''))),
     NestedStringMap = \<lambda>m p.
       (case std_nested (JObj m) p of Inl e \<Rightarrow> Inl e | Inr None \<Rightarrow> Inr None
        | Inr (Some v) \<Rightarrow>
            (case std_strmap v of Some ss \<Rightarrow> Inr (Some ss)
             | None \<Rightarrow> Inl (Msg ''accessor error: not a map of strings''))),
     GroupVersionString = \<lambda>g v. if g = '''' then v else g @ ''/'' @ v,
     Marshal = \<lambda>m. Inr (fmt_v (JObj m)),
     Unmarshal = \<lambda>s. Inl (Msg ''not decoded'')\<rparr>"

text \<open>The promises hold of the implementation.\<close>

lemma std_set_Cons:
  "std_set m v f (g # gs) = Inr m' \<longleftrightarrow>
   (\<exists>s s'. (case map_of m f of None \<Rightarrow> JObj [] | Some w \<Rightarrow> w) = JObj s \<and>
      std_set s v g gs = Inr s' \<and> m' = mput f (JObj s') m)"
  by (cases "case map_of m f of None \<Rightarrow> JObj [] | Some w \<Rightarrow> w" rule: as_map_cases)
    (auto split: sum.splits)

lemma std_nested_Cons:
  "std_nested (JObj m) (f # fs) =
   (case map_of m f of None \<Rightarrow> Inr None | Some w \<Rightarrow> std_nested w fs)"
  by simp

lemma std_nested_set_same:
  "std_set m v f fs = Inr m' \<Longrightarrow> std_nested (JObj m') (f # fs) = Inr (Some v)"
proof (induction fs arbitrary: m f m')
  case (Cons g gs)
  then show ?case by (auto simp: std_set_Cons simp del: std_set.simps)
qed auto

lemma std_nested_set_other:
  "std_set m v f fs = Inr m' \<Longrightarrow> diverge (f # fs) q \<Longrightarrow>
   std_nested (JObj m') q = std_nested (JObj m) q"
proof (induction fs arbitrary: m f m' q)
  case Nil
  then show ?case by (cases q) auto
next
  case (Cons g gs)
  then obtain b q' where q: "q = b # q'" by (cases q) auto
  from Cons.prems(1) obtain s s' where
    s: "(case map_of m f of None \<Rightarrow> JObj [] | Some w \<Rightarrow> w) = JObj s" and
    s': "std_set s v g gs = Inr s'" and m': "m' = mput f (JObj s') m"
    by (auto simp: std_set_Cons simp del: std_set.simps)
  show ?case
  proof (cases "b = f")
    case True
    with Cons.prems q have d: "diverge (g # gs) q'" by simp
    then obtain c q'' where q': "q' = c # q''" by (cases q') auto
    from Cons.IH [OF s' d] have "std_nested (JObj s') q' = std_nested (JObj s) q'" .
    with s q q' True m' show ?thesis by (auto split: option.splits)
  qed (simp add: q m')
qed

lemma std_nested_remove_same:
  "std_nested (JObj m) (f # fs) = Inr x \<Longrightarrow>
   std_nested (JObj (std_remove m f fs)) (f # fs) = Inr None"
  by (induction m f fs rule: std_remove.induct)
    (auto simp: index_def split: prod.splits option.splits bool.splits)

lemma std_nested_remove_gone:
  "std_nested (JObj (std_remove m f fs)) (f # fs) \<noteq> Inr (Some v)"
proof (induction m f fs rule: std_remove.induct)
  case (2 m f g gs)
  show ?case
  proof (cases "index m f" rule: as_map_cases)
    case (map s)
    with 2 show ?thesis by simp
  next
    case other
    then show ?thesis by (auto simp: index_def split: option.splits)
  qed
qed simp

lemma std_nested_remove_other:
  "diverge (f # fs) q \<Longrightarrow> std_nested (JObj (std_remove m f fs)) q = std_nested (JObj m) q"
proof (induction m f fs arbitrary: q rule: std_remove.induct)
  case (1 m f)
  then show ?case by (cases q) auto
next
  case (2 m f g gs)
  then obtain b q' where q: "q = b # q'" by (cases q) auto
  show ?case
  proof (cases "index m f" rule: as_map_cases)
    case (map s)
    then have "map_of m f = Some (JObj s)" by (auto simp: index_def split: option.splits)
    with 2 map q show ?thesis by (cases "b = f") auto
  qed simp
qed

lemma std_set_meta:
  "meta_ok m \<Longrightarrow> \<exists>m'. std_set m v ''metadata'' [f] = Inr m'"
  by (cases "case map_of m ''metadata'' of None \<Rightarrow> JObj [] | Some w \<Rightarrow> w" rule: as_map_cases)
    (auto simp: meta_ok_def std_set_Cons simp del: std_set.simps(2) split: option.splits)

lemma std_read_write:
  assumes "meta_ok m"
  shows "std_read (std_write m v [''metadata'', f]) [''metadata'', f] = v"
proof -
  from assms obtain m' where m': "std_set m v ''metadata'' [f] = Inr m'"
    using std_set_meta by blast
  from std_nested_set_same [OF this] m' show ?thesis
    by (simp add: std_read_def std_write_def del: std_set.simps std_nested.simps)
qed

lemma std_write_frame:
  "diverge p q \<Longrightarrow> std_nested (JObj (std_write m v p)) q = std_nested (JObj m) q"
  by (cases p) (auto simp: std_write_def std_nested_set_other
      simp del: std_set.simps split: sum.splits)

lemma std_strmap_JStr: "std_strmap (JObj (map (\<lambda>(k, s). (k, JStr s)) a)) = Some a"
  using map_filter_string_map [of a] by (auto simp: list_all_iff)

lemma std_strings_JStr: "std_strings (JArr (map JStr fs)) = Some fs"
  by (simp add: map_filter_strings list_all_iff)

lemma std_owner_roundtrip: "std_to_owner (std_of_owner r) = Some r"
  by (cases "orController r"; cases "orBlock r")
    (auto simp: std_of_owner_def index_def)

lemma std_owners_roundtrip: "List.map_filter std_to_owner (map std_of_owner rs) = rs"
  by (induction rs) (auto simp: map_filter_simps std_owner_roundtrip)

lemma std_read_local:
  "std_nested (JObj a) p = std_nested (JObj b) p \<Longrightarrow> std_read a p = std_read b p"
  by (simp add: std_read_def)

lemma std_owners_local:
  "std_nested (JObj a) owners_path = std_nested (JObj b) owners_path \<Longrightarrow> std_owners a = std_owners b"
  unfolding std_owners_def using std_read_local by metis

lemma std_owners_write:
  "meta_ok m \<Longrightarrow> std_owners (std_write m (JArr (map std_of_owner rs)) owners_path) = rs"
  by (simp add: std_owners_def std_read_write std_owners_roundtrip)

lemma std_write_meta_ok: "meta_ok m \<Longrightarrow> meta_ok (std_write m v [''metadata'', f])"
  using std_set_meta [of m v f]
  by (auto simp: std_write_def meta_ok_def std_set_Cons simp del: std_set.simps(2)
      split: sum.splits option.splits)

lemmas std_field_facts = std_nested_set_same std_nested_set_other std_nested_remove_same
  std_nested_remove_gone
  std_nested_remove_other std_write_frame std_read_write std_strmap_JStr std_strings_JStr
  std_owners_write std_write_meta_ok

text \<open>The fields of \<open>std_kube\<close>, for evaluation.\<close>

lemma std_kube_sel:
  "GetAPIVersion std_kube m = std_string (std_read m [''apiVersion''])"
  "GetKind std_kube m = std_string (std_read m [''kind''])"
  "GetNamespace std_kube m = std_string (std_read m [''metadata'', ''namespace''])"
  "GetName std_kube m = std_string (std_read m [''metadata'', ''name''])"
  "GetUID std_kube m = std_string (std_read m [''metadata'', ''uid''])"
  "GetResourceVersion std_kube m = std_string (std_read m [''metadata'', ''resourceVersion''])"
  "GetDeletionTimestamp std_kube m = as_string (std_read m [''metadata'', ''deletionTimestamp''])"
  "GetLabels std_kube m = std_strmap (std_read m labels_path)"
  "GetAnnotations std_kube m = std_strmap (std_read m annotations_path)"
  "GetFinalizers std_kube m =
     (case std_strings (std_read m finalizers_path) of None \<Rightarrow> [] | Some ss \<Rightarrow> ss)"
  "GetOwnerReferences std_kube m = std_owners m"
  "GetControllerOf std_kube m = find (\<lambda>r. orController r = Some True) (std_owners m)"
  "SetLabels std_kube m a = std_write m (JObj (map (\<lambda>(k, s). (k, JStr s)) a)) labels_path"
  "SetAnnotations std_kube m a = std_write m (JObj (map (\<lambda>(k, s). (k, JStr s)) a)) annotations_path"
  "SetFinalizers std_kube m fs = std_write m (JArr (map JStr fs)) finalizers_path"
  "SetOwnerReferences std_kube m rs = std_write m (JArr (map std_of_owner rs)) owners_path"
  "SetResourceVersion std_kube m rv = std_write m (JStr rv) [''metadata'', ''resourceVersion'']"
  "NestedField std_kube m p = std_nested (JObj m) p"
  "SetField std_kube m v (f # fs) = std_set m v f fs"
  "RemoveField std_kube m (f # fs) = std_remove m f fs"
  by (simp_all add: std_kube_def)

interpretation std: kube_lib std_kube
  by unfold_locales
    (auto simp: std_kube_def std_field_facts
       simp del: std_set.simps std_nested.simps std_remove.simps std_strings.simps std_strmap.simps
       dest: std_read_local std_owners_local split: list.splits)

end
