(* ===== verification/ThreeWayMerge.thy ===== *)
theory ThreeWayMerge
  imports KubeLib
begin

text \<open>
  \<open>dynamic/apply/apply.go\<close>: the last-applied annotation and the three-way merge of
  observed, last applied and desired state, with the guessing of list-map keys.
\<close>

section \<open>The last applied state, kept in an annotation\<close>

definition lastAppliedAnnotation :: string where
  "lastAppliedAnnotation = ''metac.openebs.io/last-applied-configuration''"

definition SetLastAppliedByAnnKey :: "kube \<Rightarrow> obj \<Rightarrow> obj \<Rightarrow> string \<Rightarrow> obj res" where
  "SetLastAppliedByAnnKey K obj lastApplied annKey =
     (if length lastApplied = 0 then Inr obj
      else case Marshal K lastApplied of
        Inl e \<Rightarrow> Inl (Wrap (''Failed to marshal last applied state against annotation '' @ annKey) e)
      | Inr lastAppliedJSON \<Rightarrow>
          let ann = (case GetAnnotations K obj of None \<Rightarrow> [] | Some a \<Rightarrow> a)
          in Inr (SetAnnotations K obj (mput annKey lastAppliedJSON ann)))"

definition SetLastApplied :: "kube \<Rightarrow> obj \<Rightarrow> obj \<Rightarrow> obj res" where
  "SetLastApplied K obj lastApplied = SetLastAppliedByAnnKey K obj lastApplied lastAppliedAnnotation"

definition SanitizeLastAppliedByAnnKey :: "kube \<Rightarrow> obj \<Rightarrow> string \<Rightarrow> obj" where
  "SanitizeLastAppliedByAnnKey K lastState annKey =
     (if length lastState = 0 then lastState
      else RemoveField K lastState [''metadata'', ''annotations'', annKey])"

text \<open>A missing or empty annotation gives a nil map, \<open>None\<close>.\<close>

definition GetLastAppliedByAnnKey :: "kube \<Rightarrow> obj \<Rightarrow> string \<Rightarrow> obj option res" where
  "GetLastAppliedByAnnKey K obj annKey =
     (let lastAppliedJSON =
        (case map_of (mrange (GetAnnotations K obj)) annKey of None \<Rightarrow> '''' | Some s \<Rightarrow> s)
      in if lastAppliedJSON = '''' then Inr None
         else case Unmarshal K lastAppliedJSON of
           Inl e \<Rightarrow> Inl (Wrap (''Failed to unmarshal last applied config against annotation '' @ annKey) e)
         | Inr lastApplied \<Rightarrow> Inr (Some lastApplied))"

definition GetLastApplied :: "kube \<Rightarrow> obj \<Rightarrow> obj option res" where
  "GetLastApplied K obj = GetLastAppliedByAnnKey K obj lastAppliedAnnotation"

section \<open>List maps\<close>

fun stringMergeKey :: "json \<Rightarrow> string" where
  "stringMergeKey (JStr tval) = tval"
| "stringMergeKey val = fmt_v val"

definition knownMergeKeys :: "string list" where
  "knownMergeKeys = [''containerPort'', ''port'', ''name'', ''uid'', ''ip'']"

text \<open>
  The loops of \<open>detectListMapKey\<close>. The set of common keys is nil until the first item;
  \<open>None\<close> as a result is the early return of the empty string.
\<close>

fun scan_items :: "string list option \<Rightarrow> json list \<Rightarrow> string list option option" where
  "scan_items commonKeys [] = Some commonKeys"
| "scan_items commonKeys (item # items) =
     (case as_map item of
        (Some itemMap, True) \<Rightarrow>
          (case commonKeys of
             None \<Rightarrow> scan_items (Some (mkeys itemMap)) items
           | Some keys \<Rightarrow> scan_items (Some (filter (\<lambda>key. map_of itemMap key \<noteq> None) keys)) items)
      | _ \<Rightarrow> None)"

fun scan_lists :: "string list option \<Rightarrow> json list option list \<Rightarrow> string list option option" where
  "scan_lists commonKeys [] = Some commonKeys"
| "scan_lists commonKeys (l # rest) =
     (case scan_items commonKeys (elems l) of
        None \<Rightarrow> None
      | Some commonKeys' \<Rightarrow> scan_lists commonKeys' rest)"

definition detectListMapKey :: "json list option list \<Rightarrow> string" where
  "detectListMapKey args =
     (case scan_lists None args of
        None \<Rightarrow> ''''
      | Some commonKeys \<Rightarrow>
          (case find (\<lambda>key. key \<in> set (case commonKeys of None \<Rightarrow> [] | Some ks \<Rightarrow> ks)) knownMergeKeys of
             None \<Rightarrow> ''''
           | Some key \<Rightarrow> key))"

text \<open>A failed type assertion \<open>item.(map[string]interface{})\<close> panics.\<close>

definition item_key :: "string \<Rightarrow> json \<Rightarrow> string res" where
  "item_key mergeKey item =
     (case as_map item of
        (Some itemMap, True) \<Rightarrow> Inr (stringMergeKey (index itemMap mergeKey))
      | _ \<Rightarrow> Inl (Panic ''interface conversion''))"

fun make_map_loop :: "string \<Rightarrow> json list \<Rightarrow> obj \<Rightarrow> obj res" where
  "make_map_loop mergeKey [] res = Inr res"
| "make_map_loop mergeKey (item # items) res =
     (case item_key mergeKey item of
        Inl e \<Rightarrow> Inl e
      | Inr k \<Rightarrow> make_map_loop mergeKey items (mput k item res))"

definition makeMapFromList :: "string \<Rightarrow> json list \<Rightarrow> obj res" where
  "makeMapFromList mergeKey list = make_map_loop mergeKey list []"

text \<open>The two loops that turn the merged map back into a list.\<close>

fun take_observed ::
  "string \<Rightarrow> obj \<Rightarrow> json list \<Rightarrow> json list \<Rightarrow> string list \<Rightarrow> (json list \<times> string list) res" where
  "take_observed mergeKey destMap [] out added = Inr (out, added)"
| "take_observed mergeKey destMap (item # items) out added =
     (case item_key mergeKey item of
        Inl e \<Rightarrow> Inl e
      | Inr valueAsKey \<Rightarrow>
          (case map_of destMap valueAsKey of
             Some mergedItem \<Rightarrow>
               take_observed mergeKey destMap items (out @ [mergedItem]) (valueAsKey # added)
           | None \<Rightarrow> take_observed mergeKey destMap items out added))"

fun take_desired ::
  "string \<Rightarrow> obj \<Rightarrow> json list \<Rightarrow> json list \<Rightarrow> string list \<Rightarrow> json list res" where
  "take_desired mergeKey destMap [] out added = Inr out"
| "take_desired mergeKey destMap (item # items) out added =
     (case item_key mergeKey item of
        Inl e \<Rightarrow> Inl e
      | Inr valueAsKey \<Rightarrow>
          if valueAsKey \<notin> set added
          then take_desired mergeKey destMap items (out @ [index destMap valueAsKey]) (valueAsKey # added)
          else take_desired mergeKey destMap items out added)"

section \<open>The merge\<close>

definition osize :: "obj \<Rightarrow> nat" where
  "osize m = sum_list (map (jsize \<circ> snd) m)"

lemma osize_simps [simp]: "osize [] = 0" "osize ((k, v) # m) = jsize v + osize m"
  by (simp_all add: osize_def)

lemma jsize_JObj: "jsize (JObj m) = Suc (osize m)"
  by (induction m) (auto simp: osize_def)

lemma osize_mput: "osize (mput k v m) \<le> osize m + jsize v"
  by (induction m) auto

lemma make_map_loop_size:
  "make_map_loop mk xs res = Inr m \<Longrightarrow> osize m \<le> osize res + sum_list (map jsize xs)"
proof (induction mk xs res rule: make_map_loop.induct)
  case (2 mk item items res)
  then obtain k where "item_key mk item = Inr k"
      and "osize m \<le> osize (mput k item res) + sum_list (map jsize items)"
    by (auto split: sum.splits)
  then show ?case using osize_mput [of k item res] by simp
qed simp

lemma makeMapFromList_size:
  "makeMapFromList mk xs = Inr m \<Longrightarrow> osize m \<le> sum_list (map jsize xs)"
  using make_map_loop_size [of mk xs "[]" m] by (simp add: makeMapFromList_def)

lemma as_map_size: "as_map v = (m, ok) \<Longrightarrow> osize (mrange m) < jsize v"
  by (cases v) (auto simp: jsize_JObj simp del: jsize.simps(2))

lemma as_slice_size: "as_slice v = (xs, ok) \<Longrightarrow> sum_list (map jsize (elems xs)) < jsize v"
  by (cases v) auto

text \<open>
  \<open>merge\<close> returns the new value of the destination; the maps it mutates in place are
  threaded through. \<open>merge_fields\<close> is the second loop of \<open>mergeMap\<close>, over the entries of
  the desired map. The guards \<open>!ok && lastAppliedVal != nil\<close> are kept as they are written.
\<close>

definition remove_undesired :: "obj \<Rightarrow> obj option \<Rightarrow> obj option \<Rightarrow> obj" where
  "remove_undesired observedAsDest lastApplied desired =
     fold (\<lambda>key dest. if map_of (mrange desired) key = None then mdel key dest else dest)
       (mkeys (mrange lastApplied)) observedAsDest"

function merge :: "string \<Rightarrow> json \<Rightarrow> json \<Rightarrow> json \<Rightarrow> json res"
  and mergeMap :: "string \<Rightarrow> obj \<Rightarrow> obj option \<Rightarrow> obj option \<Rightarrow> obj res"
  and merge_fields :: "string \<Rightarrow> obj \<Rightarrow> obj option \<Rightarrow> obj \<Rightarrow> obj res"
  and mergeArray ::
    "string \<Rightarrow> json list option \<Rightarrow> json list option \<Rightarrow> json list option \<Rightarrow> json res"
  and mergeListMap ::
    "string \<Rightarrow> string \<Rightarrow> json list option \<Rightarrow> json list option \<Rightarrow> json list option \<Rightarrow> json res"
where
  "merge fieldPath observedAsDest lastApplied desired =
     (case as_map observedAsDest of
        (Some observedDestVal, True) \<Rightarrow>
          (case as_map lastApplied of (lastAppliedVal, ok) \<Rightarrow>
           if \<not> ok \<and> lastAppliedVal \<noteq> None
           then Inl (Msg (fieldPath @ '': Expecting last applied as map[string]interface{}''))
           else case as_map desired of (desiredVal, ok') \<Rightarrow>
           if \<not> ok' \<and> desiredVal \<noteq> None
           then Inl (Msg (fieldPath @ '': Expecting desired as map[string]interface{}''))
           else case mergeMap fieldPath observedDestVal lastAppliedVal desiredVal of
             Inl e \<Rightarrow> Inl e
           | Inr m \<Rightarrow> Inr (JObj m))
      | _ \<Rightarrow>
          (case as_slice observedAsDest of
             (observedDestVal, True) \<Rightarrow>
               (case as_slice lastApplied of (lastAppliedVal, ok) \<Rightarrow>
                if \<not> ok \<and> lastAppliedVal \<noteq> None
                then Inl (Msg (fieldPath @ '': Expecting last applied as []interface{}''))
                else case as_slice desired of (desiredVal, ok') \<Rightarrow>
                if \<not> ok' \<and> desiredVal \<noteq> None
                then Inl (Msg (fieldPath @ '': Expecting desired as []interface{}''))
                else mergeArray fieldPath observedDestVal lastAppliedVal desiredVal)
           | _ \<Rightarrow> Inr desired))"
| "mergeMap fieldPath observedAsDest lastApplied desired =
     merge_fields fieldPath (remove_undesired observedAsDest lastApplied desired) lastApplied
       (mrange desired)"
| "merge_fields fieldPath dest lastApplied [] = Inr dest"
| "merge_fields fieldPath dest lastApplied ((key, desiredVal) # entries) =
     (case merge (fieldPath @ ''['' @ key @ '']'') (index dest key)
             (index (mrange lastApplied) key) desiredVal of
        Inl e \<Rightarrow> Inl e
      | Inr v \<Rightarrow> merge_fields fieldPath (mput key v dest) lastApplied entries)"
| "mergeArray fieldPath observedAsDest lastApplied desired =
     (let mergeKey = detectListMapKey [observedAsDest, lastApplied, desired] in
      if mergeKey \<noteq> '''' then mergeListMap fieldPath mergeKey observedAsDest lastApplied desired
      else Inr (of_slice desired))"
| "mergeListMap fieldPath mergeKey observedAsDest lastApplied desired =
     (case makeMapFromList mergeKey (elems observedAsDest) of Inl e \<Rightarrow> Inl e
      | Inr observedDestMap \<Rightarrow>
     (case makeMapFromList mergeKey (elems lastApplied) of Inl e \<Rightarrow> Inl e
      | Inr lastAppliedMap \<Rightarrow>
     (case makeMapFromList mergeKey (elems desired) of Inl e \<Rightarrow> Inl e
      | Inr desiredMap \<Rightarrow>
     (case mergeMap fieldPath observedDestMap (Some lastAppliedMap) (Some desiredMap) of
        Inl e \<Rightarrow> Inl e
      | Inr destMap \<Rightarrow>
     (case take_observed mergeKey destMap (elems observedAsDest) [] [] of Inl e \<Rightarrow> Inl e
      | Inr (out, added) \<Rightarrow>
     (case take_desired mergeKey destMap (elems desired) out added of Inl e \<Rightarrow> Inl e
      | Inr out' \<Rightarrow> Inr (JArr out')))))))"
  by pat_completeness auto
termination
  by (relation "measures [
      \<lambda>x. case x of Inl (Inl (_, _, _, d)) \<Rightarrow> jsize d
        | Inl (Inr (_, _, _, d)) \<Rightarrow> osize (mrange d)
        | Inr (Inl (_, _, _, d)) \<Rightarrow> osize d
        | Inr (Inr (Inl (_, _, _, d))) \<Rightarrow> sum_list (map jsize (elems d))
        | Inr (Inr (Inr (_, _, _, _, d))) \<Rightarrow> sum_list (map jsize (elems d)),
      \<lambda>x. case x of Inl (Inl _) \<Rightarrow> 0 | Inl (Inr _) \<Rightarrow> 2 | Inr (Inl _) \<Rightarrow> 1
        | Inr (Inr (Inl _)) \<Rightarrow> 4 | Inr (Inr (Inr _)) \<Rightarrow> 3]")
    (auto dest: as_map_size [OF sym] as_slice_size [OF sym] makeMapFromList_size simp: le_less)

declare merge.simps [simp del] mergeArray.simps [simp del] mergeListMap.simps [simp del]

lemma as_map_ok: "as_map v = (m, ok) \<Longrightarrow> ok = (m \<noteq> None)"
  by (cases v) auto

lemma as_slice_ok: "as_slice v = (m, ok) \<Longrightarrow> \<not> ok \<longrightarrow> m = None"
  by (cases v) auto

lemma as_map_True: "as_map v = (m, True) \<Longrightarrow> \<exists>n. m = Some n \<and> v = JObj n"
  by (cases v) auto

lemma guard_never [simp]:
  "\<not> snd (as_map v) \<longrightarrow> fst (as_map v) = None" "\<not> snd (as_slice v) \<longrightarrow> fst (as_slice v) = None"
  by (cases v; simp)+

text \<open>The three kinds of destination: a map, a slice, or a scalar or nil.\<close>

lemma json_kinds:
  obtains (map) m where "v = JObj m"
  | (slice) xs where "as_map v = (None, False)" "as_slice v = (xs, True)"
  | (scalar) "as_map v = (None, False)" "as_slice v = (None, False)"
  by (cases v) auto

lemma merge_map:
  "merge fp (JObj o') l d = map_sum id JObj (mergeMap fp o' (fst (as_map l)) (fst (as_map d)))"
  by (cases "as_map l"; cases "as_map d")
    (auto simp: merge.simps simp del: mergeMap.simps dest: as_map_ok split: sum.splits)

lemma merge_slice:
  assumes "as_map v = (None, False)" and "as_slice v = (xs, True)"
  shows "merge fp v l d = mergeArray fp xs (fst (as_slice l)) (fst (as_slice d))"
  using assms by (cases "as_slice l"; cases "as_slice d")
    (auto simp: merge.simps dest: as_slice_ok)

lemma merge_scalar:
  assumes "as_map v = (None, False)" and "as_slice v = (None, False)"
  shows "merge fp v l d = Inr d"
  using assms by (simp add: merge.simps)

lemma map_sum_Inr: "map_sum id f x = Inr r \<longleftrightarrow> (\<exists>m. x = Inr m \<and> r = f m)"
  by (cases x) auto

text \<open>The induction rule of the merge, by the kind of the destination.\<close>

lemma merge_rule:
  assumes map: "\<And>fp o' l d. P2 fp o' (fst (as_map l)) (fst (as_map d)) \<Longrightarrow> P1 fp (JObj o') l d"
    and slice: "\<And>fp v xs l d. as_map v = (None, False) \<Longrightarrow> as_slice v = (xs, True) \<Longrightarrow>
        P4 fp xs (fst (as_slice l)) (fst (as_slice d)) \<Longrightarrow> P1 fp v l d"
    and scalar: "\<And>fp v l d. as_map v = (None, False) \<Longrightarrow> as_slice v = (None, False) \<Longrightarrow> P1 fp v l d"
    and mergeMap: "\<And>fp o' l d. P3 fp (remove_undesired o' l d) l (mrange d) \<Longrightarrow> P2 fp o' l d"
    and fields_Nil: "\<And>fp dest l. P3 fp dest l []"
    and fields_Cons: "\<And>fp dest l k v es.
        P1 (fp @ ''['' @ k @ '']'') (index dest k) (index (mrange l) k) v \<Longrightarrow>
        (\<And>b. merge (fp @ ''['' @ k @ '']'') (index dest k) (index (mrange l) k) v = Inr b \<Longrightarrow>
           P3 fp (mput k b dest) l es) \<Longrightarrow> P3 fp dest l ((k, v) # es)"
    and array: "\<And>fp o' l d. (detectListMapKey [o', l, d] \<noteq> '''' \<Longrightarrow>
        P5 fp (detectListMapKey [o', l, d]) o' l d) \<Longrightarrow> P4 fp o' l d"
    and listMap: "\<And>fp mk o' l d. (\<And>b ba bb. makeMapFromList mk (elems o') = Inr b \<Longrightarrow>
        makeMapFromList mk (elems l) = Inr ba \<Longrightarrow> makeMapFromList mk (elems d) = Inr bb \<Longrightarrow>
        P2 fp b (Some ba) (Some bb)) \<Longrightarrow> P5 fp mk o' l d"
  shows "P1 fp1 o1 l1 d1" "P2 fp2 o2 l2 d2" "P3 fp3 o3 l3 d3" "P4 fp4 o4 l4 d4"
    "P5 fp5 mk5 o5 l5 d5"
proof (induction fp1 o1 l1 d1 and fp2 o2 l2 d2 and fp3 o3 l3 d3 and fp4 o4 l4 d4 and
    fp5 mk5 o5 l5 d5 rule: merge_mergeMap_merge_fields_mergeArray_mergeListMap.induct)
  case (1 fp o1 l d)
  obtain lm okl dm okd where m: "as_map l = (lm, okl)" "as_map d = (dm, okd)"
    by fastforce
  obtain ls okls ds okds where s: "as_slice l = (ls, okls)" "as_slice d = (ds, okds)"
    by fastforce
  show ?case
  proof (cases o1 rule: json_kinds)
    case (map om)
    have "P2 fp om lm dm"
      by (rule "1.IH"(2) [of "Some om" True om lm okl dm okd])
        (use map m guard_never(1) [of l] guard_never(1) [of d] in auto)
    with map m show ?thesis by (simp add: assms(1))
  next
    case (slice xs)
    have "P4 fp xs ls ds"
      by (rule "1.IH"(1) [of None False xs True ls okls ds okds])
        (use slice s guard_never(2) [of l] guard_never(2) [of d] in auto)
    with slice s show ?thesis by (simp add: assms(2))
  qed (simp add: scalar)
qed (use assms in \<open>simp_all add: Let_def\<close>)

section \<open>The merge always returns\<close>

abbreviation all_maps :: "json list \<Rightarrow> bool" where
  "all_maps xs \<equiv> \<forall>x \<in> set xs. \<exists>m. x = JObj m"

lemma scan_items_maps: "scan_items ck xs = Some ck' \<Longrightarrow> all_maps xs"
  by (induction ck xs rule: scan_items.induct)
    (auto split: prod.splits option.splits bool.splits dest: as_map_True)

lemma scan_lists_maps: "scan_lists ck ls = Some ck' \<Longrightarrow> l \<in> set ls \<Longrightarrow> all_maps (elems l)"
  by (induction ck ls arbitrary: ck' rule: scan_lists.induct)
    (auto split: option.splits dest: scan_items_maps)

lemma detectListMapKey_maps:
  "detectListMapKey ls \<noteq> '''' \<Longrightarrow> l \<in> set ls \<Longrightarrow> all_maps (elems l)"
  by (auto simp: detectListMapKey_def split: option.splits dest!: scan_lists_maps)

lemma item_key_map [simp]: "item_key mk (JObj m) = Inr (stringMergeKey (index m mk))"
  by (simp add: item_key_def)

lemma make_map_loop_total: "all_maps xs \<Longrightarrow> \<exists>m. make_map_loop mk xs res = Inr m"
  by (induction xs arbitrary: res) auto

lemma take_observed_total: "all_maps xs \<Longrightarrow> \<exists>r. take_observed mk dm xs out added = Inr r"
  by (induction xs arbitrary: out added) (auto split: option.splits)

lemma take_desired_total: "all_maps xs \<Longrightarrow> \<exists>r. take_desired mk dm xs out added = Inr r"
  by (induction xs arbitrary: out added) auto

lemma merge_total_all:
  "\<exists>r. merge fp1 o1 l1 d1 = Inr r"
  "\<exists>r. mergeMap fp2 o2 l2 d2 = Inr r"
  "\<exists>r. merge_fields fp3 o3 l3 d3 = Inr r"
  "\<exists>r. mergeArray fp4 o4 l4 d4 = Inr r"
  "all_maps (elems o5) \<Longrightarrow> all_maps (elems l5) \<Longrightarrow> all_maps (elems d5) \<Longrightarrow>
   \<exists>r. mergeListMap fp5 mk o5 l5 d5 = Inr r"
proof (induction fp1 o1 l1 d1 and fp2 o2 l2 d2 and fp3 o3 l3 d3 and fp4 o4 l4 d4 and
    fp5 mk o5 l5 d5 rule: merge_rule)
  case (1 fp o' l d)
  then show ?case by (auto simp: merge_map)
next
  case (2 fp v xs l d)
  then show ?case by (simp add: merge_slice)
next
  case (3 fp v l d)
  then show ?case by (simp add: merge_scalar)
next
  case (6 fp dest l k v es)
  then show ?case by (auto split: sum.splits)
next
  case (7 fp o1 l d)
  show ?case
  proof (cases "detectListMapKey [o1, l, d] = ''''")
    case False
    have "all_maps (elems o1)" "all_maps (elems l)" "all_maps (elems d)"
      using detectListMapKey_maps [OF False, of o1] detectListMapKey_maps [OF False, of l]
        detectListMapKey_maps [OF False, of d] by simp_all
    with 7 False show ?thesis by (simp add: mergeArray.simps Let_def)
  qed (simp add: mergeArray.simps Let_def)
next
  case (8 fp mk o1 l d)
  obtain om lm dm where maps: "makeMapFromList mk (elems o1) = Inr om"
    "makeMapFromList mk (elems l) = Inr lm" "makeMapFromList mk (elems d) = Inr dm"
    using 8 make_map_loop_total unfolding makeMapFromList_def by metis
  from 8 maps obtain dest where dest: "mergeMap fp om (Some lm) (Some dm) = Inr dest" by blast
  obtain out added where t: "take_observed mk dest (elems o1) [] [] = Inr (out, added)"
    using take_observed_total [OF "8.prems"(1)] by fastforce
  obtain out' where "take_desired mk dest (elems d) out added = Inr out'"
    using take_desired_total [OF "8.prems"(3)] by blast
  with maps dest t show ?case by (simp add: mergeListMap.simps)
qed auto

text \<open>The merge keeps values well formed: no map of the result has a key twice.\<close>

lemma remove_undesired_wf: "wf_json (JObj m) \<Longrightarrow> wf_json (JObj (remove_undesired m l d))"
proof -
  have "wf_json (JObj m) \<Longrightarrow>
      wf_json (JObj (fold (\<lambda>key dest. if map_of (mrange d) key = None then mdel key dest else dest) ks m))" for ks
  proof (induction ks arbitrary: m)
    case (Cons k ks)
    from Cons.IH [of "if map_of (mrange d) k = None then mdel k m else m"] Cons.prems wf_json_mdel [of m k]
    show ?case by (auto simp del: wf_json.simps)
  qed simp
  then show "wf_json (JObj m) \<Longrightarrow> wf_json (JObj (remove_undesired m l d))" by (simp only: remove_undesired_def)
qed

lemma makeMapFromList_wf: "makeMapFromList mk xs = Inr m \<Longrightarrow> list_all wf_json xs \<Longrightarrow> wf_json (JObj m)"
proof -
  have "make_map_loop mk xs m0 = Inr m \<Longrightarrow> list_all wf_json xs \<Longrightarrow> wf_json (JObj m0) \<Longrightarrow> wf_json (JObj m)" for m0
  proof (induction mk xs m0 rule: make_map_loop.induct)
    case (2 mk item items res)
    then obtain k where k: "item_key mk item = Inr k" "make_map_loop mk items (mput k item res) = Inr m"
      by (auto split: sum.splits)
    with 2 wf_json_mput [of res item k] show ?case by simp
  qed simp
  then show "makeMapFromList mk xs = Inr m \<Longrightarrow> list_all wf_json xs \<Longrightarrow> wf_json (JObj m)"
    unfolding makeMapFromList_def by (auto simp del: wf_json.simps simp: wf_json.simps(2) [of "[]"])
qed

lemma take_observed_wf:
  "take_observed mk dest xs out added = Inr (out', added') \<Longrightarrow> wf_json (JObj dest) \<Longrightarrow> list_all wf_json out \<Longrightarrow>
   list_all wf_json out'"
proof (induction mk dest xs out added rule: take_observed.induct)
  case (2 mk dest item items out added)
  have wf: "wf_json v" if "map_of dest k = Some v" for k v
    using wf_json_index [OF "2.prems"(2), of k] that by (simp add: index_def)
  from "2.prems"(1) obtain k where "item_key mk item = Inr k" by (auto split: sum.splits)
  with 2 wf show ?case by (cases "map_of dest k") (simp_all del: wf_json.simps)
qed simp

lemma take_desired_wf:
  "take_desired mk dest xs out added = Inr out' \<Longrightarrow> wf_json (JObj dest) \<Longrightarrow> list_all wf_json out \<Longrightarrow>
   list_all wf_json out'"
proof (induction mk dest xs out added rule: take_desired.induct)
  case (2 mk dest item items out added)
  then show ?case using wf_json_index [of dest] by (auto split: sum.splits if_splits simp del: wf_json.simps)
qed simp

lemma merge_wf_all:
  "merge fp1 o1 l1 d1 = Inr r1 \<Longrightarrow> wf_json o1 \<Longrightarrow> wf_json d1 \<Longrightarrow> wf_json r1"
  "mergeMap fp2 o2 l2 d2 = Inr r2 \<Longrightarrow> wf_json (JObj o2) \<Longrightarrow> wf_json (JObj (mrange d2)) \<Longrightarrow> wf_json (JObj r2)"
  "merge_fields fp3 o3 l3 d3 = Inr r3 \<Longrightarrow> wf_json (JObj o3) \<Longrightarrow> list_all (\<lambda>e. wf_json (snd e)) d3 \<Longrightarrow> wf_json (JObj r3)"
  "mergeArray fp4 o4 l4 d4 = Inr r4 \<Longrightarrow> list_all wf_json (elems o4) \<Longrightarrow> list_all wf_json (elems d4) \<Longrightarrow> wf_json r4"
  "mergeListMap fp5 mk o5 l5 d5 = Inr r5 \<Longrightarrow> list_all wf_json (elems o5) \<Longrightarrow> list_all wf_json (elems d5) \<Longrightarrow> wf_json r5"
proof (induction fp1 o1 l1 d1 and fp2 o2 l2 d2 and fp3 o3 l3 d3 and fp4 o4 l4 d4 and
    fp5 mk o5 l5 d5 arbitrary: r1 and r2 and r3 and r4 and r5 rule: merge_rule)
  case (1 fp m l d)
  from "1.prems"(3) have "wf_json (JObj (mrange (fst (as_map d))))" by (cases d) auto
  with 1 show ?case
    by (cases "mergeMap fp m (fst (as_map l)) (fst (as_map d))") (auto simp: merge_map simp del: wf_json.simps mergeMap.simps)
next
  case (2 fp v xs l d)
  from "2.prems"(2,3) have "list_all wf_json (elems xs)" "list_all wf_json (elems (fst (as_slice d)))"
    using "2.hyps" by (cases v; cases d; auto)+
  with 2 show ?case by (simp add: merge_slice)
next
  case (3 fp v l d)
  then show ?case by (simp add: merge_scalar)
next
  case (4 fp m l d)
  have "list_all (\<lambda>e. wf_json (snd e)) (mrange d)" using "4.prems"(3) by (auto simp: list_all_iff split: prod.splits)
  with 4 remove_undesired_wf show ?case by (simp add: mergeMap.simps del: wf_json.simps)
next
  case (6 fp dest l k v es)
  then obtain r where r: "merge (fp @ ''['' @ k @ '']'') (index dest k) (index (mrange l) k) v = Inr r"
    "merge_fields fp (mput k r dest) l es = Inr r3" by (auto split: sum.splits)
  have "wf_json r" using "6.IH"(1) [OF r(1)] "6.prems"(2,3) wf_json_index [of dest k] by simp
  with 6 r wf_json_mput [of dest r k] show ?case by (simp del: wf_json.simps)
next
  case (7 fp o1 l d)
  show ?case
  proof (cases "detectListMapKey [o1, l, d] = ''''")
    case True
    with "7.prems" have "r4 = of_slice d" by (simp add: mergeArray.simps Let_def)
    with "7.prems"(3) show ?thesis by (cases d) auto
  next
    case False
    with 7 show ?thesis by (simp add: mergeArray.simps Let_def)
  qed
next
  case (8 fp mk o1 l d)
  then obtain om lm dm dest out added out' where maps: "makeMapFromList mk (elems o1) = Inr om"
    "makeMapFromList mk (elems l) = Inr lm" "makeMapFromList mk (elems d) = Inr dm"
    "mergeMap fp om (Some lm) (Some dm) = Inr dest" "take_observed mk dest (elems o1) [] [] = Inr (out, added)"
    "take_desired mk dest (elems d) out added = Inr out'" "r5 = JArr out'"
    by (auto simp: mergeListMap.simps split: sum.splits prod.splits)
  have "wf_json (JObj om)" "wf_json (JObj dm)"
    using makeMapFromList_wf maps(1,3) "8.prems"(2,3) by blast+
  with "8.IH" maps have "wf_json (JObj dest)" by (simp del: wf_json.simps)
  with take_observed_wf [OF maps(5)] take_desired_wf [OF maps(6)] maps(7) show ?case by simp
qed (simp_all del: wf_json.simps)

text \<open>
  The entry point. \<open>merge\<close> is called there with the three maps themselves, so its type
  switch takes the map branch and both assertions succeed.
\<close>

definition Merge :: "obj \<Rightarrow> obj option \<Rightarrow> obj option \<Rightarrow> obj res" where
  "Merge observed lastApplied desired =
     (let observedAsDest = observed in
      case mergeMap '''' observedAsDest lastApplied desired of
        Inl e \<Rightarrow> Inl (Wrap ''Can't merge desired changes'' e)
      | Inr merged \<Rightarrow> Inr merged)"

lemma Merge_eq: "Merge o' l d = Inr m \<longleftrightarrow> mergeMap '''' o' l d = Inr m"
  by (auto simp: Merge_def split: sum.splits)

section \<open>What a merge of maps does, field by field\<close>

lemma remove_undesired_lookup:
  "map_of (remove_undesired o' l d) k =
   (if k \<in> set (mkeys (mrange l)) \<and> map_of (mrange d) k = None then None else map_of o' k)"
proof -
  have "map_of (fold (\<lambda>key dest. if map_of (mrange d) key = None then mdel key dest else dest) ks o') k
      = (if k \<in> set ks \<and> map_of (mrange d) k = None then None else map_of o' k)" for ks
    by (induction ks arbitrary: o') auto
  then show ?thesis by (simp add: remove_undesired_def)
qed

lemma merge_fields_absent:
  "merge_fields fp dest l ds = Inr m \<Longrightarrow> map_of ds k = None \<Longrightarrow> map_of m k = map_of dest k"
proof (induction ds arbitrary: dest)
  case (Cons e es)
  then show ?case by (cases e) (auto split: sum.splits if_splits)
qed simp

lemma merge_fields_present:
  assumes "merge_fields fp dest l ds = Inr m" and "distinct (mkeys ds)" and "map_of ds k = Some dv"
  shows "\<exists>v. merge (fp @ ''['' @ k @ '']'') (index dest k) (index (mrange l) k) dv = Inr v \<and>
    map_of m k = Some v"
  using assms
proof (induction ds arbitrary: dest)
  case (Cons e es)
  obtain k0 v0 where e: "e = (k0, v0)" by fastforce
  with Cons.prems(1) obtain b where
    b: "merge (fp @ ''['' @ k0 @ '']'') (index dest k0) (index (mrange l) k0) v0 = Inr b" and
    rest: "merge_fields fp (mput k0 b dest) l es = Inr m"
    by (auto split: sum.splits)
  show ?case
  proof (cases "k = k0")
    case True
    with Cons.prems(2) e have "map_of es k = None"
      by (simp add: map_of_eq_None_iff image_image)
    with merge_fields_absent [OF rest this] True b e Cons.prems(3) show ?thesis by simp
  next
    case False
    with Cons.IH [OF rest] Cons.prems e show ?thesis by simp
  qed
qed simp

lemma mergeMap_absent:
  assumes "mergeMap fp o' l d = Inr m" and "map_of (mrange d) k = None"
  shows "map_of m k = (if k \<in> set (mkeys (mrange l)) then None else map_of o' k)"
  using merge_fields_absent [of fp _ l "mrange d" m k] assms
  by (simp add: remove_undesired_lookup)

lemma mergeMap_present:
  assumes "mergeMap fp o' l d = Inr m" and "distinct (mkeys (mrange d))"
    and "map_of (mrange d) k = Some dv"
  shows "\<exists>v. merge (fp @ ''['' @ k @ '']'') (index o' k) (index (mrange l) k) dv = Inr v \<and>
    map_of m k = Some v"
proof -
  have "index (remove_undesired o' l d) k = index o' k"
    using assms(3) by (simp add: index_def remove_undesired_lookup)
  with merge_fields_present [of fp "remove_undesired o' l d" l "mrange d" m k dv] assms
  show ?thesis by simp
qed

section \<open>Values without list maps\<close>

text \<open>
  Every slice inside the value holds something that is no map, so no merge key is guessed
  for it.
\<close>

fun plain :: "json \<Rightarrow> bool" where
  "plain (JArr xs) = (\<exists>x \<in> set xs. \<not> snd (as_map x))"
| "plain (JObj m) = list_all (\<lambda>(k, v). plain v) m"
| "plain _ = True"

text \<open>
  The observed value has a shape the desired one can replace: where it is a slice, the
  desired value is a slice too, with something in it that is no map.
\<close>

fun replaceable :: "json \<Rightarrow> json \<Rightarrow> bool" where
  "replaceable (JObj m) (JObj n) = list_all (\<lambda>(k, v). replaceable (index m k) v) n"
| "replaceable (JObj m) _ = True"
| "replaceable (JArr _) d = (case d of JArr ys \<Rightarrow> plain d | _ \<Rightarrow> False)"
| "replaceable JNilSlice d = (case d of JArr ys \<Rightarrow> plain d | _ \<Rightarrow> False)"
| "replaceable _ _ = True"

lemma detect_plain:
  assumes "xs \<in> set ls" and "\<exists>x \<in> set (elems xs). \<not> snd (as_map x)"
  shows "detectListMapKey ls = ''''"
  using detectListMapKey_maps [of ls xs] assms by fastforce

text \<open>Applying a desired state to itself gives it back.\<close>

lemma merge_fields_stable:
  assumes "\<And>k v. (k, v) \<in> set ds \<Longrightarrow> map_of m k = Some (w k) \<and>
      merge (fp @ ''['' @ k @ '']'') (w k) (index (mrange l) k) v = Inr (w k)"
  shows "merge_fields fp m l ds = Inr m"
  using assms
proof (induction ds)
  case (Cons e es)
  obtain k v where e: "e = (k, v)" by fastforce
  with Cons.prems have m: "map_of m k = Some (w k)"
      "merge (fp @ ''['' @ k @ '']'') (w k) (index (mrange l) k) v = Inr (w k)"
    by auto
  moreover have "merge_fields fp m l es = Inr m"
    by (rule Cons.IH) (use Cons.prems e in auto)
  ultimately show ?case by (simp add: e index_def mput_same)
qed simp


lemma remove_undesired_same: "remove_undesired m (Some d) (Some d) = m"
proof -
  have "fold (\<lambda>key dest. if map_of d key = None then mdel key dest else dest) ks m = m"
    if "set ks \<subseteq> set (mkeys d)" for ks
    using that by (induction ks) (auto simp: map_of_eq_None_iff image_image)
  from this [of "mkeys d"] show ?thesis by (simp add: remove_undesired_def)
qed

lemma wf_entry: "wf_json (JObj m) \<Longrightarrow> (k, v) \<in> set m \<Longrightarrow> map_of m k = Some v \<and> wf_json v"
  by (auto simp: list_all_iff)

lemma merge_self: "wf_json d \<Longrightarrow> plain d \<Longrightarrow> merge fp d d d = Inr d"
proof (induction d arbitrary: fp rule: plain.induct)
  case (1 xs)
  then have "detectListMapKey [Some xs, Some xs, Some xs] = ''''"
    by (intro detect_plain [of "Some xs"]) auto
  then show ?case by (simp add: merge_slice mergeArray.simps)
next
  case (2 m)
  have "map_of m k = Some (index m k) \<and>
      merge (fp @ ''['' @ k @ '']'') (index m k) (index (mrange (Some m)) k) v = Inr (index m k)"
    if kv: "(k, v) \<in> set m" for k v
  proof -
    from wf_entry [OF "2.prems"(1) kv] have m: "map_of m k = Some v" "wf_json v" by auto
    from kv "2.prems"(2) have "plain v" by (auto simp: list_all_iff)
    with "2.IH" [OF kv] m show ?thesis by (simp add: index_def)
  qed
  then have "merge_fields fp m (Some m) m = Inr m" by (rule merge_fields_stable)
  then show ?case by (simp add: merge_map remove_undesired_same)
qed (auto simp: merge_scalar merge_slice mergeArray.simps detectListMapKey_def knownMergeKeys_def)

lemma merge_again:
  assumes "merge fp o1 l d = Inr r" and "wf_json d" and "plain d" and "replaceable o1 d"
  shows "merge fp' r d d = Inr r"
  using assms
proof (induction o1 d arbitrary: fp fp' l r rule: replaceable.induct)
  case (1 m n)
  from "1.prems"(1) obtain m' where
    m': "mergeMap fp m (fst (as_map l)) (Some n) = Inr m'" and r: "r = JObj m'"
    by (auto simp: merge_map map_sum_Inr simp del: mergeMap.simps)
  from "1.prems"(2) have dist: "distinct (mkeys n)" by simp
  have "map_of m' k = Some (index m' k) \<and>
      merge (fp' @ ''['' @ k @ '']'') (index m' k) (index (mrange (Some n)) k) v = Inr (index m' k)"
    if kv: "(k, v) \<in> set n" for k v
  proof -
    from wf_entry [OF "1.prems"(2) kv] have n: "map_of n k = Some v" "wf_json v" by auto
    from mergeMap_present [OF m'] dist n obtain w where
      w: "merge (fp @ ''['' @ k @ '']'') (index m k) (index (mrange (fst (as_map l))) k) v = Inr w"
        "map_of m' k = Some w"
      by fastforce
    from kv "1.prems"(3,4) have "plain v" "replaceable (index m k) v"
      by (auto simp: list_all_iff)
    with "1.IH" [OF kv refl w(1)] n w(2) show ?thesis by (simp add: index_def)
  qed
  then have "merge_fields fp' m' (Some n) n = Inr m'" by (rule merge_fields_stable)
  then show ?case by (simp add: merge_map r remove_undesired_same)
next
  case (3 xs d)
  then obtain ys where d: "d = JArr ys" "plain d" by (auto split: json.splits)
  then have "detectListMapKey [Some xs, fst (as_slice l), Some ys] = ''''"
    by (intro detect_plain [of "Some ys"]) auto
  with "3.prems"(1) d have "r = d" by (simp add: merge_slice mergeArray.simps)
  with merge_self "3.prems" d show ?case by simp
next
  case (4 d)
  then obtain ys where d: "d = JArr ys" "plain d" by (auto split: json.splits)
  then have "detectListMapKey [None, fst (as_slice l), Some ys] = ''''"
    by (intro detect_plain [of "Some ys"]) auto
  with "4.prems"(1) d have "r = d" by (simp add: merge_slice mergeArray.simps)
  with merge_self "4.prems" d show ?case by simp
qed (auto simp: merge_scalar merge_self merge_map remove_undesired_def)

section \<open>List maps keep the observed order\<close>

text \<open>The merge key of every item, and the items by key (the last one wins).\<close>

definition item_keys :: "string \<Rightarrow> json list \<Rightarrow> string list" where
  "item_keys mk xs = map (\<lambda>x. stringMergeKey (index (mrange (fst (as_map x))) mk)) xs"

definition by_key :: "string \<Rightarrow> json list \<Rightarrow> obj" where
  "by_key mk xs = (case makeMapFromList mk xs of Inl _ \<Rightarrow> [] | Inr m \<Rightarrow> m)"

lemma item_keys_simps [simp]:
  "item_keys mk [] = []"
  "item_keys mk (JObj m # xs) = stringMergeKey (index m mk) # item_keys mk xs"
  by (simp_all add: item_keys_def)

lemma make_map_loop_dom:
  "make_map_loop mk xs res = Inr m \<Longrightarrow> all_maps xs \<Longrightarrow>
   dom (map_of m) = dom (map_of res) \<union> set (item_keys mk xs)"
proof (induction mk xs res rule: make_map_loop.induct)
  case (2 mk item items res)
  then obtain n where item: "item = JObj n" by auto
  with 2 show ?case by auto
qed auto

lemma make_map_loop_distinct:
  "make_map_loop mk xs res = Inr m \<Longrightarrow> distinct (mkeys res) \<Longrightarrow> distinct (mkeys m)"
  by (induction mk xs res rule: make_map_loop.induct) (auto split: sum.splits)

lemma by_key_props:
  assumes "all_maps xs"
  shows "makeMapFromList mk xs = Inr (by_key mk xs)"
    and "dom (map_of (by_key mk xs)) = set (item_keys mk xs)"
    and "distinct (mkeys (by_key mk xs))"
proof -
  from make_map_loop_total [OF assms] obtain m where m: "make_map_loop mk xs [] = Inr m" by blast
  then have eq: "by_key mk xs = m" by (simp add: by_key_def makeMapFromList_def)
  from m show "makeMapFromList mk xs = Inr (by_key mk xs)"
    by (simp add: eq makeMapFromList_def)
  from make_map_loop_dom [OF m assms] show "dom (map_of (by_key mk xs)) = set (item_keys mk xs)"
    by (simp add: eq)
  from make_map_loop_distinct [OF m] show "distinct (mkeys (by_key mk xs))" by (simp add: eq)
qed

lemma take_observed_eq:
  "all_maps xs \<Longrightarrow> take_observed mk dm xs out added =
     Inr (out @ map (index dm) (filter (\<lambda>k. map_of dm k \<noteq> None) (item_keys mk xs)),
          rev (filter (\<lambda>k. map_of dm k \<noteq> None) (item_keys mk xs)) @ added)"
proof (induction xs arbitrary: out added)
  case (Cons x xs)
  then obtain n where "x = JObj n" by auto
  with Cons show ?case by (auto simp: index_def)
qed simp

lemma take_desired_eq:
  "all_maps xs \<Longrightarrow> distinct (item_keys mk xs) \<Longrightarrow> take_desired mk dm xs out added =
     Inr (out @ map (index dm) (filter (\<lambda>k. k \<notin> set added) (item_keys mk xs)))"
proof (induction xs arbitrary: out added)
  case (Cons x xs)
  then obtain n where x: "x = JObj n" by auto
  with Cons.prems have "filter (\<lambda>k. k \<noteq> stringMergeKey (index n mk) \<and> k \<notin> set added) (item_keys mk xs)
      = filter (\<lambda>k. k \<notin> set added) (item_keys mk xs)"
    by (auto intro: filter_cong)
  with Cons x show ?case by auto
qed simp

lemma mergeArray_list_map:
  assumes "detectListMapKey [o', l, d] = mk" and "mk \<noteq> ''''"
    and dist: "distinct (item_keys mk (elems d))"
    and m: "mergeMap fp (by_key mk (elems o')) (Some (by_key mk (elems l)))
      (Some (by_key mk (elems d))) = Inr m"
  shows "mergeArray fp o' l d = Inr (JArr (
      map (index m) (filter (\<lambda>k. map_of m k \<noteq> None) (item_keys mk (elems o')))
    @ map (index m) (filter (\<lambda>k. k \<notin> set (item_keys mk (elems o'))) (item_keys mk (elems d)))))"
proof -
  have ne: "detectListMapKey [o', l, d] \<noteq> ''''" using assms(1,2) by simp
  have all: "all_maps (elems o')" "all_maps (elems l)" "all_maps (elems d)"
    using detectListMapKey_maps [OF ne, of o'] detectListMapKey_maps [OF ne, of l]
      detectListMapKey_maps [OF ne, of d] by simp_all
  have desired_in: "map_of m k \<noteq> None" if "k \<in> set (item_keys mk (elems d))" for k
  proof -
    from that by_key_props(2) [OF all(3), of mk] obtain v where
      "map_of (by_key mk (elems d)) k = Some v" by blast
    then show ?thesis
      using mergeMap_present [OF m, of k v] by_key_props(3) [OF all(3), of mk] by auto
  qed
  then have "filter (\<lambda>k. k \<notin> set (filter (\<lambda>k. map_of m k \<noteq> None) (item_keys mk (elems o'))))
        (item_keys mk (elems d))
      = filter (\<lambda>k. k \<notin> set (item_keys mk (elems o'))) (item_keys mk (elems d))"
    by (intro filter_cong) auto
  with assms(1,2) m show ?thesis
    by (simp add: mergeArray.simps mergeListMap.simps by_key_props(1) [OF all(1)]
        by_key_props(1) [OF all(2)] by_key_props(1) [OF all(3)] take_observed_eq [OF all(1)]
        take_desired_eq [OF all(3) dist] del: mergeMap.simps)
qed

section \<open>Scalars the desired state names\<close>

text \<open>
  The path meets no slice in the observed value and ends where no map or slice is, so the
  desired value can be written there.
\<close>

fun clear_path :: "json \<Rightarrow> string list \<Rightarrow> bool" where
  "clear_path (JArr _) p = False"
| "clear_path JNilSlice p = False"
| "clear_path (JObj m) p = (case p of [] \<Rightarrow> False | f # fs \<Rightarrow> clear_path (index m f) fs)"
| "clear_path _ p = True"

lemma merge_reaches:
  "merge fp ov l dv = Inr r \<Longrightarrow> wf_json dv \<Longrightarrow> nested_walk dv p \<noteq> JNull \<Longrightarrow> clear_path ov p \<Longrightarrow>
   nested_walk r p = nested_walk dv p"
proof (induction p arbitrary: fp ov l dv r)
  case Nil
  then have "as_map ov = (None, False)" "as_slice ov = (None, False)" by (cases ov; simp)+
  with Nil show ?case by (simp add: merge_scalar)
next
  case (Cons f fs)
  from Cons.prems(3) obtain d where d: "dv = JObj d"
    by (cases dv rule: as_map_cases) auto
  show ?case
  proof (cases ov rule: json_kinds)
    case (map om)
    with Cons.prems(1) d obtain m where
      m: "mergeMap fp om (fst (as_map l)) (Some d) = Inr m" and r: "r = JObj m"
      by (auto simp: merge_map map_sum_Inr simp del: mergeMap.simps)
    from Cons.prems(3) d obtain v where v: "map_of d f = Some v"
      by (auto simp: index_def split: option.splits)
    with mergeMap_present [OF m, of f v] Cons.prems(2) d obtain w where
      w: "merge (fp @ ''['' @ f @ '']'') (index om f) (index (mrange (fst (as_map l))) f) v = Inr w"
        "map_of m f = Some w"
      by auto
    from Cons.prems(2) d v have "wf_json v" by (auto dest: map_of_SomeD simp: list_all_iff)
    with Cons.IH [OF w(1)] Cons.prems(3,4) d v w(2) map r show ?thesis
      by (simp add: index_def)
  next
    case slice
    with Cons.prems(4) show ?thesis by (cases ov) auto
  next
    case scalar
    with Cons.prems(1) show ?thesis by (simp add: merge_scalar)
  qed
qed

section \<open>Properties\<close>

lemma ex_conjunct2: "\<exists>x. P x \<and> Q x \<Longrightarrow> \<exists>x. Q x"
  by blast

definition of_map :: "obj option \<Rightarrow> json" where
  "of_map l = (case l of None \<Rightarrow> JNull | Some m \<Rightarrow> JObj m)"

lemma Merge_as_merge:
  "Merge o' l (Some d) = Inr m \<Longrightarrow> merge '''' (JObj o') (of_map l) (JObj d) = Inr (JObj m)"
  by (cases l) (auto simp: of_map_def Merge_eq merge_map)

lemma merge_mismatch:
  "snd (as_map d) = False \<Longrightarrow>
   merge fp (JObj o') l d = Inr (JObj (remove_undesired o' (fst (as_map l)) None))"
  "snd (as_slice d) = False \<Longrightarrow>
   \<exists>r. merge fp (JArr xs) l d = Inr r \<and> (detectListMapKey [Some xs, fst (as_slice l), None] = '''' \<longrightarrow> r = JNilSlice)"
proof -
  assume "snd (as_map d) = False"
  then have "fst (as_map d) = None" by (cases d) auto
  then show "merge fp (JObj o') l d = Inr (JObj (remove_undesired o' (fst (as_map l)) None))"
    by (simp add: merge_map)
next
  assume "snd (as_slice d) = False"
  then have d: "fst (as_slice d) = None" by (cases d) auto
  obtain r where r: "merge fp (JArr xs) l d = Inr r" using merge_total_all(1) by blast
  with d show "\<exists>r. merge fp (JArr xs) l d = Inr r \<and>
      (detectListMapKey [Some xs, fst (as_slice l), None] = '''' \<longrightarrow> r = JNilSlice)"
    by (auto simp: merge_slice mergeArray.simps)
qed

text \<open>
  C1: \<open>Merge\<close> is the three-way merge. It always returns, and it decides every field of
  the result on its own: a field the desired state has gets the merge of the three values
  of that field; a field the desired state no longer has is deleted when it was applied
  before, and otherwise keeps what is observed.
\<close>
theorem Merge_three_way:
  assumes "distinct (mkeys d)"
  shows "\<exists>m. Merge o' l (Some d) = Inr m \<and>
    (\<forall>k. map_of m k =
      (case map_of d k of
         Some dv \<Rightarrow>
           Some (case merge (''['' @ k @ '']'') (index o' k) (index (mrange l) k) dv of Inr v \<Rightarrow> v)
       | None \<Rightarrow> if k \<in> set (mkeys (mrange l)) then None else map_of o' k))"
proof -
  obtain m where m: "mergeMap '''' o' l (Some d) = Inr m" using merge_total_all(2) by blast
  moreover have "map_of m k =
      (case map_of d k of
         Some dv \<Rightarrow>
           Some (case merge (''['' @ k @ '']'') (index o' k) (index (mrange l) k) dv of Inr v \<Rightarrow> v)
       | None \<Rightarrow> if k \<in> set (mkeys (mrange l)) then None else map_of o' k)" for k
  proof (cases "map_of d k")
    case None
    with mergeMap_absent [OF m, of k] show ?thesis by simp
  next
    case (Some dv)
    with mergeMap_present [OF m, of k dv] assms show ?thesis by (auto split: sum.splits)
  qed
  ultimately show ?thesis by (auto simp: Merge_eq simp del: mergeMap.simps)
qed

theorem Merge_three_way_witness:
  "\<exists>m. Merge [(''a'', JInt 1), (''b'', JInt 2), (''c'', JInt 3)]
      (Some [(''a'', JInt 1), (''b'', JInt 2)]) (Some [(''a'', JInt 5), (''d'', JNull)]) = Inr m \<and>
    map_of m ''b'' = None \<and> map_of m ''c'' = Some (JInt 3) \<and> map_of m ''a'' = Some (JInt 5)"
  using Merge_three_way [of "[(''a'', JInt 5), (''d'', JNull)]"
      "[(''a'', JInt 1), (''b'', JInt 2), (''c'', JInt 3)]" "Some [(''a'', JInt 1), (''b'', JInt 2)]"]
  by (auto simp: merge_scalar index_def)

text \<open>
  C2: The merge never fails: neither the guards on mismatched types nor a failed type
  assertion on a list item is ever reached. A desired value of another type than an observed
  map is dropped without an error, and one of another type than an observed list of
  scalars replaces it by a nil slice.
\<close>
theorem merge_never_fails:
  "(\<exists>r. merge fp o' l d = Inr r) \<and>
   (as_map d = (None, False) \<longrightarrow>
      merge fp (JObj om) l d = Inr (JObj (remove_undesired om (fst (as_map l)) None))) \<and>
   (as_slice d = (None, False) \<longrightarrow> (\<exists>x \<in> set xs. \<not> snd (as_map x)) \<longrightarrow>
      merge fp (JArr xs) l d = Inr JNilSlice)"
proof (intro conjI impI)
  show "\<exists>r. merge fp o' l d = Inr r" by (rule merge_total_all(1))
next
  assume "as_map d = (None, False)"
  then show "merge fp (JObj om) l d = Inr (JObj (remove_undesired om (fst (as_map l)) None))"
    by (simp add: merge_mismatch(1))
next
  assume "as_slice d = (None, False)" "\<exists>x \<in> set xs. \<not> snd (as_map x)"
  moreover from this have "detectListMapKey [Some xs, fst (as_slice l), None] = ''''"
    by (intro detect_plain [of "Some xs"]) auto
  ultimately show "merge fp (JArr xs) l d = Inr JNilSlice"
    using merge_mismatch(2) [of d fp xs l] by auto
qed

theorem merge_never_fails_witness:
  "merge ''f'' (JObj [(''a'', JInt 1)]) JNull (JStr ''s'') = Inr (JObj [(''a'', JInt 1)]) \<and>
   merge ''f'' (JArr [JInt 1]) JNull (JStr ''s'') = Inr JNilSlice"
  using merge_never_fails [of "''f''" JNull JNull "JStr ''s''" "[(''a'', JInt 1)]" "[JInt 1]"]
  by (simp add: remove_undesired_def)

text \<open>
  A nested field that the desired state sets is in the result, whatever was applied
  before, as long as the way to it does not lead through an observed list and no map is
  observed in its place.
\<close>
theorem Merge_desired_wins:
  assumes "Merge o' l (Some d) = Inr m" and "wf_json (JObj d)"
    and "GetNestedField d p \<noteq> JNull" and "clear_path (JObj o') p"
  shows "GetNestedField m p = GetNestedField d p"
proof -
  from assms(1) have "merge '''' (JObj o') (of_map l) (JObj d) = Inr (JObj m)"
    by (rule Merge_as_merge)
  from merge_reaches [OF this assms(2)] assms(3,4) show ?thesis
    by (simp add: GetNestedField_def)
qed

theorem Merge_desired_wins_witness:
  "\<exists>m. Merge [(''spec'', JObj [(''n'', JInt 1)])] None
      (Some [(''spec'', JObj [(''n'', JInt 2), (''x'', JObj [(''y'', JInt 3)])])]) = Inr m \<and>
    GetNestedField m [''spec'', ''x'', ''y''] = JInt 3"
proof -
  obtain m where m: "Merge [(''spec'', JObj [(''n'', JInt 1)])] None
      (Some [(''spec'', JObj [(''n'', JInt 2), (''x'', JObj [(''y'', JInt 3)])])]) = Inr m"
    using merge_total_all(2) by (fastforce simp: Merge_eq simp del: mergeMap.simps)
  from Merge_desired_wins [OF this, of "[''spec'', ''x'', ''y'']"] m show ?thesis
    by (simp add: GetNestedField_def index_def)
qed



text \<open>
  Lists of maps are merged by key and keep their order: the result holds first the
  merged items of the observed list that survive, in the observed order, then the items
  only the desired list has, in the desired order. Each item is the result of merging the
  three items with its key.
\<close>
theorem mergeArray_keeps_order:
  assumes "detectListMapKey [o', l, d] = mk" and "mk \<noteq> ''''"
    and "distinct (item_keys mk (elems d))"
  shows "\<exists>m. mergeMap fp (by_key mk (elems o')) (Some (by_key mk (elems l)))
      (Some (by_key mk (elems d))) = Inr m \<and>
    mergeArray fp o' l d = Inr (JArr (
      map (index m) (filter (\<lambda>k. k \<in> set (item_keys mk (elems d)) \<or>
          k \<notin> set (item_keys mk (elems l))) (item_keys mk (elems o')))
    @ map (index m) (filter (\<lambda>k. k \<notin> set (item_keys mk (elems o'))) (item_keys mk (elems d)))))"
proof -
  obtain m where m: "mergeMap fp (by_key mk (elems o')) (Some (by_key mk (elems l)))
      (Some (by_key mk (elems d))) = Inr m"
    using merge_total_all(2) by blast
  have ne: "detectListMapKey [o', l, d] \<noteq> ''''" using assms(1,2) by simp
  have all: "all_maps (elems o')" "all_maps (elems l)" "all_maps (elems d)"
    using detectListMapKey_maps [OF ne, of o'] detectListMapKey_maps [OF ne, of l]
      detectListMapKey_maps [OF ne, of d] by simp_all
  note dom = by_key_props(2) [OF all(1), of mk] by_key_props(2) [OF all(2), of mk]
    by_key_props(2) [OF all(3), of mk]
  have "map_of m k \<noteq> None \<longleftrightarrow>
      k \<in> set (item_keys mk (elems d)) \<or> k \<notin> set (item_keys mk (elems l))"
    if k: "k \<in> set (item_keys mk (elems o'))" for k
  proof (cases "map_of (by_key mk (elems d)) k")
    case None
    then have "k \<notin> set (item_keys mk (elems d))" using dom(3) by blast
    moreover have "map_of (by_key mk (elems o')) k \<noteq> None" using dom(1) k by blast
    moreover have "set (mkeys (by_key mk (elems l))) = set (item_keys mk (elems l))"
      using dom(2) by (simp only: mkeys_dom)
    ultimately show ?thesis
      using mergeMap_absent [OF m, of k] None by (simp del: mergeMap.simps set_map)
  next
    case (Some v)
    with mergeMap_present [OF m, of k v] by_key_props(3) [OF all(3), of mk] dom show ?thesis
      by (auto simp del: mergeMap.simps)
  qed
  then have "filter (\<lambda>k. map_of m k \<noteq> None) (item_keys mk (elems o')) =
      filter (\<lambda>k. k \<in> set (item_keys mk (elems d)) \<or> k \<notin> set (item_keys mk (elems l)))
        (item_keys mk (elems o'))"
    by (intro filter_cong) auto
  with mergeArray_list_map [OF assms m] m show ?thesis by simp
qed

theorem mergeArray_keeps_order_witness:
  "\<exists>m. mergeArray ''f'' (Some [JObj [(''name'', JStr ''b'')], JObj [(''name'', JStr ''a'')]])
      (Some [JObj [(''name'', JStr ''a'')]])
      (Some [JObj [(''name'', JStr ''c'')], JObj [(''name'', JStr ''b'')]])
    = Inr (JArr [index m ''b'', index m ''c''])"
proof -
  let ?o = "Some [JObj [(''name'', JStr ''b'')], JObj [(''name'', JStr ''a'')]]"
  let ?l = "Some [JObj [(''name'', JStr ''a'')]]"
  let ?d = "Some [JObj [(''name'', JStr ''c'')], JObj [(''name'', JStr ''b'')]]"
  have mk: "detectListMapKey [?o, ?l, ?d] = ''name''"
    by (simp add: detectListMapKey_def knownMergeKeys_def)
  have keys: "item_keys ''name'' (elems ?o) = [''b'', ''a'']"
      "item_keys ''name'' (elems ?l) = [''a'']" "item_keys ''name'' (elems ?d) = [''c'', ''b'']"
    by (simp_all add: index_def)
  then have dist: "distinct (item_keys ''name'' (elems ?d))" by simp
  have filters: "filter (\<lambda>k. k \<in> set [''c'', ''b''] \<or> k \<notin> set [''a'']) [''b'', ''a''] = [''b'']"
      "filter (\<lambda>k. k \<notin> set [''b'', ''a'']) [''c'', ''b''] = [''c'']"
    by simp_all
  have "''name'' \<noteq> ''''" by simp
  from mergeArray_keeps_order [OF mk this dist, of "''f''"]
  show ?thesis unfolding keys filters list.map append.simps by (rule ex_conjunct2)
qed

section \<open>Properties of the recorded state\<close>

lemma kube_lib_codec: "kube_lib K \<Longrightarrow> kube_lib (K\<lparr>Marshal := f, Unmarshal := g\<rparr>)"
  by (induct K) (unfold kube_lib_def kube.update_convs kube.select_convs, assumption)

text \<open>
  C5: What is recorded as the last applied state is read back, under the same annotation
  key, when the JSON package decodes what it encoded; every other annotation and the rest of
  the object stay as they were.
\<close>
theorem last_applied_round_trip:
  assumes "kube_lib K" and "meta_ok x" and "la \<noteq> []"
    and "Marshal K la = Inr s" and "s \<noteq> ''''" and "Unmarshal K s = Inr la"
  shows "\<exists>x'. SetLastAppliedByAnnKey K x la key = Inr x' \<and>
    GetLastAppliedByAnnKey K x' key = Inr (Some la) \<and>
    (\<forall>k. k \<noteq> key \<longrightarrow> map_of (mrange (GetAnnotations K x')) k = map_of (mrange (GetAnnotations K x)) k) \<and>
    (\<forall>q. diverge annotations_path q \<longrightarrow> NestedField K x' q = NestedField K x q)"
proof -
  have "GetAnnotations K (SetAnnotations K x a) = Some a" for a
    by (rule kube_lib.get_set_annotations [OF assms(1,2)])
  moreover have "NestedField K (SetAnnotations K x a) q = NestedField K x q"
    if "diverge annotations_path q" for a q
    using that by (rule kube_lib.frame_annotations [OF assms(1)])
  moreover note assms(3-6)
  ultimately show ?thesis
    by (cases "GetAnnotations K x")
      (auto simp: SetLastAppliedByAnnKey_def GetLastAppliedByAnnKey_def Let_def)
qed

definition codec_kube :: kube where
  "codec_kube = std_kube\<lparr>Marshal := \<lambda>m. Inr ''json'', Unmarshal := \<lambda>s. Inr [(''a'', JInt 1)]\<rparr>"

theorem last_applied_round_trip_witness:
  "\<exists>x'. SetLastAppliedByAnnKey codec_kube [(''kind'', JStr ''Pod'')] [(''a'', JInt 1)] ''k'' = Inr x' \<and>
    GetLastAppliedByAnnKey codec_kube x' ''k'' = Inr (Some [(''a'', JInt 1)])"
  using last_applied_round_trip [of codec_kube "[(''kind'', JStr ''Pod'')]" "[(''a'', JInt 1)]" "''json''" "''k''"]
    kube_lib_codec [OF std.kube_lib_axioms]
  by (auto simp: codec_kube_def meta_ok_def)

text \<open>
  Sanitizing a recorded state removes the annotation it was recorded under, so that
  recorded states do not nest, and nothing that is not on that path.
\<close>
theorem sanitize_removes_own_annotation:
  assumes "kube_lib K" and "la \<noteq> []"
    and "NestedField K la [''metadata'', ''annotations'', key] = Inr r"
  shows "NestedField K (SanitizeLastAppliedByAnnKey K la key) [''metadata'', ''annotations'', key]
      = Inr None \<and>
    (\<forall>q. diverge [''metadata'', ''annotations'', key] q \<longrightarrow>
      NestedField K (SanitizeLastAppliedByAnnKey K la key) q = NestedField K la q)"
  using assms kube_lib.field_remove_same [OF assms(1) _ assms(3)]
    kube_lib.field_remove_other [OF assms(1)]
  by (auto simp: SanitizeLastAppliedByAnnKey_def)

theorem sanitize_removes_own_annotation_witness:
  "NestedField std_kube (SanitizeLastAppliedByAnnKey std_kube
      [(''metadata'', JObj [(''annotations'', JObj [(''k'', JStr ''s''), (''l'', JStr ''t'')])])] ''k'')
      [''metadata'', ''annotations'', ''k''] = Inr None \<and>
   NestedField std_kube (SanitizeLastAppliedByAnnKey std_kube
      [(''metadata'', JObj [(''annotations'', JObj [(''k'', JStr ''s''), (''l'', JStr ''t'')])])] ''k'')
      [''metadata'', ''annotations'', ''l''] = Inr (Some (JStr ''t''))"
proof -
  let ?la = "[(''metadata'', JObj [(''annotations'', JObj [(''k'', JStr ''s''), (''l'', JStr ''t'')])])]"
  have "NestedField std_kube ?la [''metadata'', ''annotations'', ''k''] = Inr (Some (JStr ''s''))"
    by (simp add: std_kube_sel)
  from sanitize_removes_own_annotation [OF std.kube_lib_axioms _ this]
  have "NestedField std_kube (SanitizeLastAppliedByAnnKey std_kube ?la ''k'')
        [''metadata'', ''annotations'', ''k''] = Inr None"
    and "NestedField std_kube (SanitizeLastAppliedByAnnKey std_kube ?la ''k'')
        [''metadata'', ''annotations'', ''l''] =
      NestedField std_kube ?la [''metadata'', ''annotations'', ''l'']"
    by (force, simp)
  then show ?thesis by (simp add: std_kube_sel)
qed



end
