(* ===== verification/Registry.thy ===== *)
theory Registry
  imports KubeLib
begin

text \<open>
  \<open>controller/common/common.go\<close>: the registry of observed or desired objects, grouped by
  API version and kind and then by name, the registrars of API resources and of informers,
  and the names derived from an object.

  A registry is a map of maps of pointers. An entry that is nil, or points to an object
  whose content is nil, is \<open>None\<close>. A nil group and an empty one are the same list: no
  operation of the file tells them apart.
\<close>

type_synonym registry = "obj option gomap gomap"

section \<open>Names\<close>

text \<open>\<open>relativeName\<close> reads only the namespace of its reference.\<close>

definition relativeName :: "kube \<Rightarrow> obj \<Rightarrow> obj \<Rightarrow> string" where
  "relativeName K reference object =
     (if GetNamespace K reference = '''' \<and> GetNamespace K object \<noteq> ''''
      then GetNamespace K object @ ''/'' @ GetName K object
      else GetName K object)"

definition namespaceNameOrName :: "kube \<Rightarrow> obj \<Rightarrow> string" where
  "namespaceNameOrName K obj =
     (if GetNamespace K obj \<noteq> '''' then GetNamespace K obj @ ''/'' @ GetName K obj
      else GetName K obj)"

text \<open>Of a \<open>metav1.Object\<close> these read the namespace and the name.\<close>

definition namespaceNameOrNameFromMeta :: "string \<Rightarrow> string \<Rightarrow> string" where
  "namespaceNameOrNameFromMeta namespace name =
     (if namespace \<noteq> '''' then namespace @ ''/'' @ name else name)"

definition describeObject :: "kube \<Rightarrow> obj \<Rightarrow> string" where
  "describeObject K obj =
     (let ns = GetNamespace K obj in
      if ns \<noteq> '''' then ns @ ''/'' @ GetName K obj @ '' of kind '' @ GetKind K obj
      else GetName K obj @ '' of kind '' @ GetKind K obj)"

definition sanitiseAPIVersion :: "string \<Rightarrow> string" where
  "sanitiseAPIVersion version = replace_all ''/'' ''-'' version"

definition DescObjAsSanitisedNSName :: "kube \<Rightarrow> obj \<Rightarrow> string" where
  "DescObjAsSanitisedNSName K obj = replace_all ''/'' ''-'' (namespaceNameOrName K obj)"

definition DescMetaAsSanitisedNSName :: "string \<Rightarrow> string \<Rightarrow> string" where
  "DescMetaAsSanitisedNSName namespace name =
     replace_all ''/'' ''-'' (namespaceNameOrNameFromMeta namespace name)"

definition DescObjectAsKey :: "kube \<Rightarrow> obj \<Rightarrow> string" where
  "DescObjectAsKey K obj =
     (let ns = GetNamespace K obj in
      if ns \<noteq> '''' then join '':'' [GetAPIVersion K obj, GetKind K obj, ns, GetName K obj]
      else join '':'' [GetAPIVersion K obj, GetKind K obj, GetName K obj])"

definition DescObjectAsSanitisedKey :: "kube \<Rightarrow> obj \<Rightarrow> string" where
  "DescObjectAsSanitisedKey K obj =
     (let ver = sanitiseAPIVersion (GetAPIVersion K obj); ns = GetNamespace K obj in
      if ns \<noteq> '''' then join ''-'' [ver, GetKind K obj, ns, GetName K obj]
      else join ''-'' [ver, GetKind K obj, GetName K obj])"

section \<open>Keys\<close>

definition makeKeyFromAPIVersionKind :: "string \<Rightarrow> string \<Rightarrow> string" where
  "makeKeyFromAPIVersionKind apiVersion kind = kind @ ''.'' @ apiVersion"

text \<open>A key without a dot makes the index expression \<open>parts[1]\<close> panic.\<close>

definition ParseKeyToAPIVersionKind :: "string \<Rightarrow> (string \<times> string) res" where
  "ParseKeyToAPIVersionKind key =
     (case splitN CHR ''.'' 2 key of
        p0 # p1 # _ \<Rightarrow> Inr (p1, p0)
      | _ \<Rightarrow> Inl (Panic ''index out of range''))"

definition ParseAPIVersionToGroupVersion :: "string \<Rightarrow> string \<times> string" where
  "ParseAPIVersionToGroupVersion apiVersion =
     (case splitN CHR ''/'' 2 apiVersion of
        [p0] \<Rightarrow> ('''', p0)
      | p0 # p1 # _ \<Rightarrow> (p0, p1)
      | [] \<Rightarrow> ('''', ''''))"

definition makeKeyFromAPIGroupKind :: "string \<Rightarrow> string \<Rightarrow> string" where
  "makeKeyFromAPIGroupKind apiGroup kind = kind @ ''.'' @ apiGroup"

definition makeKeyFromAPIVersionResource :: "string \<Rightarrow> string \<Rightarrow> string" where
  "makeKeyFromAPIVersionResource apiVersion resource = resource @ ''.'' @ apiVersion"

section \<open>The registry of objects\<close>

definition group_of :: "registry \<Rightarrow> string \<Rightarrow> obj option gomap" where
  "group_of m key = (case map_of m key of None \<Rightarrow> [] | Some grp \<Rightarrow> grp)"

definition IsEmpty :: "registry \<Rightarrow> bool" where
  "IsEmpty m = (\<not> list_ex (\<lambda>(k, grp). list_ex (\<lambda>(n, obj). obj \<noteq> None) grp) m)"

definition Len :: "registry \<Rightarrow> nat" where
  "Len m = sum_list (map (\<lambda>(k, grp). length (filter (\<lambda>(n, obj). obj \<noteq> None) grp)) m)"

definition registry_String :: "registry \<Rightarrow> string" where
  "registry_String m =
     (let details = concat (map (\<lambda>(vk, grp). map (\<lambda>(nsname, obj). ''- '' @ vk @ '': '' @ nsname) grp) m)
      in show_nat (length details) @ '' objects found'' @ [CHR 0x0A, CHR 0x09] @ join [CHR 0x0A] details)"

definition Init :: "string \<Rightarrow> string \<Rightarrow> registry \<Rightarrow> registry" where
  "Init apiVersion kind m = mput (makeKeyFromAPIVersionKind apiVersion kind) [] m"

definition InsertByReference :: "kube \<Rightarrow> obj \<Rightarrow> obj \<Rightarrow> registry \<Rightarrow> registry" where
  "InsertByReference K reference obj m =
     (let key = makeKeyFromAPIVersionKind (GetAPIVersion K obj) (GetKind K obj);
          grp = group_of m key;
          name = relativeName K reference obj
      in mput key (mput name (Some obj) grp) m)"

definition Insert :: "kube \<Rightarrow> obj \<Rightarrow> registry \<Rightarrow> registry" where
  "Insert K obj m =
     (let key = makeKeyFromAPIVersionKind (GetAPIVersion K obj) (GetKind K obj);
          grp = group_of m key;
          nsName = namespaceNameOrName K obj
      in mput key (mput nsName (Some obj) grp) m)"

definition ReplaceByReference :: "kube \<Rightarrow> obj \<Rightarrow> obj \<Rightarrow> registry \<Rightarrow> registry" where
  "ReplaceByReference K reference obj m =
     (let key = makeKeyFromAPIVersionKind (GetAPIVersion K obj) (GetKind K obj) in
      case map_of m key of
        None \<Rightarrow> m
      | Some children \<Rightarrow>
          let name = relativeName K reference obj in
          if map_of children name \<noteq> None then mput key (mput name (Some obj) children) m else m)"

definition Replace :: "kube \<Rightarrow> obj \<Rightarrow> registry \<Rightarrow> registry" where
  "Replace K obj m =
     (let key = makeKeyFromAPIVersionKind (GetAPIVersion K obj) (GetKind K obj) in
      case map_of m key of
        None \<Rightarrow> m
      | Some children \<Rightarrow>
          let nsName = namespaceNameOrName K obj in
          if map_of children nsName \<noteq> None then mput key (mput nsName (Some obj) children) m else m)"

fun FindByGroupKindName :: "registry \<Rightarrow> string \<Rightarrow> string \<Rightarrow> string \<Rightarrow> obj option res" where
  "FindByGroupKindName [] apiGroup kind name = Inr None"
| "FindByGroupKindName ((key, resources) # m) apiGroup kind name =
     (case ParseKeyToAPIVersionKind key of
        Inl e \<Rightarrow> Inl e
      | Inr (apiVer, k) \<Rightarrow>
          if k = kind \<and> fst (ParseAPIVersionToGroupVersion apiVer) = apiGroup
          then (case map_of resources name of
                  Some res \<Rightarrow> Inr res
                | None \<Rightarrow> FindByGroupKindName m apiGroup kind name)
          else FindByGroupKindName m apiGroup kind name)"

definition registry_List :: "registry \<Rightarrow> obj option list" where
  "registry_List m = concat (map (\<lambda>(k, grp). map snd grp) m)"

definition MakeAnyUnstructRegistryByReference :: "kube \<Rightarrow> obj \<Rightarrow> obj list \<Rightarrow> registry" where
  "MakeAnyUnstructRegistryByReference K reference objects =
     fold (InsertByReference K reference) objects []"

definition MakeAnyUnstructRegistry :: "kube \<Rightarrow> obj list \<Rightarrow> registry" where
  "MakeAnyUnstructRegistry K objects = fold (Insert K) objects []"

section \<open>Registrars\<close>

definition ResourceRegistrar_Set :: "string \<Rightarrow> string \<Rightarrow> 'r \<Rightarrow> 'r gomap \<Rightarrow> 'r gomap" where
  "ResourceRegistrar_Set apiGroup kind resource m =
     mput (makeKeyFromAPIGroupKind apiGroup kind) resource m"

definition ResourceRegistrar_Get :: "'r gomap \<Rightarrow> string \<Rightarrow> string \<Rightarrow> 'r option" where
  "ResourceRegistrar_Get m apiGroup kind = map_of m (makeKeyFromAPIGroupKind apiGroup kind)"

definition ResourceInformerRegistrar_Set :: "string \<Rightarrow> string \<Rightarrow> 'i \<Rightarrow> 'i gomap \<Rightarrow> 'i gomap" where
  "ResourceInformerRegistrar_Set apiVersion resource informer m =
     mput (makeKeyFromAPIVersionResource apiVersion resource) informer m"

definition ResourceInformerRegistrar_Get :: "'i gomap \<Rightarrow> string \<Rightarrow> string \<Rightarrow> 'i option" where
  "ResourceInformerRegistrar_Get m apiVersion resource =
     map_of m (makeKeyFromAPIVersionResource apiVersion resource)"

section \<open>Registries as keyed stores\<close>

definition reg_get :: "registry \<Rightarrow> string \<Rightarrow> string \<Rightarrow> obj option option" where
  "reg_get m key name = map_of (group_of m key) name"

definition reg_put :: "string \<Rightarrow> string \<Rightarrow> obj option \<Rightarrow> registry \<Rightarrow> registry" where
  "reg_put key name v m = mput key (mput name v (group_of m key)) m"

lemma group_of_mput [simp]: "group_of (mput k g m) k' = (if k = k' then g else group_of m k')"
  by (simp add: group_of_def)

lemma kind_prefix_unique:
  "CHR ''.'' \<notin> set k \<Longrightarrow> CHR ''.'' \<notin> set k' \<Longrightarrow>
   k @ ''.'' @ a = k' @ ''.'' @ a' \<longleftrightarrow> k = k' \<and> a = a'"
  by (metis append_Cons append_Nil append_same_eq same_append_eq takeWhile_sep list.inject)

interpretation reg: keyed_store reg_get reg_put "[]" "\<lambda>_ _. True"
  by unfold_locales (auto simp: reg_get_def reg_put_def group_of_def)

interpretation resources: keyed_store ResourceRegistrar_Get ResourceRegistrar_Set "[]"
  "\<lambda>_ kind. CHR ''.'' \<notin> set kind"
  by unfold_locales
    (auto simp: ResourceRegistrar_Get_def ResourceRegistrar_Set_def makeKeyFromAPIGroupKind_def
      dest: kind_prefix_unique [THEN iffD1, rotated 2, simplified])

interpretation informers: keyed_store ResourceInformerRegistrar_Get ResourceInformerRegistrar_Set
  "[]" "\<lambda>_ resource. CHR ''.'' \<notin> set resource"
  by unfold_locales
    (auto simp: ResourceInformerRegistrar_Get_def ResourceInformerRegistrar_Set_def
      makeKeyFromAPIVersionResource_def
      dest: kind_prefix_unique [THEN iffD1, rotated 2, simplified])

abbreviation object_key :: "kube \<Rightarrow> obj \<Rightarrow> string" where
  "object_key K x \<equiv> makeKeyFromAPIVersionKind (GetAPIVersion K x) (GetKind K x)"

lemma InsertByReference_put:
  "InsertByReference K r x m = reg_put (object_key K x) (relativeName K r x) (Some x) m"
  by (simp add: InsertByReference_def reg_put_def Let_def)

lemma Insert_put:
  "Insert K x m = reg_put (object_key K x) (namespaceNameOrName K x) (Some x) m"
  by (simp add: Insert_def reg_put_def Let_def)

lemma ReplaceByReference_put:
  "reg_get (ReplaceByReference K r x m) key name =
     (if (key, name) = (object_key K x, relativeName K r x) \<and> reg_get m key name \<noteq> None
      then Some (Some x) else reg_get m key name)"
  by (auto simp: ReplaceByReference_def reg_get_def Let_def group_of_def split: option.splits)

lemma Replace_put:
  "reg_get (Replace K x m) key name =
     (if (key, name) = (object_key K x, namespaceNameOrName K x) \<and> reg_get m key name \<noteq> None
      then Some (Some x) else reg_get m key name)"
  by (auto simp: Replace_def reg_get_def Let_def group_of_def split: option.splits)

lemma fold_put_get:
  assumes "\<And>x m. ins x m = reg_put (kf x) (nf x) (Some x) m"
  shows "reg_get (fold ins xs m) key name =
    (case find (\<lambda>x. kf x = key \<and> nf x = name) (rev xs) of
       Some x \<Rightarrow> Some (Some x) | None \<Rightarrow> reg_get m key name)"
  by (induction xs arbitrary: m) (auto simp: assms find_snoc reg.get_put_cases split: option.splits)

section \<open>What the lookups find\<close>

lemma parse_make_key:
  "CHR ''.'' \<notin> set kind \<Longrightarrow>
   ParseKeyToAPIVersionKind (makeKeyFromAPIVersionKind apiVersion kind) = Inr (apiVersion, kind)"
  by (simp add: ParseKeyToAPIVersionKind_def makeKeyFromAPIVersionKind_def numeral_2_eq_2
      takeWhile_sep dropWhile_sep)

definition matching_key :: "string \<Rightarrow> string \<Rightarrow> string \<Rightarrow> bool" where
  "matching_key g k key = (case ParseKeyToAPIVersionKind key of
     Inl _ \<Rightarrow> False | Inr (av, k') \<Rightarrow> k' = k \<and> fst (ParseAPIVersionToGroupVersion av) = g)"

definition all_parse :: "registry \<Rightarrow> bool" where
  "all_parse m = (\<forall>key \<in> set (mkeys m). isOK (ParseKeyToAPIVersionKind key))"

lemma Find_eq:
  "all_parse m \<Longrightarrow> FindByGroupKindName m g k n =
   Inr (case List.find (\<lambda>(key, grp). matching_key g k key \<and> map_of grp n \<noteq> None) m of
          None \<Rightarrow> None | Some (key, grp) \<Rightarrow> the (map_of grp n))"
proof (induction m g k n rule: FindByGroupKindName.induct)
  case (2 key grp m g k n)
  then obtain av k' where "ParseKeyToAPIVersionKind key = Inr (av, k')"
    by (auto simp: all_parse_def isOK_iff)
  with 2 show ?case
    by (cases "map_of grp n") (auto simp: all_parse_def matching_key_def)
qed simp

lemma find_entry: "distinct (mkeys m) \<Longrightarrow> (key, grp) \<in> set m \<Longrightarrow> group_of m key = grp"
  by (simp add: group_of_def)

lemma Find_sound:
  assumes "all_parse m" and "distinct (mkeys m)" and "FindByGroupKindName m g k n = Inr (Some x)"
  shows "\<exists>key. matching_key g k key \<and> reg_get m key n = Some (Some x)"
proof -
  from assms(3) obtain key grp where "(key, grp) \<in> set m" "matching_key g k key"
      "map_of grp n = Some (Some x)"
    by (auto simp: Find_eq [OF assms(1)] dest!: find_SomeD split: option.splits)
  with find_entry [OF assms(2)] show ?thesis by (metis reg_get_def)
qed

lemma Find_complete:
  assumes "all_parse m" and "matching_key g k key" and "reg_get m key n \<noteq> None"
    and "\<forall>key. reg_get m key n \<noteq> Some None" and "distinct (mkeys m)"
  shows "\<exists>x. FindByGroupKindName m g k n = Inr (Some x)"
proof -
  from assms(3) obtain grp where grp: "(key, grp) \<in> set m" "map_of grp n \<noteq> None"
    by (auto simp: reg_get_def group_of_def split: option.splits dest: map_of_SomeD)
  with assms(2) obtain key' grp' where
    f: "List.find (\<lambda>(key, grp). matching_key g k key \<and> map_of grp n \<noteq> None) m = Some (key', grp')"
    by (cases "List.find (\<lambda>(key, grp). matching_key g k key \<and> map_of grp n \<noteq> None) m")
      (auto simp: find_None_iff)
  then have "(key', grp') \<in> set m" "map_of grp' n \<noteq> None"
    by (auto dest!: find_SomeD)
  with find_entry [OF assms(5)] assms(4) obtain x where "map_of grp' n = Some (Some x)"
    by (metis reg_get_def option.exhaust)
  with f show ?thesis by (simp add: Find_eq [OF assms(1)])
qed

text \<open>What every registry built by insertions satisfies.\<close>

lemma fold_put_keys:
  assumes "\<And>x m. ins x m = reg_put (object_key K x) (nf x) (Some x) m"
    and "distinct (mkeys m)"
  shows "distinct (mkeys (fold ins xs m)) \<and>
    set (mkeys (fold ins xs m)) = object_key K ` set xs \<union> set (mkeys m)"
  using assms(2)
proof (induction xs arbitrary: m)
  case (Cons x xs)
  from Cons.IH [of "ins x m"] Cons.prems show ?case
    by (auto simp: assms(1) reg_put_def mkeys_dom simp del: set_map)
qed simp

section \<open>Properties\<close>

text \<open>
  A registry built from a list of objects is the map that takes each API version and
  kind, and each name relative to the reference, to the last object of the list with them,
  and holds nothing else.
\<close>
theorem registry_holds_last:
  "reg_get (MakeAnyUnstructRegistryByReference K r xs) key name =
   map_option Some (find (\<lambda>x. makeKeyFromAPIVersionKind (GetAPIVersion K x) (GetKind K x) = key \<and>
     relativeName K r x = name) (rev xs))"
  unfolding MakeAnyUnstructRegistryByReference_def
  by (subst fold_put_get [where kf = "object_key K" and nf = "relativeName K r"])
    (auto simp: InsertByReference_put reg.get_empty split: option.splits)

text \<open>
  Finding by group, kind and name in such a registry is sound and complete and never
  panics, when kinds hold no dot: it returns an object of the list with this group, kind
  and relative name, and nil exactly when there is none.
\<close>
theorem find_in_registry:
  assumes "\<forall>x \<in> set xs. CHR ''.'' \<notin> set (GetKind K x)"
  shows "\<exists>res. FindByGroupKindName (MakeAnyUnstructRegistryByReference K r xs) g k n = Inr res \<and>
    (case res of
       Some x \<Rightarrow> x \<in> set xs \<and> GetKind K x = k \<and> relativeName K r x = n \<and>
         fst (ParseAPIVersionToGroupVersion (GetAPIVersion K x)) = g
     | None \<Rightarrow> \<not> (\<exists>x \<in> set xs. GetKind K x = k \<and> relativeName K r x = n \<and>
         fst (ParseAPIVersionToGroupVersion (GetAPIVersion K x)) = g))"
proof -
  let ?m = "MakeAnyUnstructRegistryByReference K r xs"
  have keys: "distinct (mkeys ?m)" "set (mkeys ?m) = object_key K ` set xs"
    using fold_put_keys [of "InsertByReference K r" K "relativeName K r" "[]" xs]
    by (simp_all add: MakeAnyUnstructRegistryByReference_def InsertByReference_put del: set_map)
  have match: "matching_key g k (object_key K x) \<longleftrightarrow>
      GetKind K x = k \<and> fst (ParseAPIVersionToGroupVersion (GetAPIVersion K x)) = g"
    if "x \<in> set xs" for x
    using that assms by (auto simp: matching_key_def parse_make_key)
  have all: "all_parse ?m"
    using assms by (auto simp: all_parse_def keys(2) parse_make_key simp del: set_map)
  have eq: "reg_get ?m key n = map_option Some
      (find (\<lambda>x. object_key K x = key \<and> relativeName K r x = n) (rev xs))" for key
    using fold_put_get [of "InsertByReference K r" "object_key K" "relativeName K r" xs "[]" key n]
    by (auto simp: MakeAnyUnstructRegistryByReference_def InsertByReference_put reg.get_empty
        split: option.splits)
  have get: "reg_get ?m key n \<noteq> None \<longleftrightarrow>
      (\<exists>x \<in> set xs. object_key K x = key \<and> relativeName K r x = n)" for key
    by (auto simp: eq find_None_iff)
  have got: "\<exists>x \<in> set xs. v = Some x \<and> object_key K x = key \<and> relativeName K r x = n"
    if "reg_get ?m key n = Some v" for key v
    using that by (auto simp: eq dest!: find_SomeD)
  obtain res where res: "FindByGroupKindName ?m g k n = Inr res" by (simp add: Find_eq [OF all])
  show ?thesis
  proof (cases res)
    case (Some x)
    from Find_sound [OF all keys(1)] res Some obtain key where
      "matching_key g k key" "reg_get ?m key n = Some (Some x)" by blast
    with got match show ?thesis unfolding res Some by fastforce
  next
    case None
    have no_nil: "\<forall>key. reg_get ?m key n \<noteq> Some None" using got by blast
    have "\<not> (GetKind K x = k \<and> relativeName K r x = n \<and>
        fst (ParseAPIVersionToGroupVersion (GetAPIVersion K x)) = g)" if "x \<in> set xs" for x
    proof
      assume x: "GetKind K x = k \<and> relativeName K r x = n \<and>
        fst (ParseAPIVersionToGroupVersion (GetAPIVersion K x)) = g"
      then have "matching_key g k (object_key K x)" using match [OF that] by blast
      moreover have "reg_get ?m (object_key K x) n \<noteq> None" using get x that by blast
      ultimately show False using Find_complete [OF all _ _ no_nil keys(1)] res None by fastforce
    qed
    then show ?thesis unfolding res None by auto
  qed
qed

theorem find_in_registry_witness:
  "\<exists>res. FindByGroupKindName (MakeAnyUnstructRegistryByReference std_kube []
      [[(''apiVersion'', JStr ''apps/v1''), (''kind'', JStr ''Pod''),
        (''metadata'', JObj [(''name'', JStr ''a'')])]]) ''apps'' ''Pod'' ''a'' = Inr (Some res)"
proof -
  let ?x = "[(''apiVersion'', JStr ''apps/v1''), (''kind'', JStr ''Pod''),
        (''metadata'', JObj [(''name'', JStr ''a'')])]"
  have x: "GetKind std_kube ?x = ''Pod''" "relativeName std_kube [] ?x = ''a''"
    "GetAPIVersion std_kube ?x = ''apps/v1''"
    by (simp_all add: std_kube_sel std_read_def relativeName_def)
  moreover have "fst (ParseAPIVersionToGroupVersion ''apps/v1'') = ''apps''"
    by (simp add: ParseAPIVersionToGroupVersion_def numeral_2_eq_2)
  ultimately show ?thesis
    using find_in_registry [of "[?x]" std_kube "[]" "''apps''" "''Pod''" "''a''"]
    by (auto split: option.splits)
qed

text \<open>
  The keys of a registry are parsed back into what they were made of, a key is
  parsed at its first dot, and the parse panics exactly on a key without one. An API
  version is split into group and version at its first slash; without one it is a version
  of the core group.
\<close>
theorem keys_round_trip:
  "(CHR ''.'' \<notin> set kind \<longrightarrow>
      ParseKeyToAPIVersionKind (makeKeyFromAPIVersionKind av kind) = Inr (av, kind)) \<and>
   (isOK (ParseKeyToAPIVersionKind key) \<longleftrightarrow> CHR ''.'' \<in> set key) \<and>
   (\<forall>av' kind'. ParseKeyToAPIVersionKind key = Inr (av', kind') \<longrightarrow>
      makeKeyFromAPIVersionKind av' kind' = key) \<and>
   (CHR ''/'' \<notin> set g \<longrightarrow> ParseAPIVersionToGroupVersion (g @ ''/'' @ v) = (g, v)) \<and>
   (CHR ''/'' \<notin> set v \<longrightarrow> ParseAPIVersionToGroupVersion v = ('''', v))"
proof (intro conjI)
  show "isOK (ParseKeyToAPIVersionKind key) \<longleftrightarrow> CHR ''.'' \<in> set key"
    by (rule splitN_2_cases [of "CHR ''.''" key]) (auto simp: ParseKeyToAPIVersionKind_def)
  show "\<forall>av' kind'. ParseKeyToAPIVersionKind key = Inr (av', kind') \<longrightarrow>
      makeKeyFromAPIVersionKind av' kind' = key"
    by (rule splitN_2_cases [of "CHR ''.''" key])
      (auto simp: ParseKeyToAPIVersionKind_def makeKeyFromAPIVersionKind_def)
  show "CHR ''/'' \<notin> set g \<longrightarrow> ParseAPIVersionToGroupVersion (g @ ''/'' @ v) = (g, v)"
    by (simp add: ParseAPIVersionToGroupVersion_def numeral_2_eq_2 takeWhile_sep dropWhile_sep)
  show "CHR ''/'' \<notin> set v \<longrightarrow> ParseAPIVersionToGroupVersion v = ('''', v)"
    by (simp add: ParseAPIVersionToGroupVersion_def numeral_2_eq_2)
qed (simp add: parse_make_key)

theorem keys_round_trip_witness:
  "ParseKeyToAPIVersionKind (makeKeyFromAPIVersionKind ''v1'' ''Pod'') = Inr (''v1'', ''Pod'') \<and>
   ParseAPIVersionToGroupVersion (''apps'' @ ''/'' @ ''v1'') = (''apps'', ''v1'')"
  using keys_round_trip [of "''Pod''" "''v1''" "''''" "''apps''" "''v1''"] by simp

text \<open>
  \<open>Len\<close> counts the objects that \<open>List\<close> returns, nil entries aside, and a registry is
  empty exactly when it counts none.
\<close>
theorem len_empty_list:
  "Len m = length (filter (\<lambda>x. x \<noteq> None) (registry_List m)) \<and> (IsEmpty m \<longleftrightarrow> Len m = 0)"
proof
  show count: "Len m = length (filter (\<lambda>x. x \<noteq> None) (registry_List m))"
  proof (induction m)
    case (Cons p m)
    obtain k grp where p: "p = (k, grp)" by fastforce
    have "length (filter (\<lambda>(n, x). x \<noteq> None) grp) = length (filter (\<lambda>x. x \<noteq> None) (map snd grp))"
      by (induction grp) auto
    with Cons show ?case by (simp add: p Len_def registry_List_def)
  qed (simp add: Len_def registry_List_def)
  have "IsEmpty m \<longleftrightarrow> filter (\<lambda>x. x \<noteq> None) (registry_List m) = []"
    by (fastforce simp: IsEmpty_def registry_List_def list_ex_iff filter_empty_conv)
  then show "IsEmpty m \<longleftrightarrow> Len m = 0" by (simp add: count)
qed

end
