(* ===== verification/Discovery.thy ===== *)
theory Discovery
  imports Prelude
begin

text \<open>
  \<open>dynamic/discovery/discovery.go\<close>: the cache of API resources discovered at the server.

  A registry holds pointers to resources: the same resource is reached by its name and by
  its kind, and flagging a subresource through one map is seen through the other. So a
  registry has a store, the resources in the order of their allocation, and its maps hold
  positions in it. What the discovery client returns is an argument of \<open>refresh\<close>;
  \<open>schema.ParseGroupVersion\<close> of apimachinery is the parameter \<open>parseGV\<close>.
\<close>

record api_resource =
  rName :: string
  rKind :: string
  rGroup :: string
  rVersion :: string
  rNamespaced :: bool
  rAPIVersion :: string
  supportedSubResources :: "bool gomap"

definition HasSubresource :: "api_resource \<Rightarrow> string \<Rightarrow> bool" where
  "HasSubresource r subResourceName = (map_of (supportedSubResources r) subResourceName = Some True)"

definition GetGroupVersion :: "(string \<Rightarrow> (string \<times> string) res) \<Rightarrow> api_resource \<Rightarrow> (string \<times> string) res" where
  "GetGroupVersion parseGV r =
     (case parseGV (rAPIVersion r) of
        Inl e \<Rightarrow> Inl (Panic (''Failed to parse GroupVersion'' @ err_text e))
      | Inr gv \<Rightarrow> Inr gv)"

definition GetGroupVersionKind ::
  "(string \<Rightarrow> (string \<times> string) res) \<Rightarrow> api_resource \<Rightarrow> (string \<times> string \<times> string) res" where
  "GetGroupVersionKind parseGV r = map_sum id (\<lambda>(g, v). (g, v, rKind r)) (GetGroupVersion parseGV r)"

definition GetGroupVersionResource ::
  "(string \<Rightarrow> (string \<times> string) res) \<Rightarrow> api_resource \<Rightarrow> (string \<times> string \<times> string) res" where
  "GetGroupVersionResource parseGV r = map_sum id (\<lambda>(g, v). (g, v, rName r)) (GetGroupVersion parseGV r)"

definition GetGroupResource :: "api_resource \<Rightarrow> string \<times> string" where
  "GetGroupResource r = (rGroup r, rName r)"

section \<open>The state\<close>

record apiResourceRegistry =
  rsStore :: "api_resource list"
  rsResources :: "nat gomap"
  rsKinds :: "nat gomap"
  rsSubresources :: "nat gomap"

datatype channel = NilChan | OpenChan | ClosedChan

record discovery =
  getAPIFn :: "(string \<Rightarrow> string \<Rightarrow> api_resource option) option"
  discoveredResources :: "apiResourceRegistry gomap option"
  isStarted :: bool
  stopCh :: channel

definition NewAPIResourceDiscoverer :: discovery where
  "NewAPIResourceDiscoverer =
     \<lparr>getAPIFn = None, discoveredResources = None, isStarted = False, stopCh = NilChan\<rparr>"

section \<open>Lookups\<close>

definition deref :: "apiResourceRegistry \<Rightarrow> nat option \<Rightarrow> api_resource option" where
  "deref rs p = map_option (\<lambda>i. rsStore rs ! i) p"

definition lookupResource :: "discovery \<Rightarrow> string \<Rightarrow> string \<Rightarrow> api_resource option" where
  "lookupResource d apiVersion resource =
     (case map_of (mrange (discoveredResources d)) apiVersion of
        None \<Rightarrow> None
      | Some registry \<Rightarrow> deref registry (map_of (rsResources registry) resource))"

definition GetAPIForAPIVersionAndResource :: "discovery \<Rightarrow> string \<Rightarrow> string \<Rightarrow> api_resource option" where
  "GetAPIForAPIVersionAndResource d apiVersion resource =
     (case getAPIFn d of
        Some fn \<Rightarrow> fn apiVersion resource
      | None \<Rightarrow> lookupResource d apiVersion resource)"

definition GetAPIForAPIVersionAndKind :: "discovery \<Rightarrow> string \<Rightarrow> string \<Rightarrow> api_resource option" where
  "GetAPIForAPIVersionAndKind d apiVersion kind =
     (case map_of (mrange (discoveredResources d)) apiVersion of
        None \<Rightarrow> None
      | Some registry \<Rightarrow> deref registry (map_of (rsKinds registry) kind))"

definition GetAPIResourcesForKind :: "discovery \<Rightarrow> string \<Rightarrow> api_resource list" where
  "GetAPIResourcesForKind d kind =
     List.map_filter (\<lambda>(gv, registry). deref registry (map_of (rsKinds registry) kind))
       (mrange (discoveredResources d))"

definition HasSynced :: "discovery \<Rightarrow> bool" where
  "HasSynced d = (discoveredResources d \<noteq> None)"

section \<open>Refreshing\<close>

text \<open>One resource of a list: defaults are filled in and the three maps are updated.\<close>

definition complete :: "string \<Rightarrow> string \<times> string \<Rightarrow> api_resource \<Rightarrow> api_resource" where
  "complete groupVersion gv r =
     r\<lparr>rAPIVersion := groupVersion, supportedSubResources := [],
       rGroup := (if rGroup r = '''' then fst gv else rGroup r),
       rVersion := (if rVersion r = '''' then snd gv else rVersion r)\<rparr>"

definition add_resource ::
  "string \<Rightarrow> string \<times> string \<Rightarrow> api_resource \<Rightarrow> apiResourceRegistry \<Rightarrow> apiResourceRegistry" where
  "add_resource groupVersion gv res rs =
     (let apiResource = complete groupVersion gv res;
          i = length (rsStore rs);
          rs1 = rs\<lparr>rsStore := rsStore rs @ [apiResource],
                   rsResources := mput (rName apiResource) i (rsResources rs)\<rparr>
      in if CHR ''/'' \<in> set (rName apiResource)
         then rs1\<lparr>rsSubresources := mput (rName apiResource) i (rsSubresources rs)\<rparr>
         else rs1\<lparr>rsKinds := mput (rKind apiResource) i (rsKinds rs)\<rparr>)"

definition flag_subresource :: "string \<Rightarrow> apiResourceRegistry \<Rightarrow> apiResourceRegistry res" where
  "flag_subresource subResourceNamedPath rs =
     (case split_on CHR ''/'' subResourceNamedPath of
        resName # subResName # _ \<Rightarrow>
          Inr (case map_of (rsResources rs) resName of
                 None \<Rightarrow> rs
               | Some i \<Rightarrow> rs\<lparr>rsStore := (rsStore rs)[i := (rsStore rs ! i)\<lparr>supportedSubResources :=
                   mput subResName True (supportedSubResources (rsStore rs ! i))\<rparr>]\<rparr>)
      | _ \<Rightarrow> Inl (Panic ''index out of range''))"

fun flag_subresources :: "string list \<Rightarrow> apiResourceRegistry \<Rightarrow> apiResourceRegistry res" where
  "flag_subresources [] rs = Inr rs"
| "flag_subresources (p # ps) rs =
     (case flag_subresource p rs of Inl e \<Rightarrow> Inl e | Inr rs' \<Rightarrow> flag_subresources ps rs')"

definition registrySet :: "string \<Rightarrow> string \<times> string \<Rightarrow> api_resource list \<Rightarrow> apiResourceRegistry res" where
  "registrySet groupVersion gv resources =
     (let rs = fold (add_resource groupVersion gv) resources
            \<lparr>rsStore = [], rsResources = [], rsKinds = [], rsSubresources = []\<rparr>
      in flag_subresources (mkeys (rsSubresources rs)) rs)"

fun group_versions ::
  "(string \<Rightarrow> (string \<times> string) res) \<Rightarrow> (string \<times> api_resource list) list \<Rightarrow>
   apiResourceRegistry gomap \<Rightarrow> apiResourceRegistry gomap res" where
  "group_versions parseGV [] groupVersions = Inr groupVersions"
| "group_versions parseGV ((groupVersion, resources) # glists) groupVersions =
     (case parseGV groupVersion of
        Inl e \<Rightarrow> Inl (Panic (''API resource discovery failed'' @ err_text e))
      | Inr gv \<Rightarrow>
     (case registrySet groupVersion gv resources of
        Inl e \<Rightarrow> Inl e
      | Inr rs \<Rightarrow> group_versions parseGV glists (mput groupVersion rs groupVersions)))"

text \<open>An error of the discovery client leaves the cache as it is.\<close>

definition refresh ::
  "(string \<Rightarrow> (string \<times> string) res) \<Rightarrow> (string \<times> api_resource list) list res \<Rightarrow> discovery \<Rightarrow> discovery res" where
  "refresh parseGV serverResources d =
     (case serverResources of
        Inl e \<Rightarrow> Inr d
      | Inr allGVResourceList \<Rightarrow>
     (case group_versions parseGV allGVResourceList [] of
        Inl e \<Rightarrow> Inl e
      | Inr groupVersions \<Rightarrow> Inr (d\<lparr>discoveredResources := Some groupVersions\<rparr>)))"

section \<open>Starting and stopping\<close>

text \<open>
  \<open>Start\<close> reports whether it launches the goroutine. \<open>Stop\<close> closes the channel, which
  panics when it is nil or closed, waits for the goroutine and clears the flag.
\<close>

definition StartIfNotAlready :: "discovery \<Rightarrow> bool \<times> discovery" where
  "StartIfNotAlready d = (if isStarted d then (False, d) else (True, d\<lparr>isStarted := True\<rparr>))"

definition Start :: "discovery \<Rightarrow> bool \<times> discovery" where
  "Start d =
     (if isStarted d then (False, d)
      else case StartIfNotAlready d of
        (False, d') \<Rightarrow> (False, d')
      | (True, d') \<Rightarrow> (True, d'\<lparr>stopCh := OpenChan\<rparr>))"

definition Stop :: "discovery \<Rightarrow> discovery res" where
  "Stop d =
     (case stopCh d of
        OpenChan \<Rightarrow> Inr (d\<lparr>stopCh := ClosedChan, isStarted := False\<rparr>)
      | NilChan \<Rightarrow> Inl (Panic ''close of nil channel'')
      | ClosedChan \<Rightarrow> Inl (Panic ''close of closed channel''))"

section \<open>What a registry holds\<close>

lemma split_on_two: "CHR ''/'' \<in> set p \<Longrightarrow> \<exists>a b r. split_on CHR ''/'' p = a # b # r"
proof -
  assume "CHR ''/'' \<in> set p"
  then obtain a q where "p = a @ CHR ''/'' # q" "CHR ''/'' \<notin> set a"
    by (meson split_list_first)
  then show ?thesis
    by (cases "split_on CHR ''/'' q") (auto simp: split_on_append)
qed

text \<open>The registry before the subresources are flagged.\<close>

definition last_by :: "('a \<Rightarrow> bool) \<Rightarrow> 'a list \<Rightarrow> 'a option" where
  "last_by P xs = find P (rev xs)"

lemma last_by_snoc: "last_by P (xs @ [x]) = (if P x then Some x else last_by P xs)"
  by (simp add: last_by_def)

definition holds :: "string \<Rightarrow> string \<times> string \<Rightarrow> api_resource list \<Rightarrow> apiResourceRegistry \<Rightarrow> bool" where
  "holds v gv xs rs =
     (rsStore rs = map (complete v gv) xs \<and>
      (\<forall>n. map_option (\<lambda>i. rsStore rs ! i) (map_of (rsResources rs) n) =
         map_option (complete v gv) (last_by (\<lambda>r. rName r = n) xs)) \<and>
      (\<forall>k. map_option (\<lambda>i. rsStore rs ! i) (map_of (rsKinds rs) k) =
         map_option (complete v gv) (last_by (\<lambda>r. rKind r = k \<and> CHR ''/'' \<notin> set (rName r)) xs)) \<and>
      (\<forall>n i. map_of (rsResources rs) n = Some i \<longrightarrow> i < length (rsStore rs)) \<and>
      (\<forall>k i. map_of (rsKinds rs) k = Some i \<longrightarrow> i < length (rsStore rs)) \<and>
      set (mkeys (rsSubresources rs)) = rName ` set xs \<inter> {n. CHR ''/'' \<in> set n})"

lemma holds_name: "holds v gv xs rs \<Longrightarrow> map_option (\<lambda>i. rsStore rs ! i) (map_of (rsResources rs) n) =
    map_option (complete v gv) (last_by (\<lambda>r. rName r = n) xs)"
  unfolding holds_def by blast

lemma holds_kind: "holds v gv xs rs \<Longrightarrow> map_option (\<lambda>i. rsStore rs ! i) (map_of (rsKinds rs) k) =
    map_option (complete v gv) (last_by (\<lambda>r. rKind r = k \<and> CHR ''/'' \<notin> set (rName r)) xs)"
  unfolding holds_def by blast

lemma complete_fields [simp]:
  "rName (complete v gv r) = rName r" "rKind (complete v gv r) = rKind r"
  "supportedSubResources (complete v gv r) = []"
  by (simp_all add: complete_def)

lemma nth_append_map:
  "(\<And>i. p = Some i \<Longrightarrow> i < length xs) \<Longrightarrow>
   map_option (\<lambda>i. (xs @ [y]) ! i) p = map_option (\<lambda>i. xs ! i) p"
  by (cases p) (auto simp: nth_append)

lemma holds_add:
  assumes "holds v gv xs rs"
  shows "holds v gv (xs @ [x]) (add_resource v gv x rs)"
proof -
  let ?st = "map (complete v gv) xs"
  from assms have st: "rsStore rs = ?st" by (simp add: holds_def)
  have n: "map_option (\<lambda>i. (?st @ [y]) ! i) (map_of (rsResources rs) n) =
      map_option (\<lambda>i. ?st ! i) (map_of (rsResources rs) n)" for n y
    using assms by (intro nth_append_map) (auto simp: holds_def)
  have k: "map_option (\<lambda>i. (?st @ [y]) ! i) (map_of (rsKinds rs) k) =
      map_option (\<lambda>i. ?st ! i) (map_of (rsKinds rs) k)" for k y
    using assms by (intro nth_append_map) (auto simp: holds_def)
  have l: "(?st @ [y]) ! length xs = y" for y by (simp add: nth_append)
  from assms st show ?thesis
    by (cases "CHR ''/'' \<in> set (rName x)")
      (auto simp: holds_def add_resource_def Let_def last_by_snoc n k l mkeys_dom less_Suc_eq
        simp del: set_map)
qed

lemma holds_fold:
  "holds v gv ys rs \<Longrightarrow> holds v gv (ys @ xs) (fold (add_resource v gv) xs rs)"
proof (induction xs arbitrary: ys rs)
  case (Cons x xs)
  from Cons.IH [OF holds_add [OF Cons.prems]] show ?case by simp
qed simp

lemma holds_all:
  "holds v gv xs (fold (add_resource v gv) xs
     \<lparr>rsStore = [], rsResources = [], rsKinds = [], rsSubresources = []\<rparr>)"
proof -
  have "holds v gv [] \<lparr>rsStore = [], rsResources = [], rsKinds = [], rsSubresources = []\<rparr>"
    by (simp add: holds_def last_by_def)
  from holds_fold [OF this, of xs] show ?thesis by simp
qed

text \<open>What flagging the subresources adds.\<close>

definition names_sub :: "string \<Rightarrow> string \<Rightarrow> string \<Rightarrow> bool" where
  "names_sub n s p = (\<exists>rest. split_on CHR ''/'' p = n # s # rest)"

definition subs_of :: "apiResourceRegistry \<Rightarrow> nat \<Rightarrow> bool gomap" where
  "subs_of rs i = supportedSubResources (rsStore rs ! i)"

definition flagged :: "string list \<Rightarrow> apiResourceRegistry \<Rightarrow> apiResourceRegistry \<Rightarrow> bool" where
  "flagged ps rs rs' =
     (rsResources rs' = rsResources rs \<and> rsKinds rs' = rsKinds rs \<and>
      length (rsStore rs') = length (rsStore rs) \<and>
      (\<forall>i < length (rsStore rs).
         rsStore rs' ! i = (rsStore rs ! i)\<lparr>supportedSubResources := subs_of rs' i\<rparr>) \<and>
      (\<forall>i < length (rsStore rs). \<forall>s. map_of (subs_of rs' i) s =
         (if \<exists>p \<in> set ps. \<exists>n. names_sub n s p \<and> map_of (rsResources rs) n = Some i then Some True
          else map_of (subs_of rs i) s)))"

lemma flag_one:
  assumes "CHR ''/'' \<in> set p"
  shows "\<exists>rs'. flag_subresource p rs = Inr rs' \<and> flagged [p] rs rs'"
proof -
  from split_on_two [OF assms] obtain a b r where p: "split_on CHR ''/'' p = a # b # r" by blast
  show ?thesis
  proof (cases "map_of (rsResources rs) a")
    case None
    with p show ?thesis
      by (auto simp: flag_subresource_def flagged_def names_sub_def subs_of_def)
  next
    case (Some i)
    with p show ?thesis
      by (cases "i < length (rsStore rs)")
        (auto simp: flag_subresource_def flagged_def names_sub_def subs_of_def nth_list_update
          list_update_beyond)
  qed
qed

lemma flagged_trans:
  assumes "flagged [p] rs rs1" and "flagged ps rs1 rs2"
  shows "flagged (p # ps) rs rs2"
proof -
  have store: "rsStore rs2 ! i = (rsStore rs ! i)\<lparr>supportedSubResources := subs_of rs2 i\<rparr>"
    if "i < length (rsStore rs)" for i
    using assms that by (auto simp: flagged_def)
  have subs: "map_of (subs_of rs2 i) s =
      (if \<exists>p' \<in> set (p # ps). \<exists>n. names_sub n s p' \<and> map_of (rsResources rs) n = Some i then Some True
       else map_of (subs_of rs i) s)" if "i < length (rsStore rs)" for i s
    using assms that by (auto simp: flagged_def)
  from assms store subs show ?thesis by (simp add: flagged_def)
qed

lemma flag_all:
  "\<forall>p \<in> set ps. CHR ''/'' \<in> set p \<Longrightarrow> \<exists>rs'. flag_subresources ps rs = Inr rs' \<and> flagged ps rs rs'"
proof (induction ps arbitrary: rs)
  case Nil
  show ?case by (simp add: flagged_def subs_of_def)
next
  case (Cons p ps)
  then obtain rs1 where rs1: "flag_subresource p rs = Inr rs1" "flagged [p] rs rs1"
    using flag_one [of p rs] by auto
  from Cons obtain rs2 where "flag_subresources ps rs1 = Inr rs2" "flagged ps rs1 rs2" by auto
  with rs1 flagged_trans show ?case by auto
qed

lemma distinct_names_inj:
  assumes "distinct (map rName xs)" and "i < length xs" and "j < length xs"
    and "rName (xs ! i) = rName (xs ! j)"
  shows "i = j"
  using assms nth_eq_iff_index_eq [of "map rName xs" i j] by simp

lemma holds_only:
  assumes "holds v gv xs rs" and "map_of (rsResources rs) n = Some i"
  shows "i < length xs \<and> n = rName (xs ! i)"
proof -
  have store: "rsStore rs = map (complete v gv) xs" using assms(1) by (simp add: holds_def)
  from holds_name [OF assms(1), of n] assms(2) obtain e where
    e: "last_by (\<lambda>r. rName r = n) xs = Some e" "rsStore rs ! i = complete v gv e"
    by (cases "last_by (\<lambda>r. rName r = n) xs") auto
  from e(1) have "rName e = n" by (auto simp: last_by_def dest: find_SomeD)
  moreover have "i < length xs" using assms by (auto simp: holds_def)
  ultimately show ?thesis using e(2) store by (metis complete_fields(1) nth_map)
qed

lemma holds_idx:
  assumes "holds v gv xs rs" and "distinct (map rName xs)" and "i < length xs"
  shows "map_of (rsResources rs) (rName (xs ! i)) = Some i"
proof -
  have "last_by (\<lambda>r. rName r = rName (xs ! i)) xs \<noteq> None"
    using nth_mem [OF assms(3)] by (auto simp: last_by_def find_None_iff)
  then obtain e where "last_by (\<lambda>r. rName r = rName (xs ! i)) xs = Some e" by blast
  with holds_name [OF assms(1), of "rName (xs ! i)"] obtain j where
    "map_of (rsResources rs) (rName (xs ! i)) = Some j"
    by auto
  with holds_only [OF assms(1) this] distinct_names_inj [OF assms(2,3), of j] show ?thesis by simp
qed

lemma flagged_names:
  assumes h: "holds v gv xs rs" and "distinct (map rName xs)" and i: "i < length xs"
  shows "(\<exists>p \<in> set (mkeys (rsSubresources rs)). \<exists>n. names_sub n s p \<and>
      map_of (rsResources rs) n = Some i) \<longleftrightarrow>
    (\<exists>e' \<in> set xs. names_sub (rName (xs ! i)) s (rName e'))"
proof -
  have slash: "CHR ''/'' \<in> set p" if "names_sub n s p" for n p
  proof (rule ccontr)
    assume "CHR ''/'' \<notin> set p"
    then have "split_on CHR ''/'' p = [p]" by (rule split_on_no_sep)
    with that show False by (simp add: names_sub_def)
  qed
  have keys: "set (mkeys (rsSubresources rs)) = rName ` set xs \<inter> {n. CHR ''/'' \<in> set n}"
    using h unfolding holds_def by blast
  show ?thesis
  proof
    assume "\<exists>p \<in> set (mkeys (rsSubresources rs)). \<exists>n. names_sub n s p \<and>
      map_of (rsResources rs) n = Some i"
    then obtain p n where "p \<in> rName ` set xs" "names_sub n s p" "n = rName (xs ! i)"
      unfolding keys using holds_only [OF h] by blast
    then show "\<exists>e' \<in> set xs. names_sub (rName (xs ! i)) s (rName e')" by blast
  next
    assume "\<exists>e' \<in> set xs. names_sub (rName (xs ! i)) s (rName e')"
    then obtain e' where e': "e' \<in> set xs" "names_sub (rName (xs ! i)) s (rName e')" by blast
    then have "rName e' \<in> set (mkeys (rsSubresources rs))" unfolding keys using slash by blast
    with e' holds_idx [OF assms] show "\<exists>p \<in> set (mkeys (rsSubresources rs)). \<exists>n. names_sub n s p \<and>
      map_of (rsResources rs) n = Some i" by blast
  qed
qed

text \<open>A finished registry is a filled one with the subresources flagged.\<close>

lemma registrySet_split:
  obtains rs0 rs where "holds v gv xs rs0" "registrySet v gv xs = Inr rs"
    "flagged (mkeys (rsSubresources rs0)) rs0 rs"
proof -
  define rs0 where "rs0 = fold (add_resource v gv) xs
    \<lparr>rsStore = [], rsResources = [], rsKinds = [], rsSubresources = []\<rparr>"
  have h: "holds v gv xs rs0" unfolding rs0_def by (rule holds_all)
  then have "\<forall>p \<in> set (mkeys (rsSubresources rs0)). CHR ''/'' \<in> set p"
    by (auto simp: holds_def simp del: set_map)
  from flag_all [OF this, of rs0] h that show ?thesis
    by (auto simp: registrySet_def rs0_def [symmetric] Let_def)
qed

lemma registrySet_total: "\<exists>rs. registrySet v gv xs = Inr rs"
  by (rule registrySet_split [of v gv xs]) blast

lemma registry_name:
  assumes "registrySet v gv xs = Inr rs" and "distinct (map rName xs)" and "e \<in> set xs"
  shows "\<exists>r. deref rs (map_of (rsResources rs) (rName e)) = Some r \<and>
    r = (complete v gv e)\<lparr>supportedSubResources := supportedSubResources r\<rparr> \<and>
    (\<forall>s. HasSubresource r s \<longleftrightarrow> (\<exists>e' \<in> set xs. names_sub (rName e) s (rName e')))"
proof -
  obtain rs0 where h: "holds v gv xs rs0" and fl: "flagged (mkeys (rsSubresources rs0)) rs0 rs"
    using registrySet_split [of v gv xs] assms(1) by auto
  from assms(3) obtain i where i: "i < length xs" "e = xs ! i" by (metis in_set_conv_nth)
  from h have store: "rsStore rs0 = map (complete v gv) xs" by (simp add: holds_def)
  then have "rsStore rs ! i = (complete v gv e)\<lparr>supportedSubResources := subs_of rs i\<rparr>"
    using fl i by (simp add: flagged_def)
  moreover have "HasSubresource (rsStore rs ! i) s \<longleftrightarrow>
      (\<exists>e' \<in> set xs. names_sub (rName e) s (rName e'))" for s
    using fl i store flagged_names [OF h assms(2) i(1), of s]
    by (auto simp: flagged_def HasSubresource_def subs_of_def simp del: set_map)
  moreover have "map_of (rsResources rs) (rName e) = Some i"
    using fl holds_idx [OF h assms(2) i(1)] i by (simp add: flagged_def)
  ultimately show ?thesis by (simp add: deref_def)
qed

lemma registry_no_name:
  assumes "registrySet v gv xs = Inr rs" and "n \<notin> rName ` set xs"
  shows "deref rs (map_of (rsResources rs) n) = None"
proof -
  obtain rs0 where h: "holds v gv xs rs0" and fl: "flagged (mkeys (rsSubresources rs0)) rs0 rs"
    using registrySet_split [of v gv xs] assms(1) by auto
  then have "map_of (rsResources rs) n = map_of (rsResources rs0) n" by (simp add: flagged_def)
  with holds_only [OF h, of n] assms(2) show ?thesis
    by (cases "map_of (rsResources rs0) n") (fastforce simp: deref_def)+
qed

lemma registry_kind:
  assumes "registrySet v gv xs = Inr rs" and "distinct (map rName xs)"
  shows "deref rs (map_of (rsKinds rs) k) =
    (case last_by (\<lambda>e. rKind e = k \<and> CHR ''/'' \<notin> set (rName e)) xs of
       None \<Rightarrow> None | Some e \<Rightarrow> deref rs (map_of (rsResources rs) (rName e)))"
proof -
  obtain rs0 where h: "holds v gv xs rs0" and fl: "flagged (mkeys (rsSubresources rs0)) rs0 rs"
    using registrySet_split [of v gv xs] assms(1) by auto
  then have maps: "rsResources rs = rsResources rs0" "rsKinds rs = rsKinds rs0"
    by (simp_all add: flagged_def)
  from h have store: "rsStore rs0 = map (complete v gv) xs" by (simp add: holds_def)
  show ?thesis
  proof (cases "last_by (\<lambda>e. rKind e = k \<and> CHR ''/'' \<notin> set (rName e)) xs")
    case None
    with holds_kind [OF h, of k] show ?thesis by (simp add: deref_def maps)
  next
    case (Some e)
    with holds_kind [OF h, of k] obtain j where
      j: "map_of (rsKinds rs0) k = Some j" "rsStore rs0 ! j = complete v gv e"
      by auto
    with h have "j < length xs" by (auto simp: holds_def)
    moreover from this j store have "rName e = rName (xs ! j)" by (metis complete_fields(1) nth_map)
    ultimately show ?thesis using Some j holds_idx [OF h assms(2)] by (simp add: deref_def maps)
  qed
qed

lemma group_versions_lookup:
  assumes "group_versions parseGV ls acc = Inr m" and "distinct (mkeys ls)"
  shows "(v \<notin> set (mkeys ls) \<longrightarrow> map_of m v = map_of acc v) \<and>
    (\<forall>xs. (v, xs) \<in> set ls \<longrightarrow> (\<exists>gv rs. parseGV v = Inr gv \<and> registrySet v gv xs = Inr rs \<and>
       map_of m v = Some rs))"
  using assms
proof (induction ls arbitrary: acc)
  case (Cons p ls)
  obtain w ys where p: "p = (w, ys)" by fastforce
  with Cons.prems obtain gv rs where
    "parseGV w = Inr gv" "registrySet w gv ys = Inr rs"
    "group_versions parseGV ls (mput w rs acc) = Inr m"
    by (auto split: sum.splits)
  with Cons.IH [of "mput w rs acc"] Cons.prems(2) p show ?case
    by (cases "v = w") (auto simp: image_iff)
qed simp

section \<open>Properties\<close>

text \<open>
  C34: After a refresh, every discovered resource is found under its group version and
  name, with the group, version and API version of its list as defaults and with exactly the
  subresources listed as \<open>name/subresource\<close>; no other name is found; and a kind leads to
  the last resource of that kind that is no subresource.
\<close>
theorem refresh_discovers:
  assumes "refresh parseGV (Inr ls) d = Inr d'" and "getAPIFn d = None"
    and "distinct (mkeys ls)" and "(v, xs) \<in> set ls" and "distinct (map rName xs)"
  shows "\<exists>gv. parseGV v = Inr gv \<and>
    (\<forall>e \<in> set xs. \<exists>r. GetAPIForAPIVersionAndResource d' v (rName e) = Some r \<and>
       r = (complete v gv e)\<lparr>supportedSubResources := supportedSubResources r\<rparr> \<and>
       (\<forall>s. HasSubresource r s \<longleftrightarrow> (\<exists>e' \<in> set xs. names_sub (rName e) s (rName e')))) \<and>
    (\<forall>n. n \<notin> rName ` set xs \<longrightarrow> GetAPIForAPIVersionAndResource d' v n = None) \<and>
    (\<forall>k. GetAPIForAPIVersionAndKind d' v k =
       (case last_by (\<lambda>e. rKind e = k \<and> CHR ''/'' \<notin> set (rName e)) xs of
          None \<Rightarrow> None | Some e \<Rightarrow> GetAPIForAPIVersionAndResource d' v (rName e)))"
proof -
  from assms(1) obtain m where m: "group_versions parseGV ls [] = Inr m"
    and d': "d' = d\<lparr>discoveredResources := Some m\<rparr>"
    by (auto simp: refresh_def split: sum.splits)
  from group_versions_lookup [OF m assms(3), of v] assms(4) obtain gv rs where
    gv: "parseGV v = Inr gv" and rs: "registrySet v gv xs = Inr rs" "map_of m v = Some rs"
    by blast
  have res: "GetAPIForAPIVersionAndResource d' v n = deref rs (map_of (rsResources rs) n)" for n
    by (simp add: GetAPIForAPIVersionAndResource_def lookupResource_def d' assms(2) rs(2))
  have kind: "GetAPIForAPIVersionAndKind d' v k = deref rs (map_of (rsKinds rs) k)" for k
    by (simp add: GetAPIForAPIVersionAndKind_def d' rs(2))
  from registry_name [OF rs(1) assms(5)] registry_no_name [OF rs(1)]
    registry_kind [OF rs(1) assms(5)] gv
  show ?thesis unfolding res kind by blast
qed

definition core_gv :: "string \<Rightarrow> (string \<times> string) res" where
  "core_gv v = Inr ('''', v)"

definition pods :: "api_resource list" where
  "pods = [\<lparr>rName = ''pods'', rKind = ''Pod'', rGroup = '''', rVersion = '''', rNamespaced = True,
      rAPIVersion = '''', supportedSubResources = []\<rparr>,
     \<lparr>rName = ''pods/status'', rKind = ''Pod'', rGroup = '''', rVersion = '''', rNamespaced = True,
      rAPIVersion = '''', supportedSubResources = []\<rparr>]"

theorem refresh_discovers_witness:
  "\<exists>d' r. refresh core_gv (Inr [(''v1'', pods)]) NewAPIResourceDiscoverer = Inr d' \<and>
    GetAPIForAPIVersionAndResource d' ''v1'' ''pods'' = Some r \<and> HasSubresource r ''status'' \<and>
    GetAPIForAPIVersionAndKind d' ''v1'' ''Pod'' = Some r"
proof -
  from registrySet_total obtain rs where "registrySet ''v1'' ('''', ''v1'') pods = Inr rs" by blast
  then obtain d' where d': "refresh core_gv (Inr [(''v1'', pods)]) NewAPIResourceDiscoverer = Inr d'"
    by (auto simp: refresh_def core_gv_def)
  have sub: "names_sub ''pods'' ''status'' ''pods/status''" by (simp add: names_sub_def)
  have last: "last_by (\<lambda>e. rKind e = ''Pod'' \<and> CHR ''/'' \<notin> set (rName e)) pods = Some (pods ! 0)"
    by (simp add: last_by_def pods_def)
  have mem: "pods ! 0 \<in> set pods" "pods ! 1 \<in> set pods" "rName (pods ! 0) = ''pods''"
    "rName (pods ! 1) = ''pods/status''" "distinct (map rName pods)"
    by (simp_all add: pods_def)
  have fn: "getAPIFn NewAPIResourceDiscoverer = None" by (simp add: NewAPIResourceDiscoverer_def)
  from refresh_discovers [OF d' fn, of "''v1''" pods] mem(5) obtain r where
    "GetAPIForAPIVersionAndResource d' ''v1'' ''pods'' = Some r"
    "\<forall>s. HasSubresource r s \<longleftrightarrow> (\<exists>e' \<in> set pods. names_sub ''pods'' s (rName e'))"
    "GetAPIForAPIVersionAndKind d' ''v1'' ''Pod'' =
       GetAPIForAPIVersionAndResource d' ''v1'' (rName (pods ! 0))"
    using mem(1,3) last by auto
  with d' sub mem show ?thesis by metis
qed

text \<open>
  The cache is replaced as a whole or not at all: a refresh that fails leaves what was
  discovered before, a refresh that succeeds drops every group version the server no longer
  lists, and the cache counts as synced once a refresh has succeeded.
\<close>
theorem refresh_replaces:
  "refresh parseGV (Inl e) d = Inr d \<and>
   (refresh parseGV (Inr ls) d = Inr d' \<and> distinct (mkeys ls) \<and> v \<notin> set (mkeys ls) \<longrightarrow>
      lookupResource d' v n = None \<and> GetAPIForAPIVersionAndKind d' v k = None) \<and>
   (refresh parseGV (Inr ls) d = Inr d' \<longrightarrow> HasSynced d') \<and>
   ((\<forall>v \<in> set (mkeys ls). isOK (parseGV v)) \<longrightarrow> isOK (refresh parseGV (Inr ls) d))"
proof (intro conjI impI)
  have total: "isOK (group_versions parseGV ls acc)" if "\<forall>v \<in> set (mkeys ls). isOK (parseGV v)" for acc
    using that
  proof (induction ls arbitrary: acc)
    case (Cons p ls)
    obtain w ys where p: "p = (w, ys)" by fastforce
    with Cons.prems obtain gv where "parseGV w = Inr gv" by (auto simp: isOK_iff)
    with Cons p registrySet_total [of w gv ys] show ?case by auto
  qed simp
  assume "\<forall>v \<in> set (mkeys ls). isOK (parseGV v)"
  with total [of "[]"] show "isOK (refresh parseGV (Inr ls) d)"
    by (auto simp: refresh_def isOK_iff)
next
  assume a: "refresh parseGV (Inr ls) d = Inr d' \<and> distinct (mkeys ls) \<and> v \<notin> set (mkeys ls)"
  then obtain m where m: "group_versions parseGV ls [] = Inr m"
    and d': "d' = d\<lparr>discoveredResources := Some m\<rparr>"
    by (auto simp: refresh_def split: sum.splits)
  from group_versions_lookup [OF m] a have none: "map_of m v = None" by auto
  show "lookupResource d' v n = None" by (simp add: lookupResource_def d' none)
  show "GetAPIForAPIVersionAndKind d' v k = None"
    by (simp add: GetAPIForAPIVersionAndKind_def d' none)
qed (auto simp: refresh_def HasSynced_def split: sum.splits)

theorem refresh_replaces_witness:
  "\<exists>d'. refresh core_gv (Inr []) NewAPIResourceDiscoverer = Inr d' \<and> HasSynced d'"
proof -
  obtain d' where "refresh core_gv (Inr []) NewAPIResourceDiscoverer = Inr d'"
    by (simp add: refresh_def)
  with refresh_replaces [of core_gv "Msg ''''" NewAPIResourceDiscoverer "[]" d'] show ?thesis by auto
qed

end
