(* ===== verification/Objects.thy ===== *)
theory Objects
  imports KubeLib
begin

text \<open>
  \<open>dynamic/object/metadata.go\<close>: finalizers and annotations of an object, and
  \<open>dynamic/object/status.go\<close>: the conditions of its status.
\<close>

section \<open>Finalizers\<close>

definition HasFinalizer :: "kube \<Rightarrow> obj \<Rightarrow> string \<Rightarrow> bool" where
  "HasFinalizer K obj name = list_ex (\<lambda>item. item = name) (GetFinalizers K obj)"

definition AddFinalizer :: "kube \<Rightarrow> obj \<Rightarrow> string \<Rightarrow> obj" where
  "AddFinalizer K obj name =
     (if HasFinalizer K obj name then obj
      else SetFinalizers K obj (GetFinalizers K obj @ [name]))"

text \<open>The loop stops at the first hit: \<open>finalizers[:i]\<close> and \<open>finalizers[i+1:]\<close> are joined.\<close>

fun cut_first :: "string \<Rightarrow> string list \<Rightarrow> string list option" where
  "cut_first name [] = None"
| "cut_first name (item # items) =
     (if item = name then Some items else map_option ((#) item) (cut_first name items))"

definition RemoveFinalizer :: "kube \<Rightarrow> obj \<Rightarrow> string \<Rightarrow> obj" where
  "RemoveFinalizer K obj name =
     (case cut_first name (GetFinalizers K obj) of
        Some finalizers \<Rightarrow> SetFinalizers K obj finalizers
      | None \<Rightarrow> obj)"

lemma cut_first_eq: "cut_first name fs = (if name \<in> set fs then Some (remove1 name fs) else None)"
  by (induction fs) auto

lemma HasFinalizer_iff: "HasFinalizer K x name \<longleftrightarrow> name \<in> set (GetFinalizers K x)"
  by (auto simp: HasFinalizer_def list_ex_iff)

section \<open>Annotations\<close>

text \<open>Reading a missing key of a Go map of strings gives the empty string.\<close>

definition str_index :: "strmap \<Rightarrow> string \<Rightarrow> string" where
  "str_index m k = (case map_of m k of None \<Rightarrow> '''' | Some v \<Rightarrow> v)"

lemma str_index_mput [simp]: "str_index (mput k v m) k' = (if k = k' then v else str_index m k')"
  by (simp add: str_index_def)

definition HasAnnotation :: "kube \<Rightarrow> obj \<Rightarrow> string \<Rightarrow> string \<Rightarrow> bool" where
  "HasAnnotation K obj key value =
     (case GetAnnotations K obj of
        None \<Rightarrow> False
      | Some anns \<Rightarrow> str_index anns key = value)"

definition AddAnnotation :: "kube \<Rightarrow> obj \<Rightarrow> string \<Rightarrow> string \<Rightarrow> obj" where
  "AddAnnotation K obj key value =
     (if HasAnnotation K obj key value then obj
      else let anns = (case GetAnnotations K obj of None \<Rightarrow> [] | Some anns \<Rightarrow> anns)
           in SetAnnotations K obj (mput key value anns))"

section \<open>Status conditions\<close>

record StatusCondition =
  cType :: string
  cStatus :: string
  cReason :: string
  cMessage :: string

definition condition_Object :: "StatusCondition \<Rightarrow> obj" where
  "condition_Object c =
     [(''type'', JStr (cType c)), (''status'', JStr (cStatus c))]
     @ (if cReason c \<noteq> '''' then [(''reason'', JStr (cReason c))] else [])
     @ (if cMessage c \<noteq> '''' then [(''message'', JStr (cMessage c))] else [])"

definition string_field :: "obj \<Rightarrow> string \<Rightarrow> string" where
  "string_field obj k = (case as_string (index obj k) of None \<Rightarrow> '''' | Some s \<Rightarrow> s)"

definition NewStatusCondition :: "obj \<Rightarrow> StatusCondition" where
  "NewStatusCondition obj =
     \<lparr>cType = string_field obj ''type'', cStatus = string_field obj ''status'',
      cReason = string_field obj ''reason'', cMessage = string_field obj ''message''\<rparr>"

definition has_type :: "string \<Rightarrow> obj \<Rightarrow> bool" where
  "has_type conditionType obj = (as_string (index obj ''type'') = Some conditionType)"

fun find_condition :: "string \<Rightarrow> json list \<Rightarrow> StatusCondition option" where
  "find_condition conditionType [] = None"
| "find_condition conditionType (item # items) =
     (case as_map item of
        (Some obj, True) \<Rightarrow>
          if has_type conditionType obj then Some (NewStatusCondition obj)
          else find_condition conditionType items
      | _ \<Rightarrow> find_condition conditionType items)"

definition GetStatusCondition :: "obj \<Rightarrow> string \<Rightarrow> StatusCondition option" where
  "GetStatusCondition obj conditionType =
     find_condition conditionType (elems (GetNestedArray obj [''status'', ''conditions'']))"

text \<open>
  \<open>SetCondition\<close> overwrites an element of the slice it reads, which is the slice stored in
  the status; only an appended slice is stored again.
\<close>

fun overwrite_condition :: "StatusCondition \<Rightarrow> json list \<Rightarrow> json list option" where
  "overwrite_condition condition [] = None"
| "overwrite_condition condition (item # items) =
     (case as_map item of
        (Some cobj, True) \<Rightarrow>
          if has_type (cType condition) cobj then Some (JObj (condition_Object condition) # items)
          else map_option ((#) item) (overwrite_condition condition items)
      | _ \<Rightarrow> map_option ((#) item) (overwrite_condition condition items))"

definition SetCondition :: "obj \<Rightarrow> StatusCondition \<Rightarrow> obj res" where
  "SetCondition status condition =
     (let conditions = elems (GetNestedArray status [''conditions'']) in
      case overwrite_condition condition conditions of
        Some conditions' \<Rightarrow> Inr (mput ''conditions'' (JArr conditions') status)
      | None \<Rightarrow>
          SetNestedField status (JArr (conditions @ [JObj (condition_Object condition)])) [''conditions''])"

definition SetStatusCondition :: "obj \<Rightarrow> StatusCondition \<Rightarrow> obj res" where
  "SetStatusCondition obj condition =
     (let status = (case GetNestedObject obj [''status''] of None \<Rightarrow> [] | Some s \<Rightarrow> s) in
      case SetCondition status condition of
        Inl e \<Rightarrow> Inl e
      | Inr status' \<Rightarrow> SetNestedField obj (JObj status') [''status''])"

definition GetObservedGeneration :: "obj \<Rightarrow> int" where
  "GetObservedGeneration obj = GetNestedInt64 obj [''status'', ''observedGeneration'']"

lemma condition_round_trip: "NewStatusCondition (condition_Object c) = c"
  by (simp add: NewStatusCondition_def condition_Object_def string_field_def index_def)

lemma has_type_Object [simp]: "has_type t (condition_Object c) \<longleftrightarrow> t = cType c"
  by (auto simp: has_type_def condition_Object_def index_def)

lemma has_type_unique: "has_type t m \<Longrightarrow> has_type t' m \<Longrightarrow> t' = t"
  by (simp add: has_type_def)

lemma find_overwrite:
  "overwrite_condition c xs = Some ys \<Longrightarrow>
   find_condition t ys = (if t = cType c then Some c else find_condition t xs)"
proof (induction xs arbitrary: ys)
  case (Cons item items)
  then show ?case
    by (cases item rule: as_map_cases)
      (auto simp: condition_round_trip dest: has_type_unique split: if_splits)
qed simp

lemma find_append:
  "overwrite_condition c xs = None \<Longrightarrow>
   find_condition t (xs @ [JObj (condition_Object c)]) =
     (if t = cType c then Some c else find_condition t xs)"
proof (induction xs)
  case (Cons item items)
  then show ?case
    by (cases item rule: as_map_cases) (auto split: if_splits)
qed (simp add: condition_round_trip)

lemma SetCondition_eq:
  obtains zs where "SetCondition status c = Inr (mput ''conditions'' (JArr zs) status)"
    and "\<And>t. find_condition t zs =
      (if t = cType c then Some c
       else find_condition t (elems (GetNestedArray status [''conditions''])))"
  by (cases "overwrite_condition c (elems (GetNestedArray status [''conditions'']))")
    (auto simp: SetCondition_def SetNestedField_def Let_def find_overwrite find_append)

lemma conditions_path:
  "index x ''status'' = JObj s \<Longrightarrow>
   GetNestedArray x [''status'', ''conditions''] = GetNestedArray s [''conditions'']"
  by (simp add: GetNestedArray_def GetNestedField_def)

lemma conditions_no_status:
  "as_map (index x ''status'') = (None, False) \<Longrightarrow>
   GetNestedArray x [''status'', ''conditions''] = None"
  by (simp add: GetNestedArray_def GetNestedField_def)

lemma nested_object_status:
  "GetNestedObject x [''status''] = fst (as_map (index x ''status''))"
  by (cases "index x ''status''" rule: as_map_cases)
    (auto simp: GetNestedObject_def GetNestedField_def)

section \<open>Properties\<close>

text \<open>
  Finalizers behave as a set with an order: adding one that is missing appends it and
  adding one that is there changes nothing; removing takes out its first occurrence and
  nothing else; adding and then removing a missing one gives the old list back. No other
  field of the object changes.
\<close>
theorem finalizer_laws:
  assumes "kube_lib K" and "meta_ok x"
  shows "HasFinalizer K (AddFinalizer K x f) f \<and>
    (HasFinalizer K x f \<longrightarrow> AddFinalizer K x f = x) \<and>
    GetFinalizers K (RemoveFinalizer K x f) = remove1 f (GetFinalizers K x) \<and>
    (\<not> HasFinalizer K x f \<longrightarrow>
      GetFinalizers K (AddFinalizer K x f) = GetFinalizers K x @ [f] \<and>
      GetFinalizers K (RemoveFinalizer K (AddFinalizer K x f) f) = GetFinalizers K x) \<and>
    (\<forall>q. diverge finalizers_path q \<longrightarrow>
      NestedField K (AddFinalizer K x f) q = NestedField K x q \<and>
      NestedField K (RemoveFinalizer K x f) q = NestedField K x q)"
proof -
  have set: "GetFinalizers K (SetFinalizers K y fs) = fs" if "meta_ok y" for y fs
    using that by (rule kube_lib.get_set_finalizers [OF assms(1)])
  have meta: "meta_ok (SetFinalizers K x fs)" for fs
    by (rule kube_lib.meta_ok_setters(3) [OF assms])
  have frame: "NestedField K (SetFinalizers K x fs) q = NestedField K x q"
    if "diverge finalizers_path q" for fs q
    using that by (rule kube_lib.frame_finalizers [OF assms(1)])
  have "remove1 f (GetFinalizers K x @ [f]) = GetFinalizers K x" if "f \<notin> set (GetFinalizers K x)"
    using that by (simp add: remove1_append)
  with set [OF assms(2)] set [OF meta] frame show ?thesis
    by (auto simp: HasFinalizer_iff AddFinalizer_def RemoveFinalizer_def cut_first_eq remove1_idem)
qed

theorem finalizer_laws_witness:
  "GetFinalizers std_kube (RemoveFinalizer std_kube (AddFinalizer std_kube
      [(''metadata'', JObj [(''finalizers'', JArr [JStr ''a''])])] ''f'') ''f'') = [''a'']"
proof -
  let ?x = "[(''metadata'', JObj [(''finalizers'', JArr [JStr ''a''])])]"
  have "meta_ok ?x" by (simp add: meta_ok_def)
  moreover have "GetFinalizers std_kube ?x = [''a'']"
    by (simp add: std_kube_sel std_read_def map_filter_simps)
  moreover from this have "\<not> HasFinalizer std_kube ?x ''f''" by (simp add: HasFinalizer_iff)
  ultimately show ?thesis
    using finalizer_laws [OF std.kube_lib_axioms, of ?x "''f''"] by simp
qed

text \<open>
  Setting a status condition never panics; it can be read back under its type, and
  the conditions of every other type are read as before.
\<close>
theorem status_condition_laws:
  "\<exists>y. SetStatusCondition x c = Inr y \<and>
    (\<forall>t. GetStatusCondition y t = (if t = cType c then Some c else GetStatusCondition x t))"
proof (cases "index x ''status''" rule: as_map_cases)
  case (map s)
  obtain zs where zs: "SetCondition s c = Inr (mput ''conditions'' (JArr zs) s)"
    "\<And>t. find_condition t zs = (if t = cType c then Some c
       else find_condition t (elems (GetNestedArray s [''conditions''])))"
    by (rule SetCondition_eq [of s c]) blast
  with map show ?thesis
    by (simp add: SetStatusCondition_def nested_object_status SetNestedField_def
        GetStatusCondition_def conditions_path) (simp add: GetNestedArray_def GetNestedField_def)
next
  case other
  obtain zs where zs: "SetCondition [] c = Inr (mput ''conditions'' (JArr zs) [])"
    "\<And>t. find_condition t zs = (if t = cType c then Some c
       else find_condition t (elems (GetNestedArray [] [''conditions''])))"
    by (rule SetCondition_eq [of "[]" c]) blast
  with other show ?thesis
    by (simp add: SetStatusCondition_def nested_object_status SetNestedField_def
        GetStatusCondition_def conditions_no_status)
      (simp add: GetNestedArray_def GetNestedField_def index_def)
qed

text \<open>
  After adding an annotation the object has it, and its other annotations are as before;
  for a value that is not empty the annotation is really there. An empty value is reported
  as present on every object that has some annotation, and is then not added.
\<close>
theorem annotation_laws:
  assumes "kube_lib K" and "meta_ok x"
  shows "HasAnnotation K (AddAnnotation K x k v) k v \<and>
    (v \<noteq> '''' \<longrightarrow> map_of (mrange (GetAnnotations K (AddAnnotation K x k v))) k = Some v) \<and>
    (\<forall>k'. k' \<noteq> k \<longrightarrow> map_of (mrange (GetAnnotations K (AddAnnotation K x k v))) k' =
      map_of (mrange (GetAnnotations K x)) k') \<and>
    (\<forall>anns. GetAnnotations K x = Some anns \<and> map_of anns k = None \<longrightarrow>
      HasAnnotation K x k '''' \<and> AddAnnotation K x k '''' = x)"
proof -
  have "GetAnnotations K (SetAnnotations K x m) = Some m" for m
    using assms by (rule kube_lib.get_set_annotations)
  then show ?thesis
    by (cases "GetAnnotations K x")
      (auto simp: HasAnnotation_def AddAnnotation_def str_index_def Let_def split: option.splits)
qed

theorem annotation_laws_witness:
  "HasAnnotation std_kube (AddAnnotation std_kube [] ''k'' ''v'') ''k'' ''v''"
  using annotation_laws [OF std.kube_lib_axioms, of "[]" "''k''" "''v''"] by (simp add: meta_ok_def)

end
