(* ===== verification/Client.thy ===== *)
theory Client
  imports Discovery Objects
begin

text \<open>
  \<open>dynamic/clientset/clientset.go\<close>: clients for a resource and the atomic
  read-modify-write loops, and \<open>controller/common/finalizer/finalizer.go\<close> on top of them.

  The API server is a parameter: a function that takes a request and the server's state to
  a response and the next state. A world is that state with the log of the calls made so
  far. \<open>retry.RetryOnConflict\<close> of client-go is a parameter too; the locale
  \<open>conflict_retry\<close> states what its documentation says: the function is tried at least once
  and again only after a conflict, and the outcome of the last attempt is returned.
\<close>

section \<open>The world\<close>

datatype request =
    ReqGet string string string string
  | ReqUpdate string string string obj
  | ReqUpdateStatus string string string obj
  | ReqCreate string string string obj
  | ReqDelete string string string string "string option" "string option"

text \<open>
  The strings are API version, resource and namespace, and for \<open>ReqGet\<close> and
  \<open>ReqDelete\<close> the name; the two options of a delete are the UID precondition and the
  propagation policy.
\<close>

record 's world =
  srv :: 's
  calls :: "(request \<times> obj res) list"

type_synonym 's call_state = "obj option \<times> 's world"

record 's env =
  kubeOf :: kube
  execOf :: "request \<Rightarrow> 's \<Rightarrow> obj res \<times> 's"
  retryOf :: "('s call_state \<Rightarrow> gerr option \<times> 's call_state) \<Rightarrow> 's call_state \<Rightarrow>
    gerr option \<times> 's call_state"

definition call :: "'s env \<Rightarrow> request \<Rightarrow> 's world \<Rightarrow> obj res \<times> 's world" where
  "call E req w =
     (case execOf E req (srv w) of
        (resp, s') \<Rightarrow> (resp, w\<lparr>srv := s', calls := calls w @ [(req, resp)]\<rparr>))"

lemma calls_call: "call E req w = (resp, w') \<Longrightarrow> calls w' = calls w @ [(req, resp)]"
  by (auto simp: call_def split: prod.splits)

section \<open>Clients\<close>

text \<open>
  A client is the API resource with the namespace its requests go to, empty when none is
  set.
\<close>

record resource_client =
  rcResource :: api_resource
  rcNamespace :: string

definition Namespace :: "resource_client \<Rightarrow> string \<Rightarrow> resource_client" where
  "Namespace rc namespace =
     (if \<not> rNamespaced (rcResource rc) then rc else rc\<lparr>rcNamespace := namespace\<rparr>)"

definition getClientForAPIResource ::
  "(string \<Rightarrow> (string \<times> string) res) \<Rightarrow> api_resource \<Rightarrow> resource_client res" where
  "getClientForAPIResource parseGV apiResource =
     (case GetGroupVersionResource parseGV apiResource of
        Inl e \<Rightarrow> Inl e
      | Inr gvr \<Rightarrow> Inr \<lparr>rcResource = apiResource, rcNamespace = ''''\<rparr>)"

definition GetClientForAPIVersionAndResource ::
  "(string \<Rightarrow> (string \<times> string) res) \<Rightarrow> discovery \<Rightarrow> string \<Rightarrow> string \<Rightarrow> resource_client res" where
  "GetClientForAPIVersionAndResource parseGV d apiVersion resource =
     (case GetAPIForAPIVersionAndResource d apiVersion resource of
        None \<Rightarrow> Inl (Msg (''Failed to get client for '' @ quoted resource @ '' with api version '' @
         quoted apiVersion @ '': Resource is not discovered''))
      | Some apiResource \<Rightarrow> getClientForAPIResource parseGV apiResource)"

definition GetClientForAPIVersionAndKind ::
  "(string \<Rightarrow> (string \<times> string) res) \<Rightarrow> discovery \<Rightarrow> string \<Rightarrow> string \<Rightarrow> resource_client res" where
  "GetClientForAPIVersionAndKind parseGV d apiVersion kind =
     (case GetAPIForAPIVersionAndKind d apiVersion kind of
        None \<Rightarrow> Inl (Msg (''Failed to initialise dynamic client for kind '' @ quoted kind @
         '' with apiVersion '' @ quoted apiVersion))
      | Some apiResource \<Rightarrow> getClientForAPIResource parseGV apiResource)"

definition Clientset_HasSynced :: "discovery \<Rightarrow> bool" where
  "Clientset_HasSynced d = HasSynced d"

text \<open>The requests of a client.\<close>

definition rc_Get :: "resource_client \<Rightarrow> string \<Rightarrow> request" where
  "rc_Get rc name = ReqGet (rAPIVersion (rcResource rc)) (rName (rcResource rc)) (rcNamespace rc) name"

definition rc_Update :: "resource_client \<Rightarrow> obj \<Rightarrow> request" where
  "rc_Update rc x = ReqUpdate (rAPIVersion (rcResource rc)) (rName (rcResource rc)) (rcNamespace rc) x"

definition rc_UpdateStatus :: "resource_client \<Rightarrow> obj \<Rightarrow> request" where
  "rc_UpdateStatus rc x =
     ReqUpdateStatus (rAPIVersion (rcResource rc)) (rName (rcResource rc)) (rcNamespace rc) x"

definition rc_Create :: "resource_client \<Rightarrow> obj \<Rightarrow> request" where
  "rc_Create rc x = ReqCreate (rAPIVersion (rcResource rc)) (rName (rcResource rc)) (rcNamespace rc) x"

definition rc_Delete :: "resource_client \<Rightarrow> string \<Rightarrow> string option \<Rightarrow> string option \<Rightarrow> request" where
  "rc_Delete rc name uid policy =
     ReqDelete (rAPIVersion (rcResource rc)) (rName (rcResource rc)) (rcNamespace rc) name uid policy"

lemmas rc_requests = rc_Get_def rc_Update_def rc_UpdateStatus_def rc_Create_def rc_Delete_def

fun is_read :: "request \<Rightarrow> bool" where
  "is_read (ReqGet _ _ _ _) = True"
| "is_read _ = False"

lemma is_read_simps [simp]: "is_read (rc_Get rc n)" "\<not> is_read (rc_Update rc x)"
  by (simp_all add: rc_requests)

section \<open>Read-modify-write loops\<close>

text \<open>
  An update function takes the live object to whether it changed it and the object it
  left. \<open>result\<close> is the variable the closure assigns; a failed write sets it to nil. The
  attempt is the same for \<open>AtomicUpdate\<close> and \<open>AtomicStatusUpdate\<close> but for the request it
  writes with.
\<close>

type_synonym update_fn = "obj \<Rightarrow> bool \<times> obj"

definition update_attempt ::
  "'s env \<Rightarrow> resource_client \<Rightarrow> (obj \<Rightarrow> request) \<Rightarrow> obj \<Rightarrow> update_fn \<Rightarrow>
   's call_state \<Rightarrow> gerr option \<times> 's call_state" where
  "update_attempt E rc wreq orig updateFunc st =
     (case st of (result, w) \<Rightarrow>
      case call E (rc_Get rc (GetName (kubeOf E) orig)) w of
        (Inl e, w1) \<Rightarrow> (Some e, result, w1)
      | (Inr current, w1) \<Rightarrow>
          if GetUID (kubeOf E) current \<noteq> GetUID (kubeOf E) orig
          then (Some (Api (NotFound (GetName (kubeOf E) orig))), result, w1)
          else (case updateFunc current of
                  (False, current') \<Rightarrow> (None, Some current', w1)
                | (True, current') \<Rightarrow>
                    (case call E (wreq current') w1 of
                       (Inl e, w2) \<Rightarrow> (Some e, None, w2)
                     | (Inr updated, w2) \<Rightarrow> (None, Some updated, w2))))"

definition AtomicUpdate ::
  "'s env \<Rightarrow> resource_client \<Rightarrow> obj \<Rightarrow> update_fn \<Rightarrow> 's world \<Rightarrow> obj option res \<times> 's world" where
  "AtomicUpdate E rc orig updateFunc w =
     (case retryOf E (update_attempt E rc (rc_Update rc) orig updateFunc) (None, w) of
        (Some e, result, w') \<Rightarrow> (Inl e, w')
      | (None, result, w') \<Rightarrow> (Inr result, w'))"

definition status_write :: "resource_client \<Rightarrow> obj \<Rightarrow> request" where
  "status_write rc =
     (if HasSubresource (rcResource rc) ''status'' then rc_UpdateStatus rc else rc_Update rc)"

definition AtomicStatusUpdate ::
  "'s env \<Rightarrow> resource_client \<Rightarrow> obj \<Rightarrow> update_fn \<Rightarrow> 's world \<Rightarrow> obj option res \<times> 's world" where
  "AtomicStatusUpdate E rc orig update w =
     (case retryOf E (update_attempt E rc (status_write rc) orig update) (None, w) of
        (Some e, result, w') \<Rightarrow> (Inl e, w')
      | (None, result, w') \<Rightarrow> (Inr result, w'))"

definition rc_AddFinalizer ::
  "'s env \<Rightarrow> resource_client \<Rightarrow> obj \<Rightarrow> string \<Rightarrow> 's world \<Rightarrow> obj option res \<times> 's world" where
  "rc_AddFinalizer E rc orig name w =
     AtomicUpdate E rc orig (\<lambda>x.
       if HasFinalizer (kubeOf E) x name then (False, x)
       else (True, AddFinalizer (kubeOf E) x name)) w"

definition rc_RemoveFinalizer ::
  "'s env \<Rightarrow> resource_client \<Rightarrow> obj \<Rightarrow> string \<Rightarrow> 's world \<Rightarrow> obj option res \<times> 's world" where
  "rc_RemoveFinalizer E rc orig name w =
     AtomicUpdate E rc orig (\<lambda>x.
       if \<not> HasFinalizer (kubeOf E) x name then (False, x)
       else (True, RemoveFinalizer (kubeOf E) x name)) w"

section \<open>Finalizers\<close>

record finalizer =
  fName :: string
  fEnabled :: bool

definition SyncObject ::
  "'s env \<Rightarrow> finalizer \<Rightarrow> resource_client \<Rightarrow> obj \<Rightarrow> 's world \<Rightarrow> obj option res \<times> 's world" where
  "SyncObject E m client x w =
     (if HasFinalizer (kubeOf E) x (fName m) = fEnabled m then (Inr (Some x), w)
      else if fEnabled m
      then (if GetDeletionTimestamp (kubeOf E) x \<noteq> None then (Inr (Some x), w)
            else rc_AddFinalizer E (Namespace client (GetNamespace (kubeOf E) x)) x (fName m) w)
      else rc_RemoveFinalizer E (Namespace client (GetNamespace (kubeOf E) x)) x (fName m) w)"

text \<open>The values of \<open>metav1.FinalizerDeleteDependents\<close> and \<open>FinalizerOrphanDependents\<close>.\<close>

definition hasGCFinalizer :: "kube \<Rightarrow> obj \<Rightarrow> bool" where
  "hasGCFinalizer K x =
     list_ex (\<lambda>item. item = ''foregroundDeletion'' \<or> item = ''orphan'') (GetFinalizers K x)"

definition ShouldFinalize :: "kube \<Rightarrow> finalizer \<Rightarrow> obj \<Rightarrow> bool" where
  "ShouldFinalize K m parent =
     (if hasGCFinalizer K parent then False
      else if \<not> HasFinalizer K parent (fName m) then False
      else fEnabled m)"

definition Finalizer_RemoveFinalizer :: "kube \<Rightarrow> finalizer \<Rightarrow> obj \<Rightarrow> obj" where
  "Finalizer_RemoveFinalizer K m x = RemoveFinalizer K x (fName m)"

section \<open>Retrying on conflicts\<close>

definition is_conflict :: "gerr option \<Rightarrow> bool" where
  "is_conflict e = (case e of None \<Rightarrow> False | Some e' \<Rightarrow> IsConflict e')"

fun attempts :: "nat \<Rightarrow> ('st \<Rightarrow> gerr option \<times> 'st) \<Rightarrow> 'st \<Rightarrow> gerr option \<times> 'st" where
  "attempts 0 f s = f s"
| "attempts (Suc n) f s =
     (case f s of (e, s') \<Rightarrow> if is_conflict e then attempts n f s' else (e, s'))"

locale conflict_retry =
  fixes retry :: "('st \<Rightarrow> gerr option \<times> 'st) \<Rightarrow> 'st \<Rightarrow> gerr option \<times> 'st"
  assumes retries: "\<exists>n. retry f s = attempts n f s"
begin

text \<open>The outcome is that of some attempt, started in a state earlier attempts led to.\<close>

lemma retry_last:
  assumes "retry f s = (e, s')" and "P s"
    and step: "\<And>s e s'. P s \<Longrightarrow> f s = (e, s') \<Longrightarrow> P s'"
  shows "\<exists>s1. P s1 \<and> f s1 = (e, s')"
proof -
  obtain n where "attempts n f s = (e, s')" using retries assms(1) by metis
  then show ?thesis using assms(2)
  proof (induction n arbitrary: s)
    case (Suc n)
    obtain e1 s1 where "f s = (e1, s1)" by fastforce
    with Suc step [of s e1 s1] show ?case by (cases "is_conflict e1") auto
  qed auto
qed

lemma retry_once:
  assumes "f s = (e, s')" and "\<not> is_conflict e"
  shows "retry f s = (e, s')"
proof -
  obtain n where "retry f s = attempts n f s" using retries by blast
  with assms show ?thesis by (cases n) auto
qed

end

text \<open>The library's \<open>DefaultBackoff\<close> makes four attempts.\<close>

interpretation default_backoff: conflict_retry "attempts 3"
  by unfold_locales blast

section \<open>The log of a read-modify-write loop\<close>

text \<open>
  The calls such a loop makes: reads, each of which may be followed by one write of what the
  update function made of the object just read.
\<close>

inductive rmw_log :: "kube \<Rightarrow> request \<Rightarrow> (obj \<Rightarrow> request) \<Rightarrow> obj \<Rightarrow> update_fn \<Rightarrow> (request \<times> obj res) list \<Rightarrow> bool"
  for K and read :: request and wreq :: "obj \<Rightarrow> request" and orig :: obj and f :: update_fn where
  rmw_start: "rmw_log K read wreq orig f []"
| rmw_failed: "rmw_log K read wreq orig f ts \<Longrightarrow> rmw_log K read wreq orig f (ts @ [(read, Inl e)])"
| rmw_read: "rmw_log K read wreq orig f ts \<Longrightarrow> rmw_log K read wreq orig f (ts @ [(read, Inr current)])"
| rmw_write: "rmw_log K read wreq orig f ts \<Longrightarrow> GetUID K current = GetUID K orig \<Longrightarrow>
    f current = (True, x) \<Longrightarrow> rmw_log K read wreq orig f (ts @ [(read, Inr current), (wreq x, resp)])"

lemma rmw_log_writes:
  "rmw_log K read wreq orig f ts \<Longrightarrow> (q, resp) \<in> set ts \<Longrightarrow> q \<noteq> read \<Longrightarrow>
   \<exists>current x. (read, Inr current) \<in> set ts \<and> GetUID K current = GetUID K orig \<and>
     f current = (True, x) \<and> q = wreq x"
  by (induction rule: rmw_log.induct) fastforce+

text \<open>
  One attempt, from a world whose log since \<open>w\<close> is such a log, ends in one, and says how it
  got its result.
\<close>

definition logged :: "'s env \<Rightarrow> resource_client \<Rightarrow> (obj \<Rightarrow> request) \<Rightarrow> obj \<Rightarrow> update_fn \<Rightarrow>
    's world \<Rightarrow> 's call_state \<Rightarrow> bool" where
  "logged E rc wreq orig f w st =
     (\<exists>ts. calls (snd st) = calls w @ ts \<and>
        rmw_log (kubeOf E) (rc_Get rc (GetName (kubeOf E) orig)) wreq orig f ts)"

lemma attempt_logged:
  assumes "logged E rc wreq orig f w st" and "update_attempt E rc wreq orig f st = (e, st')"
  shows "logged E rc wreq orig f w st'"
proof -
  obtain r0 w0 where st: "st = (r0, w0)" by fastforce
  from assms(1) st obtain ts where ts: "calls w0 = calls w @ ts"
    "rmw_log (kubeOf E) (rc_Get rc (GetName (kubeOf E) orig)) wreq orig f ts"
    by (auto simp: logged_def)
  obtain resp w1 where get: "call E (rc_Get rc (GetName (kubeOf E) orig)) w0 = (resp, w1)" by fastforce
  note c1 = calls_call [OF get]
  show ?thesis
  proof (cases resp)
    case (Inl er)
    with assms(2) st get c1 ts show ?thesis
      by (auto simp: update_attempt_def logged_def intro: rmw_failed)
  next
    case (Inr cur)
    obtain changed cur' where f: "f cur = (changed, cur')" by fastforce
    obtain resp2 w2 where wr: "call E (wreq cur') w1 = (resp2, w2)" by fastforce
    from c1 ts Inr have one: "calls w1 = calls w @ ts @ [(rc_Get rc (GetName (kubeOf E) orig), Inr cur)]"
      by simp
    from calls_call [OF wr] one have two: "calls w2 = calls w @ ts @
        [(rc_Get rc (GetName (kubeOf E) orig), Inr cur), (wreq cur', resp2)]"
      by simp
    show ?thesis
    proof (cases "GetUID (kubeOf E) cur = GetUID (kubeOf E) orig \<and> changed")
      case True
      with assms(2) st get Inr f wr have "snd st' = w2"
        by (auto simp: update_attempt_def split: sum.splits)
      with True f two ts(2) show ?thesis by (auto simp: logged_def intro: rmw_write)
    next
      case False
      with assms(2) st get Inr f have "snd st' = w1"
        by (auto simp: update_attempt_def split: if_splits)
      with one ts(2) show ?thesis by (auto simp: logged_def intro: rmw_read)
    qed
  qed
qed

definition update_outcome :: "request \<Rightarrow> (obj \<Rightarrow> request) \<Rightarrow> kube \<Rightarrow> obj \<Rightarrow> update_fn \<Rightarrow>
    (request \<times> obj res) list \<Rightarrow> obj option \<Rightarrow> bool" where
  "update_outcome read wreq K orig f ts result =
     (\<exists>current x. (read, Inr current) \<in> set ts \<and> GetUID K current = GetUID K orig \<and>
        (f current = (False, x) \<and> result = Some x \<or>
         f current = (True, x) \<and> (\<exists>y. result = Some y \<and> (wreq x, Inr y) \<in> set ts)))"

lemma update_outcome_mono:
  "update_outcome read wreq K orig f us result \<Longrightarrow> set us \<subseteq> set ts \<Longrightarrow>
   update_outcome read wreq K orig f ts result"
  unfolding update_outcome_def by blast

lemma attempt_result:
  assumes "update_attempt E rc wreq orig f st = (None, result, w')"
  shows "\<exists>us. calls w' = calls (snd st) @ us \<and>
    update_outcome (rc_Get rc (GetName (kubeOf E) orig)) wreq (kubeOf E) orig f us result"
proof -
  let ?read = "rc_Get rc (GetName (kubeOf E) orig)"
  obtain r0 w0 where st: "st = (r0, w0)" by fastforce
  obtain resp w1 where get: "call E ?read w0 = (resp, w1)" by fastforce
  with assms st obtain cur where resp: "resp = Inr cur" and
    uid: "GetUID (kubeOf E) cur = GetUID (kubeOf E) orig"
    by (auto simp: update_attempt_def split: sum.splits if_splits)
  obtain changed cur' where f: "f cur = (changed, cur')" by fastforce
  obtain resp2 w2 where wr: "call E (wreq cur') w1 = (resp2, w2)" by fastforce
  show ?thesis
  proof (cases changed)
    case True
    with assms st get resp uid f wr obtain y where "resp2 = Inr y" "result = Some y" "w' = w2"
      by (auto simp: update_attempt_def split: sum.splits)
    with True uid f resp show ?thesis
      using calls_call [OF get] calls_call [OF wr] st
      by (intro exI [of _ "[(?read, Inr cur), (wreq cur', Inr y)]"]) (auto simp: update_outcome_def)
  next
    case False
    with assms st get resp uid f have "result = Some cur'" "w' = w1"
      by (auto simp: update_attempt_def)
    with False uid f resp show ?thesis
      using calls_call [OF get] st
      by (intro exI [of _ "[(?read, Inr cur)]"]) (auto simp: update_outcome_def)
  qed
qed

lemma loop_spec:
  assumes "conflict_retry (retryOf E)"
    and "retryOf E (update_attempt E rc wreq orig f) (None, w) = (e, result, w')"
  shows "\<exists>ts. calls w' = calls w @ ts \<and>
    rmw_log (kubeOf E) (rc_Get rc (GetName (kubeOf E) orig)) wreq orig f ts \<and>
    (e = None \<longrightarrow>
      update_outcome (rc_Get rc (GetName (kubeOf E) orig)) wreq (kubeOf E) orig f ts result)"
proof -
  have "logged E rc wreq orig f w (None, w)"
    by (auto simp: logged_def intro: rmw_start)
  with conflict_retry.retry_last [OF assms(1) assms(2), of "logged E rc wreq orig f w"] attempt_logged
  obtain st where st: "logged E rc wreq orig f w st"
    "update_attempt E rc wreq orig f st = (e, result, w')"
    by blast
  from st(1) obtain ts0 where ts0: "calls (snd st) = calls w @ ts0" by (auto simp: logged_def)
  from attempt_logged [OF st] obtain ts where ts: "calls w' = calls w @ ts"
    "rmw_log (kubeOf E) (rc_Get rc (GetName (kubeOf E) orig)) wreq orig f ts"
    by (auto simp: logged_def)
  have "update_outcome (rc_Get rc (GetName (kubeOf E) orig)) wreq (kubeOf E) orig f ts result"
    if "e = None"
  proof -
    from attempt_result st(2) that obtain us where us: "calls w' = calls (snd st) @ us"
      "update_outcome (rc_Get rc (GetName (kubeOf E) orig)) wreq (kubeOf E) orig f us result"
      by blast
    with ts ts0 have "ts = ts0 @ us" by simp
    with update_outcome_mono [OF us(2)] show ?thesis by simp
  qed
  with ts show ?thesis by blast
qed

lemma AtomicUpdate_log:
  assumes "conflict_retry (retryOf E)" and "AtomicUpdate E rc orig f w = (r, w')"
  shows "\<exists>ts. calls w' = calls w @ ts \<and>
    rmw_log (kubeOf E) (rc_Get rc (GetName (kubeOf E) orig)) (rc_Update rc) orig f ts \<and>
    (\<forall>result. r = Inr result \<longrightarrow>
      update_outcome (rc_Get rc (GetName (kubeOf E) orig)) (rc_Update rc) (kubeOf E) orig f ts result)"
proof -
  obtain e result w1 where l:
    "retryOf E (update_attempt E rc (rc_Update rc) orig f) (None, w) = (e, result, w1)"
    by (metis prod_cases3)
  with assms(2) have "w' = w1" "r = (case e of None \<Rightarrow> Inr result | Some e \<Rightarrow> Inl e)"
    by (auto simp: AtomicUpdate_def split: option.splits)
  with loop_spec [OF assms(1) l] show ?thesis by (auto split: option.splits)
qed

lemma rc_Update_neq_Get [simp]: "rc_Update rc x \<noteq> rc_Get rc' n" "rc_Get rc' n \<noteq> rc_Update rc x"
  "rc_UpdateStatus rc x \<noteq> rc_Get rc' n" "rc_Get rc' n \<noteq> rc_UpdateStatus rc x"
  by (simp_all add: rc_requests)

lemma rc_Update_inj [simp]: "rc_Update rc x = rc_Update rc y \<longleftrightarrow> x = y"
  by (simp add: rc_requests)

section \<open>A server for concrete runs\<close>

text \<open>
  An API server over a list of objects by API version, resource, namespace and name, which
  checks the resource version of an update. It instantiates the parameter where a theorem
  is applied to a concrete input.
\<close>

type_synonym server = "(string list \<times> obj) list"

definition std_store :: "kube \<Rightarrow> string list \<Rightarrow> obj \<Rightarrow> server \<Rightarrow> obj res \<times> server" where
  "std_store K k x s =
     (case map_of s k of
        None \<Rightarrow> (Inl (Api (NotFound (GetName K x))), s)
      | Some y \<Rightarrow>
          if GetResourceVersion K x \<noteq> GetResourceVersion K y
          then (Inl (Api (Conflict (GetName K x))), s)
          else (Inr x, AList.update k x s))"

fun std_exec :: "kube \<Rightarrow> request \<Rightarrow> server \<Rightarrow> obj res \<times> server" where
  "std_exec K (ReqGet av r ns n) s =
     (case map_of s [av, r, ns, n] of
        None \<Rightarrow> (Inl (Api (NotFound n)), s)
      | Some x \<Rightarrow> (Inr x, s))"
| "std_exec K (ReqUpdate av r ns x) s = std_store K [av, r, ns, GetName K x] x s"
| "std_exec K (ReqUpdateStatus av r ns x) s = std_store K [av, r, ns, GetName K x] x s"
| "std_exec K (ReqCreate av r ns x) s =
     (case map_of s [av, r, ns, GetName K x] of
        None \<Rightarrow> (Inr x, AList.update [av, r, ns, GetName K x] x s)
      | Some y \<Rightarrow> (Inl (Api (OtherApi ''already exists'')), s))"
| "std_exec K (ReqDelete av r ns n uid policy) s =
     (case map_of s [av, r, ns, n] of
        None \<Rightarrow> (Inl (Api (NotFound n)), s)
      | Some x \<Rightarrow>
          if uid \<noteq> None \<and> uid \<noteq> Some (GetUID K x) then (Inl (Api (Conflict n)), s)
          else (Inr [], AList.delete [av, r, ns, n] s))"

definition std_env :: "server env" where
  "std_env = \<lparr>kubeOf = std_kube, execOf = std_exec std_kube, retryOf = attempts 3\<rparr>"

lemma std_env_sel [simp]: "kubeOf std_env = std_kube" "execOf std_env = std_exec std_kube"
  "conflict_retry (retryOf std_env)"
  using default_backoff.conflict_retry_axioms by (simp_all add: std_env_def)

definition pod_client :: resource_client where
  "pod_client = \<lparr>rcResource = pods ! 0, rcNamespace = ''''\<rparr>"

definition pod_a :: obj where
  "pod_a = [(''metadata'', JObj [(''name'', JStr ''a''), (''uid'', JStr ''u1'')])]"

definition pod_world :: "server world" where
  "pod_world = \<lparr>srv = [([rAPIVersion (pods ! 0), ''pods'', '''', ''a''], pod_a)], calls = []\<rparr>"

section \<open>Properties\<close>

text \<open>
  \<open>AtomicUpdate\<close> only reads the object by its name and writes what the update function
  made of a live object it has just read and whose UID is the one asked for: it never
  writes to an object that was deleted and created anew, and never writes stale content. When it
  succeeds, its result is the live object the function left alone or the server's
  answer to the write.
\<close>
theorem AtomicUpdate_writes_live:
  assumes "conflict_retry (retryOf E)" and "AtomicUpdate E rc orig f w = (r, w')"
  shows "\<exists>ts. calls w' = calls w @ ts \<and>
    (\<forall>q resp. (q, resp) \<in> set ts \<longrightarrow> q = rc_Get rc (GetName (kubeOf E) orig) \<or>
      (\<exists>current x. (rc_Get rc (GetName (kubeOf E) orig), Inr current) \<in> set ts \<and>
         GetUID (kubeOf E) current = GetUID (kubeOf E) orig \<and>
         f current = (True, x) \<and> q = rc_Update rc x)) \<and>
    (\<forall>result. r = Inr result \<longrightarrow>
      (\<exists>current x. (rc_Get rc (GetName (kubeOf E) orig), Inr current) \<in> set ts \<and>
         GetUID (kubeOf E) current = GetUID (kubeOf E) orig \<and>
         (f current = (False, x) \<and> result = Some x \<or>
          f current = (True, x) \<and> (\<exists>y. result = Some y \<and> (rc_Update rc x, Inr y) \<in> set ts))))"
proof -
  from AtomicUpdate_log [OF assms] obtain ts where ts: "calls w' = calls w @ ts"
    "rmw_log (kubeOf E) (rc_Get rc (GetName (kubeOf E) orig)) (rc_Update rc) orig f ts"
    "\<forall>result. r = Inr result \<longrightarrow> update_outcome (rc_Get rc (GetName (kubeOf E) orig))
       (rc_Update rc) (kubeOf E) orig f ts result"
    by blast
  with rmw_log_writes [OF ts(2)] show ?thesis unfolding update_outcome_def by blast
qed

theorem AtomicUpdate_writes_live_witness:
  "\<exists>ts. calls (snd (AtomicUpdate std_env pod_client pod_a (\<lambda>x. (False, x)) pod_world)) = ts \<and>
    list_all (\<lambda>(q, resp). q = rc_Get pod_client ''a'') ts"
proof -
  have "GetName std_kube pod_a = ''a''" by (simp add: std_kube_sel std_read_def pod_a_def)
  with AtomicUpdate_writes_live [OF std_env_sel(3), of pod_client pod_a "\<lambda>x. (False, x)" pod_world]
  show ?thesis
    by (cases "AtomicUpdate std_env pod_client pod_a (\<lambda>x. (False, x)) pod_world")
      (auto simp: pod_world_def list_all_iff)
qed



end
