(* ===== verification/Claims.thy ===== *)
theory Claims
  imports Client
begin

text \<open>
  Adoption and release of attachments: \<open>ClaimManager\<close> of
  \<open>third_party/kubernetes/controller_ref_manager.go\<close> and the managers for unstructured
  objects and for controller revisions in \<open>dynamic/controllerref\<close>.

  A label selector is the predicate on labels that its \<open>Matches\<close> computes. An aggregate
  of errors is the list of them; the empty list is nil.
\<close>

section \<open>Owner references\<close>

fun replace_owner :: "owner_ref list \<Rightarrow> owner_ref \<Rightarrow> owner_ref list \<times> bool" where
  "replace_owner [] add = ([], False)"
| "replace_owner (ref # in') add =
     (case replace_owner in' add of (out, found) \<Rightarrow>
      if orUID ref = orUID add then (add # out, True) else (ref # out, found))"

definition addOwnerReference :: "owner_ref list \<Rightarrow> owner_ref \<Rightarrow> owner_ref list" where
  "addOwnerReference in' add =
     (case replace_owner in' add of (out, found) \<Rightarrow> if \<not> found then out @ [add] else out)"

definition removeOwnerReference :: "owner_ref list \<Rightarrow> string \<Rightarrow> owner_ref list" where
  "removeOwnerReference in' uid = filter (\<lambda>ref. orUID ref \<noteq> uid) in'"

section \<open>The claim manager\<close>

text \<open>
  What the manager is given: the watched object, its group, version and kind, the selector,
  and the function that decides whether adoption is allowed, which may call the server. The
  mutable part is the memo of \<open>sync.Once\<close>.
\<close>

record 's claim_manager =
  Watched :: obj
  WatchedKind :: "string \<times> string \<times> string"
  SelectorMatches :: "strmap \<Rightarrow> bool"
  CanAdoptFunc :: "('s \<Rightarrow> gerr option \<times> 's) option"

type_synonym 's claim_state = "gerr option option \<times> 's"

definition ClaimManager_String :: "kube \<Rightarrow> 's claim_manager \<Rightarrow> string" where
  "ClaimManager_String K m =
     ''ClaimManager '' @ snd (snd (WatchedKind m)) @ '' '' @
     GetNamespace K (Watched m) @ ''/'' @ GetName K (Watched m)"

definition CanAdopt :: "'s claim_manager \<Rightarrow> 's claim_state \<Rightarrow> gerr option \<times> 's claim_state" where
  "CanAdopt m st =
     (case st of (once, w) \<Rightarrow>
      case once of
        Some canAdoptErr \<Rightarrow> (canAdoptErr, st)
      | None \<Rightarrow>
          (case CanAdoptFunc m of
             None \<Rightarrow> (None, Some None, w)
           | Some fn \<Rightarrow> (case fn w of (e, w') \<Rightarrow> (e, Some e, w'))))"

text \<open>
  \<open>Claim\<close> for any kind of object: the caller supplies \<open>metav1.GetControllerOf\<close> and the
  deletion timestamp of its objects.
\<close>

definition Claim ::
  "kube \<Rightarrow> 's claim_manager \<Rightarrow> ('o \<Rightarrow> owner_ref option) \<Rightarrow> ('o \<Rightarrow> string option) \<Rightarrow> 'o \<Rightarrow>
   ('o \<Rightarrow> bool) \<Rightarrow> ('o \<Rightarrow> 'st \<Rightarrow> gerr option \<times> 'st) \<Rightarrow> ('o \<Rightarrow> 'st \<Rightarrow> gerr option \<times> 'st) \<Rightarrow>
   'st \<Rightarrow> bool res \<times> 'st" where
  "Claim K m controllerOf deletionTimestamp x match adopt release st =
     (case controllerOf x of
        Some controllerRef \<Rightarrow>
          if orUID controllerRef \<noteq> GetUID K (Watched m) then (Inr False, st)
          else if match x then (Inr True, st)
          else if GetDeletionTimestamp K (Watched m) \<noteq> None then (Inr False, st)
          else (case release x st of
                  (Some e, st') \<Rightarrow> if IsNotFound e then (Inr False, st') else (Inl e, st')
                | (None, st') \<Rightarrow> (Inr False, st'))
      | None \<Rightarrow>
          if GetDeletionTimestamp K (Watched m) \<noteq> None \<or> \<not> match x then (Inr False, st)
          else if deletionTimestamp x \<noteq> None then (Inr False, st)
          else (case adopt x st of
                  (Some e, st') \<Rightarrow> if IsNotFound e then (Inr False, st') else (Inl e, st')
                | (None, st') \<Rightarrow> (Inr True, st')))"

definition ErrorOnDeletionTimestamp ::
  "kube \<Rightarrow> ('s \<Rightarrow> obj res \<times> 's) \<Rightarrow> 's \<Rightarrow> gerr option \<times> 's" where
  "ErrorOnDeletionTimestamp K getObject s =
     (case getObject s of
        (Inl e, s') \<Rightarrow> (Some e, s')
      | (Inr x, s') \<Rightarrow>
          if GetDeletionTimestamp K x \<noteq> None
          then (Some (Msg (GetNamespace K x @ ''/'' @ GetName K x @ '' has just been deleted'')), s')
          else (None, s'))"

text \<open>The loop of the two \<open>BulkClaim\<close>s.\<close>

fun claim_all ::
  "('o \<Rightarrow> 'st \<Rightarrow> bool res \<times> 'st) \<Rightarrow> 'o list \<Rightarrow> 'o list \<Rightarrow> gerr list \<Rightarrow> 'st \<Rightarrow>
   ('o list \<times> gerr list) \<times> 'st" where
  "claim_all claim [] claimed errlist st = ((claimed, errlist), st)"
| "claim_all claim (x # xs) claimed errlist st =
     (case claim x st of
        (Inl e, st') \<Rightarrow> claim_all claim xs claimed (errlist @ [e]) st'
      | (Inr ok, st') \<Rightarrow> claim_all claim xs (if ok then claimed @ [x] else claimed) errlist st')"

definition watched_ref :: "kube \<Rightarrow> 's claim_manager \<Rightarrow> owner_ref" where
  "watched_ref K m =
     \<lparr>orAPIVersion = GroupVersionString K (fst (WatchedKind m)) (fst (snd (WatchedKind m))),
      orKind = snd (snd (WatchedKind m)), orName = GetName K (Watched m),
      orUID = GetUID K (Watched m), orController = Some True, orBlock = Some True\<rparr>"

section \<open>Unstructured attachments\<close>

definition atomicUpdate ::
  "'s env \<Rightarrow> resource_client \<Rightarrow> obj \<Rightarrow> update_fn \<Rightarrow> 's world \<Rightarrow> gerr option \<times> 's world" where
  "atomicUpdate E resourceClient resource updateFunc w =
     (case AtomicUpdate E (Namespace resourceClient (GetNamespace (kubeOf E) resource)) resource
             updateFunc w of
        (Inl e, w') \<Rightarrow> (Some e, w')
      | (Inr result, w') \<Rightarrow> (None, w'))"

definition adopt_fn :: "kube \<Rightarrow> 's claim_manager \<Rightarrow> update_fn" where
  "adopt_fn K m x =
     (True, SetOwnerReferences K x (addOwnerReference (GetOwnerReferences K x) (watched_ref K m)))"

definition release_fn :: "kube \<Rightarrow> 's claim_manager \<Rightarrow> update_fn" where
  "release_fn K m x =
     (True, SetOwnerReferences K x
        (removeOwnerReference (GetOwnerReferences K x) (GetUID K (Watched m))))"

definition adopt ::
  "'s env \<Rightarrow> 's world claim_manager \<Rightarrow> resource_client \<Rightarrow> obj \<Rightarrow> 's world claim_state \<Rightarrow>
   gerr option \<times> 's world claim_state" where
  "adopt E m attachmentClient attachment st =
     (case CanAdopt m st of
        (Some e, st') \<Rightarrow>
          (Some (Wrap (ClaimManager_String (kubeOf E) m @ '': Failed to adopt child '' @
             GetNamespace (kubeOf E) attachment @ ''/'' @ GetName (kubeOf E) attachment) e), st')
      | (None, once, w) \<Rightarrow>
          (case atomicUpdate E attachmentClient attachment (adopt_fn (kubeOf E) m) w of
             (e, w') \<Rightarrow> (e, once, w')))"

definition release ::
  "'s env \<Rightarrow> 's world claim_manager \<Rightarrow> resource_client \<Rightarrow> obj \<Rightarrow> 's world claim_state \<Rightarrow>
   gerr option \<times> 's world claim_state" where
  "release E m attachmentClient attachment st =
     (case st of (once, w) \<Rightarrow>
      case atomicUpdate E attachmentClient attachment (release_fn (kubeOf E) m) w of
        (Some e, w') \<Rightarrow> (if IsNotFound e \<or> IsGone e then None else Some e, once, w')
      | (None, w') \<Rightarrow> (None, once, w'))"

definition selector_match :: "kube \<Rightarrow> 's claim_manager \<Rightarrow> obj \<Rightarrow> bool" where
  "selector_match K m attachment = SelectorMatches m (mrange (GetLabels K attachment))"

definition claim_attachment ::
  "'s env \<Rightarrow> 's world claim_manager \<Rightarrow> resource_client \<Rightarrow> obj \<Rightarrow> 's world claim_state \<Rightarrow>
   bool res \<times> 's world claim_state" where
  "claim_attachment E m attachmentClient x st =
     Claim (kubeOf E) m (GetControllerOf (kubeOf E)) (GetDeletionTimestamp (kubeOf E)) x
       (selector_match (kubeOf E) m) (adopt E m attachmentClient) (release E m attachmentClient) st"

definition BulkClaim ::
  "'s env \<Rightarrow> 's world claim_manager \<Rightarrow> resource_client \<Rightarrow> obj list \<Rightarrow> 's world claim_state \<Rightarrow>
   (obj list \<times> gerr list) \<times> 's world claim_state" where
  "BulkClaim E m attachmentClient attachments st =
     claim_all (claim_attachment E m attachmentClient) attachments [] [] st"

section \<open>Controller revisions\<close>

text \<open>
  The parts of \<open>v1alpha1.ControllerRevision\<close> the controllers use. Requests go through the
  generated client, a parameter that is bound to a namespace.
\<close>

record revision_children =
  rcAPIGroup :: string
  rcKind :: string
  rcNames :: "string list"

record controller_revision =
  crAPIVersion :: string
  crKind :: string
  crNamespace :: string
  crName :: string
  crUID :: string
  crDeletionTimestamp :: "string option"
  crLabels :: "strmap option"
  crAnnotations :: "strmap option"
  crOwnerReferences :: "owner_ref list"
  crParentPatch :: string
  crChildren :: "revision_children list"

datatype cr_request = CRGet string | CRCreate controller_revision | CRUpdate controller_revision
  | CRDelete string string

record 's cr_world =
  crSrv :: 's
  crCalls :: "(cr_request \<times> controller_revision res) list"

record 's cr_env =
  crKube :: kube
  crControllerOf :: "controller_revision \<Rightarrow> owner_ref option"
  crExec :: "cr_request \<Rightarrow> 's \<Rightarrow> controller_revision res \<times> 's"
  crRetry :: "(controller_revision option \<times> 's cr_world \<Rightarrow>
      gerr option \<times> controller_revision option \<times> 's cr_world) \<Rightarrow>
    controller_revision option \<times> 's cr_world \<Rightarrow>
    gerr option \<times> controller_revision option \<times> 's cr_world"

definition cr_call :: "'s cr_env \<Rightarrow> cr_request \<Rightarrow> 's cr_world \<Rightarrow> controller_revision res \<times> 's cr_world" where
  "cr_call C req w =
     (case crExec C req (crSrv w) of
        (resp, s') \<Rightarrow> (resp, w\<lparr>crSrv := s', crCalls := crCalls w @ [(req, resp)]\<rparr>))"

text \<open>
  The closure given to the retry loop, as it is written: an update function that reports a
  change ends it with the nil error of the read, and \<open>result\<close> is not assigned.
\<close>

definition cr_attempt ::
  "'s cr_env \<Rightarrow> controller_revision \<Rightarrow> (controller_revision \<Rightarrow> bool \<times> controller_revision) \<Rightarrow>
   controller_revision option \<times> 's cr_world \<Rightarrow>
   gerr option \<times> controller_revision option \<times> 's cr_world" where
  "cr_attempt C orig update st =
     (case st of (result, w) \<Rightarrow>
      case cr_call C (CRGet (crName orig)) w of
        (Inl e, w1) \<Rightarrow> (Some e, result, w1)
      | (Inr current, w1) \<Rightarrow>
          if crUID current \<noteq> crUID orig then (Some (Api (NotFound (crName orig))), result, w1)
          else (case update current of
                  (False, current') \<Rightarrow> (None, Some current', w1)
                | (True, current') \<Rightarrow> (None, result, w1)))"

definition updateWithRetries ::
  "'s cr_env \<Rightarrow> controller_revision \<Rightarrow> (controller_revision \<Rightarrow> bool \<times> controller_revision) \<Rightarrow>
   's cr_world \<Rightarrow> gerr option \<times> controller_revision option \<times> 's cr_world" where
  "updateWithRetries C orig update w = crRetry C (cr_attempt C orig update) (None, w)"

definition cr_adopt ::
  "'s cr_env \<Rightarrow> 's cr_world claim_manager \<Rightarrow> controller_revision \<Rightarrow> 's cr_world claim_state \<Rightarrow>
   gerr option \<times> 's cr_world claim_state" where
  "cr_adopt C m revision st =
     (case CanAdopt m st of
        (Some e, st') \<Rightarrow>
          (Some (Wrap (ClaimManager_String (crKube C) m @ '': Failed to adopt ControllerRevision '' @
             crNamespace revision @ ''/'' @ crName revision) e), st')
      | (None, once, w) \<Rightarrow>
          (case updateWithRetries C revision
                  (\<lambda>x. (True, x\<lparr>crOwnerReferences :=
                     addOwnerReference (crOwnerReferences x) (watched_ref (crKube C) m)\<rparr>)) w of
             (e, result, w') \<Rightarrow> (e, once, w')))"

definition cr_release ::
  "'s cr_env \<Rightarrow> 's cr_world claim_manager \<Rightarrow> controller_revision \<Rightarrow> 's cr_world claim_state \<Rightarrow>
   gerr option \<times> 's cr_world claim_state" where
  "cr_release C m revision st =
     (case st of (once, w) \<Rightarrow>
      case updateWithRetries C revision
             (\<lambda>x. (True, x\<lparr>crOwnerReferences :=
                removeOwnerReference (crOwnerReferences x) (GetUID (crKube C) (Watched m))\<rparr>)) w of
        (Some e, result, w') \<Rightarrow> (if IsNotFound e \<or> IsGone e then None else Some e, once, w')
      | (None, result, w') \<Rightarrow> (None, once, w'))"

definition claim_revision ::
  "'s cr_env \<Rightarrow> 's cr_world claim_manager \<Rightarrow> controller_revision \<Rightarrow> 's cr_world claim_state \<Rightarrow>
   bool res \<times> 's cr_world claim_state" where
  "claim_revision C m x st =
     Claim (crKube C) m (crControllerOf C) crDeletionTimestamp x
       (\<lambda>r. SelectorMatches m (mrange (crLabels r))) (cr_adopt C m) (cr_release C m) st"

definition cr_BulkClaim ::
  "'s cr_env \<Rightarrow> 's cr_world claim_manager \<Rightarrow> controller_revision list \<Rightarrow> 's cr_world claim_state \<Rightarrow>
   (controller_revision list \<times> gerr list) \<times> 's cr_world claim_state" where
  "cr_BulkClaim C m ctrlRevisions st =
     claim_all (claim_revision C m) ctrlRevisions [] [] st"

section \<open>Owner reference lists\<close>

lemma replace_owner_eq:
  "replace_owner rs a = (map (\<lambda>r. if orUID r = orUID a then a else r) rs, orUID a \<in> orUID ` set rs)"
  by (induction rs) auto

lemma addOwnerReference_eq:
  "addOwnerReference rs a =
     (if orUID a \<in> orUID ` set rs then map (\<lambda>r. if orUID r = orUID a then a else r) rs
      else rs @ [a])"
proof -
  have "map (\<lambda>r. if orUID r = orUID a then a else r) rs = rs" if "orUID a \<notin> orUID ` set rs"
    using that by (intro map_idI) (metis imageI)
  then show ?thesis by (simp add: addOwnerReference_def replace_owner_eq)
qed

section \<open>Claiming\<close>

lemma claim_all_inv:
  "claim_all claim xs claimed errs st = ((claimed', errs'), st') \<Longrightarrow> I st \<Longrightarrow>
   (\<And>x st r st'. x \<in> set xs \<Longrightarrow> I st \<Longrightarrow> claim x st = (r, st') \<Longrightarrow> I st') \<Longrightarrow> I st'"
proof (induction xs arbitrary: claimed errs st)
  case (Cons x xs)
  obtain r st1 where c: "claim x st = (r, st1)" by fastforce
  with Cons.prems(2,3) have "I st1" by (meson list.set_intros(1))
  moreover have "I st'" if "claim_all claim xs cl er st1 = ((claimed', errs'), st')" "I st1" for cl er
    using Cons.IH [OF that] Cons.prems(3) by (meson list.set_intros(2))
  ultimately show ?case using Cons.prems(1) c by (cases r) auto
qed simp

lemma claim_all_claimed:
  assumes refl: "\<forall>s. R s s" and trans: "\<forall>s1 s2 s3. R s1 s2 \<longrightarrow> R s2 s3 \<longrightarrow> R s1 s3"
  shows "claim_all claim xs claimed errs st = ((claimed', errs'), st') \<Longrightarrow>
    \<forall>x \<in> set xs. \<forall>s r s'. claim x s = (r, s') \<longrightarrow> R s s' \<Longrightarrow>
    R st st' \<and> (\<forall>x \<in> set claimed'. x \<in> set claimed \<or>
      x \<in> set xs \<and> (\<exists>st1 st2. claim x st1 = (Inr True, st2) \<and> R st st1 \<and> R st2 st'))"
proof (induction xs arbitrary: claimed errs st)
  case (Cons y xs)
  obtain r st1 where c: "claim y st = (r, st1)" by fastforce
  with Cons.prems(2) have step: "R st st1" by simp
  have steps: "\<forall>x \<in> set xs. \<forall>s r s'. claim x s = (r, s') \<longrightarrow> R s s'"
    using Cons.prems(2) by simp
  obtain cl1 er1 where run: "claim_all claim xs cl1 er1 st1 = ((claimed', errs'), st')"
    and cl1: "\<forall>x \<in> set cl1. x \<in> set claimed \<or> x = y \<and> r = Inr True"
  proof (cases r)
    case (Inl e)
    with Cons.prems(1) c that [of claimed "errs @ [e]"] show ?thesis by simp
  next
    case (Inr ok)
    with Cons.prems(1) c that [of "if ok then claimed @ [y] else claimed" errs] show ?thesis by simp
  qed
  from Cons.IH [OF run steps] have ih: "R st1 st'"
    "\<forall>x \<in> set claimed'. x \<in> set cl1 \<or>
       x \<in> set xs \<and> (\<exists>s1 s2. claim x s1 = (Inr True, s2) \<and> R st1 s1 \<and> R s2 st')"
    by blast+
  have "x \<in> set claimed \<or> x \<in> set (y # xs) \<and>
      (\<exists>s1 s2. claim x s1 = (Inr True, s2) \<and> R st s1 \<and> R s2 st')" if "x \<in> set claimed'" for x
  proof -
    from ih(2) cl1 that consider "x \<in> set claimed" | "x = y" "r = Inr True"
      | s1 s2 where "x \<in> set xs" "claim x s1 = (Inr True, s2)" "R st1 s1" "R s2 st'"
      by blast
    then show ?thesis
    proof cases
      case 2
      with c ih(1) refl have "claim x st = (Inr True, st1)" "R st st" "R st1 st'" by simp_all
      with 2 show ?thesis by auto
    next
      case 3
      with trans step have "R st s1" by blast
      with 3 show ?thesis by auto
    qed simp
  qed
  moreover have "R st st'" using step ih(1) trans by blast
  ultimately show ?case by blast
qed (simp add: refl)

text \<open>The three ways through \<open>Claim\<close>: nothing is done, or the object is released, or adopted.\<close>

lemma Claim_cases:
  assumes "Claim K m co del x match ad rl st = (r, st')"
  obtains (skip) "st' = st" "r = Inr (co x \<noteq> None \<and> orUID (the (co x)) = GetUID K (Watched m) \<and> match x)"
  | (release) ref e where "co x = Some ref" "orUID ref = GetUID K (Watched m)" "\<not> match x"
      "GetDeletionTimestamp K (Watched m) = None" "rl x st = (e, st')"
      "r = (case e of None \<Rightarrow> Inr False | Some e \<Rightarrow> if IsNotFound e then Inr False else Inl e)"
  | (adopt) e where "co x = None" "match x" "del x = None"
      "GetDeletionTimestamp K (Watched m) = None" "ad x st = (e, st')"
      "r = (case e of None \<Rightarrow> Inr True | Some e \<Rightarrow> if IsNotFound e then Inr False else Inl e)"
proof (cases "co x")
  case None
  then show ?thesis
    using assms skip adopt
    by (auto simp: Claim_def split: if_splits prod.splits option.splits)
next
  case (Some ref)
  then show ?thesis
    using assms skip release
    by (auto simp: Claim_def split: if_splits prod.splits option.splits)
qed

section \<open>The calls made by claiming\<close>

definition adoptable :: "kube \<Rightarrow> 's claim_manager \<Rightarrow> obj \<Rightarrow> bool" where
  "adoptable K m x = (GetControllerOf K x = None \<and> selector_match K m x \<and> GetDeletionTimestamp K x = None)"

definition releasable :: "kube \<Rightarrow> 's claim_manager \<Rightarrow> obj \<Rightarrow> bool" where
  "releasable K m x = (map_option orUID (GetControllerOf K x) = Some (GetUID K (Watched m)) \<and>
     \<not> selector_match K m x)"

text \<open>The writes that claiming an attachment may make.\<close>

definition claim_write :: "kube \<Rightarrow> 's claim_manager \<Rightarrow> resource_client \<Rightarrow> obj \<Rightarrow> request \<Rightarrow> bool" where
  "claim_write K m c x q =
     (\<exists>current. GetUID K current = GetUID K x \<and>
       (adoptable K m x \<and> q = rc_Update (Namespace c (GetNamespace K x)) (snd (adopt_fn K m current)) \<or>
        releasable K m x \<and> q = rc_Update (Namespace c (GetNamespace K x)) (snd (release_fn K m current))))"

lemma atomicUpdate_log:
  assumes "conflict_retry (retryOf E)" and "atomicUpdate E c x f w = (e, w')"
  shows "\<exists>ts. calls w' = calls w @ ts \<and>
    (\<forall>q resp. (q, resp) \<in> set ts \<longrightarrow> is_read q \<or>
      (\<exists>current y. GetUID (kubeOf E) current = GetUID (kubeOf E) x \<and> f current = (True, y) \<and>
         q = rc_Update (Namespace c (GetNamespace (kubeOf E) x)) y)) \<and>
    (e = None \<longrightarrow> (\<exists>result. update_outcome
       (rc_Get (Namespace c (GetNamespace (kubeOf E) x)) (GetName (kubeOf E) x))
       (rc_Update (Namespace c (GetNamespace (kubeOf E) x))) (kubeOf E) x f ts result))"
proof -
  obtain r w1 where a: "AtomicUpdate E (Namespace c (GetNamespace (kubeOf E) x)) x f w = (r, w1)"
    by fastforce
  with assms(2) have "w' = w1" "e = None \<Longrightarrow> \<exists>result. r = Inr result"
    by (auto simp: atomicUpdate_def split: sum.splits)
  with AtomicUpdate_log [OF assms(1) a] rmw_log_writes show ?thesis
    by (metis is_read_simps(1))
qed

definition once_reads :: "'s world claim_manager \<Rightarrow> bool" where
  "once_reads m = (\<forall>fn w e w'. CanAdoptFunc m = Some fn \<and> fn w = (e, w') \<longrightarrow>
     (\<exists>ts. calls w' = calls w @ ts \<and> (\<forall>(q, resp) \<in> set ts. is_read q)))"

definition claim_log :: "'s env \<Rightarrow> 's world claim_manager \<Rightarrow> resource_client \<Rightarrow> obj list \<Rightarrow>
    's world \<Rightarrow> 's world \<Rightarrow> bool" where
  "claim_log E m c xs w w' =
     (\<exists>ts. calls w' = calls w @ ts \<and>
       (GetDeletionTimestamp (kubeOf E) (Watched m) \<noteq> None \<longrightarrow> ts = []) \<and>
       (\<forall>(q, resp) \<in> set ts. is_read q \<or> (\<exists>x \<in> set xs. claim_write (kubeOf E) m c x q)))"

lemma claim_log_refl: "claim_log E m c xs w w"
  by (auto simp: claim_log_def)

lemma claim_log_trans:
  "claim_log E m c xs w w1 \<Longrightarrow> claim_log E m c xs w1 w2 \<Longrightarrow> claim_log E m c xs w w2"
  by (fastforce simp: claim_log_def)

lemma claim_attachment_log:
  assumes "conflict_retry (retryOf E)" and "once_reads m"
    and "claim_attachment E m c x st = (r, st')"
  shows "claim_log E m c [x] (snd st) (snd st')"
  using assms(3) unfolding claim_attachment_def
proof (cases rule: Claim_cases)
  case skip
  then show ?thesis by (simp add: claim_log_refl)
next
  case (release ref e)
  obtain once w where st: "st = (once, w)" by fastforce
  obtain e1 w1 where u: "atomicUpdate E c x (release_fn (kubeOf E) m) w = (e1, w1)" by fastforce
  with release st have "snd st' = w1" by (auto simp: release_def split: option.splits)
  moreover have "releasable (kubeOf E) m x" using release by (simp add: releasable_def)
  moreover have "snd (release_fn (kubeOf E) m cur) = y" if "release_fn (kubeOf E) m cur = (True, y)" for cur y
    using that by simp
  ultimately show ?thesis using atomicUpdate_log [OF assms(1) u] release st
    by (fastforce simp: claim_log_def claim_write_def)
next
  case (adopt e)
  obtain once w where st: "st = (once, w)" by fastforce
  obtain e1 once1 w1 where a: "CanAdopt m st = (e1, once1, w1)" by (metis prod_cases3)
  have reads: "\<exists>ts. calls w1 = calls w @ ts \<and> (\<forall>(q, resp) \<in> set ts. is_read q)"
  proof -
    from a st have "w1 = w \<or> (\<exists>fn. CanAdoptFunc m = Some fn \<and> fn w = (e1, w1))"
      by (auto simp: CanAdopt_def split: option.splits prod.splits)
    with assms(2) show ?thesis by (auto simp: once_reads_def)
  qed
  then have first: "claim_log E m c [x] w w1"
    using adopt by (fastforce simp: claim_log_def)
  show ?thesis
  proof (cases e1)
    case (Some er)
    with adopt a st first show ?thesis by (auto simp: adopt_def)
  next
    case None
    obtain e2 w2 where u: "atomicUpdate E c x (adopt_fn (kubeOf E) m) w1 = (e2, w2)" by fastforce
    with adopt a st None have "snd st' = w2" by (auto simp: adopt_def)
    moreover have "adoptable (kubeOf E) m x" using adopt by (simp add: adoptable_def)
    moreover have "snd (adopt_fn (kubeOf E) m cur) = y" if "adopt_fn (kubeOf E) m cur = (True, y)" for cur y
      using that by simp
    ultimately have "claim_log E m c [x] w1 (snd st')"
      using atomicUpdate_log [OF assms(1) u] adopt
      by (fastforce simp: claim_log_def claim_write_def)
    with first st show ?thesis by (auto intro: claim_log_trans)
  qed
qed

lemma claim_log_mono: "claim_log E m c [x] w w' \<Longrightarrow> x \<in> set xs \<Longrightarrow> claim_log E m c xs w w'"
  by (fastforce simp: claim_log_def)

lemma BulkClaim_log:
  assumes "conflict_retry (retryOf E)" and "once_reads m"
    and "BulkClaim E m c xs st = ((claimed, errs), st')"
  shows "claim_log E m c xs (snd st) (snd st')"
proof (rule claim_all_inv [where I = "\<lambda>s. claim_log E m c xs (snd st) (snd s)"])
  show "claim_all (claim_attachment E m c) xs [] [] st = ((claimed, errs), st')"
    using assms(3) by (simp add: BulkClaim_def)
  show "claim_log E m c xs (snd st) (snd st)" by (rule claim_log_refl)
  fix x s r s'
  assume "x \<in> set xs" "claim_log E m c xs (snd st) (snd s)" "claim_attachment E m c x s = (r, s')"
  then show "claim_log E m c xs (snd st) (snd s')"
    using claim_attachment_log [OF assms(1,2)] claim_log_mono claim_log_trans by blast
qed

lemma BulkClaim_claimed:
  assumes "conflict_retry (retryOf E)" and "once_reads m"
    and "BulkClaim E m c xs st = ((claimed, errs), st')" and "x \<in> set claimed"
  shows "x \<in> set xs \<and> (\<exists>st1 st2. claim_attachment E m c x st1 = (Inr True, st2) \<and>
    claim_log E m c xs (snd st) (snd st1) \<and> claim_log E m c xs (snd st2) (snd st'))"
proof -
  let ?R = "\<lambda>s s'. claim_log E m c xs (snd s) (snd s')"
  have refl: "\<forall>s. ?R s s" by (simp add: claim_log_refl)
  have trans: "\<forall>s1 s2 s3. ?R s1 s2 \<longrightarrow> ?R s2 s3 \<longrightarrow> ?R s1 s3" using claim_log_trans by blast
  have step: "\<forall>y \<in> set xs. \<forall>s r s'. claim_attachment E m c y s = (r, s') \<longrightarrow> ?R s s'"
    using claim_log_mono claim_attachment_log [OF assms(1,2)] by blast
  have "claim_all (claim_attachment E m c) xs [] [] st = ((claimed, errs), st')"
    using assms(3) by (simp add: BulkClaim_def)
  from claim_all_claimed [of ?R, OF refl trans this step] assms(4) show ?thesis by auto
qed

lemma adopted_write:
  assumes "conflict_retry (retryOf E)"
    and "claim_attachment E m c x st = (Inr True, st')" and "GetControllerOf (kubeOf E) x = None"
  shows "\<exists>pre ts current y. calls (snd st') = pre @ ts \<and> GetUID (kubeOf E) current = GetUID (kubeOf E) x \<and>
    (rc_Update (Namespace c (GetNamespace (kubeOf E) x)) (snd (adopt_fn (kubeOf E) m current)), Inr y) \<in> set ts"
  using assms(2) unfolding claim_attachment_def
proof (cases rule: Claim_cases)
  case (adopt e)
  then have "e = None" by (auto split: option.splits if_splits)
  obtain e1 once1 w1 where a: "CanAdopt m st = (e1, once1, w1)" by (metis prod_cases3)
  with adopt \<open>e = None\<close> have "e1 = None" by (auto simp: adopt_def split: option.splits)
  obtain e2 w2 where u: "atomicUpdate E c x (adopt_fn (kubeOf E) m) w1 = (e2, w2)" by fastforce
  with adopt \<open>e = None\<close> a \<open>e1 = None\<close> have "snd st' = w2" "e2 = None" by (auto simp: adopt_def)
  with atomicUpdate_log [OF assms(1) u] obtain ts result where
    "calls (snd st') = calls w1 @ ts"
    "update_outcome (rc_Get (Namespace c (GetNamespace (kubeOf E) x)) (GetName (kubeOf E) x))
       (rc_Update (Namespace c (GetNamespace (kubeOf E) x))) (kubeOf E) x (adopt_fn (kubeOf E) m) ts result"
    by blast
  then show ?thesis by (fastforce simp: update_outcome_def adopt_fn_def)
qed (use assms(3) in \<open>auto split: option.splits if_splits\<close>)

section \<open>The calls made by claiming revisions\<close>

definition cr_reads :: "'s cr_world \<Rightarrow> 's cr_world \<Rightarrow> bool" where
  "cr_reads w w' = (\<exists>ts. crCalls w' = crCalls w @ ts \<and> (\<forall>(q, resp) \<in> set ts. \<exists>n. q = CRGet n))"

lemma cr_reads_refl: "cr_reads w w"
  by (auto simp: cr_reads_def)

lemma cr_reads_trans: "cr_reads w w1 \<Longrightarrow> cr_reads w1 w2 \<Longrightarrow> cr_reads w w2"
  by (fastforce simp: cr_reads_def)

definition once_cr_reads :: "'s cr_world claim_manager \<Rightarrow> bool" where
  "once_cr_reads m = (\<forall>fn w e w'. CanAdoptFunc m = Some fn \<and> fn w = (e, w') \<longrightarrow> cr_reads w w')"

lemma cr_attempt_reads:
  assumes "cr_attempt C orig f (r, w) = (e, r', w')"
  shows "cr_reads w w'"
proof -
  obtain resp w1 where g: "cr_call C (CRGet (crName orig)) w = (resp, w1)" by fastforce
  then have "cr_reads w w1" by (auto simp: cr_call_def cr_reads_def split: prod.splits)
  moreover have "w' = w1"
    using assms g by (auto simp: cr_attempt_def split: sum.splits if_splits prod.splits bool.splits)
  ultimately show ?thesis by simp
qed

lemma updateWithRetries_reads:
  assumes "conflict_retry (crRetry C)" and "updateWithRetries C orig f w = (e, r, w')"
  shows "cr_reads w w'"
proof -
  have step: "cr_reads w (snd s')" if "cr_reads w (snd s)" "cr_attempt C orig f s = (e, s')" for s e s'
    using that cr_attempt_reads [of C orig f "fst s" "snd s" e "fst s'" "snd s'"]
    by (auto intro: cr_reads_trans)
  obtain s1 where "cr_reads w (snd s1)" "cr_attempt C orig f s1 = (e, r, w')"
    using conflict_retry.retry_last [OF assms(1), of "cr_attempt C orig f" "(None, w)" e "(r, w')"
        "\<lambda>s. cr_reads w (snd s)"] assms(2) step cr_reads_refl [of w]
    by (auto simp: updateWithRetries_def)
  with step [of s1 e "(r, w')"] show ?thesis by simp
qed

lemma claim_revision_reads:
  assumes "conflict_retry (crRetry C)" and "once_cr_reads m" and "claim_revision C m x st = (r, st')"
  shows "cr_reads (snd st) (snd st')"
  using assms(3) unfolding claim_revision_def
proof (cases rule: Claim_cases)
  case skip
  then show ?thesis by (simp add: cr_reads_refl)
next
  case (release ref e)
  then show ?thesis using updateWithRetries_reads [OF assms(1)]
    by (cases st) (auto simp: cr_release_def split: prod.splits option.splits)
next
  case (adopt e)
  obtain e1 once1 w1 where a: "CanAdopt m st = (e1, once1, w1)" by (metis prod_cases3)
  have "cr_reads (snd st) w1"
    using a assms(2) by (auto simp: CanAdopt_def once_cr_reads_def cr_reads_refl
        split: prod.splits option.splits)
  with adopt a updateWithRetries_reads [OF assms(1)] show ?thesis
    by (auto simp: cr_adopt_def intro: cr_reads_trans split: prod.splits option.splits)
qed

section \<open>Properties\<close>

text \<open>
  Adding an owner reference replaces the references with its UID, wherever they are, or
  appends it; every other reference keeps its place. Adding twice is adding once, and
  removing the UID afterwards leaves exactly the references with other UIDs.
\<close>
theorem owner_reference_laws:
  "a \<in> set (addOwnerReference rs a) \<and>
   (\<forall>r \<in> set (addOwnerReference rs a). orUID r = orUID a \<longrightarrow> r = a) \<and>
   filter (\<lambda>r. orUID r \<noteq> orUID a) (addOwnerReference rs a) = filter (\<lambda>r. orUID r \<noteq> orUID a) rs \<and>
   addOwnerReference (addOwnerReference rs a) a = addOwnerReference rs a \<and>
   removeOwnerReference (addOwnerReference rs a) (orUID a) = removeOwnerReference rs (orUID a) \<and>
   removeOwnerReference (removeOwnerReference rs u) u = removeOwnerReference rs u"
proof -
  have rep: "filter (\<lambda>r. orUID r \<noteq> orUID a) (map (\<lambda>r. if orUID r = orUID a then a else r) rs) =
      filter (\<lambda>r. orUID r \<noteq> orUID a) rs"
    by (induction rs) auto
  show ?thesis
  proof (cases "orUID a \<in> orUID ` set rs")
    case True
    then obtain r where "r \<in> set rs" "orUID r = orUID a" by force
    then have "a \<in> set (map (\<lambda>r. if orUID r = orUID a then a else r) rs)" by force
    with True rep show ?thesis
      by (auto simp: addOwnerReference_eq removeOwnerReference_def image_image)
  next
    case False
    then have no: "\<forall>r \<in> set rs. orUID r \<noteq> orUID a" by (metis imageI)
    then have "map (\<lambda>r. if orUID r = orUID a then a else r) rs = rs" by (simp add: map_idI)
    with False no show ?thesis by (auto simp: addOwnerReference_eq removeOwnerReference_def)
  qed
qed

definition some_owner :: owner_ref where
  "some_owner = \<lparr>orAPIVersion = ''v1'', orKind = ''Pod'', orName = ''a'', orUID = ''u'',
     orController = Some True, orBlock = Some True\<rparr>"

theorem owner_reference_laws_witness:
  "removeOwnerReference (addOwnerReference [some_owner\<lparr>orUID := ''w''\<rparr>] some_owner) ''u'' =
     removeOwnerReference [some_owner\<lparr>orUID := ''w''\<rparr>] ''u'' \<and>
   some_owner \<in> set (addOwnerReference [some_owner\<lparr>orUID := ''w''\<rparr>] some_owner)"
  using owner_reference_laws [of some_owner "[some_owner\<lparr>orUID := ''w''\<rparr>]" "''u''"]
  by (simp add: some_owner_def)

text \<open>
  Claiming never touches what belongs to someone else and changes nothing while the
  watched object is being deleted, when it only reports what is owned and matches. It reports an
  object as owned only if the selector matches and either it was owned already, or it was an
  orphan, nobody was being deleted, and its adoption succeeded. An error comes from the
  adoption or the release and is never about a missing object.
\<close>
theorem Claim_is_safe:
  assumes "Claim K m co del x match ad rl st = (r, st')"
  shows "(\<forall>ref. co x = Some ref \<and> orUID ref \<noteq> GetUID K (Watched m) \<longrightarrow> r = Inr False \<and> st' = st) \<and>
    (GetDeletionTimestamp K (Watched m) \<noteq> None \<longrightarrow> st' = st \<and>
       (\<exists>owned. r = Inr owned \<and>
         (owned \<longleftrightarrow> map_option orUID (co x) = Some (GetUID K (Watched m)) \<and> match x))) \<and>
    (r = Inr True \<longrightarrow> match x \<and>
       (map_option orUID (co x) = Some (GetUID K (Watched m)) \<and> st' = st \<or>
        co x = None \<and> del x = None \<and> GetDeletionTimestamp K (Watched m) = None \<and> ad x st = (None, st'))) \<and>
    (\<forall>e. r = Inl e \<longrightarrow> \<not> IsNotFound e \<and> (ad x st = (Some e, st') \<or> rl x st = (Some e, st')))"
  using assms by (cases rule: Claim_cases) (auto split: option.splits if_splits)

theorem Claim_is_safe_witness:
  "\<exists>m :: unit claim_manager. Claim std_kube m (\<lambda>_. None) (\<lambda>_. None) pod_a (\<lambda>_. True) (\<lambda>_ st. (None, Suc st)) (\<lambda>_ st. (None, st)) 0
      = (Inr True, 1) \<and> Watched m = pod_a"
proof -
  let ?m = "\<lparr>Watched = pod_a, WatchedKind = ('''', ''v1'', ''Pod''), SelectorMatches = \<lambda>_. True,
      CanAdoptFunc = None\<rparr> :: unit claim_manager"
  have "GetDeletionTimestamp std_kube pod_a = None"
    by (simp add: std_kube_sel std_read_def pod_a_def)
  then have run: "Claim std_kube ?m (\<lambda>_. None) (\<lambda>_. None) pod_a (\<lambda>_. True)
      (\<lambda>_ st. (None, Suc st)) (\<lambda>_ st. (None, st)) 0 = (Inr True, 1)"
    by (simp add: Claim_def)
  from Claim_is_safe [OF this] run show ?thesis by (intro exI [of _ ?m]) simp
qed


definition pod_manager :: "server world claim_manager" where
  "pod_manager = \<lparr>Watched = pod_a, WatchedKind = ('''', ''v1'', ''Pod''), SelectorMatches = \<lambda>_. True,
     CanAdoptFunc = None\<rparr>"

lemma pod_manager_reads: "once_reads pod_manager"
  by (simp add: once_reads_def pod_manager_def)




lemma cr_BulkClaim_reads:
  assumes "conflict_retry (crRetry C)" and "once_cr_reads m"
    and "cr_BulkClaim C m xs st = ((claimed, errs), st')"
  shows "cr_reads (snd st) (snd st')"
proof (rule claim_all_inv [where I = "\<lambda>s. cr_reads (snd st) (snd s)"])
  show "claim_all (claim_revision C m) xs [] [] st = ((claimed, errs), st')"
    using assms(3) by (simp add: cr_BulkClaim_def)
  show "cr_reads (snd st) (snd st)" by (rule cr_reads_refl)
  fix x s r s'
  assume "cr_reads (snd st) (snd s)" "claim_revision C m x s = (r, s')"
  then show "cr_reads (snd st) (snd s')"
    using claim_revision_reads [OF assms(1,2)] cr_reads_trans by blast
qed

text \<open>
  C29: Claiming controller revisions only ever reads them: an adoption or a release that is
  reported as done has not been written to the server.
\<close>
theorem revisions_never_written:
  assumes "conflict_retry (crRetry C)" and "once_cr_reads m"
    and "cr_BulkClaim C m xs st = ((claimed, errs), st')"
  shows "\<exists>ts. crCalls (snd st') = crCalls (snd st) @ ts \<and>
    (\<forall>(q, resp) \<in> set ts. \<exists>n. q = CRGet n)"
  using cr_BulkClaim_reads [OF assms] by (simp add: cr_reads_def)

definition orphan_revision :: controller_revision where
  "orphan_revision = \<lparr>crAPIVersion = '''', crKind = '''', crNamespace = '''', crName = ''r'',
     crUID = ''u'', crDeletionTimestamp = None, crLabels = None, crAnnotations = None,
     crOwnerReferences = [], crParentPatch = '''', crChildren = []\<rparr>"

definition cr_std_env :: "controller_revision cr_env" where
  "cr_std_env = \<lparr>crKube = std_kube,
     crControllerOf = \<lambda>r. find (\<lambda>o'. orController o' = Some True) (crOwnerReferences r),
     crExec = \<lambda>q s. case q of CRGet n \<Rightarrow> (Inr s, s) | CRUpdate r \<Rightarrow> (Inr r, r)
       | CRCreate r \<Rightarrow> (Inr r, r) | CRDelete n u \<Rightarrow> (Inr s, s),
     crRetry = attempts 3\<rparr>"

definition cr_manager :: "controller_revision cr_world claim_manager" where
  "cr_manager = \<lparr>Watched = pod_a, WatchedKind = ('''', ''v1'', ''Pod''), SelectorMatches = \<lambda>_. True,
     CanAdoptFunc = None\<rparr>"

theorem revisions_never_written_witness:
  "\<exists>st'. cr_BulkClaim cr_std_env cr_manager [orphan_revision]
      (None, \<lparr>crSrv = orphan_revision, crCalls = []\<rparr>) = (([orphan_revision], []), st') \<and>
    crSrv (snd st') = orphan_revision \<and> list_all (\<lambda>(q, resp). \<exists>n. q = CRGet n) (crCalls (snd st'))"
proof -
  let ?st = "(None, \<lparr>crSrv = orphan_revision, crCalls = []\<rparr>)"
  have "GetDeletionTimestamp std_kube pod_a = None"
    by (simp add: std_kube_sel std_read_def pod_a_def)
  then obtain st' where run:
    "cr_BulkClaim cr_std_env cr_manager [orphan_revision] ?st = (([orphan_revision], []), st')"
    and srv: "crSrv (snd st') = orphan_revision"
    by (simp add: cr_BulkClaim_def claim_revision_def Claim_def cr_adopt_def CanAdopt_def
        updateWithRetries_def cr_attempt_def cr_call_def cr_std_env_def cr_manager_def
        orphan_revision_def numeral_3_eq_3 is_conflict_def)
  have "conflict_retry (crRetry cr_std_env)" "once_cr_reads cr_manager"
    using default_backoff.conflict_retry_axioms
    by (simp_all add: cr_std_env_def once_cr_reads_def cr_manager_def)
  from revisions_never_written [OF this run] run srv show ?thesis by (auto simp: list_all_iff)
qed

end
