(* ===== verification/ManageChildren.thy ===== *)
theory ManageChildren
  imports ThreeWayMerge Registry Claims "HOL-Library.Sublist"
begin

text \<open>
  \<open>controller/common/manage_children.go\<close>: the apply step for one object, and the
  reconciliation of the observed children of a parent with the desired ones.

  A loop that collects errors returns their list, or a panic that ends it. The desired objects
  that \<open>updateChildren\<close> annotates before it creates them are not returned: each is
  used in its own round of the loop only.
\<close>

section \<open>Apply\<close>

record Apply =
  GetLastAppliedFn :: "(obj \<Rightarrow> obj option res) option"
  SetLastAppliedFn :: "(obj \<Rightarrow> obj \<Rightarrow> obj res) option"
  SanitizeLastAppliedFn :: "(obj \<Rightarrow> obj) option"
  isRun :: bool
  isEqual :: bool

definition empty_apply :: Apply where
  "empty_apply = \<lparr>GetLastAppliedFn = None, SetLastAppliedFn = None, SanitizeLastAppliedFn = None,
     isRun = False, isEqual = False\<rparr>"

definition NewApplyFromAnnKey :: "kube \<Rightarrow> string \<Rightarrow> Apply" where
  "NewApplyFromAnnKey K key = empty_apply
     \<lparr>GetLastAppliedFn := Some (\<lambda>x. GetLastAppliedByAnnKey K x key),
      SetLastAppliedFn := Some (\<lambda>x last. SetLastAppliedByAnnKey K x last key),
      SanitizeLastAppliedFn := Some (\<lambda>last. SanitizeLastAppliedByAnnKey K last key)\<rparr>"

definition revertField :: "kube \<Rightarrow> obj \<Rightarrow> obj \<Rightarrow> string list \<Rightarrow> obj res" where
  "revertField K newObj orig fieldPath =
     (case NestedField K orig fieldPath of
        Inl e \<Rightarrow> Inl (Wrap ''Can't traverse UnstructuredContent to look for field'' e)
      | Inr (Some origVal) \<Rightarrow>
          (case SetField K newObj origVal fieldPath of
             Inl e \<Rightarrow> Inl (Wrap ''Can't revert field'' e)
           | Inr newObj' \<Rightarrow> Inr newObj')
      | Inr None \<Rightarrow> Inr (RemoveField K newObj fieldPath))"

definition objectMetaSystemFields :: "string list" where
  "objectMetaSystemFields = [''selfLink'', ''uid'', ''resourceVersion'', ''generation'',
     ''creationTimestamp'', ''deletionTimestamp'']"

fun revert_fields :: "kube \<Rightarrow> obj \<Rightarrow> obj \<Rightarrow> string list \<Rightarrow> obj res" where
  "revert_fields K newObj orig [] = Inr newObj"
| "revert_fields K newObj orig (fieldName # fieldNames) =
     (case revertField K newObj orig [''metadata'', fieldName] of
        Inl e \<Rightarrow> Inl e
      | Inr newObj' \<Rightarrow> revert_fields K newObj' orig fieldNames)"

definition revertObjectMetaSystemFields :: "kube \<Rightarrow> obj \<Rightarrow> obj \<Rightarrow> obj res" where
  "revertObjectMetaSystemFields K newObj orig = revert_fields K newObj orig objectMetaSystemFields"

text \<open>
  The three results are the merged object or an error, the apply instance with its flags, and
  the desired object, which is sanitized in place. The error of setting the last applied
  state is dropped by the code.
\<close>

definition apply_merge ::
  "kube \<Rightarrow> (obj \<Rightarrow> obj option res) \<Rightarrow> (obj \<Rightarrow> obj \<Rightarrow> obj res) \<Rightarrow> (obj \<Rightarrow> obj) \<Rightarrow>
   Apply \<Rightarrow> obj \<Rightarrow> obj \<Rightarrow> obj res \<times> Apply \<times> obj" where
  "apply_merge K getLast setLast sanitize a observed desired =
     (case getLast observed of
        Inl e \<Rightarrow> (Inl e, a, desired)
      | Inr lastApplied \<Rightarrow>
     (case Merge observed lastApplied (Some desired) of
        Inl e \<Rightarrow> (Inl e, a, desired)
      | Inr merged \<Rightarrow>
     (case revertObjectMetaSystemFields K merged observed of
        Inl e \<Rightarrow> (Inl (Wrap ''Failed to revert ObjectMeta system fields'' e), a, desired)
      | Inr merged1 \<Rightarrow>
     (case revertField K merged1 observed [''status''] of
        Inl e \<Rightarrow> (Inl (Wrap ''Failed to revert .status'' e), a, desired)
      | Inr merged2 \<Rightarrow>
          let a' = a\<lparr>isRun := True, isEqual := deep_equal (JObj merged2) (JObj observed)\<rparr>;
              desired' = sanitize desired;
              merged3 = (case setLast merged2 desired' of Inl e \<Rightarrow> merged2 | Inr m \<Rightarrow> m)
          in (Inr merged3, a', desired')))))"

definition Apply_Merge :: "kube \<Rightarrow> Apply \<Rightarrow> obj \<Rightarrow> obj \<Rightarrow> obj res \<times> Apply \<times> obj" where
  "Apply_Merge K a observed desired =
     (let getLast = (case GetLastAppliedFn a of None \<Rightarrow> GetLastApplied K | Some f \<Rightarrow> f);
          setLast = (case SetLastAppliedFn a of None \<Rightarrow> SetLastApplied K | Some f \<Rightarrow> f);
          sanitize = (case SanitizeLastAppliedFn a of None \<Rightarrow> (\<lambda>l. l) | Some f \<Rightarrow> f)
      in apply_merge K getLast setLast sanitize
           (a\<lparr>GetLastAppliedFn := Some getLast, SetLastAppliedFn := Some setLast,
              SanitizeLastAppliedFn := Some sanitize\<rparr>) observed desired)"

definition HasMergeDiff :: "Apply \<Rightarrow> bool res" where
  "HasMergeDiff a =
     (if \<not> isRun a then Inl (Msg ''Invalid invocation: Merge has not been invoked'')
      else Inr (\<not> isEqual a))"

definition MakeOwnerRef :: "kube \<Rightarrow> obj \<Rightarrow> owner_ref" where
  "MakeOwnerRef K x =
     \<lparr>orAPIVersion = GetAPIVersion K x, orKind = GetKind K x, orName = GetName K x,
      orUID = GetUID K x, orController = Some True, orBlock = Some True\<rparr>"

section \<open>Children\<close>

record clientset =
  csParse :: "string \<Rightarrow> (string \<times> string) res"
  csDiscovery :: discovery

abbreviation client_for :: "clientset \<Rightarrow> string \<Rightarrow> string \<Rightarrow> resource_client res" where
  "client_for cs \<equiv> GetClientForAPIVersionAndKind (csParse cs) (csDiscovery cs)"

abbreviation "background \<equiv> Some ''Background''"

text \<open>An entry that is nil, or a name the map does not hold.\<close>

definition entry :: "obj option gomap \<Rightarrow> string \<Rightarrow> obj option" where
  "entry m name = (case map_of m name of None \<Rightarrow> None | Some x \<Rightarrow> x)"

fun deleteChildren ::
  "'s env \<Rightarrow> resource_client \<Rightarrow> obj \<Rightarrow> obj option gomap \<Rightarrow> obj option gomap \<Rightarrow> gerr list \<Rightarrow>
   's world \<Rightarrow> gerr list res \<times> 's world" where
  "deleteChildren E client parent desired [] errs w = (Inr errs, w)"
| "deleteChildren E client parent desired ((name, None) # observed) errs w = (Inl nil_deref, w)"
| "deleteChildren E client parent desired ((name, Some x) # observed) errs w =
     (let K = kubeOf E in
      if GetDeletionTimestamp K x \<noteq> None then deleteChildren E client parent desired observed errs w
      else if entry desired name = None
      then (case call E (rc_Delete (Namespace client (GetNamespace K x)) (GetName K x)
                           (Some (GetUID K x)) background) w of
              (Inl e, w') \<Rightarrow> deleteChildren E client parent desired observed
                 (errs @ [Msg (''can't delete '' @ describeObject K x @ '': '' @ err_text e)]) w'
            | (Inr resp, w') \<Rightarrow> deleteChildren E client parent desired observed errs w')
      else deleteChildren E client parent desired observed errs w)"

text \<open>The update strategy: a method for an API group and a kind.\<close>

type_synonym strategy = "string \<Rightarrow> string \<Rightarrow> string"

text \<open>One round of the loop of \<open>updateChildren\<close>: the errors it adds.\<close>

definition update_existing ::
  "'s env \<Rightarrow> resource_client \<Rightarrow> strategy \<Rightarrow> string \<Rightarrow> obj \<Rightarrow> obj \<Rightarrow> 's world \<Rightarrow> gerr list \<times> 's world" where
  "update_existing E client updateStrategy ns oldObj x w =
     (let K = kubeOf E in
      case Apply_Merge K empty_apply oldObj x of
        (Inl e, a, x') \<Rightarrow> ([e], w)
      | (Inr newObj, a, x') \<Rightarrow>
          if deep_equal (JObj newObj) (JObj oldObj) then ([], w)
          else if GetDeletionTimestamp K oldObj \<noteq> None then ([], w)
          else let method = updateStrategy (rGroup (rcResource client)) (rKind (rcResource client)) in
            if method = ''OnDelete'' \<or> method = '''' then ([], w)
            else if method = ''Recreate'' \<or> method = ''RollingRecreate''
            then (case call E (rc_Delete (Namespace client ns) (GetName K x')
                                 (Some (GetUID K oldObj)) background) w of
                    (Inl e, w') \<Rightarrow> ([e], w')
                  | (Inr resp, w') \<Rightarrow> ([], w'))
            else if method = ''InPlace'' \<or> method = ''RollingInPlace''
            then (case call E (rc_Update (Namespace client ns) newObj) w of
                    (Inl e, w') \<Rightarrow> ([e], w')
                  | (Inr resp, w') \<Rightarrow> ([], w'))
            else ([Msg (''invalid update strategy for '' @ rKind (rcResource client) @
                     '': unknown method '' @ quoted method)], w))"

definition create_child ::
  "'s env \<Rightarrow> resource_client \<Rightarrow> obj \<Rightarrow> string \<Rightarrow> obj \<Rightarrow> 's world \<Rightarrow> gerr list \<times> 's world" where
  "create_child E client parent ns x w =
     (let K = kubeOf E in
      case SetLastApplied K x x of
        Inl e \<Rightarrow> ([e], w)
      | Inr x1 \<Rightarrow>
          let ownerRefs = GetOwnerReferences K x1 @ [MakeOwnerRef K parent];
              x2 = SetOwnerReferences K x1 ownerRefs
          in (case call E (rc_Create (Namespace client ns) x2) w of
                (Inl e, w') \<Rightarrow> ([e], w')
              | (Inr resp, w') \<Rightarrow> ([], w')))"

definition update_child ::
  "'s env \<Rightarrow> resource_client \<Rightarrow> strategy \<Rightarrow> obj \<Rightarrow> obj option gomap \<Rightarrow> string \<Rightarrow> obj \<Rightarrow> 's world \<Rightarrow>
   gerr list \<times> 's world" where
  "update_child E client updateStrategy parent observed name x w =
     (let K = kubeOf E;
          ns = (if GetNamespace K x = '''' then GetNamespace K parent else GetNamespace K x)
      in case entry observed name of
           Some oldObj \<Rightarrow> update_existing E client updateStrategy ns oldObj x w
         | None \<Rightarrow> create_child E client parent ns x w)"

fun updateChildren ::
  "'s env \<Rightarrow> resource_client \<Rightarrow> strategy \<Rightarrow> obj \<Rightarrow> obj option gomap \<Rightarrow> obj option gomap \<Rightarrow> gerr list \<Rightarrow>
   's world \<Rightarrow> gerr list res \<times> 's world" where
  "updateChildren E client updateStrategy parent observed [] errs w = (Inr errs, w)"
| "updateChildren E client updateStrategy parent observed ((name, None) # desired) errs w =
     (Inl nil_deref, w)"
| "updateChildren E client updateStrategy parent observed ((name, Some x) # desired) errs w =
     (case update_child E client updateStrategy parent observed name x w of
        (es, w') \<Rightarrow> updateChildren E client updateStrategy parent observed desired (errs @ es) w')"

text \<open>
  The two loops of \<open>ManageChildren\<close>. Both parse a key, look a client up and work on a group;
  a key without a dot panics.
\<close>

fun manage_groups ::
  "clientset \<Rightarrow> (resource_client \<Rightarrow> string \<Rightarrow> obj option gomap \<Rightarrow> 's world \<Rightarrow> gerr list res \<times> 's world) \<Rightarrow>
   registry \<Rightarrow> gerr list \<Rightarrow> 's world \<Rightarrow> gerr list res \<times> 's world" where
  "manage_groups cs work [] errs w = (Inr errs, w)"
| "manage_groups cs work ((key, objects) # m) errs w =
     (case ParseKeyToAPIVersionKind key of
        Inl e \<Rightarrow> (Inl e, w)
      | Inr (apiVersion, kind) \<Rightarrow>
     (case client_for cs apiVersion kind of
        Inl e \<Rightarrow> if is_panic e then (Inl e, w) else manage_groups cs work m (errs @ [e]) w
      | Inr client \<Rightarrow>
     (case work client key objects w of
        (Inl e, w') \<Rightarrow> (Inl e, w')
      | (Inr es, w') \<Rightarrow>
          manage_groups cs work m
            (case NewAggregate es of None \<Rightarrow> errs | Some e \<Rightarrow> errs @ [e]) w')))"

definition ManageChildren ::
  "'s env \<Rightarrow> clientset \<Rightarrow> strategy \<Rightarrow> obj \<Rightarrow> registry \<Rightarrow> registry \<Rightarrow> 's world \<Rightarrow>
   gerr option res \<times> 's world" where
  "ManageChildren E cs updateStrategy parent observedChildren desiredChildren w =
     (case manage_groups cs (\<lambda>client key objects w.
              deleteChildren E client parent (group_of desiredChildren key) objects [] w)
            observedChildren [] w of
        (Inl e, w1) \<Rightarrow> (Inl e, w1)
      | (Inr errs, w1) \<Rightarrow>
     (case manage_groups cs (\<lambda>client key objects w.
              updateChildren E client updateStrategy parent (group_of observedChildren key) objects [] w)
            desiredChildren errs w1 of
        (Inl e, w2) \<Rightarrow> (Inl e, w2)
      | (Inr errs', w2) \<Rightarrow> (Inr (NewAggregate errs'), w2)))"

section \<open>Reverted fields\<close>

text \<open>The field at a path is in the new object what it was in the original one.\<close>

definition same_field :: "kube \<Rightarrow> obj \<Rightarrow> obj \<Rightarrow> string list \<Rightarrow> bool" where
  "same_field K newObj orig p =
     (case NestedField K orig p of
        Inr (Some v) \<Rightarrow> NestedField K newObj p = Inr (Some v)
      | _ \<Rightarrow> (\<forall>v. NestedField K newObj p \<noteq> Inr (Some v)))"

lemma revertField_same:
  assumes "kube_lib K" and "p \<noteq> []" and "revertField K x orig p = Inr y"
  shows "same_field K y orig p"
  using assms(3) kube_lib.field_set_same [OF assms(1)] kube_lib.field_remove_gone [OF assms(1,2)]
  by (auto simp: revertField_def same_field_def split: sum.splits option.splits)

lemma revertField_other:
  assumes "kube_lib K" and "revertField K x orig p = Inr y" and "diverge p q"
  shows "NestedField K y q = NestedField K x q"
  using assms(2,3) kube_lib.field_set_other [OF assms(1)] kube_lib.field_remove_other [OF assms(1)]
  by (auto simp: revertField_def split: sum.splits option.splits)

lemma same_field_frame: "NestedField K y p = NestedField K x p \<Longrightarrow> same_field K y orig p = same_field K x orig p"
  unfolding same_field_def by (simp only:)

lemma revert_fields_same:
  assumes "kube_lib K"
  shows "revert_fields K x orig fs = Inr y \<Longrightarrow> distinct fs \<Longrightarrow>
    (\<forall>f \<in> set fs. same_field K y orig [''metadata'', f]) \<and>
    (\<forall>q. (\<forall>f \<in> set fs. diverge [''metadata'', f] q) \<longrightarrow> NestedField K y q = NestedField K x q)"
proof (induction fs arbitrary: x)
  case (Cons f fs)
  then obtain x1 where x1: "revertField K x orig [''metadata'', f] = Inr x1"
    and rest: "revert_fields K x1 orig fs = Inr y"
    by (auto split: sum.splits)
  from Cons.IH [OF rest] Cons.prems(2) have ih:
    "\<forall>f \<in> set fs. same_field K y orig [''metadata'', f]"
    "\<And>q. \<forall>f \<in> set fs. diverge [''metadata'', f] q \<Longrightarrow> NestedField K y q = NestedField K x1 q"
    by auto
  have "same_field K x1 orig [''metadata'', f]"
    by (rule revertField_same [OF assms _ x1]) simp
  moreover have "NestedField K y [''metadata'', f] = NestedField K x1 [''metadata'', f]"
    by (rule ih(2)) (use Cons.prems(2) in auto)
  ultimately have "same_field K y orig [''metadata'', f]" using same_field_frame by blast
  with ih revertField_other [OF assms x1] show ?case by auto
qed simp

lemma apply_merge_parts:
  assumes "apply_merge K getLast setLast sanitize a old x = (Inr m, a', x')"
  obtains la m0 m1 m2 where "getLast old = Inr la" "Merge old la (Some x) = Inr m0"
    "revertObjectMetaSystemFields K m0 old = Inr m1" "revertField K m1 old [''status''] = Inr m2"
    "m = (case setLast m2 (sanitize x) of Inl e \<Rightarrow> m2 | Inr y \<Rightarrow> y)" "x' = sanitize x"
    "isRun a'" "isEqual a' = deep_equal (JObj m2) (JObj old)"
proof (cases "getLast old")
  case (Inl e)
  with assms show ?thesis by (simp add: apply_merge_def)
next
  case la: (Inr la)
  show ?thesis
  proof (cases "Merge old la (Some x)")
    case (Inl e)
    with la assms show ?thesis by (simp add: apply_merge_def)
  next
    case m0: (Inr m0)
    show ?thesis
    proof (cases "revertObjectMetaSystemFields K m0 old")
      case (Inl e)
      with la m0 assms show ?thesis by (simp add: apply_merge_def)
    next
      case m1: (Inr m1)
      show ?thesis
      proof (cases "revertField K m1 old [''status'']")
        case (Inl e)
        with la m0 m1 assms show ?thesis by (simp add: apply_merge_def)
      next
        case (Inr m2)
        with la m0 m1 assms show ?thesis
          by (intro that [of la m0 m1 m2]) (auto simp: apply_merge_def Let_def)
      qed
    qed
  qed
qed

lemma Apply_Merge_desired:
  "Apply_Merge K empty_apply old x = (Inr m, a, x') \<Longrightarrow> x' = x"
  by (auto simp: Apply_Merge_def empty_apply_def Let_def elim: apply_merge_parts)

text \<open>Neither way of recording the last applied state touches a field outside the annotations.\<close>

definition records_in_annotations :: "kube \<Rightarrow> (obj \<Rightarrow> obj \<Rightarrow> obj res) \<Rightarrow> bool" where
  "records_in_annotations K setLast =
     (\<forall>x la y q. setLast x la = Inr y \<and> diverge annotations_path q \<longrightarrow> NestedField K y q = NestedField K x q)"

lemma records_by_key: "kube_lib K \<Longrightarrow> records_in_annotations K (\<lambda>x la. SetLastAppliedByAnnKey K x la key)"
  using kube_lib.frame_annotations [of K]
  by (auto simp: records_in_annotations_def SetLastAppliedByAnnKey_def Let_def split: if_splits sum.splits)

lemma records_default: "kube_lib K \<Longrightarrow> records_in_annotations K (SetLastApplied K)"
  using records_by_key [of K lastAppliedAnnotation] by (simp add: SetLastApplied_def [abs_def])

lemma apply_merge_system_fields:
  assumes "kube_lib K" and "records_in_annotations K setLast"
    and "apply_merge K getLast setLast sanitize a old x = (Inr m, a', x')"
  shows "list_all (\<lambda>f. same_field K m old [''metadata'', f]) objectMetaSystemFields \<and>
    same_field K m old [''status'']"
  using assms(3)
proof (rule apply_merge_parts)
  fix la m0 m1 m2
  assume m1: "revertObjectMetaSystemFields K m0 old = Inr m1"
    and m2: "revertField K m1 old [''status''] = Inr m2"
    and m: "m = (case setLast m2 (sanitize x) of Inl e \<Rightarrow> m2 | Inr y \<Rightarrow> y)"
  have dist: "distinct objectMetaSystemFields" by (simp add: objectMetaSystemFields_def)
  have r: "revert_fields K m0 old objectMetaSystemFields = Inr m1"
    using m1 by (simp add: revertObjectMetaSystemFields_def)
  from revert_fields_same [OF assms(1) this dist]
  have sys: "same_field K m1 old [''metadata'', f]" if "f \<in> set objectMetaSystemFields" for f
    using that by blast
  have "NestedField K m q = NestedField K m2 q" if "diverge annotations_path q" for q
    using assms(2) m that by (auto simp: records_in_annotations_def split: sum.splits)
  moreover have "NestedField K m2 [''metadata'', f] = NestedField K m1 [''metadata'', f]" for f
    using revertField_other [OF assms(1) m2] by simp
  ultimately have "same_field K m old [''metadata'', f]" if "f \<in> set objectMetaSystemFields" for f
    using sys [OF that] that same_field_frame [of K m "[''metadata'', f]" m1 old]
    by (auto simp: objectMetaSystemFields_def)
  moreover have "same_field K m old [''status'']"
  proof -
    have "NestedField K m [''status''] = NestedField K m2 [''status'']"
      using assms(2) m by (auto simp: records_in_annotations_def split: sum.splits)
    moreover have "same_field K m2 old [''status'']"
      by (rule revertField_same [OF assms(1) _ m2]) simp
    ultimately show ?thesis using same_field_frame by blast
  qed
  ultimately show ?thesis by (simp add: list_all_iff)
qed

section \<open>The calls of a reconciliation\<close>

definition did_with ::
  "(request \<Rightarrow> obj res \<Rightarrow> bool) \<Rightarrow> 's world \<Rightarrow> 's world \<Rightarrow> request list \<Rightarrow> bool \<Rightarrow> bool" where
  "did_with ok w w' reqs good =
     (\<exists>ts. calls w' = calls w @ ts \<and> map fst ts = reqs \<and> (good \<longrightarrow> list_all (\<lambda>(q, r). ok q r) ts))"

abbreviation did :: "'s world \<Rightarrow> 's world \<Rightarrow> request list \<Rightarrow> bool \<Rightarrow> bool" where
  "did \<equiv> did_with (\<lambda>q. isOK)"

lemma did_none: "did_with ok w w [] good"
  by (simp add: did_with_def)

lemma did_trans:
  "did_with ok w w1 qs1 g1 \<Longrightarrow> did_with ok w1 w2 qs2 g2 \<Longrightarrow> did_with ok w w2 (qs1 @ qs2) (g1 \<and> g2)"
  unfolding did_with_def by (elim exE, rule_tac x = "ts @ tsa" in exI) auto

lemma did_weaken: "did_with ok w w' qs g \<Longrightarrow> (g' \<Longrightarrow> g) \<Longrightarrow> did_with ok w w' qs g'"
  by (auto simp: did_with_def)

lemma did_mono: "did_with ok w w' qs g \<Longrightarrow> (\<And>q r. ok q r \<Longrightarrow> ok' q r) \<Longrightarrow> did_with ok' w w' qs g"
  by (fastforce simp: did_with_def list_all_iff)

lemma did_call_with: "call E q w = (resp, w') \<Longrightarrow> (g \<Longrightarrow> ok q resp) \<Longrightarrow> did_with ok w w' [q] g"
  using calls_call [of E q w resp w'] by (auto simp: did_with_def)

lemma did_call: "call E q w = (resp, w') \<Longrightarrow> did w w' [q] (isOK resp)"
  by (rule did_call_with)

text \<open>What is to be done with one group: which objects are deleted, and how a child is brought about.\<close>

definition delete_request :: "kube \<Rightarrow> resource_client \<Rightarrow> string \<Rightarrow> string \<Rightarrow> string \<Rightarrow> request" where
  "delete_request K client ns name uid = rc_Delete (Namespace client ns) name (Some uid) background"

definition group_deletes :: "kube \<Rightarrow> resource_client \<Rightarrow> obj option gomap \<Rightarrow> obj option gomap \<Rightarrow> request list" where
  "group_deletes K client desired observed =
     map (\<lambda>(n, x). delete_request K client (GetNamespace K (the x)) (GetName K (the x)) (GetUID K (the x)))
       (filter (\<lambda>(n, x). x \<noteq> None \<and> GetDeletionTimestamp K (the x) = None \<and> entry desired n = None) observed)"

definition child_namespace :: "kube \<Rightarrow> obj \<Rightarrow> obj \<Rightarrow> string" where
  "child_namespace K parent x =
     (if GetNamespace K x = '''' then GetNamespace K parent else GetNamespace K x)"

definition child_requests ::
  "kube \<Rightarrow> resource_client \<Rightarrow> strategy \<Rightarrow> obj \<Rightarrow> obj option gomap \<Rightarrow> string \<Rightarrow> obj \<Rightarrow> request list" where
  "child_requests K client updateStrategy parent observed name x =
     (let ns = child_namespace K parent x;
          method = updateStrategy (rGroup (rcResource client)) (rKind (rcResource client))
      in case entry observed name of
           None \<Rightarrow>
             (case SetLastApplied K x x of
                Inl e \<Rightarrow> []
              | Inr y \<Rightarrow> [rc_Create (Namespace client ns)
                  (SetOwnerReferences K y (GetOwnerReferences K y @ [MakeOwnerRef K parent]))])
         | Some old \<Rightarrow>
             (case fst (Apply_Merge K empty_apply old x) of
                Inl e \<Rightarrow> []
              | Inr m \<Rightarrow>
                  if deep_equal (JObj m) (JObj old) \<or> GetDeletionTimestamp K old \<noteq> None then []
                  else if method \<in> {''Recreate'', ''RollingRecreate''}
                  then [delete_request K client ns (GetName K x) (GetUID K old)]
                  else if method \<in> {''InPlace'', ''RollingInPlace''}
                  then [rc_Update (Namespace client ns) m]
                  else []))"

definition group_updates ::
  "kube \<Rightarrow> resource_client \<Rightarrow> strategy \<Rightarrow> obj \<Rightarrow> obj option gomap \<Rightarrow> obj option gomap \<Rightarrow> request list" where
  "group_updates K client updateStrategy parent observed desired =
     concat (map (\<lambda>(n, x). child_requests K client updateStrategy parent observed n (the x)) desired)"

lemma deleteChildren_did:
  "deleteChildren E client parent desired observed errs w = (Inr errs', w') \<Longrightarrow>
   did w w' (group_deletes (kubeOf E) client desired observed) (errs' = errs) \<and> prefix errs errs'"
proof (induction E client parent desired observed errs w rule: deleteChildren.induct)
  case (3 E client parent desired name x observed errs w)
  let ?K = "kubeOf E"
  show ?case
  proof (cases "GetDeletionTimestamp ?K x = None \<and> entry desired name = None")
    case True
    obtain resp w1 where c: "call E (rc_Delete (Namespace client (GetNamespace ?K x)) (GetName ?K x)
        (Some (GetUID ?K x)) background) w = (resp, w1)" by fastforce
    define errs1 where "errs1 = (case resp of Inr _ \<Rightarrow> errs | Inl e \<Rightarrow>
        errs @ [Msg (''can't delete '' @ describeObject ?K x @ '': '' @ err_text e)])"
    have rest: "deleteChildren E client parent desired observed errs1 w1 = (Inr errs', w')"
      using "3.prems" True c by (cases resp) (auto simp: errs1_def)
    have ih: "did w1 w' (group_deletes ?K client desired observed) (errs' = errs1) \<and> prefix errs1 errs'"
    proof (cases resp)
      case (Inl e)
      with "3.IH" True c rest show ?thesis by (simp add: errs1_def)
    next
      case (Inr e)
      with "3.IH" True c rest show ?thesis by (simp add: errs1_def)
    qed
    from did_trans [OF did_call [OF c] conjunct1 [OF ih]] True
    have "did w w' (group_deletes ?K client desired ((name, Some x) # observed))
        (isOK resp \<and> errs' = errs1)"
      by (simp add: group_deletes_def delete_request_def)
    moreover have "isOK resp \<and> errs' = errs1" if "errs' = errs"
      using that ih by (cases resp) (auto simp: errs1_def prefix_def)
    moreover have "prefix errs errs'" using ih by (cases resp) (auto simp: errs1_def prefix_def)
    ultimately show ?thesis by (auto intro: did_weaken)
  next
    case False
    then have "deleteChildren E client parent desired observed errs w = (Inr errs', w')"
      using "3.prems" by (auto simp: Let_def split: if_splits)
    with "3.IH" False have "did w w' (group_deletes ?K client desired observed) (errs' = errs) \<and>
        prefix errs errs'"
      by (cases "GetDeletionTimestamp ?K x") simp_all
    moreover from False have "group_deletes ?K client desired ((name, Some x) # observed) =
        group_deletes ?K client desired observed"
      by (auto simp: group_deletes_def)
    ultimately show ?thesis by simp
  qed
qed (simp_all add: group_deletes_def did_none)

lemma call_errors:
  assumes "call E q w = (resp, w')"
  shows "did w w' [q] ((case resp of Inl e \<Rightarrow> [e] | Inr r \<Rightarrow> []) = [])"
  using did_call [OF assms] by (cases resp) (auto intro: did_weaken)

lemma update_child_did:
  assumes "update_child E client st parent observed name x w = (es, w')"
  shows "did w w' (child_requests (kubeOf E) client st parent observed name x) (es = [])"
proof (cases "entry observed name")
  case None
  let ?K = "kubeOf E" let ?c = "Namespace client (child_namespace (kubeOf E) parent x)"
  show ?thesis
  proof (cases "SetLastApplied ?K x x")
    case (Inl e)
    with None assms show ?thesis
      by (auto simp: update_child_def create_child_def child_requests_def Let_def did_none)
  next
    case (Inr y)
    let ?q = "rc_Create ?c (SetOwnerReferences ?K y (GetOwnerReferences ?K y @ [MakeOwnerRef ?K parent]))"
    obtain resp w1 where c: "call E ?q w = (resp, w1)" by fastforce
    with None Inr assms have "es = (case resp of Inl e \<Rightarrow> [e] | Inr r \<Rightarrow> [])" "w' = w1"
      by (auto simp: update_child_def create_child_def child_namespace_def Let_def split: sum.splits)
    with call_errors [OF c] None Inr show ?thesis by (simp add: child_requests_def Let_def)
  qed
next
  case (Some old)
  let ?K = "kubeOf E" let ?c = "Namespace client (child_namespace (kubeOf E) parent x)"
  let ?m = "st (rGroup (rcResource client)) (rKind (rcResource client))"
  obtain r a x' where m: "Apply_Merge ?K empty_apply old x = (r, a, x')" by (metis prod_cases3)
  have up: "update_existing E client st (child_namespace ?K parent x) old x w = (es, w')"
    using Some assms by (simp add: update_child_def child_namespace_def Let_def)
  show ?thesis
  proof (cases r)
    case (Inl e)
    with Some m up show ?thesis
      by (auto simp: update_existing_def child_requests_def Let_def did_none)
  next
    case (Inr new)
    with m have x': "x' = x" using Apply_Merge_desired by blast
    obtain resp1 w1 where d: "call E (delete_request ?K client (child_namespace ?K parent x)
        (GetName ?K x) (GetUID ?K old)) w = (resp1, w1)" by fastforce
    obtain resp2 w2 where u: "call E (rc_Update ?c new) w = (resp2, w2)" by fastforce
    from Some m Inr x' up d u call_errors [OF d] call_errors [OF u] show ?thesis
      by (auto simp: update_existing_def child_requests_def delete_request_def Let_def did_none
          split: sum.splits if_splits)
  qed
qed

lemma updateChildren_did:
  "updateChildren E client st parent observed desired errs w = (Inr errs', w') \<Longrightarrow>
   did w w' (group_updates (kubeOf E) client st parent observed desired) (errs' = errs) \<and> prefix errs errs'"
proof (induction desired arbitrary: errs w)
  case (Cons p desired)
  then obtain name x where p: "p = (name, Some x)" by (cases p; cases "snd p") auto
  obtain es w1 where u: "update_child E client st parent observed name x w = (es, w1)" by fastforce
  with Cons.prems p have rest:
    "updateChildren E client st parent observed desired (errs @ es) w1 = (Inr errs', w')"
    by simp
  from Cons.IH [OF rest] have ih: "did w1 w' (group_updates (kubeOf E) client st parent observed desired)
      (errs' = errs @ es)" "prefix (errs @ es) errs'"
    by simp_all
  from did_trans [OF update_child_did [OF u] ih(1)] p
  have "did w w' (group_updates (kubeOf E) client st parent observed (p # desired))
      (es = [] \<and> errs' = errs @ es)"
    by (simp add: group_updates_def)
  moreover have "es = [] \<and> errs' = errs @ es" if "errs' = errs"
    using that ih(2) by (auto simp: prefix_def)
  ultimately show ?case using ih(2) by (auto intro: did_weaken simp: prefix_def)
qed (simp add: group_updates_def did_none)

text \<open>
  The requests for a registry, group by group. A group whose client is not found is skipped.
\<close>

definition registry_requests ::
  "clientset \<Rightarrow> (resource_client \<Rightarrow> string \<Rightarrow> obj option gomap \<Rightarrow> request list) \<Rightarrow> registry \<Rightarrow> request list" where
  "registry_requests cs reqs m =
     concat (map (\<lambda>(key, objects).
       case ParseKeyToAPIVersionKind key of
         Inl e \<Rightarrow> []
       | Inr (apiVersion, kind) \<Rightarrow>
           (case client_for cs apiVersion kind of
              Inl e \<Rightarrow> []
            | Inr client \<Rightarrow> reqs client key objects)) m)"

lemma manage_groups_did:
  assumes work: "\<And>client key objects w es w'. work client key objects w = (Inr es, w') \<Longrightarrow>
      did w w' (reqs client key objects) (es = [])"
  shows "manage_groups cs work m errs w = (Inr errs', w') \<Longrightarrow>
    did w w' (registry_requests cs reqs m) (errs' = errs) \<and> prefix errs errs'"
proof (induction m arbitrary: errs w)
  case (Cons p m)
  obtain key objects where p: "p = (key, objects)" by fastforce
  with Cons.prems obtain av kind where key: "ParseKeyToAPIVersionKind key = Inr (av, kind)"
    by (auto split: sum.splits)
  show ?case
  proof (cases "client_for cs av kind")
    case (Inl e)
    with Cons.prems p key have "manage_groups cs work m (errs @ [e]) w = (Inr errs', w')"
      by (auto split: if_splits)
    from Cons.IH [OF this] Inl p key show ?thesis
      by (auto simp: registry_requests_def prefix_def did_with_def)
  next
    case (Inr client)
    from Cons.prems p key Inr obtain es w1 where w: "work client key objects w = (Inr es, w1)"
      by (auto split: sum.splits prod.splits)
    define errs1 where "errs1 = (case NewAggregate es of None \<Rightarrow> errs | Some e \<Rightarrow> errs @ [e])"
    from Cons.prems p key Inr w have rest: "manage_groups cs work m errs1 w1 = (Inr errs', w')"
      by (simp add: errs1_def)
    note ih = Cons.IH [OF this]
    from did_trans [OF work [OF w] conjunct1 [OF ih]] p key Inr
    have "did w w' (registry_requests cs reqs (p # m)) (es = [] \<and> errs' = errs1)"
      by (simp add: registry_requests_def)
    moreover have "es = [] \<and> errs' = errs1" if "errs' = errs"
      using that ih by (auto simp: errs1_def NewAggregate_def prefix_def split: if_splits)
    moreover have "prefix errs errs'"
      using ih by (auto simp: errs1_def NewAggregate_def prefix_def split: if_splits)
    ultimately show ?thesis by (auto intro: did_weaken)
  qed
qed (simp add: registry_requests_def did_none)

lemma ManageChildren_did:
  assumes "ManageChildren E cs st parent observed desired w = (Inr r, w')"
  shows "did w w' (registry_requests cs (\<lambda>client key objects.
        group_deletes (kubeOf E) client (group_of desired key) objects) observed @
      registry_requests cs (\<lambda>client key objects.
        group_updates (kubeOf E) client st parent (group_of observed key) objects) desired) (r = None)"
proof -
  from assms obtain errs w1 errs' where
    del: "manage_groups cs (\<lambda>client key objects w.
        deleteChildren E client parent (group_of desired key) objects [] w) observed [] w = (Inr errs, w1)"
    and upd: "manage_groups cs (\<lambda>client key objects w.
        updateChildren E client st parent (group_of observed key) objects [] w) desired errs w1 = (Inr errs', w')"
    and r: "r = NewAggregate errs'"
    by (auto simp: ManageChildren_def split: sum.splits prod.splits)
  have "did w w1 (registry_requests cs (\<lambda>client key objects.
        group_deletes (kubeOf E) client (group_of desired key) objects) observed) (errs = [])"
    by (rule conjunct1 [OF manage_groups_did [OF _ del]]) (rule deleteChildren_did [THEN conjunct1])
  moreover have up: "did w1 w' (registry_requests cs (\<lambda>client key objects.
        group_updates (kubeOf E) client st parent (group_of observed key) objects) desired) (errs' = errs) \<and>
      prefix errs errs'"
    by (rule manage_groups_did [OF _ upd]) (rule updateChildren_did [THEN conjunct1])
  ultimately have "did w w' (registry_requests cs (\<lambda>client key objects.
        group_deletes (kubeOf E) client (group_of desired key) objects) observed @
      registry_requests cs (\<lambda>client key objects.
        group_updates (kubeOf E) client st parent (group_of observed key) objects) desired)
      (errs = [] \<and> errs' = errs)"
    using did_trans by blast
  moreover have "errs = [] \<and> errs' = errs" if "r = None"
    using that up by (auto simp: r NewAggregate_def prefix_def split: if_splits)
  ultimately show ?thesis by (auto intro: did_weaken)
qed

section \<open>Properties\<close>

text \<open>
  C6: Reconciling children is a plan that depends on the observed and desired children only,
  not on the server's answers: first, for each observed group, every object that is
  neither desired nor already being deleted is deleted, in the background and under its UID;
  then each desired object is created, or the existing one recreated, updated or left
  alone. If no error is returned, every request was accepted.
\<close>
theorem ManageChildren_follows_plan:
  assumes "ManageChildren E cs st parent observed desired w = (Inr r, w')"
  shows "\<exists>ts. calls w' = calls w @ ts \<and>
    map fst ts =
      registry_requests cs (\<lambda>client key objects.
        group_deletes (kubeOf E) client (group_of desired key) objects) observed @
      registry_requests cs (\<lambda>client key objects.
        group_updates (kubeOf E) client st parent (group_of observed key) objects) desired \<and>
    (r = None \<longrightarrow> list_all (\<lambda>(q, resp). isOK resp) ts)"
  using ManageChildren_did [OF assms] by (simp add: did_with_def)

definition pod_cluster :: clientset where
  "pod_cluster = \<lparr>csParse = core_gv, csDiscovery = NewAPIResourceDiscoverer\<lparr>discoveredResources :=
     Some [(''v1'', \<lparr>rsStore = pods, rsResources = [(''pods'', 0)], rsKinds = [(''Pod'', 0)],
       rsSubresources = []\<rparr>)]\<rparr>\<rparr>"

lemma pod_client_for: "client_for pod_cluster ''v1'' ''Pod'' = Inr pod_client"
  by (simp add: pod_cluster_def GetClientForAPIVersionAndKind_def GetAPIForAPIVersionAndKind_def
      getClientForAPIResource_def GetGroupVersionResource_def GetGroupVersion_def core_gv_def
      deref_def pods_def pod_client_def)

lemma pod_a_fields:
  "GetName std_kube pod_a = ''a''" "GetNamespace std_kube pod_a = ''''" "GetUID std_kube pod_a = ''u1''"
  "GetDeletionTimestamp std_kube pod_a = None"
  by (simp_all add: std_kube_sel std_read_def pod_a_def)

theorem ManageChildren_follows_plan_witness:
  "\<exists>w'. ManageChildren std_env pod_cluster (\<lambda>_ _. ''InPlace'') pod_a
      [(''Pod.v1'', [(''a'', Some pod_a)])] [] pod_world = (Inr None, w') \<and>
    map fst (calls w') = [rc_Delete (Namespace pod_client '''') ''a'' (Some ''u1'') background]"
proof -
  let ?obs = "[(''Pod.v1'', [(''a'', Some pod_a)])] :: registry"
  let ?q = "rc_Delete (Namespace pod_client '''') ''a'' (Some ''u1'') background"
  have key: "ParseKeyToAPIVersionKind ''Pod.v1'' = Inr (''v1'', ''Pod'')"
    by (simp add: ParseKeyToAPIVersionKind_def numeral_2_eq_2)
  obtain w1 where "call std_env ?q pod_world = (Inr [], w1)"
    by (simp add: call_def pod_world_def rc_Delete_def Namespace_def pod_client_def pods_def pod_a_fields)
  then have run: "ManageChildren std_env pod_cluster (\<lambda>_ _. ''InPlace'') pod_a ?obs [] pod_world = (Inr None, w1)"
    by (simp add: ManageChildren_def key pod_client_for pod_a_fields group_of_def entry_def NewAggregate_def)
  have "registry_requests pod_cluster (\<lambda>client key objects.
      group_deletes std_kube client (group_of [] key) objects) ?obs = [?q]"
    by (simp add: registry_requests_def key pod_client_for group_deletes_def delete_request_def
        pod_a_fields group_of_def entry_def)
  with ManageChildren_follows_plan [OF run] run show ?thesis
    by (auto simp: pod_world_def registry_requests_def)
qed

text \<open>
  C7: Applying never changes what the system owns: in the object sent to the server, the
  read-only fields of the metadata and the whole status are what they were in the observed
  object, or missing when they were missing, whatever the desired state says. This holds
  for both ways of recording the last applied state.
\<close>
theorem apply_keeps_system_fields:
  assumes "kube_lib K" and "a = empty_apply \<or> a = NewApplyFromAnnKey K key"
    and "Apply_Merge K a old x = (Inr m, a', x')"
  shows "list_all (\<lambda>f. same_field K m old [''metadata'', f]) objectMetaSystemFields \<and>
    same_field K m old [''status'']"
  using assms(2)
proof
  assume "a = empty_apply"
  with assms(3) apply_merge_system_fields [OF assms(1) records_default [OF assms(1)]] show ?thesis
    by (auto simp: Apply_Merge_def empty_apply_def Let_def)
next
  assume "a = NewApplyFromAnnKey K key"
  with assms(3) apply_merge_system_fields [OF assms(1) records_by_key [OF assms(1)]] show ?thesis
    by (auto simp: Apply_Merge_def NewApplyFromAnnKey_def Let_def)
qed

theorem apply_keeps_system_fields_witness:
  "\<exists>m a' x'. Apply_Merge std_kube empty_apply pod_a
      [(''metadata'', JObj [(''uid'', JStr ''other'')])] = (Inr m, a', x') \<and>
    NestedField std_kube m [''metadata'', ''uid''] = Inr (Some (JStr ''u1''))"
proof -
  let ?x = "[(''metadata'', JObj [(''uid'', JStr ''other'')])]"
  have none: "GetLastApplied std_kube pod_a = Inr None"
    by (simp add: GetLastApplied_def GetLastAppliedByAnnKey_def std_kube_sel std_read_def pod_a_def)
  have m0: "Merge pod_a None (Some ?x) =
      Inr [(''metadata'', JObj [(''name'', JStr ''a''), (''uid'', JStr ''other'')])]"
    by (simp add: Merge_def pod_a_def remove_undesired_def merge_map merge_scalar index_def)
  obtain m1 where m1: "revertObjectMetaSystemFields std_kube
      [(''metadata'', JObj [(''name'', JStr ''a''), (''uid'', JStr ''other'')])] pod_a = Inr m1"
    by (simp add: revertObjectMetaSystemFields_def objectMetaSystemFields_def revertField_def
        std_kube_sel pod_a_def index_def AList.delete_eq)
  obtain m2 where "revertField std_kube m1 pod_a [''status''] = Inr m2"
    by (simp add: revertField_def std_kube_sel pod_a_def)
  then obtain m a' x' where run: "Apply_Merge std_kube empty_apply pod_a ?x = (Inr m, a', x')"
    by (simp add: Apply_Merge_def apply_merge_def empty_apply_def none m0 m1 Let_def)
  from apply_keeps_system_fields [OF std.kube_lib_axioms _ run] have "same_field std_kube m pod_a [''metadata'', ''uid'']"
    by (simp add: objectMetaSystemFields_def)
  then have "NestedField std_kube m [''metadata'', ''uid''] = Inr (Some (JStr ''u1''))"
    by (simp add: same_field_def std_kube_sel pod_a_def)
  with run show ?thesis by blast
qed

end
