(* ===== verification/StatesController.thy ===== *)
theory StatesController
  imports ManageChildren
begin

text \<open>
  \<open>controller/common/controller.go\<close>: the controller that brings the attachments of a watch
  to their desired states, over all API versions and kinds, and the controller for one of them.

  In patch mode an update first annotates the observed object, which the registry of the
  cluster controller and the maps of its executors share. The observed registry is therefore
  part of the state the executors run on, next to the world; a resource controller knows
  its group by its key. The watch is never nil: the one place that builds the
  controller passes the object under reconciliation.
\<close>

section \<open>State\<close>

definition AttachmentCreateAnnotationKey :: string where
  "AttachmentCreateAnnotationKey = ''metac.openebs.io/created-due-to-watch''"

definition AttachmentUpdateAnnotationKeySuffix :: string where
  "AttachmentUpdateAnnotationKeySuffix = ''/updated-due-to-watch''"

definition GCTLLastAppliedAnnotationKeySuffix :: string where
  "GCTLLastAppliedAnnotationKeySuffix = ''/gctl-last-applied''"

record states_base =
  GetChildUpdateStrategyByGK :: strategy
  IsPatchByGK :: "string \<Rightarrow> string \<Rightarrow> bool"
  Watch :: obj
  IsWatchOwner :: "bool option"
  UpdateAny :: "bool option"
  DeleteAny :: "bool option"
  UpdateDuringPendingDelete :: "bool option"

text \<open>\<open>rKey\<close> is the key of the observed group the controller shares with the registry.\<close>

record resource_states =
  rBase :: states_base
  DynamicClient :: resource_client
  rKey :: string
  rDesired :: "obj option gomap"
  rExplicitDeletes :: "obj option gomap"
  rExplicitUpdates :: "obj option gomap"

type_synonym 's cstate = "registry \<times> 's world"

type_synonym 's executor = "'s cstate \<Rightarrow> gerr option res \<times> 's cstate"

record 's cluster_states =
  cBase :: states_base
  DynamicClientSet :: clientset
  Observed :: registry
  Desired :: registry
  ExplicitDeletes :: registry
  ExplicitUpdates :: registry
  DeleteFn :: "'s executor option"
  CreateOrUpdateFn :: "'s executor option"
  ExplicitDeleteFn :: "'s executor option"
  ExplicitUpdateFn :: "'s executor option"
  cErrs :: "gerr option list"

definition show_bool :: "bool \<Rightarrow> string" where
  "show_bool b = (if b then ''true'' else ''false'')"

definition base_texts :: "kube \<Rightarrow> states_base \<Rightarrow> string list" where
  "base_texts K b = (''Watch '' @ DescObjectAsKey K (Watch b)) #
     (case IsWatchOwner b of None \<Rightarrow> [] | Some o' \<Rightarrow> [''IsWatchOwner='' @ show_bool o'])"

definition ClusterStates_String :: "kube \<Rightarrow> 's cluster_states \<Rightarrow> string" where
  "ClusterStates_String K m = join '': '' (''ClusterStatesController'' # base_texts K (cBase m))"

definition ResourceStates_String :: "kube \<Rightarrow> resource_states \<Rightarrow> string" where
  "ResourceStates_String K e = join '' '' (''ResourceStatesController'' # base_texts K (rBase e))"

text \<open>\<open>utilerrors.NewAggregate\<close> on a list with nil entries.\<close>

definition NewAggregateOf :: "gerr option list \<Rightarrow> gerr option" where
  "NewAggregateOf errs = NewAggregate (List.map_filter id errs)"

section \<open>One API version and kind\<close>

definition IsUpdateDuringPendingDelete :: "resource_states \<Rightarrow> bool" where
  "IsUpdateDuringPendingDelete e =
     (case UpdateDuringPendingDelete (rBase e) of None \<Rightarrow> False | Some b \<Rightarrow> b)"

text \<open>The UID of the watch an object says it was created for.\<close>

definition created_by :: "kube \<Rightarrow> obj \<Rightarrow> string" where
  "created_by K x =
     (case GetAnnotations K x of None \<Rightarrow> '''' | Some ann \<Rightarrow> str_index ann AttachmentCreateAnnotationKey)"

definition watch_uid :: "kube \<Rightarrow> resource_states \<Rightarrow> string" where
  "watch_uid K e = GetUID K (Watch (rBase e))"

definition rMethod :: "resource_states \<Rightarrow> string" where
  "rMethod e = GetChildUpdateStrategyByGK (rBase e)
     (rGroup (rcResource (DynamicClient e))) (rKind (rcResource (DynamicClient e)))"

definition rIsPatch :: "resource_states \<Rightarrow> bool" where
  "rIsPatch e = IsPatchByGK (rBase e)
     (rGroup (rcResource (DynamicClient e))) (rKind (rcResource (DynamicClient e)))"

text \<open>The part of \<open>update\<close> from the merge on.\<close>

definition update_merged ::
  "'s env \<Rightarrow> resource_states \<Rightarrow> string \<Rightarrow> obj \<Rightarrow> obj \<Rightarrow> 's world \<Rightarrow> bool res \<times> 's world" where
  "update_merged E e ns observed desired w =
     (let K = kubeOf E; client = DynamicClient e; method = rMethod e;
          a = NewApplyFromAnnKey K (watch_uid K e @ GCTLLastAppliedAnnotationKeySuffix)
      in case Apply_Merge K a observed desired of
        (Inl err, a', desired') \<Rightarrow> (Inl err, w)
      | (Inr mergedObj, a', desired') \<Rightarrow>
     (case HasMergeDiff a' of
        Inl err \<Rightarrow> (Inl err, w)
      | Inr isDiff \<Rightarrow>
          if \<not> isDiff then (Inr False, w)
          else if method = ''Recreate'' \<or> method = ''RollingRecreate''
          then (case call E (rc_Delete (Namespace client ns) (GetName K desired')
                               (Some (GetUID K observed)) background) w of
                  (Inl err, w') \<Rightarrow> (Inl err, w')
                | (Inr resp, w') \<Rightarrow> (Inr True, w'))
          else if method = ''InPlace'' \<or> method = ''RollingInPlace''
          then (let updatedAnns = mput (watch_uid K e @ AttachmentUpdateAnnotationKeySuffix)
                      (DescObjectAsSanitisedKey K (Watch (rBase e))) (mrange (GetAnnotations K mergedObj));
                    mergedObj' = SetAnnotations K mergedObj updatedAnns
                in case call E (rc_Update (Namespace client ns) mergedObj') w of
                     (Inl err, w') \<Rightarrow> (Inl err, w')
                   | (Inr resp, w') \<Rightarrow> (Inr True, w'))
          else (Inl (Msg (''Invalid update strategy '' @ method @ '': '' @ DescObjectAsKey K desired' @
                  '': '' @ ResourceStates_String K e)), w)))"

text \<open>\<open>update\<close>: whether it updated, the observed object it leaves, and the world.\<close>

definition rs_update ::
  "'s env \<Rightarrow> resource_states \<Rightarrow> obj \<Rightarrow> obj \<Rightarrow> 's world \<Rightarrow> bool res \<times> obj \<times> 's world" where
  "rs_update E e observed desired w =
     (let K = kubeOf E; b = rBase e;
          ns = (if GetNamespace K desired = '''' then GetNamespace K (Watch b) else GetNamespace K desired);
          updateAny = (case UpdateAny b of None \<Rightarrow> False | Some x \<Rightarrow> x)
      in if GetDeletionTimestamp K observed \<noteq> None \<and> \<not> IsUpdateDuringPendingDelete e
         then (Inr False, observed, w)
         else if created_by K observed \<noteq> watch_uid K e \<and> \<not> updateAny then (Inr False, observed, w)
         else if rMethod e = ''OnDelete'' \<or> rMethod e = '''' then (Inr False, observed, w)
         else (case (if rIsPatch e
                     then SetLastAppliedByAnnKey K observed observed
                            (watch_uid K e @ GCTLLastAppliedAnnotationKeySuffix)
                     else Inr observed) of
                 Inl err \<Rightarrow> (Inl err, observed, w)
               | Inr observed' \<Rightarrow>
                   (case update_merged E e ns observed' desired w of
                      (r, w') \<Rightarrow> (r, observed', w'))))"

text \<open>The object \<open>create\<close> sends.\<close>

definition created_object :: "kube \<Rightarrow> resource_states \<Rightarrow> obj \<Rightarrow> obj res" where
  "created_object K e desired =
     (case SetLastAppliedByAnnKey K desired desired
             (watch_uid K e @ GCTLLastAppliedAnnotationKeySuffix) of
        Inl err \<Rightarrow> Inl err
      | Inr d1 \<Rightarrow>
          let ann = mput AttachmentCreateAnnotationKey (watch_uid K e) (mrange (GetAnnotations K d1));
              d2 = SetAnnotations K d1 ann
          in Inr (if IsWatchOwner (rBase e) = Some True
                  then SetOwnerReferences K d2 (GetOwnerReferences K d2 @ [MakeOwnerRef K (Watch (rBase e))])
                  else d2))"

definition rs_create ::
  "'s env \<Rightarrow> resource_states \<Rightarrow> obj \<Rightarrow> 's world \<Rightarrow> gerr option \<times> 's world" where
  "rs_create E e desired w =
     (let K = kubeOf E;
          ns = (if GetNamespace K desired = '''' then GetNamespace K (Watch (rBase e))
                else GetNamespace K desired)
      in case created_object K e desired of
        Inl err \<Rightarrow> (Some err, w)
      | Inr d \<Rightarrow>
          (case call E (rc_Create (Namespace (DynamicClient e) ns) d) w of
             (Inl err, w') \<Rightarrow> (Some err, w')
           | (Inr resp, w') \<Rightarrow> (None, w')))"

text \<open>\<open>e.Observed[name] = ...\<close> for the object an update leaves behind.\<close>

definition put_observed :: "resource_states \<Rightarrow> string \<Rightarrow> obj \<Rightarrow> registry \<Rightarrow> registry" where
  "put_observed e name x obs = reg_put (rKey e) name (Some x) obs"

definition errs_of :: "'a res \<Rightarrow> gerr list" where
  "errs_of r = (case r of Inl err \<Rightarrow> [err] | Inr x \<Rightarrow> [])"

fun create_or_update ::
  "'s env \<Rightarrow> resource_states \<Rightarrow> obj option gomap \<Rightarrow> gerr list \<Rightarrow> 's cstate \<Rightarrow> gerr list res \<times> 's cstate" where
  "create_or_update E e [] errs st = (Inr errs, st)"
| "create_or_update E e ((name, None) # desired) errs st = (Inl nil_deref, st)"
| "create_or_update E e ((name, Some dObj) # desired) errs (obs, w) =
     (case entry (group_of obs (rKey e)) name of
        Some oObj \<Rightarrow>
          (case rs_update E e oObj dObj w of
             (r, oObj', w') \<Rightarrow>
               create_or_update E e desired (errs @ errs_of r) (put_observed e name oObj' obs, w'))
      | None \<Rightarrow>
          (case rs_create E e dObj w of
             (None, w') \<Rightarrow> create_or_update E e desired errs (obs, w')
           | (Some err, w') \<Rightarrow> create_or_update E e desired (errs @ [err]) (obs, w')))"

fun explicit_updates ::
  "'s env \<Rightarrow> resource_states \<Rightarrow> obj option gomap \<Rightarrow> gerr list \<Rightarrow> 's cstate \<Rightarrow> gerr list res \<times> 's cstate" where
  "explicit_updates E e [] errs st = (Inr errs, st)"
| "explicit_updates E e ((name, d) # updates) errs (obs, w) =
     (case entry (group_of obs (rKey e)) name of
        None \<Rightarrow> explicit_updates E e updates errs (obs, w)
      | Some oObj \<Rightarrow>
          (case d of
             None \<Rightarrow> (Inl nil_deref, (obs, w))
           | Some dObj \<Rightarrow>
               (case rs_update E e oObj dObj w of
                  (r, oObj', w') \<Rightarrow>
                    explicit_updates E e updates (errs @ errs_of r) (put_observed e name oObj' obs, w'))))"

text \<open>
  Both kinds of delete send the same request and drop the same error; the texts of their
  errors differ.
\<close>

definition delete_observed ::
  "'s env \<Rightarrow> resource_states \<Rightarrow> string \<Rightarrow> obj \<Rightarrow> 's world \<Rightarrow> gerr list \<times> 's world" where
  "delete_observed E e failed x w =
     (let K = kubeOf E in
      case call E (rc_Delete (Namespace (DynamicClient e) (GetNamespace K x)) (GetName K x)
                     (Some (GetUID K x)) background) w of
        (Inl err, w') \<Rightarrow>
          (if IsNotFound err then []
           else [Wrap (failed @ '' '' @ DescObjectAsKey K x @ '': '' @ ResourceStates_String K e) err], w')
      | (Inr resp, w') \<Rightarrow> ([], w'))"

fun delete_loop ::
  "'s env \<Rightarrow> resource_states \<Rightarrow> obj option gomap \<Rightarrow> gerr list \<Rightarrow> 's world \<Rightarrow> gerr list res \<times> 's world" where
  "delete_loop E e [] errs w = (Inr errs, w)"
| "delete_loop E e ((name, None) # observed) errs w = (Inl nil_deref, w)"
| "delete_loop E e ((name, Some x) # observed) errs w =
     (let K = kubeOf E;
          deleteAny = (case DeleteAny (rBase e) of None \<Rightarrow> False | Some b \<Rightarrow> b)
      in if GetDeletionTimestamp K x \<noteq> None then delete_loop E e observed errs w
         else if entry (rDesired e) name = None then
           (if created_by K x \<noteq> watch_uid K e \<and> \<not> deleteAny then delete_loop E e observed errs w
            else (case delete_observed E e ''Failed to delete'' x w of
                    (es, w') \<Rightarrow> delete_loop E e observed (errs @ es) w'))
         else delete_loop E e observed errs w)"

fun explicit_delete_loop ::
  "'s env \<Rightarrow> resource_states \<Rightarrow> obj option gomap \<Rightarrow> gerr list \<Rightarrow> 's world \<Rightarrow> gerr list res \<times> 's world" where
  "explicit_delete_loop E e [] errs w = (Inr errs, w)"
| "explicit_delete_loop E e ((name, x) # observed) errs w =
     (if entry (rExplicitDeletes e) name = None then explicit_delete_loop E e observed errs w
      else (case x of
              None \<Rightarrow> (Inl nil_deref, w)
            | Some x' \<Rightarrow>
                if GetDeletionTimestamp (kubeOf E) x' \<noteq> None then explicit_delete_loop E e observed errs w
                else (case delete_observed E e ''Failed to delete explicitly'' x' w of
                        (es, w') \<Rightarrow> explicit_delete_loop E e observed (errs @ es) w')))"

text \<open>The operations return the aggregate of what their loop collected.\<close>

definition aggregated :: "gerr list res \<times> 'b \<Rightarrow> gerr option res \<times> 'b" where
  "aggregated rb = (case rb of (Inl p, st) \<Rightarrow> (Inl p, st) | (Inr errs, st) \<Rightarrow> (Inr (NewAggregate errs), st))"

definition rs_CreateOrUpdate :: "'s env \<Rightarrow> resource_states \<Rightarrow> 's executor" where
  "rs_CreateOrUpdate E e st = aggregated (create_or_update E e (rDesired e) [] st)"

definition rs_ExplicitUpdate :: "'s env \<Rightarrow> resource_states \<Rightarrow> 's executor" where
  "rs_ExplicitUpdate E e st =
     (if group_of (fst st) (rKey e) = [] then (Inr None, st)
      else aggregated (explicit_updates E e (rExplicitUpdates e) [] st))"

definition rs_Delete :: "'s env \<Rightarrow> resource_states \<Rightarrow> 's executor" where
  "rs_Delete E e st =
     (case delete_loop E e (group_of (fst st) (rKey e)) [] (snd st) of
        (r, w') \<Rightarrow> aggregated (r, (fst st, w')))"

definition rs_ExplicitDelete :: "'s env \<Rightarrow> resource_states \<Rightarrow> 's executor" where
  "rs_ExplicitDelete E e st =
     (if rExplicitDeletes e = [] then (Inr None, st)
      else (case explicit_delete_loop E e (group_of (fst st) (rKey e)) [] (snd st) of
              (r, w') \<Rightarrow> aggregated (r, (fst st, w'))))"

section \<open>All API versions and kinds\<close>

fun run_list :: "(resource_states \<Rightarrow> 's executor) \<Rightarrow> resource_states list \<Rightarrow> gerr option list \<Rightarrow> 's executor" where
  "run_list op [] errs st = (Inr (NewAggregateOf errs), st)"
| "run_list op (e # es) errs st =
     (case op e st of
        (Inl p, st') \<Rightarrow> (Inl p, st')
      | (Inr err, st') \<Rightarrow> run_list op es (errs @ [err]) st')"

definition ClusterStatesDeleter_Delete :: "'s env \<Rightarrow> resource_states list \<Rightarrow> 's executor" where
  "ClusterStatesDeleter_Delete E es st = run_list (rs_Delete E) es [] st"

definition ClusterStatesExplicitDeleter_Delete :: "'s env \<Rightarrow> resource_states list \<Rightarrow> 's executor" where
  "ClusterStatesExplicitDeleter_Delete E es st = run_list (rs_ExplicitDelete E) es [] st"

definition ClusterStatesCreateUpdater_CreateOrUpdate :: "'s env \<Rightarrow> resource_states list \<Rightarrow> 's executor" where
  "ClusterStatesCreateUpdater_CreateOrUpdate E es st = run_list (rs_CreateOrUpdate E) es [] st"

definition ClusterStatesExplicitUpdater_Update :: "'s env \<Rightarrow> resource_states list \<Rightarrow> 's executor" where
  "ClusterStatesExplicitUpdater_Update E es st = run_list (rs_ExplicitUpdate E) es [] st"

text \<open>
  The loop the four \<open>init\<close> functions share: parse the key, look the client up, add a
  controller for the group or an error.
\<close>

fun init_controllers ::
  "clientset \<Rightarrow> (string \<Rightarrow> gerr \<Rightarrow> gerr) \<Rightarrow> (string \<Rightarrow> obj option gomap \<Rightarrow> resource_client \<Rightarrow> resource_states) \<Rightarrow>
   registry \<Rightarrow> gerr list \<Rightarrow> resource_states list \<Rightarrow> (gerr list \<times> resource_states list) res" where
  "init_controllers cs wrap ctrl [] errs ctrls = Inr (errs, ctrls)"
| "init_controllers cs wrap ctrl ((verkind, objects) # m) errs ctrls =
     (case ParseKeyToAPIVersionKind verkind of
        Inl p \<Rightarrow> Inl p
      | Inr (apiVersion, kind) \<Rightarrow>
          (case client_for cs apiVersion kind of
             Inl err \<Rightarrow>
               if is_panic err then Inl err
               else init_controllers cs wrap ctrl m (errs @ [wrap verkind err]) ctrls
           | Inr client \<Rightarrow>
               init_controllers cs wrap ctrl m errs (ctrls @ [ctrl verkind objects client])))"

definition delete_ctrl :: "'s cluster_states \<Rightarrow> string \<Rightarrow> obj option gomap \<Rightarrow> resource_client \<Rightarrow> resource_states" where
  "delete_ctrl m verkind objects client =
     \<lparr>rBase = cBase m, DynamicClient = client, rKey = verkind, rDesired = group_of (Desired m) verkind,
      rExplicitDeletes = [], rExplicitUpdates = []\<rparr>"

definition explicit_delete_ctrl ::
  "'s cluster_states \<Rightarrow> string \<Rightarrow> obj option gomap \<Rightarrow> resource_client \<Rightarrow> resource_states" where
  "explicit_delete_ctrl m verkind objects client =
     \<lparr>rBase = cBase m, DynamicClient = client, rKey = verkind, rDesired = [],
      rExplicitDeletes = group_of (ExplicitDeletes m) verkind, rExplicitUpdates = []\<rparr>"

definition create_update_ctrl ::
  "'s cluster_states \<Rightarrow> string \<Rightarrow> obj option gomap \<Rightarrow> resource_client \<Rightarrow> resource_states" where
  "create_update_ctrl m verkind objects client =
     \<lparr>rBase = cBase m, DynamicClient = client, rKey = verkind, rDesired = objects,
      rExplicitDeletes = [], rExplicitUpdates = []\<rparr>"

definition explicit_update_ctrl ::
  "'s cluster_states \<Rightarrow> string \<Rightarrow> obj option gomap \<Rightarrow> resource_client \<Rightarrow> resource_states" where
  "explicit_update_ctrl m verkind updates client =
     \<lparr>rBase = (cBase m)\<lparr>UpdateAny := Some True\<rparr>, DynamicClient = client, rKey = verkind, rDesired = [],
      rExplicitDeletes = [], rExplicitUpdates = updates\<rparr>"

definition initDeleter :: "'s env \<Rightarrow> 's cluster_states \<Rightarrow> 's cluster_states res" where
  "initDeleter E m =
     (case init_controllers (DynamicClientSet m) (\<lambda>verkind err. err) (delete_ctrl m) (Observed m) [] [] of
        Inl p \<Rightarrow> Inl p
      | Inr (errs, ctrls) \<Rightarrow>
          Inr (if errs = [] then m\<lparr>DeleteFn := Some (ClusterStatesDeleter_Delete E ctrls)\<rparr>
               else m\<lparr>cErrs := cErrs m @ map Some errs\<rparr>))"

definition initExplicitDeleter :: "'s env \<Rightarrow> 's cluster_states \<Rightarrow> 's cluster_states res" where
  "initExplicitDeleter E m =
     (case init_controllers (DynamicClientSet m)
             (\<lambda>verkind err. Wrap (''Can't init explicit deleter: '' @ verkind @ '': '' @
                ClusterStates_String (kubeOf E) m) err)
             (explicit_delete_ctrl m) (Observed m) [] [] of
        Inl p \<Rightarrow> Inl p
      | Inr (errs, ctrls) \<Rightarrow>
          Inr (if errs = [] then m\<lparr>ExplicitDeleteFn := Some (ClusterStatesExplicitDeleter_Delete E ctrls)\<rparr>
               else m\<lparr>cErrs := cErrs m @ map Some errs\<rparr>))"

definition initCreateUpdater :: "'s env \<Rightarrow> 's cluster_states \<Rightarrow> 's cluster_states res" where
  "initCreateUpdater E m =
     (case init_controllers (DynamicClientSet m) (\<lambda>verkind err. err) (create_update_ctrl m) (Desired m) [] [] of
        Inl p \<Rightarrow> Inl p
      | Inr (errs, ctrls) \<Rightarrow>
          Inr (if errs = [] then m\<lparr>CreateOrUpdateFn := Some (ClusterStatesCreateUpdater_CreateOrUpdate E ctrls)\<rparr>
               else m\<lparr>cErrs := cErrs m @ map Some errs\<rparr>))"

definition initExplicitUpdater :: "'s env \<Rightarrow> 's cluster_states \<Rightarrow> 's cluster_states res" where
  "initExplicitUpdater E m =
     (case init_controllers (DynamicClientSet m) (\<lambda>verkind err. err) (explicit_update_ctrl m)
             (filter (\<lambda>(verkind, updates). group_of (Observed m) verkind \<noteq> []) (ExplicitUpdates m)) [] [] of
        Inl p \<Rightarrow> Inl p
      | Inr (errs, ctrls) \<Rightarrow>
          Inr (if errs = [] then m\<lparr>ExplicitUpdateFn := Some (ClusterStatesExplicitUpdater_Update E ctrls)\<rparr>
               else m\<lparr>cErrs := cErrs m @ map Some errs\<rparr>))"

definition initIfNil :: "'s env \<Rightarrow> 's cluster_states \<Rightarrow> 's cluster_states res" where
  "initIfNil E m =
     (case (case DeleteFn m of None \<Rightarrow> initDeleter E m | Some f \<Rightarrow> Inr m) of
        Inl p \<Rightarrow> Inl p
      | Inr m1 \<Rightarrow>
     (case (case CreateOrUpdateFn m1 of None \<Rightarrow> initCreateUpdater E m1 | Some f \<Rightarrow> Inr m1) of
        Inl p \<Rightarrow> Inl p
      | Inr m2 \<Rightarrow>
     (case (case ExplicitDeleteFn m2 of None \<Rightarrow> initExplicitDeleter E m2 | Some f \<Rightarrow> Inr m2) of
        Inl p \<Rightarrow> Inl p
      | Inr m3 \<Rightarrow>
     (case (case ExplicitUpdateFn m3 of None \<Rightarrow> initExplicitUpdater E m3 | Some f \<Rightarrow> Inr m3) of
        Inl p \<Rightarrow> Inl p
      | Inr m4 \<Rightarrow>
          Inr (case IsWatchOwner (cBase m4) of
                 None \<Rightarrow> m4\<lparr>cBase := (cBase m4)\<lparr>IsWatchOwner := Some True\<rparr>\<rparr>
               | Some b \<Rightarrow> m4)))))"

text \<open>Calling a function that is nil panics.\<close>

fun run_phases :: "'s executor option list \<Rightarrow> gerr option list \<Rightarrow> 's cstate \<Rightarrow> gerr option list res \<times> 's cstate" where
  "run_phases [] errs st = (Inr errs, st)"
| "run_phases (None # fs) errs st = (Inl nil_deref, st)"
| "run_phases (Some f # fs) errs st =
     (case f st of
        (Inl p, st') \<Rightarrow> (Inl p, st')
      | (Inr err, st') \<Rightarrow> run_phases fs (errs @ [err]) st')"

definition ClusterStates_Apply ::
  "'s env \<Rightarrow> 's cluster_states \<Rightarrow> 's world \<Rightarrow> gerr option res \<times> 's cluster_states \<times> 's world" where
  "ClusterStates_Apply E m w =
     (case initIfNil E m of
        Inl p \<Rightarrow> (Inl p, m, w)
      | Inr m' \<Rightarrow>
          if cErrs m' \<noteq> [] then (Inr (NewAggregateOf (cErrs m')), m', w)
          else (case run_phases [DeleteFn m', CreateOrUpdateFn m', ExplicitUpdateFn m', ExplicitDeleteFn m']
                       (cErrs m') (Observed m', w) of
                  (Inl p, (obs, w')) \<Rightarrow> (Inl p, m'\<lparr>Observed := obs\<rparr>, w')
                | (Inr errs, (obs, w')) \<Rightarrow>
                    (Inr (NewAggregateOf errs), m'\<lparr>Observed := obs, cErrs := errs\<rparr>, w')))"

end
