(* ===== verification/StatesPlan.thy ===== *)
theory StatesPlan
  imports StatesController
begin

text \<open>
  What the controller of \<open>StatesController\<close> does, specified without the server: plans, that the
  operations follow them, whose objects an apply touches, what it makes them own, and that it
  does not panic.
\<close>

section \<open>The plan of an apply\<close>

text \<open>
  What the executors do, without the server: a plan takes the observed registry to the
  requests and the registry it leaves. An executor follows a plan when it sends exactly
  these requests and, if it returns no error, all of them were accepted; the object of a
  delete may also be gone already.
\<close>

fun settled :: "request \<Rightarrow> obj res \<Rightarrow> bool" where
  "settled q (Inr x) = True"
| "settled (ReqDelete _ _ _ _ _ _) (Inl err) = IsNotFound err"
| "settled q (Inl err) = False"

lemma isOK_settled: "isOK r \<Longrightarrow> settled q r"
  by (cases r) auto

type_synonym plan = "registry \<Rightarrow> request list \<times> registry"

definition follows :: "'s executor \<Rightarrow> plan \<Rightarrow> bool" where
  "follows f p = (\<forall>obs w r obs' w'. f (obs, w) = (Inr r, (obs', w')) \<longrightarrow>
     obs' = snd (p obs) \<and> did_with settled w w' (fst (p obs)) (r = None))"

fun plan_seq :: "('a \<Rightarrow> plan) \<Rightarrow> 'a list \<Rightarrow> plan" where
  "plan_seq p [] obs = ([], obs)"
| "plan_seq p (x # xs) obs =
     (fst (p x obs) @ fst (plan_seq p xs (snd (p x obs))), snd (plan_seq p xs (snd (p x obs))))"

definition updatable :: "kube \<Rightarrow> resource_states \<Rightarrow> obj \<Rightarrow> bool" where
  "updatable K e x =
     ((GetDeletionTimestamp K x = None \<or> IsUpdateDuringPendingDelete e) \<and>
      (created_by K x = watch_uid K e \<or> UpdateAny (rBase e) = Some True) \<and>
      rMethod e \<notin> {''OnDelete'', ''''})"

definition patched :: "kube \<Rightarrow> resource_states \<Rightarrow> obj \<Rightarrow> obj res" where
  "patched K e x =
     (if rIsPatch e then SetLastAppliedByAnnKey K x x (watch_uid K e @ GCTLLastAppliedAnnotationKeySuffix)
      else Inr x)"

definition left_observed :: "kube \<Rightarrow> resource_states \<Rightarrow> obj \<Rightarrow> obj" where
  "left_observed K e x =
     (if updatable K e x then (case patched K e x of Inl err \<Rightarrow> x | Inr y \<Rightarrow> y) else x)"

definition merged_requests :: "kube \<Rightarrow> resource_states \<Rightarrow> obj \<Rightarrow> obj \<Rightarrow> request list" where
  "merged_requests K e x d =
     (let client = Namespace (DynamicClient e) (child_namespace K (Watch (rBase e)) d)
      in case Apply_Merge K (NewApplyFromAnnKey K (watch_uid K e @ GCTLLastAppliedAnnotationKeySuffix)) x d of
           (Inl err, a, d') \<Rightarrow> []
         | (Inr m, a, d') \<Rightarrow>
             if isEqual a then []
             else if rMethod e \<in> {''Recreate'', ''RollingRecreate''}
             then [rc_Delete client (GetName K d') (Some (GetUID K x)) background]
             else if rMethod e \<in> {''InPlace'', ''RollingInPlace''}
             then [rc_Update client (SetAnnotations K m
                     (mput (watch_uid K e @ AttachmentUpdateAnnotationKeySuffix)
                        (DescObjectAsSanitisedKey K (Watch (rBase e))) (mrange (GetAnnotations K m))))]
             else [])"

definition update_requests :: "kube \<Rightarrow> resource_states \<Rightarrow> obj \<Rightarrow> obj \<Rightarrow> request list" where
  "update_requests K e x d =
     (if updatable K e x
      then (case patched K e x of Inl err \<Rightarrow> [] | Inr y \<Rightarrow> merged_requests K e y d)
      else [])"

definition create_requests :: "kube \<Rightarrow> resource_states \<Rightarrow> obj \<Rightarrow> request list" where
  "create_requests K e d =
     (case created_object K e d of
        Inl err \<Rightarrow> []
      | Inr y \<Rightarrow> [rc_Create (Namespace (DynamicClient e) (child_namespace K (Watch (rBase e)) d)) y])"

definition delete_requests ::
  "kube \<Rightarrow> resource_states \<Rightarrow> (string \<Rightarrow> obj \<Rightarrow> bool) \<Rightarrow> obj option gomap \<Rightarrow> request list" where
  "delete_requests K e del observed =
     map (\<lambda>(n, x). delete_request K (DynamicClient e) (GetNamespace K (the x)) (GetName K (the x)) (GetUID K (the x)))
       (filter (\<lambda>(n, x). x \<noteq> None \<and> GetDeletionTimestamp K (the x) = None \<and> del n (the x)) observed)"

text \<open>Which objects a delete removes: those no longer desired that the watch made, or any.\<close>

definition unwanted :: "kube \<Rightarrow> resource_states \<Rightarrow> string \<Rightarrow> obj \<Rightarrow> bool" where
  "unwanted K e n x =
     (entry (rDesired e) n = None \<and> (created_by K x = watch_uid K e \<or> DeleteAny (rBase e) = Some True))"

definition update_plan :: "kube \<Rightarrow> resource_states \<Rightarrow> string \<Rightarrow> obj \<Rightarrow> obj option \<Rightarrow> plan" where
  "update_plan K e n x d obs =
     (update_requests K e x (the d), put_observed e n (left_observed K e x) obs)"

definition create_update_step :: "kube \<Rightarrow> resource_states \<Rightarrow> string \<times> obj option \<Rightarrow> plan" where
  "create_update_step K e p obs =
     (case entry (group_of obs (rKey e)) (fst p) of
        Some x \<Rightarrow> update_plan K e (fst p) x (snd p) obs
      | None \<Rightarrow> (create_requests K e (the (snd p)), obs))"

definition explicit_update_step :: "kube \<Rightarrow> resource_states \<Rightarrow> string \<times> obj option \<Rightarrow> plan" where
  "explicit_update_step K e p obs =
     (case entry (group_of obs (rKey e)) (fst p) of
        Some x \<Rightarrow> update_plan K e (fst p) x (snd p) obs
      | None \<Rightarrow> ([], obs))"

definition create_update_plan :: "kube \<Rightarrow> resource_states \<Rightarrow> plan" where
  "create_update_plan K e = plan_seq (create_update_step K e) (rDesired e)"

definition explicit_update_plan :: "kube \<Rightarrow> resource_states \<Rightarrow> plan" where
  "explicit_update_plan K e obs =
     (if group_of obs (rKey e) = [] then ([], obs)
      else plan_seq (explicit_update_step K e) (rExplicitUpdates e) obs)"

definition delete_plan :: "kube \<Rightarrow> resource_states \<Rightarrow> plan" where
  "delete_plan K e obs = (delete_requests K e (unwanted K e) (group_of obs (rKey e)), obs)"

definition explicit_delete_plan :: "kube \<Rightarrow> resource_states \<Rightarrow> plan" where
  "explicit_delete_plan K e obs =
     (delete_requests K e (\<lambda>n x. entry (rExplicitDeletes e) n \<noteq> None) (group_of obs (rKey e)), obs)"

subsection \<open>The operations follow their plans\<close>

lemma errs_of_simps [simp]: "errs_of (Inl err) = [err]" "errs_of (Inr x) = []"
  by (simp_all add: errs_of_def)

lemma option_bool: "(case b of None \<Rightarrow> False | Some x \<Rightarrow> x) \<longleftrightarrow> b = Some True"
  by (cases b) auto

lemma HasMergeDiff_Inr: "HasMergeDiff a = Inr d \<longleftrightarrow> isRun a \<and> d = (\<not> isEqual a)"
  by (auto simp: HasMergeDiff_def)

lemma Apply_Merge_run: "Apply_Merge K a old x = (Inr m, a', x') \<Longrightarrow> isRun a'"
  by (auto simp: Apply_Merge_def Let_def elim: apply_merge_parts)

lemma update_merged_did:
  assumes "update_merged E e (child_namespace (kubeOf E) (Watch (rBase e)) d) x d w = (r, w')"
  shows "did w w' (merged_requests (kubeOf E) e x d) (errs_of r = []) \<and>
    (errs_of r = [] \<longrightarrow> r = Inr (merged_requests (kubeOf E) e x d \<noteq> []))"
proof -
  let ?K = "kubeOf E"
  obtain m a d' where m: "Apply_Merge ?K (NewApplyFromAnnKey ?K
      (watch_uid ?K e @ GCTLLastAppliedAnnotationKeySuffix)) x d = (m, a, d')"
    by (metis prod_cases3)
  show ?thesis
  proof (cases m)
    case (Inl err)
    with assms m show ?thesis by (auto simp: update_merged_def merged_requests_def Let_def did_none)
  next
    case (Inr y)
    with m have run: "isRun a" using Apply_Merge_run by blast
    let ?c = "Namespace (DynamicClient e) (child_namespace ?K (Watch (rBase e)) d)"
    let ?y = "SetAnnotations ?K y (mput (watch_uid ?K e @ AttachmentUpdateAnnotationKeySuffix)
        (DescObjectAsSanitisedKey ?K (Watch (rBase e))) (mrange (GetAnnotations ?K y)))"
    obtain r1 w1 where c1: "call E (rc_Delete ?c (GetName ?K d') (Some (GetUID ?K x)) background) w = (r1, w1)"
      by fastforce
    obtain r2 w2 where c2: "call E (rc_Update ?c ?y) w = (r2, w2)" by fastforce
    note defs = update_merged_def merged_requests_def Let_def HasMergeDiff_def
    consider "isEqual a" | "\<not> isEqual a" "rMethod e \<in> {''Recreate'', ''RollingRecreate''}"
      | "\<not> isEqual a" "rMethod e \<in> {''InPlace'', ''RollingInPlace''}"
      | "\<not> isEqual a" "rMethod e \<notin> {''Recreate'', ''RollingRecreate'', ''InPlace'', ''RollingInPlace''}"
      by blast
    then show ?thesis
    proof cases
      case 1
      with Inr m run assms show ?thesis by (simp add: defs did_none)
    next
      case 2
      with Inr m run assms c1 have "w' = w1" "errs_of r = errs_of r1" "isOK r1 \<longrightarrow> r = Inr True"
        by (cases r1; force simp: defs)+
      with did_call [OF c1] 2 Inr m show ?thesis by (cases r1) (auto simp: merged_requests_def)
    next
      case 3
      with Inr m run assms c2 have "w' = w2" "errs_of r = errs_of r2" "isOK r2 \<longrightarrow> r = Inr True"
        by (cases r2; force simp: defs)+
      with did_call [OF c2] 3 Inr m show ?thesis by (cases r2) (auto simp: merged_requests_def)
    next
      case 4
      with Inr m run assms show ?thesis by (auto simp: defs did_none)
    qed
  qed
qed

lemma rs_update_did:
  assumes "rs_update E e x d w = (r, x', w')"
  shows "x' = left_observed (kubeOf E) e x \<and> did w w' (update_requests (kubeOf E) e x d) (errs_of r = []) \<and>
    (errs_of r = [] \<longrightarrow> r = Inr (update_requests (kubeOf E) e x d \<noteq> []))"
proof (cases "updatable (kubeOf E) e x")
  case True
  let ?K = "kubeOf E" let ?ns = "child_namespace (kubeOf E) (Watch (rBase e)) d"
  have up: "rs_update E e x d w = (case patched ?K e x of Inl err \<Rightarrow> (Inl err, x, w)
      | Inr y \<Rightarrow> (case update_merged E e ?ns y d w of (r, w') \<Rightarrow> (r, y, w')))"
    using True unfolding rs_update_def Let_def child_namespace_def [symmetric] patched_def [symmetric]
    by (cases "GetDeletionTimestamp ?K x") (auto simp: updatable_def option_bool)
  show ?thesis
  proof (cases "patched ?K e x")
    case (Inl err)
    with up True assms show ?thesis by (auto simp: left_observed_def update_requests_def did_none)
  next
    case (Inr y)
    with up True assms update_merged_did show ?thesis
      by (fastforce simp: left_observed_def update_requests_def split: prod.splits)
  qed
next
  case False
  then have "rs_update E e x d w = (Inr False, x, w)"
    by (auto simp: rs_update_def updatable_def option_bool Let_def)
  with False assms show ?thesis by (auto simp: left_observed_def update_requests_def did_none)
qed

lemma rs_create_did:
  assumes "rs_create E e d w = (r, w')"
  shows "did w w' (create_requests (kubeOf E) e d) (r = None)"
proof (cases "created_object (kubeOf E) e d")
  case (Inl err)
  with assms show ?thesis by (auto simp: rs_create_def create_requests_def did_none)
next
  case (Inr y)
  let ?c = "Namespace (DynamicClient e) (child_namespace (kubeOf E) (Watch (rBase e)) d)"
  obtain resp w1 where c: "call E (rc_Create ?c y) w = (resp, w1)" by fastforce
  with assms Inr have "w' = w1" "r = None \<longrightarrow> isOK resp"
    by (auto simp: rs_create_def child_namespace_def Let_def split: sum.splits)
  with did_call [OF c] Inr show ?thesis by (auto simp: create_requests_def intro: did_weaken)
qed

lemma NewAggregate_none [simp]: "NewAggregate errs = None \<longleftrightarrow> errs = []" "None = NewAggregate errs \<longleftrightarrow> errs = []"
  by (auto simp: NewAggregate_def)

lemma did_settled: "did w w' qs g \<Longrightarrow> did_with settled w w' qs g"
  using did_mono [of "\<lambda>q. isOK" w w' qs g settled] isOK_settled by blast

lemma did_errs_append:
  assumes "did_with ok w w1 qs1 (es = [])" and "did_with ok w1 w2 qs2 (errs' = errs @ es) \<and> prefix (errs @ es) errs'"
  shows "did_with ok w w2 (qs1 @ qs2) (errs' = errs) \<and> prefix errs errs'"
  using did_trans [OF assms(1) conjunct1 [OF assms(2)]] assms(2)
  by (auto simp: prefix_def intro: did_weaken)

lemma create_or_update_did:
  "create_or_update E e desired errs (obs, w) = (Inr errs', (obs', w')) \<Longrightarrow>
   obs' = snd (plan_seq (create_update_step (kubeOf E) e) desired obs) \<and>
   did_with settled w w' (fst (plan_seq (create_update_step (kubeOf E) e) desired obs)) (errs' = errs) \<and>
   prefix errs errs'"
proof (induction desired arbitrary: errs obs w)
  case Nil
  then show ?case by (simp add: did_none)
next
  case (Cons p desired)
  then obtain n d where p: "p = (n, Some d)" by (cases p; cases "snd p") auto
  show ?case
  proof (cases "entry (group_of obs (rKey e)) n")
    case None
    obtain r w1 where c: "rs_create E e d w = (r, w1)" by fastforce
    define es where "es = (case r of None \<Rightarrow> [] | Some err \<Rightarrow> [err])"
    from Cons.prems None p c have rest: "create_or_update E e desired (errs @ es) (obs, w1) = (Inr errs', (obs', w'))"
      by (auto simp: es_def split: option.splits)
    have "did_with settled w w1 (create_requests (kubeOf E) e d) (es = [])"
      using rs_create_did [OF c] by (cases r) (auto simp: es_def intro: did_settled did_weaken)
    from did_errs_append [OF this conjunct2 [OF Cons.IH [OF rest]]] Cons.IH [OF rest] None p
    show ?thesis by (simp add: create_update_step_def)
  next
    case (Some x)
    obtain r x' w1 where u: "rs_update E e x d w = (r, x', w1)" by (metis prod_cases3)
    note up = rs_update_did [OF u]
    from Cons.prems Some p u have rest:
      "create_or_update E e desired (errs @ errs_of r) (put_observed e n x' obs, w1) = (Inr errs', (obs', w'))"
      by simp
    from did_errs_append [OF did_settled [OF conjunct1 [OF conjunct2 [OF up]]] conjunct2 [OF Cons.IH [OF rest]]]
      Cons.IH [OF rest] Some p up
    show ?thesis by (simp add: create_update_step_def update_plan_def)
  qed
qed

lemma explicit_updates_did:
  "explicit_updates E e updates errs (obs, w) = (Inr errs', (obs', w')) \<Longrightarrow>
   obs' = snd (plan_seq (explicit_update_step (kubeOf E) e) updates obs) \<and>
   did_with settled w w' (fst (plan_seq (explicit_update_step (kubeOf E) e) updates obs)) (errs' = errs) \<and>
   prefix errs errs'"
proof (induction updates arbitrary: errs obs w)
  case Nil
  then show ?case by (simp add: did_none)
next
  case (Cons p updates)
  obtain n d where p: "p = (n, d)" by fastforce
  show ?case
  proof (cases "entry (group_of obs (rKey e)) n")
    case None
    with Cons p show ?thesis by (simp add: explicit_update_step_def)
  next
    case (Some x)
    with Cons.prems p obtain d' where d: "d = Some d'" by (cases d) auto
    obtain r x' w1 where u: "rs_update E e x d' w = (r, x', w1)" by (metis prod_cases3)
    note up = rs_update_did [OF u]
    from Cons.prems Some p d u have rest:
      "explicit_updates E e updates (errs @ errs_of r) (put_observed e n x' obs, w1) = (Inr errs', (obs', w'))"
      by simp
    from did_errs_append [OF did_settled [OF conjunct1 [OF conjunct2 [OF up]]] conjunct2 [OF Cons.IH [OF rest]]]
      Cons.IH [OF rest] Some p d up
    show ?thesis by (simp add: explicit_update_step_def update_plan_def)
  qed
qed

lemma delete_observed_did:
  assumes "delete_observed E e failed x w = (es, w')"
  shows "did_with settled w w' [delete_request (kubeOf E) (DynamicClient e) (GetNamespace (kubeOf E) x)
    (GetName (kubeOf E) x) (GetUID (kubeOf E) x)] (es = [])"
proof -
  let ?q = "rc_Delete (Namespace (DynamicClient e) (GetNamespace (kubeOf E) x)) (GetName (kubeOf E) x)
    (Some (GetUID (kubeOf E) x)) background"
  obtain resp w1 where c: "call E ?q w = (resp, w1)" by fastforce
  with assms have "w' = w1" by (auto simp: delete_observed_def Let_def split: sum.splits)
  moreover have "settled ?q resp" if "es = []"
    using assms c that by (auto simp: delete_observed_def rc_Delete_def Let_def split: sum.splits if_splits)
  ultimately show ?thesis using did_call_with [OF c, of "es = []" settled] by (simp add: delete_request_def)
qed

lemma delete_loop_did:
  "delete_loop E e observed errs w = (Inr errs', w') \<Longrightarrow>
   did_with settled w w' (delete_requests (kubeOf E) e (unwanted (kubeOf E) e) observed) (errs' = errs) \<and>
   prefix errs errs'"
proof (induction observed arbitrary: errs w)
  case (Cons p observed)
  then obtain n x where p: "p = (n, Some x)" by (cases p; cases "snd p") auto
  let ?K = "kubeOf E"
  show ?case
  proof (cases "GetDeletionTimestamp ?K x = None \<and> unwanted ?K e n x")
    case True
    obtain es w1 where d: "delete_observed E e ''Failed to delete'' x w = (es, w1)" by fastforce
    with Cons.prems p True have rest: "delete_loop E e observed (errs @ es) w1 = (Inr errs', w')"
      by (auto simp: unwanted_def option_bool Let_def split: if_splits)
    from did_errs_append [OF delete_observed_did [OF d] Cons.IH [OF rest]] True p
    show ?thesis by (simp add: delete_requests_def)
  next
    case False
    with Cons.prems p have "delete_loop E e observed errs w = (Inr errs', w')"
      by (auto simp: unwanted_def option_bool Let_def split: if_splits)
    from Cons.IH [OF this] False p show ?thesis by (auto simp: delete_requests_def)
  qed
qed (simp add: delete_requests_def did_none)

lemma explicit_delete_loop_did:
  "explicit_delete_loop E e observed errs w = (Inr errs', w') \<Longrightarrow>
   did_with settled w w' (delete_requests (kubeOf E) e (\<lambda>n x. entry (rExplicitDeletes e) n \<noteq> None) observed)
     (errs' = errs) \<and> prefix errs errs'"
proof (induction observed arbitrary: errs w)
  case (Cons p observed)
  obtain n x where p: "p = (n, x)" by fastforce
  let ?K = "kubeOf E"
  show ?case
  proof (cases "x \<noteq> None \<and> GetDeletionTimestamp ?K (the x) = None \<and> entry (rExplicitDeletes e) n \<noteq> None")
    case True
    then obtain y where y: "x = Some y" by auto
    obtain es w1 where d: "delete_observed E e ''Failed to delete explicitly'' y w = (es, w1)" by fastforce
    with Cons.prems p y True have rest: "explicit_delete_loop E e observed (errs @ es) w1 = (Inr errs', w')"
      by auto
    from did_errs_append [OF delete_observed_did [OF d] Cons.IH [OF rest]] True p y
    show ?thesis by (simp add: delete_requests_def)
  next
    case False
    with Cons.prems p have "explicit_delete_loop E e observed errs w = (Inr errs', w')"
      by (auto split: if_splits option.splits)
    from Cons.IH [OF this] False p show ?thesis by (auto simp: delete_requests_def)
  qed
qed (simp add: delete_requests_def did_none)

lemma aggregated_Inr:
  "aggregated rb = (Inr r, st) \<longleftrightarrow> (\<exists>errs. rb = (Inr errs, st) \<and> r = NewAggregate errs)"
  by (auto simp: aggregated_def split: prod.splits sum.splits)

lemma rs_CreateOrUpdate_follows: "follows (rs_CreateOrUpdate E e) (create_update_plan (kubeOf E) e)"
  unfolding follows_def rs_CreateOrUpdate_def create_update_plan_def aggregated_Inr
  using create_or_update_did [of E e "rDesired e" "[]"] by fastforce

lemma rs_ExplicitUpdate_follows: "follows (rs_ExplicitUpdate E e) (explicit_update_plan (kubeOf E) e)"
proof -
  have "obs' = snd (explicit_update_plan (kubeOf E) e obs) \<and>
      did_with settled w w' (fst (explicit_update_plan (kubeOf E) e obs)) (r = None)"
    if "rs_ExplicitUpdate E e (obs, w) = (Inr r, (obs', w'))" for obs w r obs' w'
  proof (cases "group_of obs (rKey e) = []")
    case True
    with that show ?thesis by (auto simp: rs_ExplicitUpdate_def explicit_update_plan_def did_none)
  next
    case False
    with that obtain errs where "explicit_updates E e (rExplicitUpdates e) [] (obs, w) = (Inr errs, (obs', w'))"
      "r = NewAggregate errs"
      by (auto simp: rs_ExplicitUpdate_def aggregated_Inr)
    with explicit_updates_did [OF this(1)] False show ?thesis by (simp add: explicit_update_plan_def)
  qed
  then show ?thesis unfolding follows_def by blast
qed

lemma rs_Delete_follows: "follows (rs_Delete E e) (delete_plan (kubeOf E) e)"
  using delete_loop_did [of E e]
  by (fastforce simp: follows_def rs_Delete_def delete_plan_def aggregated_Inr split: prod.splits)

lemma rs_ExplicitDelete_follows: "follows (rs_ExplicitDelete E e) (explicit_delete_plan (kubeOf E) e)"
proof -
  have none: "delete_requests K e (\<lambda>n x. entry [] n \<noteq> None) observed = []" for K observed
    by (simp add: delete_requests_def entry_def)
  have "obs' = snd (explicit_delete_plan (kubeOf E) e obs) \<and>
      did_with settled w w' (fst (explicit_delete_plan (kubeOf E) e obs)) (r = None)"
    if "rs_ExplicitDelete E e (obs, w) = (Inr r, (obs', w'))" for obs w r obs' w'
  proof (cases "rExplicitDeletes e = []")
    case True
    with that show ?thesis
      by (auto simp: rs_ExplicitDelete_def explicit_delete_plan_def did_none none [simplified])
  next
    case False
    with that obtain errs where "explicit_delete_loop E e (group_of obs (rKey e)) [] w = (Inr errs, w')"
      "r = NewAggregate errs" "obs' = obs"
      by (auto simp: rs_ExplicitDelete_def aggregated_Inr split: prod.splits)
    with explicit_delete_loop_did [OF this(1)] show ?thesis by (simp add: explicit_delete_plan_def)
  qed
  then show ?thesis unfolding follows_def by blast
qed

lemma NewAggregateOf_none [simp]: "NewAggregateOf errs = None \<longleftrightarrow> set errs \<subseteq> {None}"
  by (induction errs) (auto simp: NewAggregateOf_def List.map_filter_simps split: option.splits)

lemma run_list_follows:
  assumes "\<And>e. follows (op e) (p e)"
  shows "follows (run_list op es []) (plan_seq p es)"
proof -
  have "run_list op es errs (obs, w) = (Inr r, (obs', w')) \<Longrightarrow>
      obs' = snd (plan_seq p es obs) \<and> did_with settled w w' (fst (plan_seq p es obs)) (r = None) \<and>
      (r = None \<longrightarrow> set errs \<subseteq> {None})" for errs obs w r obs' w'
  proof (induction es arbitrary: errs obs w)
    case (Cons e es)
    from Cons.prems obtain err obs1 w1 where op: "op e (obs, w) = (Inr err, (obs1, w1))"
      and rest: "run_list op es (errs @ [err]) (obs1, w1) = (Inr r, (obs', w'))"
      by (auto split: prod.splits sum.splits)
    from assms [of e] op have one: "obs1 = snd (p e obs)" "did_with settled w w1 (fst (p e obs)) (err = None)"
      unfolding follows_def by blast+
    from Cons.IH [OF rest] did_trans [OF one(2)] one(1)
    have "did_with settled w w' (fst (plan_seq p (e # es) obs)) (err = None \<and> r = None)" by auto
    with Cons.IH [OF rest] one(1) show ?case by (auto intro: did_weaken)
  qed (auto simp: did_none)
  then show ?thesis unfolding follows_def by blast
qed

lemma run_phases_follow:
  "list_all2 (\<lambda>f p. \<exists>g. f = Some g \<and> follows g p) fs ps \<Longrightarrow>
   run_phases fs errs (obs, w) = (Inr errs', (obs', w')) \<Longrightarrow>
   obs' = snd (plan_seq (\<lambda>p. p) ps obs) \<and>
   did_with settled w w' (fst (plan_seq (\<lambda>p. p) ps obs)) (set errs' \<subseteq> {None}) \<and>
   prefix errs errs' \<and> (errs' = [] \<longrightarrow> fs = [])"
proof (induction fs arbitrary: ps errs obs w)
  case (Cons f fs)
  from Cons.prems(1) obtain g p ps' where ps: "ps = p # ps'" "f = Some g" "follows g p"
    "list_all2 (\<lambda>f p. \<exists>g. f = Some g \<and> follows g p) fs ps'"
    by (auto simp: list_all2_Cons1)
  with Cons.prems(2) obtain err obs1 w1 where g: "g (obs, w) = (Inr err, (obs1, w1))"
    and rest: "run_phases fs (errs @ [err]) (obs1, w1) = (Inr errs', (obs', w'))"
    by (auto split: prod.splits sum.splits)
  from ps(3) g have one: "obs1 = snd (p obs)" "did_with settled w w1 (fst (p obs)) (err = None)"
    unfolding follows_def by blast+
  note ih = Cons.IH [OF ps(4) rest]
  from ih did_trans [OF one(2)] one(1) ps(1)
  have "did_with settled w w' (fst (plan_seq (\<lambda>p. p) ps obs)) (err = None \<and> set errs' \<subseteq> {None})" by auto
  moreover have "err = None \<and> set errs' \<subseteq> {None}" if "set errs' \<subseteq> {None}"
    using that ih by (auto simp: prefix_def)
  ultimately show ?case using ih one(1) ps(1) by (auto intro: did_weaken simp: prefix_def)
qed (auto simp: did_none)

subsection \<open>The plan of the cluster controller\<close>

definition client_of :: "clientset \<Rightarrow> string \<Rightarrow> resource_client res" where
  "client_of cs key =
     (case ParseKeyToAPIVersionKind key of
        Inl p \<Rightarrow> Inl p
      | Inr (apiVersion, kind) \<Rightarrow> client_for cs apiVersion kind)"

abbreviation resolved :: "clientset \<Rightarrow> registry \<Rightarrow> bool" where
  "resolved cs m \<equiv> list_all (\<lambda>(key, grp). isOK (client_of cs key)) m"

definition controllers ::
  "clientset \<Rightarrow> (string \<Rightarrow> obj option gomap \<Rightarrow> resource_client \<Rightarrow> resource_states) \<Rightarrow> registry \<Rightarrow>
   resource_states list" where
  "controllers cs ctrl m =
     concat (map (\<lambda>(key, grp). case client_of cs key of Inl err \<Rightarrow> [] | Inr client \<Rightarrow> [ctrl key grp client]) m)"

definition observed_updates :: "'s cluster_states \<Rightarrow> registry" where
  "observed_updates m = filter (\<lambda>(verkind, updates). group_of (Observed m) verkind \<noteq> []) (ExplicitUpdates m)"

definition ready :: "'s cluster_states \<Rightarrow> bool" where
  "ready m = resolved (DynamicClientSet m) (Observed m @ Desired m @ observed_updates m)"

definition fresh :: "'s cluster_states \<Rightarrow> bool" where
  "fresh m = (Option.is_none (DeleteFn m) \<and> Option.is_none (CreateOrUpdateFn m) \<and>
     Option.is_none (ExplicitDeleteFn m) \<and> Option.is_none (ExplicitUpdateFn m) \<and> cErrs m = [])"

definition apply_plan :: "kube \<Rightarrow> 's cluster_states \<Rightarrow> plan" where
  "apply_plan K m = (let cs = DynamicClientSet m in
     plan_seq (\<lambda>p. p)
       [plan_seq (delete_plan K) (controllers cs (delete_ctrl m) (Observed m)),
        plan_seq (create_update_plan K) (controllers cs (create_update_ctrl m) (Desired m)),
        plan_seq (explicit_update_plan K) (controllers cs (explicit_update_ctrl m) (observed_updates m)),
        plan_seq (explicit_delete_plan K) (controllers cs (explicit_delete_ctrl m) (Observed m))])"

lemma init_controllers_spec:
  "init_controllers cs wrap ctrl m errs ctrls = Inr (errs', ctrls') \<Longrightarrow>
   prefix errs errs' \<and> (errs' = errs \<longleftrightarrow> resolved cs m) \<and>
   (resolved cs m \<longrightarrow> ctrls' = ctrls @ controllers cs ctrl m)"
proof (induction m arbitrary: errs ctrls)
  case (Cons p m)
  obtain key grp where p: "p = (key, grp)" by fastforce
  with Cons.prems obtain av kind where key: "ParseKeyToAPIVersionKind key = Inr (av, kind)"
    by (auto split: sum.splits)
  show ?case
  proof (cases "client_for cs av kind")
    case (Inl err)
    with Cons.prems p key have "init_controllers cs wrap ctrl m (errs @ [wrap key err]) ctrls = Inr (errs', ctrls')"
      by (auto split: if_splits)
    from Cons.IH [OF this] Inl p key show ?thesis by (auto simp: client_of_def prefix_def)
  next
    case (Inr client)
    with Cons.prems p key have "init_controllers cs wrap ctrl m errs (ctrls @ [ctrl key grp client]) = Inr (errs', ctrls')"
      by simp
    from Cons.IH [OF this] Inr p key show ?thesis by (auto simp: client_of_def controllers_def)
  qed
qed (simp add: controllers_def)

lemma init_controllers_empty:
  "init_controllers cs wrap ctrl m [] [] = Inr (errs, ctrls) \<Longrightarrow>
   (errs = [] \<longleftrightarrow> resolved cs m) \<and> (resolved cs m \<longrightarrow> ctrls = controllers cs ctrl m)"
  using init_controllers_spec [of cs wrap ctrl m "[]" "[]"] by simp

lemma ctrl_frame [simp]:
  "delete_ctrl (m\<lparr>DeleteFn := f\<rparr>) = delete_ctrl m" "delete_ctrl (m\<lparr>cErrs := es\<rparr>) = delete_ctrl m"
  "create_update_ctrl (m\<lparr>DeleteFn := f\<rparr>) = create_update_ctrl m"
  "create_update_ctrl (m\<lparr>cErrs := es\<rparr>) = create_update_ctrl m"
  "explicit_delete_ctrl (m\<lparr>DeleteFn := f\<rparr>) = explicit_delete_ctrl m"
  "explicit_delete_ctrl (m\<lparr>CreateOrUpdateFn := f\<rparr>) = explicit_delete_ctrl m"
  "explicit_delete_ctrl (m\<lparr>cErrs := es\<rparr>) = explicit_delete_ctrl m"
  "explicit_update_ctrl (m\<lparr>DeleteFn := f\<rparr>) = explicit_update_ctrl m"
  "explicit_update_ctrl (m\<lparr>CreateOrUpdateFn := f\<rparr>) = explicit_update_ctrl m"
  "explicit_update_ctrl (m\<lparr>ExplicitDeleteFn := f\<rparr>) = explicit_update_ctrl m"
  "explicit_update_ctrl (m\<lparr>cErrs := es\<rparr>) = explicit_update_ctrl m"
  "observed_updates (m\<lparr>DeleteFn := f\<rparr>) = observed_updates m"
  "observed_updates (m\<lparr>CreateOrUpdateFn := f\<rparr>) = observed_updates m"
  "observed_updates (m\<lparr>ExplicitDeleteFn := f\<rparr>) = observed_updates m"
  "observed_updates (m\<lparr>cErrs := es\<rparr>) = observed_updates m"
  by (auto simp: delete_ctrl_def create_update_ctrl_def explicit_delete_ctrl_def explicit_update_ctrl_def
      observed_updates_def fun_eq_iff)

text \<open>An init function sets its executor when every client is found and adds errors otherwise.\<close>

definition inited ::
  "bool \<Rightarrow> ('s cluster_states \<Rightarrow> 's cluster_states) \<Rightarrow> 's cluster_states \<Rightarrow> 's cluster_states \<Rightarrow> bool" where
  "inited found set_fn m m' =
     (if found then m' = set_fn m else \<exists>es. es \<noteq> [] \<and> m' = m\<lparr>cErrs := cErrs m @ map Some es\<rparr>)"

lemma initDeleter_inited:
  "initDeleter E m = Inr m' \<Longrightarrow> inited (resolved (DynamicClientSet m) (Observed m))
     (\<lambda>m. m\<lparr>DeleteFn := Some (ClusterStatesDeleter_Delete E
        (controllers (DynamicClientSet m) (delete_ctrl m) (Observed m)))\<rparr>) m m'"
  by (auto simp: initDeleter_def inited_def dest!: init_controllers_empty split: sum.splits prod.splits if_splits)

lemma initCreateUpdater_inited:
  "initCreateUpdater E m = Inr m' \<Longrightarrow> inited (resolved (DynamicClientSet m) (Desired m))
     (\<lambda>m. m\<lparr>CreateOrUpdateFn := Some (ClusterStatesCreateUpdater_CreateOrUpdate E
        (controllers (DynamicClientSet m) (create_update_ctrl m) (Desired m)))\<rparr>) m m'"
  by (auto simp: initCreateUpdater_def inited_def dest!: init_controllers_empty
      split: sum.splits prod.splits if_splits)

lemma initExplicitDeleter_inited:
  "initExplicitDeleter E m = Inr m' \<Longrightarrow> inited (resolved (DynamicClientSet m) (Observed m))
     (\<lambda>m. m\<lparr>ExplicitDeleteFn := Some (ClusterStatesExplicitDeleter_Delete E
        (controllers (DynamicClientSet m) (explicit_delete_ctrl m) (Observed m)))\<rparr>) m m'"
  by (auto simp: initExplicitDeleter_def inited_def dest!: init_controllers_empty
      split: sum.splits prod.splits if_splits)

lemma initExplicitUpdater_inited:
  "initExplicitUpdater E m = Inr m' \<Longrightarrow> inited (resolved (DynamicClientSet m) (observed_updates m))
     (\<lambda>m. m\<lparr>ExplicitUpdateFn := Some (ClusterStatesExplicitUpdater_Update E
        (controllers (DynamicClientSet m) (explicit_update_ctrl m) (observed_updates m)))\<rparr>) m m'"
  unfolding initExplicitUpdater_def observed_updates_def [symmetric] inited_def
  by (auto dest!: init_controllers_empty split: sum.splits prod.splits if_splits)

definition with_executors :: "'s env \<Rightarrow> 's cluster_states \<Rightarrow> 's cluster_states \<Rightarrow> bool" where
  "with_executors E m m' = (let cs = DynamicClientSet m in
     DeleteFn m' = Some (ClusterStatesDeleter_Delete E (controllers cs (delete_ctrl m) (Observed m))) \<and>
     CreateOrUpdateFn m' = Some (ClusterStatesCreateUpdater_CreateOrUpdate E
       (controllers cs (create_update_ctrl m) (Desired m))) \<and>
     ExplicitUpdateFn m' = Some (ClusterStatesExplicitUpdater_Update E
       (controllers cs (explicit_update_ctrl m) (observed_updates m))) \<and>
     ExplicitDeleteFn m' = Some (ClusterStatesExplicitDeleter_Delete E
       (controllers cs (explicit_delete_ctrl m) (Observed m))))"

lemma initIfNil_fresh:
  assumes "fresh m" and "initIfNil E m = Inr m'"
  shows "Observed m' = Observed m \<and>
    (if ready m then cErrs m' = [] \<and> with_executors E m m' else NewAggregateOf (cErrs m') \<noteq> None)"
proof -
  from assms obtain m1 m2 m3 m4 where i: "initDeleter E m = Inr m1" "CreateOrUpdateFn m1 = None"
    "initCreateUpdater E m1 = Inr m2" "initExplicitDeleter E m2 = Inr m3" "initExplicitUpdater E m3 = Inr m4"
    and m': "m' = (case IsWatchOwner (cBase m4) of
      None \<Rightarrow> m4\<lparr>cBase := (cBase m4)\<lparr>IsWatchOwner := Some True\<rparr>\<rparr> | Some b \<Rightarrow> m4)"
  proof -
    from assms have none: "DeleteFn m = None" "CreateOrUpdateFn m = None" "ExplicitDeleteFn m = None"
      "ExplicitUpdateFn m = None" by (auto simp: fresh_def Option.is_none_def)
    with assms(2) obtain m1 where m1: "initDeleter E m = Inr m1"
      by (auto simp: initIfNil_def split: sum.splits)
    with initDeleter_inited [OF m1] none have n1: "CreateOrUpdateFn m1 = None" "ExplicitDeleteFn m1 = None"
      "ExplicitUpdateFn m1 = None" by (auto simp: inited_def split: if_splits)
    with none m1 assms(2) obtain m2 where m2: "initCreateUpdater E m1 = Inr m2"
      by (auto simp: initIfNil_def split: sum.splits)
    with initCreateUpdater_inited [OF m2] n1 have n2: "ExplicitDeleteFn m2 = None"
      "ExplicitUpdateFn m2 = None" by (auto simp: inited_def split: if_splits)
    with none m1 n1 m2 assms(2) obtain m3 where m3: "initExplicitDeleter E m2 = Inr m3"
      by (auto simp: initIfNil_def split: sum.splits)
    with initExplicitDeleter_inited [OF m3] n2 have "ExplicitUpdateFn m3 = None"
      by (auto simp: inited_def split: if_splits)
    with none m1 n1 m2 n2 m3 assms(2) that show ?thesis
      by (auto simp: initIfNil_def split: sum.splits)
  qed
  note inits = initDeleter_inited [OF i(1)] initCreateUpdater_inited [OF i(3)]
    initExplicitDeleter_inited [OF i(4)] initExplicitUpdater_inited [OF i(5)]
  from assms(1) have e0: "cErrs m = []" by (simp add: fresh_def)
  have m4: "cErrs m' = cErrs m4" "Observed m' = Observed m4" "with_executors E m m' = with_executors E m m4"
    by (auto simp: m' with_executors_def Let_def split: option.splits)
  show ?thesis
  proof (cases "ready m")
    case True
    with inits e0 show ?thesis
      unfolding m4 by (simp add: inited_def ready_def with_executors_def Let_def)
  next
    case False
    obtain a b c d where errs: "cErrs m4 = map Some (a @ b @ c @ d)" "Observed m4 = Observed m"
      "a @ b @ c @ d \<noteq> []"
    proof (cases "resolved (DynamicClientSet m) (Observed m)")
      case found: True
      show ?thesis
      proof (cases "resolved (DynamicClientSet m) (Desired m)")
        case True
        with found inits False e0 that [of "[]" "[]" "[]"] show ?thesis
          by (auto simp: inited_def ready_def split: if_splits)
      next
        case False
        with found inits e0 that [of "[]" _ "[]"] that [of "[]" _ "[]" "[]"] show ?thesis
          by (fastforce simp: inited_def split: if_splits)
      qed
    next
      case False
      with inits e0 that that [of _ "[]"] that [of _ _ _ "[]"] that [of _ "[]" _ "[]"] show ?thesis
        by (fastforce simp: inited_def split: if_splits)
    qed
    with False show ?thesis unfolding m4 by (cases "a @ b @ c @ d") (auto simp: m4)
  qed
qed

lemma ClusterStates_Apply_run:
  assumes "fresh m" and "ready m" and "ClusterStates_Apply E m w = (Inr r, m', w')"
  obtains m0 errs obs where "initIfNil E m = Inr m0"
    "run_phases [DeleteFn m0, CreateOrUpdateFn m0, ExplicitUpdateFn m0, ExplicitDeleteFn m0] []
       (Observed m, w) = (Inr errs, (obs, w'))"
    "m' = m0\<lparr>Observed := obs, cErrs := errs\<rparr>" "r = NewAggregateOf errs" "with_executors E m m0"
proof -
  from assms(3) obtain m0 where m0: "initIfNil E m = Inr m0"
    by (auto simp: ClusterStates_Apply_def split: sum.splits)
  from initIfNil_fresh [OF assms(1) m0] assms(2)
  have "Observed m0 = Observed m" "cErrs m0 = []" "with_executors E m m0" by auto
  with m0 assms(3) that show ?thesis
    by (auto simp: ClusterStates_Apply_def split: sum.splits prod.splits)
qed

lemma executors_follow:
  assumes "with_executors E m m0"
  shows "list_all2 (\<lambda>f p. \<exists>g. f = Some g \<and> follows g p)
    [DeleteFn m0, CreateOrUpdateFn m0, ExplicitUpdateFn m0, ExplicitDeleteFn m0]
    [plan_seq (delete_plan (kubeOf E)) (controllers (DynamicClientSet m) (delete_ctrl m) (Observed m)),
     plan_seq (create_update_plan (kubeOf E)) (controllers (DynamicClientSet m) (create_update_ctrl m) (Desired m)),
     plan_seq (explicit_update_plan (kubeOf E)) (controllers (DynamicClientSet m) (explicit_update_ctrl m) (observed_updates m)),
     plan_seq (explicit_delete_plan (kubeOf E)) (controllers (DynamicClientSet m) (explicit_delete_ctrl m) (Observed m))]"
proof -
  note list_follows =
    run_list_follows [of "rs_Delete E" "delete_plan (kubeOf E)", OF rs_Delete_follows]
    run_list_follows [of "rs_CreateOrUpdate E" "create_update_plan (kubeOf E)", OF rs_CreateOrUpdate_follows]
    run_list_follows [of "rs_ExplicitUpdate E" "explicit_update_plan (kubeOf E)", OF rs_ExplicitUpdate_follows]
    run_list_follows [of "rs_ExplicitDelete E" "explicit_delete_plan (kubeOf E)", OF rs_ExplicitDelete_follows]
  then show ?thesis
    using assms by (simp add: with_executors_def Let_def ClusterStatesDeleter_Delete_def [abs_def]
        ClusterStatesCreateUpdater_CreateOrUpdate_def [abs_def] ClusterStatesExplicitUpdater_Update_def [abs_def]
        ClusterStatesExplicitDeleter_Delete_def [abs_def])
qed

section \<open>Whose objects are touched\<close>

definition annotated_copy :: "kube \<Rightarrow> obj \<Rightarrow> obj \<Rightarrow> bool" where
  "annotated_copy K x x0 =
     (meta_ok x \<and> created_by K x = created_by K x0 \<and>
      (\<forall>q. diverge annotations_path q \<longrightarrow> NestedField K x q = NestedField K x0 q))"

lemma last_applied_key: "uid @ GCTLLastAppliedAnnotationKeySuffix \<noteq> AttachmentCreateAnnotationKey"
proof
  assume "uid @ GCTLLastAppliedAnnotationKeySuffix = AttachmentCreateAnnotationKey"
  then have "last (uid @ GCTLLastAppliedAnnotationKeySuffix) = last AttachmentCreateAnnotationKey" by simp
  then show False by (simp add: GCTLLastAppliedAnnotationKeySuffix_def AttachmentCreateAnnotationKey_def)
qed

lemma mrange_case: "(case m of None \<Rightarrow> [] | Some a \<Rightarrow> a) = mrange m"
  by (cases m) auto

lemma created_by_set:
  assumes "kube_lib K" and "meta_ok x"
  shows "created_by K (SetAnnotations K x ann) = str_index ann AttachmentCreateAnnotationKey"
  using assms by (simp add: created_by_def kube_lib.get_set_annotations)

lemma created_by_mrange: "created_by K x = str_index (mrange (GetAnnotations K x)) AttachmentCreateAnnotationKey"
  by (cases "GetAnnotations K x") (auto simp: created_by_def str_index_def)

lemma patched_copy:
  assumes "kube_lib K" and "meta_ok x" and "patched K e x = Inr y"
  shows "annotated_copy K y x"
  using assms last_applied_key [of "watch_uid K e"] kube_lib.meta_ok_setters [OF assms(1)]
    kube_lib.frame_annotations [OF assms(1)] created_by_set [OF assms(1,2)]
  by (auto simp: patched_def annotated_copy_def SetLastAppliedByAnnKey_def Let_def mrange_case created_by_mrange
      split: if_splits sum.splits)

lemma left_copy:
  assumes "kube_lib K" and "meta_ok x"
  shows "annotated_copy K (left_observed K e x) x"
  using patched_copy [OF assms] assms(2)
  by (auto simp: left_observed_def annotated_copy_def split: sum.splits)

lemma annotated_copy_trans: "annotated_copy K z y \<Longrightarrow> annotated_copy K y x \<Longrightarrow> annotated_copy K z x"
  by (auto simp: annotated_copy_def)

lemma same_field_copy:
  assumes "annotated_copy K y x" and "diverge annotations_path p"
  shows "same_field K z y p = same_field K z x p"
  using assms by (simp add: annotated_copy_def same_field_def)

lemma copy_uid: "kube_lib K \<Longrightarrow> annotated_copy K y x \<Longrightarrow> GetUID K y = GetUID K x"
  by (rule kube_lib.local_uid) (simp_all add: annotated_copy_def)

text \<open>What an update may send.\<close>

definition guarded_request :: "kube \<Rightarrow> resource_states \<Rightarrow> obj \<Rightarrow> obj \<Rightarrow> request \<Rightarrow> bool" where
  "guarded_request K e x d q =
     (let client = Namespace (DynamicClient e) (child_namespace K (Watch (rBase e)) d) in
      updatable K e x \<and>
      (rMethod e \<in> {''Recreate'', ''RollingRecreate''} \<and>
         (\<exists>name. q = rc_Delete client name (Some (GetUID K x)) background) \<or>
       rMethod e \<in> {''InPlace'', ''RollingInPlace''} \<and>
         (\<exists>y. q = rc_Update client y \<and>
            list_all (\<lambda>f. same_field K y x [''metadata'', f]) objectMetaSystemFields \<and>
            same_field K y x [''status''])))"

lemma applied_by_key:
  assumes "kube_lib K" and "Apply_Merge K (NewApplyFromAnnKey K key) old d = (Inr m, a, d')"
  shows "list_all (\<lambda>f. same_field K m old [''metadata'', f]) objectMetaSystemFields \<and>
    same_field K m old [''status'']"
  using assms(2) apply_merge_system_fields [OF assms(1) records_by_key [OF assms(1)]]
  by (auto simp: Apply_Merge_def NewApplyFromAnnKey_def Let_def)

lemma same_field_annotated:
  assumes "kube_lib K" and "diverge annotations_path p"
  shows "same_field K (SetAnnotations K y ann) x p = same_field K y x p"
  by (rule same_field_frame) (rule kube_lib.frame_annotations [OF assms])

lemma update_requests_guarded:
  assumes "kube_lib K" and "meta_ok x"
  shows "length (update_requests K e x d) \<le> 1 \<and> list_all (guarded_request K e x d) (update_requests K e x d)"
proof (cases "updatable K e x")
  case True
  show ?thesis
  proof (cases "patched K e x")
    case (Inl err)
    then show ?thesis by (simp add: update_requests_def)
  next
    case (Inr y)
    note copy = patched_copy [OF assms Inr]
    obtain m a d' where m: "Apply_Merge K (NewApplyFromAnnKey K
        (watch_uid K e @ GCTLLastAppliedAnnotationKeySuffix)) y d = (m, a, d')"
      by (metis prod_cases3)
    show ?thesis
    proof (cases m)
      case (Inl err)
      with m True Inr show ?thesis by (simp add: update_requests_def merged_requests_def)
    next
      case m': (Inr z)
      from applied_by_key [OF assms(1) m [unfolded m']]
      have "list_all (\<lambda>f. same_field K (SetAnnotations K z ann) x [''metadata'', f]) objectMetaSystemFields \<and>
          same_field K (SetAnnotations K z ann) x [''status'']" for ann
        by (simp add: same_field_annotated [OF assms(1)] same_field_copy [OF copy] objectMetaSystemFields_def)
      with True Inr m m' copy_uid [OF assms(1) copy] show ?thesis
        by (auto simp: update_requests_def merged_requests_def guarded_request_def Let_def)
    qed
  qed
qed (simp add: update_requests_def)

fun own_request :: "kube \<Rightarrow> string \<Rightarrow> registry \<Rightarrow> request \<Rightarrow> bool" where
  "own_request K uid obs (ReqDelete av r ns n u policy) =
     (\<exists>x. Some x \<in> set (registry_List obs) \<and> created_by K x = uid \<and> u = Some (GetUID K x))"
| "own_request K uid obs (ReqUpdate av r ns y) =
     (\<exists>x. Some x \<in> set (registry_List obs) \<and> created_by K x = uid \<and> same_field K y x [''metadata'', ''uid''])"
| "own_request K uid obs (ReqCreate av r ns y) = (created_by K y = uid)"
| "own_request K uid obs q = False"

abbreviation sound_objects :: "registry \<Rightarrow> bool" where
  "sound_objects m \<equiv> list_all (\<lambda>x. x \<noteq> None \<and> meta_ok (the x)) (registry_List m)"

definition tracked :: "kube \<Rightarrow> registry \<Rightarrow> registry \<Rightarrow> bool" where
  "tracked K obs0 obs =
     (\<forall>key n x. entry (group_of obs key) n = Some x \<longrightarrow>
        (\<exists>x0. Some x0 \<in> set (registry_List obs0) \<and> annotated_copy K x x0))"

lemma group_in_list: "(n, x) \<in> set (group_of m key) \<Longrightarrow> x \<in> set (registry_List m)"
proof (cases "map_of m key")
  case (Some grp)
  assume "(n, x) \<in> set (group_of m key)"
  with Some have "(key, grp) \<in> set m" "(n, x) \<in> set grp" by (auto simp: group_of_def dest: map_of_SomeD)
  then show ?thesis unfolding registry_List_def by force
qed (simp add: group_of_def)

lemma entry_in_list: "entry (group_of m key) n = Some x \<Longrightarrow> Some x \<in> set (registry_List m)"
  by (auto simp: entry_def split: option.splits intro!: group_in_list map_of_SomeD)

lemma tracked_self:
  assumes "sound_objects obs"
  shows "tracked K obs obs"
  unfolding tracked_def
proof (intro allI impI)
  fix key n x
  assume "entry (group_of obs key) n = Some x"
  then have x: "Some x \<in> set (registry_List obs)" by (rule entry_in_list)
  with assms have "meta_ok x" by (auto simp: list_all_iff)
  with x show "\<exists>x0. Some x0 \<in> set (registry_List obs) \<and> annotated_copy K x x0"
    by (auto simp: annotated_copy_def)
qed

lemma tracked_put:
  assumes "tracked K obs0 obs" and "entry (group_of obs (rKey e)) n = Some x" and "annotated_copy K y x"
  shows "tracked K obs0 (put_observed e n y obs)"
  unfolding tracked_def
proof (intro allI impI)
  fix key n' x'
  assume e: "entry (group_of (put_observed e n y obs) key) n' = Some x'"
  show "\<exists>x0. Some x0 \<in> set (registry_List obs0) \<and> annotated_copy K x' x0"
  proof (cases "key = rKey e \<and> n' = n")
    case True
    with e have "x' = y" by (simp add: put_observed_def reg_put_def entry_def)
    with assms show ?thesis unfolding tracked_def by (meson annotated_copy_trans)
  next
    case False
    with e have "entry (group_of obs key) n' = Some x'"
      by (auto simp: put_observed_def reg_put_def entry_def split: if_splits)
    with assms(1) show ?thesis unfolding tracked_def by blast
  qed
qed

lemma plan_seq_inv:
  assumes "\<And>x obs. x \<in> set xs \<Longrightarrow> I obs \<Longrightarrow> I (snd (p x obs)) \<and> list_all Q (fst (p x obs))" and "I obs"
  shows "I (snd (plan_seq p xs obs)) \<and> list_all Q (fst (plan_seq p xs obs))"
  using assms by (induction xs arbitrary: obs) auto

lemma guarded_own:
  assumes "kube_lib K" and "guarded_request K e x d q" and "UpdateAny (rBase e) \<noteq> Some True"
    and "annotated_copy K x x0" and "Some x0 \<in> set (registry_List obs0)"
  shows "own_request K (watch_uid K e) obs0 q"
proof -
  from assms(2,3,4) have "created_by K x0 = watch_uid K e"
    by (simp add: guarded_request_def updatable_def annotated_copy_def Let_def)
  with assms(2,5) same_field_copy [OF assms(4)] copy_uid [OF assms(1,4)] show ?thesis
    by (auto simp: guarded_request_def rc_requests objectMetaSystemFields_def Let_def)
qed

lemma update_plan_own:
  assumes "kube_lib K" and "UpdateAny (rBase e) \<noteq> Some True"
    and "tracked K obs0 obs" and "entry (group_of obs (rKey e)) n = Some x"
  shows "tracked K obs0 (snd (update_plan K e n x d obs)) \<and>
    list_all (own_request K (watch_uid K e) obs0) (fst (update_plan K e n x d obs))"
proof -
  from assms(3,4) obtain x0 where x0: "Some x0 \<in> set (registry_List obs0)" "annotated_copy K x x0"
    unfolding tracked_def by blast
  then have ok: "meta_ok x" by (simp add: annotated_copy_def)
  from tracked_put [OF assms(3,4) left_copy [OF assms(1) ok]]
    update_requests_guarded [OF assms(1) ok, of e "the d"] guarded_own [OF assms(1) _ assms(2) x0(2,1), of "the d"]
  show ?thesis by (auto simp: update_plan_def list_all_iff)
qed

lemma created_object_own:
  assumes "kube_lib K" and "meta_ok d" and "created_object K e d = Inr y"
  shows "created_by K y = watch_uid K e"
proof -
  from assms(3) obtain d1 where d1: "SetLastAppliedByAnnKey K d d
      (watch_uid K e @ GCTLLastAppliedAnnotationKeySuffix) = Inr d1"
    by (auto simp: created_object_def split: sum.splits)
  have ok: "meta_ok d1"
    using d1 assms(2) kube_lib.meta_ok_setters [OF assms(1)]
    by (auto simp: SetLastAppliedByAnnKey_def Let_def split: if_splits sum.splits)
  have "created_by K (SetAnnotations K d1 (mput AttachmentCreateAnnotationKey (watch_uid K e) ann)) = watch_uid K e"
    for ann by (simp add: created_by_set [OF assms(1) ok])
  with assms(1,3) d1 show ?thesis
    by (auto simp: created_object_def Let_def created_by_def kube_lib.annotations_set_owners)
qed

lemma create_update_plan_own:
  assumes "kube_lib K" and "UpdateAny (rBase e) \<noteq> Some True"
    and "\<And>n d. (n, d) \<in> set (rDesired e) \<Longrightarrow> meta_ok (the d)" and "tracked K obs0 obs"
  shows "tracked K obs0 (snd (create_update_plan K e obs)) \<and>
    list_all (own_request K (watch_uid K e) obs0) (fst (create_update_plan K e obs))"
  unfolding create_update_plan_def
proof (rule plan_seq_inv [where I = "tracked K obs0", OF _ assms(4)])
  fix p obs
  assume p: "p \<in> set (rDesired e)" and t: "tracked K obs0 obs"
  show "tracked K obs0 (snd (create_update_step K e p obs)) \<and>
      list_all (own_request K (watch_uid K e) obs0) (fst (create_update_step K e p obs))"
  proof (cases "entry (group_of obs (rKey e)) (fst p)")
    case None
    with t p assms(3) [of "fst p" "snd p"] created_object_own [OF assms(1), of "the (snd p)" e] show ?thesis
      by (auto simp: create_update_step_def create_requests_def rc_requests split: sum.splits)
  next
    case (Some x)
    with update_plan_own [OF assms(1,2) t Some] show ?thesis by (simp add: create_update_step_def)
  qed
qed

lemma delete_plan_own:
  assumes "DeleteAny (rBase e) \<noteq> Some True"
  shows "list_all (own_request K (watch_uid K e) obs) (fst (delete_plan K e obs))"
  using assms group_in_list
  by (fastforce simp: delete_plan_def delete_requests_def delete_request_def unwanted_def rc_requests list_all_iff)

lemma controllers_in:
  "e \<in> set (controllers cs ctrl m) \<Longrightarrow> \<exists>key grp client. (key, grp) \<in> set m \<and> e = ctrl key grp client"
  by (force simp: controllers_def split: sum.splits)

lemma plan_seq_append_nil [simp]: "plan_seq p [] obs = ([], obs)"
  by simp

lemma explicit_delete_none:
  "rExplicitDeletes e = [] \<Longrightarrow> explicit_delete_plan K e obs = ([], obs)"
  by (simp add: explicit_delete_plan_def delete_requests_def entry_def)

lemma plan_seq_nothing: "(\<And>x obs. x \<in> set xs \<Longrightarrow> p x obs = ([], obs)) \<Longrightarrow> plan_seq p xs obs = ([], obs)"
  by (induction xs) auto

lemma plan_seq_delete:
  "plan_seq (delete_plan K) es obs = (concat (map (\<lambda>e. fst (delete_plan K e obs)) es), obs)"
  by (induction es) (simp_all add: delete_plan_def)

lemma apply_plan_own:
  assumes "kube_lib K" and "sound_objects (Observed m)" and "sound_objects (Desired m)"
    and "UpdateAny (cBase m) \<noteq> Some True" and "DeleteAny (cBase m) \<noteq> Some True"
    and "ExplicitUpdates m = []" and "ExplicitDeletes m = []"
  shows "list_all (own_request K (GetUID K (Watch (cBase m))) (Observed m)) (fst (apply_plan K m (Observed m)))"
proof -
  let ?cs = "DynamicClientSet m" let ?uid = "GetUID K (Watch (cBase m))"
  let ?own = "own_request K ?uid (Observed m)"
  have del: "list_all ?own (fst (plan_seq (delete_plan K) (controllers ?cs (delete_ctrl m) (Observed m)) (Observed m)))"
    unfolding plan_seq_delete
  proof (simp add: list_all_iff, intro ballI)
    fix e q
    assume "e \<in> set (controllers ?cs (delete_ctrl m) (Observed m))" and q: "q \<in> set (fst (delete_plan K e (Observed m)))"
    then have "rBase e = cBase m" by (auto simp: delete_ctrl_def dest!: controllers_in)
    with q assms(5) delete_plan_own [of e K "Observed m"] show "?own q"
      by (simp add: watch_uid_def list_all_iff)
  qed
  have up: "tracked K (Observed m) (snd (plan_seq (create_update_plan K)
        (controllers ?cs (create_update_ctrl m) (Desired m)) (Observed m))) \<and>
      list_all ?own (fst (plan_seq (create_update_plan K)
        (controllers ?cs (create_update_ctrl m) (Desired m)) (Observed m)))"
  proof (rule plan_seq_inv [where I = "tracked K (Observed m)", OF _ tracked_self [OF assms(2)]])
    fix e obs
    assume "e \<in> set (controllers ?cs (create_update_ctrl m) (Desired m))" and t: "tracked K (Observed m) obs"
    then obtain key grp client where k: "(key, grp) \<in> set (Desired m)" "e = create_update_ctrl m key grp client"
      by (blast dest: controllers_in)
    then have e: "rBase e = cBase m" "rDesired e = grp" by (simp_all add: create_update_ctrl_def)
    have "meta_ok (the d)" if "(n, d) \<in> set grp" for n d
      using that k assms(3) by (force simp: registry_List_def list_all_iff)
    with create_update_plan_own [OF assms(1) _ _ t, of e] e assms(4)
    show "tracked K (Observed m) (snd (create_update_plan K e obs)) \<and>
        list_all ?own (fst (create_update_plan K e obs))"
      by (simp add: watch_uid_def)
  qed
  have "plan_seq (explicit_delete_plan K) (controllers ?cs (explicit_delete_ctrl m) (Observed m)) obs = ([], obs)"
    for obs
    by (rule plan_seq_nothing)
      (auto simp: explicit_delete_ctrl_def group_of_def assms(7) dest!: controllers_in intro!: explicit_delete_none)
  moreover have "controllers ?cs (explicit_update_ctrl m) (observed_updates m) = []"
    by (simp add: controllers_def observed_updates_def assms(6))
  ultimately show ?thesis
    using del up by (simp add: apply_plan_def Let_def plan_seq_delete)
qed

lemma Apply_requests:
  assumes "fresh m" and "ClusterStates_Apply E m w = (Inr r, m', w')"
  shows "\<exists>ts. calls w' = calls w @ ts \<and>
    map fst ts = (if ready m then fst (apply_plan (kubeOf E) m (Observed m)) else []) \<and>
    (r = None \<longrightarrow> ready m \<and> list_all (\<lambda>(q, resp). settled q resp) ts)"
proof (cases "ready m")
  case True
  from ClusterStates_Apply_run [OF assms(1) True assms(2)] obtain m0 errs obs where
    run: "run_phases [DeleteFn m0, CreateOrUpdateFn m0, ExplicitUpdateFn m0, ExplicitDeleteFn m0] []
       (Observed m, w) = (Inr errs, (obs, w'))" and r: "r = NewAggregateOf errs"
    and ex: "with_executors E m m0" by metis
  from run_phases_follow [OF executors_follow [OF ex] run] r True
  show ?thesis by (simp add: did_with_def apply_plan_def Let_def)
next
  case False
  from assms(2) obtain m0 where m0: "initIfNil E m = Inr m0"
    by (auto simp: ClusterStates_Apply_def split: sum.splits)
  with initIfNil_fresh [OF assms(1) m0] False have "NewAggregateOf (cErrs m0) \<noteq> None" by simp
  moreover from this have "cErrs m0 \<noteq> []" by auto
  ultimately show ?thesis using assms(2) m0 False by (auto simp: ClusterStates_Apply_def)
qed

section \<open>Owners of created attachments\<close>

fun owned_as_set :: "kube \<Rightarrow> states_base \<Rightarrow> registry \<Rightarrow> request \<Rightarrow> bool" where
  "owned_as_set K b desired (ReqCreate av r ns y) =
     (\<exists>d. Some d \<in> set (registry_List desired) \<and> GetOwnerReferences K y =
        GetOwnerReferences K d @ (if IsWatchOwner b = Some True then [MakeOwnerRef K (Watch b)] else []))"
| "owned_as_set K b desired q = True"

lemma created_object_owners:
  assumes "kube_lib K" and "meta_ok d" and "created_object K e d = Inr y"
  shows "GetOwnerReferences K y = GetOwnerReferences K d @
    (if IsWatchOwner (rBase e) = Some True then [MakeOwnerRef K (Watch (rBase e))] else [])"
proof -
  from assms(3) obtain d1 where d1: "SetLastAppliedByAnnKey K d d
      (watch_uid K e @ GCTLLastAppliedAnnotationKeySuffix) = Inr d1"
    by (auto simp: created_object_def split: sum.splits)
  then have "GetOwnerReferences K d1 = GetOwnerReferences K d" "meta_ok d1"
    using assms(2) kube_lib.meta_ok_setters [OF assms(1)] kube_lib.owners_set_annotations [OF assms(1)]
    by (auto simp: SetLastAppliedByAnnKey_def Let_def split: if_splits sum.splits)
  with assms(1,3) d1 show ?thesis
    by (auto simp: created_object_def Let_def kube_lib.get_set_owners kube_lib.owners_set_annotations
        kube_lib.meta_ok_setters)
qed

lemma no_creates:
  "list_all (owned_as_set K b desired) (update_requests K' e x d)"
  "list_all (owned_as_set K b desired) (delete_requests K' e del obs)"
proof -
  show "list_all (owned_as_set K b desired) (update_requests K' e x d)"
    by (auto simp: update_requests_def merged_requests_def rc_requests Let_def split: sum.split prod.split)
  show "list_all (owned_as_set K b desired) (delete_requests K' e del obs)"
    by (auto simp: delete_requests_def delete_request_def rc_requests list_all_iff)
qed

lemma create_update_plan_owners:
  assumes "kube_lib K" and "\<And>n d. (n, d) \<in> set (rDesired e) \<Longrightarrow> \<exists>x. d = Some x \<and> meta_ok x \<and> d \<in> set (registry_List desired)"
  shows "list_all (owned_as_set K (rBase e) desired) (fst (create_update_plan K e obs))"
  unfolding create_update_plan_def
proof (rule conjunct2 [OF plan_seq_inv [where I = "\<lambda>obs. True"]])
  fix p obs
  assume p: "p \<in> set (rDesired e)"
  show "True \<and> list_all (owned_as_set K (rBase e) desired) (fst (create_update_step K e p obs))"
  proof (cases "entry (group_of obs (rKey e)) (fst p)")
    case None
    from p assms(2) [of "fst p" "snd p"] obtain x where "snd p = Some x" "meta_ok x"
      "Some x \<in> set (registry_List desired)" by auto
    with None created_object_owners [OF assms(1), of x e] show ?thesis
      by (auto simp: create_update_step_def create_requests_def rc_requests split: sum.splits)
  next
    case (Some x)
    then show ?thesis by (simp add: create_update_step_def update_plan_def no_creates)
  qed
qed simp

lemma explicit_update_plan_owners:
  "list_all (owned_as_set K b desired) (fst (explicit_update_plan K e obs))"
proof -
  have "list_all (owned_as_set K b desired) (fst (plan_seq (explicit_update_step K e) us obs))" for us
    by (rule conjunct2 [OF plan_seq_inv [where I = "\<lambda>obs. True"]])
      (auto simp: explicit_update_step_def update_plan_def no_creates split: option.splits)
  then show ?thesis by (simp add: explicit_update_plan_def)
qed

lemma apply_plan_owners:
  assumes "kube_lib K" and "sound_objects (Desired m)"
  shows "list_all (owned_as_set K (cBase m) (Desired m)) (fst (apply_plan K m obs))"
proof -
  let ?Q = "list_all (owned_as_set K (cBase m) (Desired m))"
  note seq = conjunct2 [OF plan_seq_inv [where I = "\<lambda>obs. True" and Q = "owned_as_set K (cBase m) (Desired m)"]]
  have "?Q (fst (plan_seq (delete_plan K) es obs))" for es obs
    by (rule seq) (simp_all add: delete_plan_def no_creates)
  moreover have "?Q (fst (plan_seq (explicit_delete_plan K) es obs))" for es obs
    by (rule seq) (simp_all add: explicit_delete_plan_def no_creates)
  moreover have "?Q (fst (plan_seq (explicit_update_plan K) es obs))" for es obs
    by (rule seq) (simp_all add: explicit_update_plan_owners)
  moreover have "?Q (fst (plan_seq (create_update_plan K)
      (controllers (DynamicClientSet m) (create_update_ctrl m) (Desired m)) obs))" for obs
  proof (rule seq)
    fix e obs
    assume "e \<in> set (controllers (DynamicClientSet m) (create_update_ctrl m) (Desired m))"
    then obtain key grp client where k: "(key, grp) \<in> set (Desired m)" "e = create_update_ctrl m key grp client"
      by (blast dest: controllers_in)
    then have e: "rBase e = cBase m" "rDesired e = grp" by (simp_all add: create_update_ctrl_def)
    have "\<exists>x. d = Some x \<and> meta_ok x \<and> d \<in> set (registry_List (Desired m))" if "(n, d) \<in> set grp" for n d
      using that k assms(2) by (force simp: registry_List_def list_all_iff)
    with create_update_plan_owners [OF assms(1), of e "Desired m" obs] e
    show "True \<and> list_all (owned_as_set K (cBase m) (Desired m)) (fst (create_update_plan K e obs))"
      by simp
  qed simp
  ultimately show ?thesis by (simp add: apply_plan_def Let_def)
qed

section \<open>Panics\<close>

definition no_nil :: "registry \<Rightarrow> bool" where
  "no_nil m = (None \<notin> set (registry_List m))"

definition total :: "'s executor \<Rightarrow> bool" where
  "total f = (\<forall>obs w. no_nil obs \<longrightarrow> (\<exists>r obs' w'. f (obs, w) = (Inr r, (obs', w')) \<and> no_nil obs'))"

lemma registry_List_put: "x \<in> set (registry_List (reg_put key n v m)) \<Longrightarrow> x = v \<or> x \<in> set (registry_List m)"
proof -
  assume "x \<in> set (registry_List (reg_put key n v m))"
  then obtain k g i where g: "(k, g) \<in> set (reg_put key n v m)" "(i, x) \<in> set g"
    by (auto simp: registry_List_def)
  from mput_value_in [OF g(1) [unfolded reg_put_def]] show ?thesis
  proof
    assume "(k, g) = (key, mput n v (group_of m key))"
    with g(2) mput_value_in [of "(i, x)" n v "group_of m key"] show ?thesis by (auto dest: group_in_list)
  next
    assume "(k, g) \<in> set m"
    with g(2) show ?thesis by (force simp: registry_List_def)
  qed
qed

lemma no_nil_put: "no_nil obs \<Longrightarrow> no_nil (put_observed e n x obs)"
  by (auto simp: no_nil_def put_observed_def dest: registry_List_put)

lemma no_nil_group: "no_nil m \<Longrightarrow> (n, x) \<in> set (group_of m key) \<Longrightarrow> x \<noteq> None"
  by (metis no_nil_def group_in_list)

lemma create_or_update_total:
  "None \<notin> snd ` set desired \<Longrightarrow> no_nil obs \<Longrightarrow>
   \<exists>errs' obs' w'. create_or_update E e desired errs (obs, w) = (Inr errs', (obs', w')) \<and> no_nil obs'"
proof (induction desired arbitrary: errs obs w)
  case (Cons p desired)
  then obtain n d where p: "p = (n, Some d)" by (cases p; cases "snd p") auto
  show ?case
  proof (cases "entry (group_of obs (rKey e)) n")
    case None
    obtain r w1 where "rs_create E e d w = (r, w1)" by fastforce
    with Cons None p show ?thesis by (cases r) simp_all
  next
    case (Some x)
    obtain r x' w1 where "rs_update E e x d w = (r, x', w1)" by (metis prod_cases3)
    with Cons Some p no_nil_put [of obs e n x'] show ?thesis by simp
  qed
qed simp

lemma explicit_updates_total:
  "None \<notin> snd ` set updates \<Longrightarrow> no_nil obs \<Longrightarrow>
   \<exists>errs' obs' w'. explicit_updates E e updates errs (obs, w) = (Inr errs', (obs', w')) \<and> no_nil obs'"
proof (induction updates arbitrary: errs obs w)
  case (Cons p updates)
  then obtain n d where p: "p = (n, Some d)" by (cases p; cases "snd p") auto
  show ?case
  proof (cases "entry (group_of obs (rKey e)) n")
    case None
    with Cons p show ?thesis by simp
  next
    case (Some x)
    obtain r x' w1 where "rs_update E e x d w = (r, x', w1)" by (metis prod_cases3)
    with Cons Some p no_nil_put [of obs e n x'] show ?thesis by simp
  qed
qed simp

lemma delete_loop_total: "None \<notin> snd ` set observed \<Longrightarrow> \<exists>errs' w'. delete_loop E e observed errs w = (Inr errs', w')"
proof (induction observed arbitrary: errs w)
  case (Cons p observed)
  then obtain n x where p: "p = (n, Some x)" by (cases p; cases "snd p") auto
  obtain es w1 where "delete_observed E e ''Failed to delete'' x w = (es, w1)" by fastforce
  with Cons p show ?case by (simp add: Let_def)
qed simp

lemma explicit_delete_loop_total:
  "None \<notin> snd ` set observed \<Longrightarrow> \<exists>errs' w'. explicit_delete_loop E e observed errs w = (Inr errs', w')"
proof (induction observed arbitrary: errs w)
  case (Cons p observed)
  then obtain n x where p: "p = (n, Some x)" by (cases p; cases "snd p") auto
  obtain es w1 where "delete_observed E e ''Failed to delete explicitly'' x w = (es, w1)" by fastforce
  with Cons p show ?case by simp
qed simp

lemma group_no_nil: "no_nil m \<Longrightarrow> None \<notin> snd ` set (group_of m key)"
  using no_nil_group by fastforce

lemma rs_total:
  "None \<notin> snd ` set (rDesired e) \<Longrightarrow> total (rs_CreateOrUpdate E e)"
  "None \<notin> snd ` set (rExplicitUpdates e) \<Longrightarrow> total (rs_ExplicitUpdate E e)"
  "total (rs_Delete E e)" "total (rs_ExplicitDelete E e)"
proof -
  show "total (rs_CreateOrUpdate E e)" if "None \<notin> snd ` set (rDesired e)"
    using create_or_update_total [OF that] by (fastforce simp: total_def rs_CreateOrUpdate_def aggregated_Inr)
  show "total (rs_ExplicitUpdate E e)" if "None \<notin> snd ` set (rExplicitUpdates e)"
    unfolding total_def
  proof (intro allI impI)
    fix obs and w
    assume "no_nil obs"
    with explicit_updates_total [OF that, of obs E e "[]" w]
    show "\<exists>r obs' w'. rs_ExplicitUpdate E e (obs, w) = (Inr r, (obs', w')) \<and> no_nil obs'"
      by (auto simp: rs_ExplicitUpdate_def aggregated_Inr)
  qed
  show "total (rs_Delete E e)"
    unfolding total_def
  proof (intro allI impI)
    fix obs and w
    assume n: "no_nil obs"
    with delete_loop_total [OF group_no_nil [OF n], of E e "rKey e" "[]" w]
    show "\<exists>r obs' w'. rs_Delete E e (obs, w) = (Inr r, (obs', w')) \<and> no_nil obs'"
      by (auto simp: rs_Delete_def aggregated_Inr)
  qed
  show "total (rs_ExplicitDelete E e)"
    unfolding total_def
  proof (intro allI impI)
    fix obs and w
    assume n: "no_nil obs"
    with explicit_delete_loop_total [OF group_no_nil [OF n], of E e "rKey e" "[]" w]
    show "\<exists>r obs' w'. rs_ExplicitDelete E e (obs, w) = (Inr r, (obs', w')) \<and> no_nil obs'"
      by (auto simp: rs_ExplicitDelete_def aggregated_Inr)
  qed
qed

lemma run_list_total: "\<forall>e \<in> set es. total (op e) \<Longrightarrow> total (run_list op es errs)"
proof (induction es arbitrary: errs)
  case (Cons e es)
  show ?case
    unfolding total_def
  proof (intro allI impI)
    fix obs and w :: "'a world"
    assume "no_nil obs"
    with Cons.prems obtain r obs1 w1 where "op e (obs, w) = (Inr r, (obs1, w1))" "no_nil obs1"
      unfolding total_def by fastforce
    moreover from Cons have "total (run_list op es (errs @ [r]))" by simp
    ultimately show "\<exists>r' obs' w'. run_list op (e # es) errs (obs, w) = (Inr r', (obs', w')) \<and> no_nil obs'"
      unfolding total_def by simp
  qed
qed (simp add: total_def)

lemma run_phases_total:
  "list_all (\<lambda>f. \<exists>g. f = Some g \<and> total g) fs \<Longrightarrow> no_nil obs \<Longrightarrow>
   \<exists>errs' obs' w'. run_phases fs errs (obs, w) = (Inr errs', (obs', w'))"
proof (induction fs arbitrary: errs obs w)
  case (Cons f fs)
  then obtain g r obs1 w1 where "f = Some g" "g (obs, w) = (Inr r, (obs1, w1))" "no_nil obs1"
    by (fastforce simp: total_def)
  with Cons show ?case by simp
qed simp

abbreviation calm :: "clientset \<Rightarrow> registry \<Rightarrow> bool" where
  "calm cs m \<equiv> list_all (\<lambda>(key, grp). isOK (ParseKeyToAPIVersionKind key) \<and>
     (case client_of cs key of Inl err \<Rightarrow> \<not> is_panic err | Inr c \<Rightarrow> True)) m"

lemma init_controllers_total: "calm cs m \<Longrightarrow> \<exists>r. init_controllers cs wrap ctrl m errs ctrls = Inr r"
  by (induction m arbitrary: errs ctrls) (auto simp: client_of_def split: sum.splits)

lemma ctrl_sets:
  "set (rDesired (create_update_ctrl m key grp c)) = set grp"
  "set (rExplicitUpdates (explicit_update_ctrl m key grp c)) = set grp"
  by (simp_all add: create_update_ctrl_def explicit_update_ctrl_def)

lemma no_nil_member: "no_nil m \<Longrightarrow> (key, grp) \<in> set m \<Longrightarrow> None \<notin> snd ` set grp"
  by (force simp: no_nil_def registry_List_def)

lemma executors_total:
  assumes "with_executors E m m0" and "no_nil (Desired m)" and "no_nil (ExplicitUpdates m)"
  shows "list_all (\<lambda>f. \<exists>g. f = Some g \<and> total g)
    [DeleteFn m0, CreateOrUpdateFn m0, ExplicitUpdateFn m0, ExplicitDeleteFn m0]"
proof -
  let ?cs = "DynamicClientSet m"
  have "total (run_list (rs_CreateOrUpdate E) (controllers ?cs (create_update_ctrl m) (Desired m)) [])"
  proof (rule run_list_total, rule ballI)
    fix e
    assume "e \<in> set (controllers ?cs (create_update_ctrl m) (Desired m))"
    then obtain key grp c where "(key, grp) \<in> set (Desired m)" "e = create_update_ctrl m key grp c"
      by (auto dest!: controllers_in)
    with no_nil_member [OF assms(2)] show "total (rs_CreateOrUpdate E e)"
      by (intro rs_total) (simp add: ctrl_sets)
  qed
  moreover have "total (run_list (rs_ExplicitUpdate E) (controllers ?cs (explicit_update_ctrl m) (observed_updates m)) [])"
  proof (rule run_list_total, rule ballI)
    fix e
    assume "e \<in> set (controllers ?cs (explicit_update_ctrl m) (observed_updates m))"
    then obtain key grp c where "(key, grp) \<in> set (ExplicitUpdates m)" "e = explicit_update_ctrl m key grp c"
      by (auto simp: observed_updates_def dest!: controllers_in)
    with no_nil_member [OF assms(3)] show "total (rs_ExplicitUpdate E e)"
      by (intro rs_total) (simp add: ctrl_sets)
  qed
  moreover have "total (run_list (rs_Delete E) es [])" "total (run_list (rs_ExplicitDelete E) es [])" for es
    by (simp_all add: run_list_total rs_total)
  ultimately show ?thesis
    using assms(1) by (simp add: with_executors_def Let_def ClusterStatesDeleter_Delete_def [abs_def]
        ClusterStatesCreateUpdater_CreateOrUpdate_def [abs_def] ClusterStatesExplicitUpdater_Update_def [abs_def]
        ClusterStatesExplicitDeleter_Delete_def [abs_def])
qed

lemma calm_case:
  assumes "calm cs m"
  shows "\<exists>m'. (case init_controllers cs wrap ctrl m [] [] of
     Inl p \<Rightarrow> Inl p | Inr (errs, ctrls) \<Rightarrow> Inr (f errs ctrls)) = Inr m'"
proof -
  from init_controllers_total [OF assms] obtain errs ctrls where
    "init_controllers cs wrap ctrl m [] [] = Inr (errs, ctrls)" by fastforce
  then show ?thesis by simp
qed

lemma inits_total:
  "calm (DynamicClientSet m) (Observed m) \<Longrightarrow> \<exists>m'. initDeleter E m = Inr m'"
  "calm (DynamicClientSet m) (Desired m) \<Longrightarrow> \<exists>m'. initCreateUpdater E m = Inr m'"
  "calm (DynamicClientSet m) (Observed m) \<Longrightarrow> \<exists>m'. initExplicitDeleter E m = Inr m'"
  "calm (DynamicClientSet m) (filter (\<lambda>(k, u). group_of (Observed m) k \<noteq> []) (ExplicitUpdates m)) \<Longrightarrow>
     \<exists>m'. initExplicitUpdater E m = Inr m'"
  unfolding initDeleter_def initCreateUpdater_def initExplicitDeleter_def initExplicitUpdater_def
  by (erule calm_case)+

lemma initIfNil_total:
  assumes "fresh m" and "calm (DynamicClientSet m) (Observed m @ Desired m @ ExplicitUpdates m)"
  shows "\<exists>m'. initIfNil E m = Inr m'"
proof -
  from assms have none: "DeleteFn m = None" "CreateOrUpdateFn m = None" "ExplicitDeleteFn m = None"
    "ExplicitUpdateFn m = None" by (auto simp: fresh_def Option.is_none_def)
  have sub: "calm cs (filter P m)" if "calm cs m" for cs P and m :: registry
    using that by (auto simp: list_all_iff)
  have calms: "calm (DynamicClientSet m) (Observed m)" "calm (DynamicClientSet m) (Desired m)"
    "calm (DynamicClientSet m) (filter P (ExplicitUpdates m))" for P
    using assms(2) sub by auto
  obtain m1 where m1: "initDeleter E m = Inr m1"
    using inits_total(1) calms by blast
  have f1: "DynamicClientSet m1 = DynamicClientSet m" "Observed m1 = Observed m" "Desired m1 = Desired m"
    "ExplicitUpdates m1 = ExplicitUpdates m" "CreateOrUpdateFn m1 = None" "ExplicitDeleteFn m1 = None"
    "ExplicitUpdateFn m1 = None"
    using initDeleter_inited [OF m1] none by (auto simp: inited_def split: if_splits)
  obtain m2 where m2: "initCreateUpdater E m1 = Inr m2"
    using inits_total(2) [of m1 E] f1 calms by auto
  have f2: "DynamicClientSet m2 = DynamicClientSet m" "Observed m2 = Observed m"
    "ExplicitUpdates m2 = ExplicitUpdates m" "ExplicitDeleteFn m2 = None" "ExplicitUpdateFn m2 = None"
    using initCreateUpdater_inited [OF m2] f1 by (auto simp: inited_def split: if_splits)
  obtain m3 where m3: "initExplicitDeleter E m2 = Inr m3"
    using inits_total(3) [of m2 E] f2 calms by auto
  have f3: "DynamicClientSet m3 = DynamicClientSet m" "Observed m3 = Observed m"
    "ExplicitUpdates m3 = ExplicitUpdates m" "ExplicitUpdateFn m3 = None"
    using initExplicitDeleter_inited [OF m3] f2 by (auto simp: inited_def split: if_splits)
  obtain m4 where "initExplicitUpdater E m3 = Inr m4"
    using inits_total(4) [of m3 E] f3 calms by auto
  with none m1 f1 m2 f2 m3 f3 show ?thesis by (simp add: initIfNil_def)
qed

lemma Apply_total:
  assumes "fresh m" and "no_nil (Observed m)" and "no_nil (Desired m)" and "no_nil (ExplicitUpdates m)"
    and "calm (DynamicClientSet m) (Observed m @ Desired m @ ExplicitUpdates m)"
  shows "\<exists>r m' w'. ClusterStates_Apply E m w = (Inr r, m', w')"
proof -
  from initIfNil_total [OF assms(1,5)] obtain m0 where m0: "initIfNil E m = Inr m0" by blast
  note init = initIfNil_fresh [OF assms(1) m0]
  show ?thesis
  proof (cases "ready m")
    case True
    with init have ex: "with_executors E m m0" "cErrs m0 = []" "Observed m0 = Observed m" by auto
    from run_phases_total [OF executors_total [OF ex(1) assms(3,4)] assms(2), of "[]" w] m0 ex
    show ?thesis by (auto simp: ClusterStates_Apply_def)
  next
    case False
    with init have "cErrs m0 \<noteq> []" by auto
    with m0 show ?thesis by (auto simp: ClusterStates_Apply_def)
  qed
qed

section \<open>Properties\<close>

text \<open>
  C8: Applying the cluster states is a plan over the observed and desired registries that the
  server's answers do not change: the deletes of all kinds, then the creates and updates,
  then the explicit updates, then the explicit deletes. If the client of one group cannot
  be found, nothing is sent at all and an error is returned. When no error is returned,
  every client was found and every request was accepted, except deletes of objects that
  were gone.
\<close>
theorem Apply_follows_plan:
  assumes "fresh m" and "ClusterStates_Apply E m w = (Inr r, m', w')"
  shows "\<exists>ts. calls w' = calls w @ ts \<and>
    map fst ts = (if ready m then fst (apply_plan (kubeOf E) m (Observed m)) else []) \<and>
    (r = None \<longrightarrow> ready m \<and> list_all (\<lambda>(q, resp). settled q resp) ts)"
  using Apply_requests [OF assms] .

text \<open>
  A controller applies once. When all clients are found, applying it again, whatever the
  cluster is by then, makes no call and returns the result of the first time.
\<close>
theorem Apply_once:
  assumes "fresh m" and "ready m" and "ClusterStates_Apply E m w = (Inr r, m', w')"
  shows "ClusterStates_Apply E m' v = (Inr r, m', v)"
proof -
  from ClusterStates_Apply_run [OF assms] obtain m0 errs obs where
    init: "initIfNil E m = Inr m0" and
    run: "run_phases [DeleteFn m0, CreateOrUpdateFn m0, ExplicitUpdateFn m0, ExplicitDeleteFn m0] []
       (Observed m, w) = (Inr errs, (obs, w'))" and m': "m' = m0\<lparr>Observed := obs, cErrs := errs\<rparr>"
    and r: "r = NewAggregateOf errs" and ex: "with_executors E m m0" by metis
  from run_phases_follow [OF executors_follow [OF ex] run] have "errs \<noteq> []" by auto
  moreover have "IsWatchOwner (cBase m0) \<noteq> None"
    using init by (auto simp: initIfNil_def split: sum.splits option.splits)
  with ex have "initIfNil E m' = Inr m'"
    by (auto simp: m' initIfNil_def with_executors_def Let_def)
  ultimately show ?thesis by (simp add: ClusterStates_Apply_def m' r)
qed

lemma Apply_own_requests:
  assumes "kube_lib (kubeOf E)" and "fresh m" and "ClusterStates_Apply E m w = (Inr r, m', w')"
    and "sound_objects (Observed m)" and "sound_objects (Desired m)"
    and "UpdateAny (cBase m) \<noteq> Some True" and "DeleteAny (cBase m) \<noteq> Some True"
    and "ExplicitUpdates m = []" and "ExplicitDeletes m = []"
  shows "\<exists>ts. calls w' = calls w @ ts \<and>
    list_all (\<lambda>(q, resp). own_request (kubeOf E) (GetUID (kubeOf E) (Watch (cBase m))) (Observed m) q) ts"
proof -
  from Apply_requests [OF assms(2,3)] obtain ts where ts: "calls w' = calls w @ ts"
    "map fst ts = (if ready m then fst (apply_plan (kubeOf E) m (Observed m)) else [])" by blast
  with apply_plan_own [OF assms(1,4-9)]
  have "list_all (own_request (kubeOf E) (GetUID (kubeOf E) (Watch (cBase m))) (Observed m)) (map fst ts)"
    by simp
  with ts(1) show ?thesis by (auto simp: list_all_iff)
qed

text \<open>
  C9: Without permission to update or delete any attachment and without explicit updates and
  deletes, an apply touches only what its watch made: each object it deletes, or updates,
  was observed with the watch's UID in its creation annotation, and is deleted under its own
  UID or keeps it; each object it creates carries that annotation, so a later apply may
  update and delete it. This holds in patch mode too, where observed objects change.
\<close>
theorem Apply_touches_own:
  assumes "kube_lib (kubeOf E)" and "fresh m" and "ClusterStates_Apply E m w = (Inr r, m', w')"
    and "sound_objects (Observed m)" and "sound_objects (Desired m)"
    and "UpdateAny (cBase m) \<noteq> Some True" and "DeleteAny (cBase m) \<noteq> Some True"
    and "ExplicitUpdates m = []" and "ExplicitDeletes m = []"
  shows "\<exists>ts. calls w' = calls w @ ts \<and>
    list_all (\<lambda>(q, resp). own_request (kubeOf E) (GetUID (kubeOf E) (Watch (cBase m))) (Observed m) q) ts"
  by (rule Apply_own_requests [OF assms])

text \<open>
  C10: An update of an observed object makes at most one call; if it returns no error, it says
  whether it made one, and that call succeeded. It makes one only if the object is not being
  deleted or updates during deletion are allowed, if the object was made by the watch or any
  may be updated, and if the strategy is not OnDelete; a recreating strategy deletes the
  object under its UID, an in-place one sends an object whose system fields and status are
  the observed ones.
\<close>
theorem update_is_guarded:
  assumes "kube_lib (kubeOf E)" and "meta_ok x" and "rs_update E e x d w = (r, x', w')"
  shows "\<exists>ts. calls w' = calls w @ ts \<and> length ts \<le> 1 \<and>
    (case r of Inl err \<Rightarrow> True
     | Inr updated \<Rightarrow> updated = (ts \<noteq> []) \<and> list_all (\<lambda>(q, resp). isOK resp) ts) \<and>
    list_all (\<lambda>(q, resp). guarded_request (kubeOf E) e x d q) ts"
proof -
  from rs_update_did [OF assms(3)] obtain ts where ts: "calls w' = calls w @ ts"
    "map fst ts = update_requests (kubeOf E) e x d"
    "errs_of r = [] \<longrightarrow> list_all (\<lambda>(q, resp). isOK resp) ts"
    "errs_of r = [] \<longrightarrow> r = Inr (update_requests (kubeOf E) e x d \<noteq> [])"
    unfolding did_with_def by blast
  from update_requests_guarded [OF assms(1,2), of e d]
  have "length (map fst ts) \<le> 1" "list_all (guarded_request (kubeOf E) e x d) (map fst ts)"
    unfolding ts(2) by blast+
  then have g: "length ts \<le> 1" "list_all (\<lambda>(q, resp). guarded_request (kubeOf E) e x d q) ts"
    by (simp_all add: list.pred_map comp_def case_prod_beta')
  have "update_requests (kubeOf E) e x d \<noteq> [] \<longleftrightarrow> ts \<noteq> []"
    unfolding ts(2) [symmetric] by simp
  with ts(3,4) have "case r of Inl err \<Rightarrow> True
      | Inr updated \<Rightarrow> updated = (ts \<noteq> []) \<and> list_all (\<lambda>(q, resp). isOK resp) ts"
    by (cases r) simp_all
  with g ts(1) show ?thesis by blast
qed

text \<open>
  C11: An attachment an apply creates has the owner references it was desired with, and one
  more for the watch only if the field \<open>IsWatchOwner\<close> was set to true before the apply. The
  default that \<open>initIfNil\<close> sets comes after the executors have copied the field, so with the
  field unset, as the generic controller leaves it, the watch owns nothing it creates.
\<close>
theorem Apply_owners:
  assumes "kube_lib (kubeOf E)" and "fresh m" and "ClusterStates_Apply E m w = (Inr r, m', w')"
    and "sound_objects (Desired m)"
  shows "\<exists>ts. calls w' = calls w @ ts \<and>
    list_all (\<lambda>(q, resp). owned_as_set (kubeOf E) (cBase m) (Desired m) q) ts"
proof -
  from Apply_requests [OF assms(2,3)] obtain ts where ts: "calls w' = calls w @ ts"
    "map fst ts = (if ready m then fst (apply_plan (kubeOf E) m (Observed m)) else [])" by blast
  with apply_plan_owners [OF assms(1,4)]
  have "list_all (owned_as_set (kubeOf E) (cBase m) (Desired m)) (map fst ts)" by simp
  with ts(1) show ?thesis by (auto simp: list_all_iff)
qed

text \<open>
  C12: An apply always returns, with or without an error, and never panics, when the registries
  hold no nil objects and every key has a dot and a client or an ordinary error; the explicit
  deletes may be anything.
\<close>
theorem Apply_never_panics:
  assumes "fresh m" and "no_nil (Observed m)" and "no_nil (Desired m)" and "no_nil (ExplicitUpdates m)"
    and "calm (DynamicClientSet m) (Observed m @ Desired m @ ExplicitUpdates m)"
  shows "\<exists>r m' w'. ClusterStates_Apply E m w = (Inr r, m', w')"
  using Apply_total [OF assms] .

section \<open>A run\<close>

text \<open>The watch made the pod \<open>b\<close>, which is no longer desired, and wants a pod \<open>c\<close>.\<close>

definition pod_base :: states_base where
  "pod_base = \<lparr>GetChildUpdateStrategyByGK = \<lambda>_ _. ''InPlace'', IsPatchByGK = \<lambda>_ _. False, Watch = pod_a,
     IsWatchOwner = None, UpdateAny = None, DeleteAny = None, UpdateDuringPendingDelete = None\<rparr>"

definition pod_b :: obj where
  "pod_b = [(''metadata'', JObj [(''name'', JStr ''b''), (''uid'', JStr ''u2''),
     (''annotations'', JObj [(AttachmentCreateAnnotationKey, JStr ''u1'')])])]"

definition pod_c :: obj where
  "pod_c = [(''metadata'', JObj [(''name'', JStr ''c'')])]"

definition pod_states :: "server cluster_states" where
  "pod_states = \<lparr>cBase = pod_base, DynamicClientSet = pod_cluster,
     Observed = [(''Pod.v1'', [(''b'', Some pod_b)])], Desired = [(''Pod.v1'', [(''c'', Some pod_c)])],
     ExplicitDeletes = [], ExplicitUpdates = [], DeleteFn = None, CreateOrUpdateFn = None,
     ExplicitDeleteFn = None, ExplicitUpdateFn = None, cErrs = []\<rparr>"

lemma pod_client_of: "client_of pod_cluster ''Pod.v1'' = Inr pod_client"
  by (simp add: client_of_def ParseKeyToAPIVersionKind_def numeral_2_eq_2 pod_client_for)

lemma pod_states_sel [simp]:
  "fresh pod_states" "ready pod_states" "no_nil (Observed pod_states)" "no_nil (Desired pod_states)"
  "no_nil (ExplicitUpdates pod_states)" "cBase pod_states = pod_base" "ExplicitUpdates pod_states = []"
  "ExplicitDeletes pod_states = []" "UpdateAny pod_base = None" "DeleteAny pod_base = None"
  "IsWatchOwner pod_base = None" "Watch pod_base = pod_a"
  by (simp_all add: pod_states_def pod_base_def fresh_def ready_def no_nil_def registry_List_def pod_client_of
      observed_updates_def)

lemma pod_states_objects:
  "sound_objects (Observed pod_states)" "sound_objects (Desired pod_states)"
  "calm (DynamicClientSet pod_states) (Observed pod_states @ Desired pod_states @ ExplicitUpdates pod_states)"
  by (simp_all add: pod_states_def registry_List_def meta_ok_def pod_b_def pod_c_def pod_client_of
      ParseKeyToAPIVersionKind_def numeral_2_eq_2)

lemma pod_apply_runs: "\<exists>r m' w'. ClusterStates_Apply std_env pod_states pod_world = (Inr r, m', w')"
  using Apply_total [OF pod_states_sel(1,3,4,5) pod_states_objects(3)] by blast

lemma pod_no_calls: "calls pod_world = []"
  by (simp add: pod_world_def)

theorem Apply_never_panics_witness:
  "\<exists>r m' w'. ClusterStates_Apply std_env pod_states pod_world = (Inr r, m', w')"
  using Apply_never_panics [of pod_states std_env pod_world] pod_states_sel(1,3,4,5) pod_states_objects(3) by blast

theorem Apply_follows_plan_witness:
  "\<exists>w'. snd (snd (ClusterStates_Apply std_env pod_states pod_world)) = w' \<and>
    map fst (calls w') = fst (apply_plan std_kube pod_states (Observed pod_states))"
proof -
  from pod_apply_runs obtain r m' w' where run: "ClusterStates_Apply std_env pod_states pod_world = (Inr r, m', w')"
    by blast
  from Apply_follows_plan [OF _ run] run show ?thesis by (auto simp: pod_no_calls)
qed

theorem Apply_once_witness:
  "\<exists>r m' w'. ClusterStates_Apply std_env pod_states pod_world = (Inr r, m', w') \<and>
    ClusterStates_Apply std_env m' w' = (Inr r, m', w')"
proof -
  from pod_apply_runs obtain r m' w' where run: "ClusterStates_Apply std_env pod_states pod_world = (Inr r, m', w')"
    by blast
  from Apply_once [OF _ _ run] run show ?thesis by auto
qed

theorem Apply_touches_own_witness:
  "list_all (\<lambda>(q, resp). own_request std_kube ''u1'' (Observed pod_states) q)
    (calls (snd (snd (ClusterStates_Apply std_env pod_states pod_world))))"
proof -
  from pod_apply_runs obtain r m' w' where run: "ClusterStates_Apply std_env pod_states pod_world = (Inr r, m', w')"
    by blast
  from Apply_touches_own [OF _ _ run] run std.kube_lib_axioms pod_states_objects show ?thesis
    by (auto simp: pod_no_calls pod_a_fields)
qed

theorem Apply_owners_witness:
  "list_all (\<lambda>(q, resp). owned_as_set std_kube pod_base (Desired pod_states) q)
    (calls (snd (snd (ClusterStates_Apply std_env pod_states pod_world))))"
proof -
  from pod_apply_runs obtain r m' w' where run: "ClusterStates_Apply std_env pod_states pod_world = (Inr r, m', w')"
    by blast
  from Apply_owners [OF _ _ run] run std.kube_lib_axioms pod_states_objects show ?thesis
    by (auto simp: pod_no_calls)
qed

definition pod_updater :: resource_states where
  "pod_updater = \<lparr>rBase = pod_base, DynamicClient = pod_client, rKey = ''Pod.v1'', rDesired = [],
     rExplicitDeletes = [], rExplicitUpdates = []\<rparr>"

theorem update_is_guarded_witness:
  "calls (snd (snd (rs_update std_env pod_updater pod_a pod_c pod_world))) = []"
proof -
  obtain r x' w' where run: "rs_update std_env pod_updater pod_a pod_c pod_world = (r, x', w')" by (metis prod_cases3)
  have ok: "meta_ok pod_a" by (simp add: meta_ok_def pod_a_def)
  have foreign: "\<not> updatable std_kube pod_updater pod_a"
    by (simp add: updatable_def pod_updater_def created_by_def watch_uid_def std_kube_sel std_read_def pod_a_def)
  have lib: "kube_lib (kubeOf std_env)" by (simp add: std.kube_lib_axioms)
  from update_is_guarded [OF lib ok run] obtain ts where ts: "calls w' = ts"
    "list_all (\<lambda>(q, resp). guarded_request std_kube pod_updater pod_a pod_c q) ts"
    by (auto simp: pod_no_calls)
  with foreign have "ts = []" by (cases ts) (auto simp: guarded_request_def Let_def)
  with ts run show ?thesis by simp
qed

end
