(* ===== verification/Informers.thy ===== *)
theory Informers
  imports Client "HOL-Library.Multiset"
begin

text \<open>
  \<open>dynamic/informer/factory.go\<close>, \<open>dynamic/informer/informer.go\<close> and
  \<open>dynamic/lister/lister.go\<close>: shared informers with their reference counts, the event
  handlers added through each subscription, and the lister on an informer's cache.

  A shared informer is a pointer in the code: here its index in the list of all informers
  ever created. A subscription has the index of its informer and, in place of the pointer to
  its wrapper, a number of its own. The locks of the factory and of the handlers are left
  out: each operation is one step. The cache of client-go is what its index functions return
  at the time of a call.
\<close>

section \<open>Listers\<close>

record indexer =
  GetByKey :: "string \<Rightarrow> obj option res"
  ListAll :: "(strmap \<Rightarrow> bool) \<Rightarrow> obj list res"
  ListAllByNamespace :: "string \<Rightarrow> (strmap \<Rightarrow> bool) \<Rightarrow> obj list res"

definition everything :: "strmap \<Rightarrow> bool" where
  "everything labels = True"

text \<open>A lister has the group and resource for its errors.\<close>

type_synonym lister = "(string \<times> string) \<times> indexer"

definition Lister_List :: "lister \<Rightarrow> (strmap \<Rightarrow> bool) \<Rightarrow> obj list res" where
  "Lister_List l selector = ListAll (snd l) selector"

definition Lister_ListNamespace :: "lister \<Rightarrow> string \<Rightarrow> (strmap \<Rightarrow> bool) \<Rightarrow> obj list res" where
  "Lister_ListNamespace l namespace selector = ListAllByNamespace (snd l) namespace selector"

definition group_resource_text :: "string \<times> string \<Rightarrow> string" where
  "group_resource_text gr = (if fst gr = '''' then snd gr else snd gr @ ''.'' @ fst gr)"

definition lister_key :: "string \<Rightarrow> string \<Rightarrow> string" where
  "lister_key namespace name = (if namespace = '''' then name else namespace @ ''/'' @ name)"

definition Lister_Get :: "lister \<Rightarrow> string \<Rightarrow> string \<Rightarrow> obj res" where
  "Lister_Get l namespace name =
     (case GetByKey (snd l) (lister_key namespace name) of
        Inl err \<Rightarrow> Inl err
      | Inr None \<Rightarrow>
          Inl (Api (NotFound (group_resource_text (fst l) @ '' '' @ quoted name @ '' not found'')))
      | Inr (Some x) \<Rightarrow> Inr x)"

section \<open>Event handlers\<close>

datatype event = OnAdd obj | OnUpdate obj obj | OnDelete obj

text \<open>A handler may have a timer of its own; \<open>ehTimer\<close> is its period.\<close>

record 'h event_handler =
  ehHandler :: 'h
  ehTimer :: "int option"

record 'h shared_handler =
  shRelist :: int
  shHandlers :: "(nat \<times> 'h event_handler list) list"

definition handlers_of :: "nat \<Rightarrow> (nat \<times> 'h event_handler list) list \<Rightarrow> 'h event_handler list" where
  "handlers_of iw m = (case map_of m iw of None \<Rightarrow> [] | Some hs \<Rightarrow> hs)"

text \<open>\<open>resync\<close> sends what the lister has; an error is only logged.\<close>

definition resync :: "lister \<Rightarrow> 'h event_handler \<Rightarrow> ('h \<times> event) list" where
  "resync l eh =
     (case Lister_List l everything of
        Inl err \<Rightarrow> []
      | Inr xs \<Rightarrow> map (\<lambda>x. (ehHandler eh, OnUpdate x x)) xs)"

definition start_timer :: "int \<Rightarrow> 'h event_handler \<Rightarrow> 'h event_handler" where
  "start_timer period eh = eh\<lparr>ehTimer := Some period\<rparr>"

definition addHandler ::
  "lister \<Rightarrow> nat \<Rightarrow> 'h \<Rightarrow> int \<Rightarrow> 'h shared_handler \<Rightarrow> ('h \<times> event) list \<times> 'h shared_handler" where
  "addHandler l iw handler resyncPeriod seh =
     (let eh = \<lparr>ehHandler = handler, ehTimer = None\<rparr>;
          eh' = (if resyncPeriod < shRelist seh then start_timer resyncPeriod eh else eh)
      in (resync l eh,
          seh\<lparr>shHandlers := AList.update iw (handlers_of iw (shHandlers seh) @ [eh']) (shHandlers seh)\<rparr>))"

text \<open>Stopping the timers leaves nothing behind: the handlers go with them.\<close>

definition removeHandlers :: "nat \<Rightarrow> 'h shared_handler \<Rightarrow> 'h shared_handler" where
  "removeHandlers iw seh = seh\<lparr>shHandlers := AList.delete iw (shHandlers seh)\<rparr>"

definition broadcast :: "event \<Rightarrow> 'h shared_handler \<Rightarrow> ('h \<times> event) list" where
  "broadcast ev seh =
     concat (map (\<lambda>(iw, hs). map (\<lambda>eh. (ehHandler eh, ev)) hs) (shHandlers seh))"

section \<open>Shared informers\<close>

text \<open>\<open>siKey\<close> is the key the closure of \<open>Close\<close> remembers; the stop channel is never nil.\<close>

record 'h shared_informer =
  siClient :: resource_client
  siKey :: string
  siStopped :: bool
  siResync :: int
  siHandler :: "'h shared_handler"

record resource_informer =
  riShared :: nat
  riWrapper :: nat

record 'h factory =
  faResync :: int
  faRefCount :: "int gomap"
  faShared :: "nat gomap"
  faInformers :: "'h shared_informer list"
  faNext :: nat

definition NewSharedInformerFactory :: "int \<Rightarrow> 'h factory" where
  "NewSharedInformerFactory defaultResync =
     \<lparr>faResync = defaultResync, faRefCount = [], faShared = [], faInformers = [], faNext = 0\<rparr>"

definition newSharedResourceInformer :: "resource_client \<Rightarrow> string \<Rightarrow> int \<Rightarrow> 'h shared_informer" where
  "newSharedResourceInformer client key period =
     \<lparr>siClient = client, siKey = key, siStopped = False, siResync = period,
      siHandler = \<lparr>shRelist = period, shHandlers = []\<rparr>\<rparr>"

definition newResourceInformer :: "nat \<Rightarrow> 'h factory \<Rightarrow> resource_informer \<times> 'h factory" where
  "newResourceInformer i F = (\<lparr>riShared = i, riWrapper = faNext F\<rparr>, F\<lparr>faNext := Suc (faNext F)\<rparr>)"

definition resourceKey :: "string \<Rightarrow> string \<Rightarrow> string" where
  "resourceKey apiVersion resource = resource @ ''.'' @ apiVersion"

definition ref_count :: "'h factory \<Rightarrow> string \<Rightarrow> int" where
  "ref_count F key = (case map_of (faRefCount F) key of None \<Rightarrow> 0 | Some n \<Rightarrow> n)"

definition GetOrCreate ::
  "(string \<Rightarrow> string \<Rightarrow> resource_client res) \<Rightarrow> string \<Rightarrow> string \<Rightarrow> 'h factory \<Rightarrow>
   resource_informer res \<times> 'h factory" where
  "GetOrCreate getClient apiVersion resource F =
     (let key = resourceKey apiVersion resource in
      case map_of (faShared F) key of
        Some i \<Rightarrow>
          (case newResourceInformer i (F\<lparr>faRefCount := mput key (ref_count F key + 1) (faRefCount F)\<rparr>) of
             (ri, F') \<Rightarrow> (Inr ri, F'))
      | None \<Rightarrow>
          (case getClient apiVersion resource of
             Inl err \<Rightarrow>
               (Inl (Msg (''Failed to subscribe shared informer '' @ key @ '': '' @ err_text err)), F)
           | Inr client \<Rightarrow>
               let i = length (faInformers F) in
               (case newResourceInformer i
                  (F\<lparr>faInformers := faInformers F @ [newSharedResourceInformer client key (faResync F)],
                     faShared := mput key i (faShared F), faRefCount := mput key 1 (faRefCount F)\<rparr>) of
                  (ri, F') \<Rightarrow> (Inr ri, F'))))"

definition with_informer ::
  "nat \<Rightarrow> ('h shared_informer \<Rightarrow> 'h shared_informer) \<Rightarrow> 'h factory \<Rightarrow> 'h factory" where
  "with_informer i f F = F\<lparr>faInformers := (faInformers F)[i := f (faInformers F ! i)]\<rparr>"

text \<open>The function a shared informer is closed with; closing its channel twice panics.\<close>

definition closeFn :: "nat \<Rightarrow> 'h factory \<Rightarrow> 'h factory res" where
  "closeFn i F =
     (let key = siKey (faInformers F ! i); count = ref_count F key - 1 in
      if count > 0 then Inr (F\<lparr>faRefCount := mput key count (faRefCount F)\<rparr>)
      else if siStopped (faInformers F ! i) then Inl (Panic ''close of closed channel'')
      else Inr ((with_informer i (\<lambda>si. si\<lparr>siStopped := True\<rparr>) F)
             \<lparr>faRefCount := mdel key (faRefCount F), faShared := mdel key (faShared F)\<rparr>))"

definition Close :: "resource_informer \<Rightarrow> 'h factory \<Rightarrow> 'h factory res" where
  "Close ri F = closeFn (riShared ri) F"

text \<open>The cache of each informer is given from outside.\<close>

definition Lister :: "(nat \<Rightarrow> indexer) \<Rightarrow> 'h factory \<Rightarrow> resource_informer \<Rightarrow> lister" where
  "Lister caches F ri =
     (GetGroupResource (rcResource (siClient (faInformers F ! riShared ri))), caches (riShared ri))"

definition AddEventHandlerWithResyncPeriod ::
  "(nat \<Rightarrow> indexer) \<Rightarrow> resource_informer \<Rightarrow> 'h \<Rightarrow> int \<Rightarrow> 'h factory \<Rightarrow> ('h \<times> event) list \<times> 'h factory" where
  "AddEventHandlerWithResyncPeriod caches ri handler period F =
     (let si = faInformers F ! riShared ri in
      case addHandler (Lister caches F ri) (riWrapper ri) handler period (siHandler si) of
        (evs, seh) \<Rightarrow> (evs, with_informer (riShared ri) (\<lambda>si. si\<lparr>siHandler := seh\<rparr>) F))"

definition AddEventHandler ::
  "(nat \<Rightarrow> indexer) \<Rightarrow> resource_informer \<Rightarrow> 'h \<Rightarrow> 'h factory \<Rightarrow> ('h \<times> event) list \<times> 'h factory" where
  "AddEventHandler caches ri handler F =
     AddEventHandlerWithResyncPeriod caches ri handler (siResync (faInformers F ! riShared ri)) F"

definition RemoveEventHandlers :: "resource_informer \<Rightarrow> 'h factory \<Rightarrow> 'h factory" where
  "RemoveEventHandlers ri F =
     with_informer (riShared ri) (\<lambda>si. si\<lparr>siHandler := removeHandlers (riWrapper ri) (siHandler si)\<rparr>) F"

text \<open>What client-go calls when the cache of a running informer changes.\<close>

definition deliver :: "nat \<Rightarrow> event \<Rightarrow> 'h factory \<Rightarrow> ('h \<times> event) list" where
  "deliver i ev F = broadcast ev (siHandler (faInformers F ! i))"

section \<open>Informers and their subscribers\<close>

text \<open>
  The factory with the subscriptions that are in use: those returned by \<open>GetOrCreate\<close> and
  not closed yet. Users may add and remove handlers of a subscription they hold.
\<close>

record 'h pool =
  plFactory :: "'h factory"
  plOpen :: "resource_informer set"

inductive pool_step ::
  "(string \<Rightarrow> string \<Rightarrow> resource_client res) \<Rightarrow> 'h pool \<Rightarrow> 'h pool \<Rightarrow> bool" for getClient where
  subscribe: "GetOrCreate getClient av r F = (Inr ri, F') \<Longrightarrow>
    pool_step getClient \<lparr>plFactory = F, plOpen = opn\<rparr> \<lparr>plFactory = F', plOpen = insert ri opn\<rparr>"
| refused: "GetOrCreate getClient av r F = (Inl err, F') \<Longrightarrow>
    pool_step getClient \<lparr>plFactory = F, plOpen = opn\<rparr> \<lparr>plFactory = F', plOpen = opn\<rparr>"
| close: "ri \<in> opn \<Longrightarrow> Close ri F = Inr F' \<Longrightarrow>
    pool_step getClient \<lparr>plFactory = F, plOpen = opn\<rparr> \<lparr>plFactory = F', plOpen = opn - {ri}\<rparr>"
| listen: "ri \<in> opn \<Longrightarrow> AddEventHandlerWithResyncPeriod caches ri h period F = (evs, F') \<Longrightarrow>
    pool_step getClient \<lparr>plFactory = F, plOpen = opn\<rparr> \<lparr>plFactory = F', plOpen = opn\<rparr>"
| unlisten: "ri \<in> opn \<Longrightarrow>
    pool_step getClient \<lparr>plFactory = F, plOpen = opn\<rparr> \<lparr>plFactory = RemoveEventHandlers ri F, plOpen = opn\<rparr>"

definition new_pool :: "int \<Rightarrow> 'h pool" where
  "new_pool period = \<lparr>plFactory = NewSharedInformerFactory period, plOpen = {}\<rparr>"

abbreviation pool_reachable ::
  "(string \<Rightarrow> string \<Rightarrow> resource_client res) \<Rightarrow> int \<Rightarrow> 'h pool \<Rightarrow> bool" where
  "pool_reachable getClient period \<equiv> (pool_step getClient)\<^sup>*\<^sup>* (new_pool period)"

definition subscribers :: "resource_informer set \<Rightarrow> nat \<Rightarrow> resource_informer set" where
  "subscribers opn i = {ri \<in> opn. riShared ri = i}"

definition shared_at :: "'h factory \<Rightarrow> string \<Rightarrow> nat option" where
  "shared_at F k = map_of (faShared F) k"

definition pool_ok :: "'h factory \<Rightarrow> resource_informer set \<Rightarrow> bool" where
  "pool_ok F opn =
     (finite opn \<and> (\<forall>ri \<in> opn. riWrapper ri < faNext F \<and> (\<exists>k. shared_at F k = Some (riShared ri))) \<and>
      (\<forall>k i. shared_at F k = Some i \<longrightarrow>
         i < length (faInformers F) \<and> siKey (faInformers F ! i) = k \<and> \<not> siStopped (faInformers F ! i) \<and>
         map_of (faRefCount F) k = Some (int (card (subscribers opn i))) \<and> subscribers opn i \<noteq> {}) \<and>
      (\<forall>k. shared_at F k = None \<longrightarrow> map_of (faRefCount F) k = None) \<and>
      (\<forall>i < length (faInformers F). \<not> siStopped (faInformers F ! i) \<longrightarrow>
         shared_at F (siKey (faInformers F ! i)) = Some i))"

lemma pool_okD:
  assumes "pool_ok F opn"
  shows "finite opn" "ri \<in> opn \<Longrightarrow> riWrapper ri < faNext F"
    "ri \<in> opn \<Longrightarrow> \<exists>k. shared_at F k = Some (riShared ri)"
    "shared_at F k = Some i \<Longrightarrow> i < length (faInformers F) \<and> siKey (faInformers F ! i) = k \<and>
       \<not> siStopped (faInformers F ! i) \<and> map_of (faRefCount F) k = Some (int (card (subscribers opn i))) \<and>
       subscribers opn i \<noteq> {}"
    "shared_at F k = None \<Longrightarrow> map_of (faRefCount F) k = None"
    "i < length (faInformers F) \<Longrightarrow> \<not> siStopped (faInformers F ! i) \<Longrightarrow>
       shared_at F (siKey (faInformers F ! i)) = Some i"
  using assms by (auto simp: pool_ok_def)

lemma subscribers_insert:
  "subscribers (insert ri opn) i = (if riShared ri = i then insert ri (subscribers opn i) else subscribers opn i)"
  by (auto simp: subscribers_def)

lemma subscribers_remove:
  "subscribers (opn - {ri}) i = (if riShared ri = i then subscribers opn i - {ri} else subscribers opn i)"
  by (auto simp: subscribers_def)

lemma finite_subscribers: "finite opn \<Longrightarrow> finite (subscribers opn i)"
  by (simp add: subscribers_def)

lemma pool_ok_new: "pool_ok (NewSharedInformerFactory period) {}"
  by (simp add: pool_ok_def NewSharedInformerFactory_def shared_at_def)

lemma GetOrCreate_cases:
  assumes "GetOrCreate getClient av r F = (res, F')"
  obtains (shared) i where "shared_at F (resourceKey av r) = Some i"
      "res = Inr \<lparr>riShared = i, riWrapper = faNext F\<rparr>"
      "F' = F\<lparr>faRefCount := mput (resourceKey av r) (ref_count F (resourceKey av r) + 1) (faRefCount F),
        faNext := Suc (faNext F)\<rparr>"
    | (refused) err where "res = Inl err" "F' = F" "shared_at F (resourceKey av r) = None"
    | (created) client where "shared_at F (resourceKey av r) = None" "getClient av r = Inr client"
      "res = Inr \<lparr>riShared = length (faInformers F), riWrapper = faNext F\<rparr>"
      "F' = F\<lparr>faInformers := faInformers F @ [newSharedResourceInformer client (resourceKey av r) (faResync F)],
        faShared := mput (resourceKey av r) (length (faInformers F)) (faShared F),
        faRefCount := mput (resourceKey av r) 1 (faRefCount F), faNext := Suc (faNext F)\<rparr>"
  using assms by (auto simp: GetOrCreate_def newResourceInformer_def Let_def shared_at_def
      split: option.splits sum.splits)

lemma pool_okI:
  assumes "finite opn" "\<And>ri. ri \<in> opn \<Longrightarrow> riWrapper ri < faNext F"
    "\<And>ri. ri \<in> opn \<Longrightarrow> \<exists>k. shared_at F k = Some (riShared ri)"
    "\<And>k i. shared_at F k = Some i \<Longrightarrow> i < length (faInformers F) \<and> siKey (faInformers F ! i) = k \<and>
       \<not> siStopped (faInformers F ! i)"
    "\<And>k i. shared_at F k = Some i \<Longrightarrow> map_of (faRefCount F) k = Some (int (card (subscribers opn i)))"
    "\<And>k i. shared_at F k = Some i \<Longrightarrow> subscribers opn i \<noteq> {}"
    "\<And>k. shared_at F k = None \<Longrightarrow> map_of (faRefCount F) k = None"
    "\<And>i. i < length (faInformers F) \<Longrightarrow> \<not> siStopped (faInformers F ! i) \<Longrightarrow>
       shared_at F (siKey (faInformers F ! i)) = Some i"
  shows "pool_ok F opn"
  using assms by (simp add: pool_ok_def)

lemma pool_ok_subscribe:
  assumes ok: "pool_ok F opn" and i: "shared_at F k = Some i" and ri: "ri = \<lparr>riShared = i, riWrapper = faNext F\<rparr>"
    and F': "F' = F\<lparr>faRefCount := mput k (ref_count F k + 1) (faRefCount F), faNext := Suc (faNext F)\<rparr>"
  shows "pool_ok F' (insert ri opn)"
proof -
  note I = pool_okD [OF ok]
  have at: "shared_at F' = shared_at F" "faInformers F' = faInformers F" by (auto simp: F' shared_at_def)
  have new: "ri \<notin> subscribers opn i" using I(2) [of ri] by (auto simp: ri subscribers_def)
  then have card: "card (insert ri (subscribers opn i)) = Suc (card (subscribers opn i))"
    using finite_subscribers [OF I(1)] by simp
  have one: "k' = k" if "shared_at F k' = Some i" for k' using I(4) [OF that] I(4) [OF i] by simp
  have count: "ref_count F k = int (card (subscribers opn i))" using I(4) [OF i] by (simp add: ref_count_def)
  show ?thesis
  proof (rule pool_okI)
    fix k' j assume j: "shared_at F' k' = Some j"
    show "map_of (faRefCount F') k' = Some (int (card (subscribers (insert ri opn) j)))"
    proof (cases "k' = k")
      case True
      with j i at have "j = i" by simp
      with True card count show ?thesis by (simp add: F' subscribers_insert ri)
    next
      case False
      with one j at have "j \<noteq> i" by auto
      with False I(4) j at show ?thesis by (simp add: F' subscribers_insert ri)
    qed
    from j at I(4) [of k' j] show "subscribers (insert ri opn) j \<noteq> {}" by (simp add: subscribers_insert)
  next
    fix k' assume "shared_at F' k' = None"
    with I(5) i at show "map_of (faRefCount F') k' = None" by (auto simp: F')
  next
    fix k' j assume "shared_at F' k' = Some j"
    with at I(4) [of k' j] show "j < length (faInformers F') \<and> siKey (faInformers F' ! j) = k' \<and>
        \<not> siStopped (faInformers F' ! j)" by simp
  next
    fix r assume "r \<in> insert ri opn"
    with I(2,3) [of r] i at show "riWrapper r < faNext F'" "\<exists>k'. shared_at F' k' = Some (riShared r)"
      by (auto simp: F' ri less_Suc_eq)
  qed (use I(1,6) at in \<open>simp_all\<close>)
qed

lemma pool_ok_create:
  assumes ok: "pool_ok F opn" and none: "shared_at F k = None"
    and ri: "ri = \<lparr>riShared = length (faInformers F), riWrapper = faNext F\<rparr>"
    and F': "F' = F\<lparr>faInformers := faInformers F @ [newSharedResourceInformer client k period],
      faShared := mput k (length (faInformers F)) (faShared F),
      faRefCount := mput k 1 (faRefCount F), faNext := Suc (faNext F)\<rparr>"
  shows "pool_ok F' (insert ri opn)"
proof -
  let ?n = "length (faInformers F)"
  note I = pool_okD [OF ok]
  have at: "shared_at F' k' = (if k' = k then Some ?n else shared_at F k')" for k'
    by (simp add: F' shared_at_def)
  have nth: "faInformers F' ! j = (if j = ?n then newSharedResourceInformer client k period else faInformers F ! j)"
    if "j \<le> ?n" for j
    using that by (simp add: F' nth_append)
  have len: "length (faInformers F') = Suc ?n" by (simp add: F')
  have counts: "map_of (faRefCount F') k' = (if k' = k then Some 1 else map_of (faRefCount F) k')" for k'
    by (simp add: F')
  have fresh: "subscribers opn ?n = {}"
  proof -
    have "riShared r \<noteq> ?n" if "r \<in> opn" for r
    proof -
      from I(3) [OF that] obtain k' where "shared_at F k' = Some (riShared r)" by blast
      from I(4) [OF this] show ?thesis by simp
    qed
    then show ?thesis by (auto simp: subscribers_def)
  qed
  show ?thesis
  proof (rule pool_okI)
    fix k' j assume j: "shared_at F' k' = Some j"
    have cases: "k' = k \<and> j = ?n \<or> k' \<noteq> k \<and> shared_at F k' = Some j \<and> j < ?n"
      using j at [of k'] I(4) [of k' j] by (auto split: if_splits)
    then show "j < length (faInformers F') \<and> siKey (faInformers F' ! j) = k' \<and> \<not> siStopped (faInformers F' ! j)"
      using nth [of j] I(4) [of k' j] len by (auto simp: newSharedResourceInformer_def)
    from cases show "map_of (faRefCount F') k' = Some (int (card (subscribers (insert ri opn) j)))"
      using I(4) [of k' j] fresh counts [of k'] by (auto simp: subscribers_insert ri)
    from cases show "subscribers (insert ri opn) j \<noteq> {}"
      using I(4) [of k' j] by (auto simp: subscribers_insert ri)
  next
    fix r assume "r \<in> insert ri opn"
    with I(3) [of r] none show "\<exists>k'. shared_at F' k' = Some (riShared r)"
      by (metis at insert_iff option.distinct(1) ri resource_informer.select_convs(1))
  next
    fix j assume j: "j < length (faInformers F')" "\<not> siStopped (faInformers F' ! j)"
    show "shared_at F' (siKey (faInformers F' ! j)) = Some j"
    proof (cases "j = ?n")
      case True
      then show ?thesis by (simp add: nth at newSharedResourceInformer_def)
    next
      case False
      with j have j': "j < ?n" by (simp add: F')
      with j nth [of j] I(6) [of j] none show ?thesis by (auto simp: at)
    qed
  next
    fix r assume "r \<in> insert ri opn"
    with I(2) [of r] show "riWrapper r < faNext F'" by (auto simp: F' ri less_Suc_eq)
  next
    fix k' assume "shared_at F' k' = None"
    with I(5) [of k'] show "map_of (faRefCount F') k' = None" by (auto simp: at counts split: if_splits)
  qed (use I(1) in simp)
qed

lemma pool_ok_GetOrCreate:
  assumes "pool_ok F opn" and "GetOrCreate getClient av r F = (Inr ri, F')"
  shows "pool_ok F' (insert ri opn)"
  using assms(2)
proof (cases rule: GetOrCreate_cases)
  case (shared i)
  then show ?thesis by (intro pool_ok_subscribe [OF assms(1)]) auto
next
  case (created client)
  then show ?thesis by (intro pool_ok_create [OF assms(1)]) auto
qed simp

lemma closeFn_cases:
  assumes "closeFn i F = res"
  obtains (others) "ref_count F (siKey (faInformers F ! i)) > 1"
      "res = Inr (F\<lparr>faRefCount := mput (siKey (faInformers F ! i))
        (ref_count F (siKey (faInformers F ! i)) - 1) (faRefCount F)\<rparr>)"
    | (again) "ref_count F (siKey (faInformers F ! i)) \<le> 1" "siStopped (faInformers F ! i)"
      "res = Inl (Panic ''close of closed channel'')"
    | (last) "ref_count F (siKey (faInformers F ! i)) \<le> 1" "\<not> siStopped (faInformers F ! i)"
      "res = Inr ((with_informer i (\<lambda>si. si\<lparr>siStopped := True\<rparr>) F)
        \<lparr>faRefCount := mdel (siKey (faInformers F ! i)) (faRefCount F),
         faShared := mdel (siKey (faInformers F ! i)) (faShared F)\<rparr>)"
  using assms by (auto simp: closeFn_def Let_def split: if_splits)

text \<open>A subscription in use points to the running informer of its key.\<close>

lemma open_subscription:
  assumes "pool_ok F opn" and "ri \<in> opn"
  defines "i \<equiv> riShared ri"
  shows "i < length (faInformers F)" "\<not> siStopped (faInformers F ! i)"
    "shared_at F (siKey (faInformers F ! i)) = Some i"
    "ref_count F (siKey (faInformers F ! i)) = int (card (subscribers opn i))" "ri \<in> subscribers opn i"
proof -
  from pool_okD(3) [OF assms(1,2)] obtain k where "shared_at F k = Some i" by (auto simp: i_def)
  with pool_okD(4) [OF assms(1) this] show "i < length (faInformers F)" "\<not> siStopped (faInformers F ! i)"
    "shared_at F (siKey (faInformers F ! i)) = Some i"
    "ref_count F (siKey (faInformers F ! i)) = int (card (subscribers opn i))"
    by (auto simp: ref_count_def)
qed (use assms in \<open>simp add: subscribers_def\<close>)

lemma card_one_subscriber:
  assumes "finite A" and "x \<in> A" and "int (card A) \<le> 1"
  shows "A = {x}"
proof -
  have "card A = 1" using assms by (metis One_nat_def Suc_leI card_gt_0_iff empty_iff le_antisym of_nat_1 of_nat_le_iff)
  with assms(2) show ?thesis by (auto simp: card_1_singleton_iff)
qed

text \<open>
  Closing a subscription in use: others keep the informer running; the last one stops it.
\<close>

lemma Close_open:
  assumes ok: "pool_ok F opn" and ri: "ri \<in> opn"
  defines "i \<equiv> riShared ri" and "k \<equiv> siKey (faInformers F ! riShared ri)"
  shows "if subscribers opn i = {ri}
    then Close ri F = Inr ((with_informer i (\<lambda>si. si\<lparr>siStopped := True\<rparr>) F)
      \<lparr>faRefCount := mdel k (faRefCount F), faShared := mdel k (faShared F)\<rparr>)
    else Close ri F = Inr (F\<lparr>faRefCount := mput k (int (card (subscribers opn i - {ri}))) (faRefCount F)\<rparr>)"
proof -
  note op = open_subscription [OF ok ri, folded i_def]
  have fin: "finite (subscribers opn i)" by (rule finite_subscribers [OF pool_okD(1) [OF ok]])
  have card: "int (card (subscribers opn i - {ri})) = int (card (subscribers opn i)) - 1"
    using fin op(5) by (metis card_Diff_singleton card_gt_0_iff empty_iff int_ops(6) of_nat_1 Suc_leI One_nat_def
        nat_less_iff of_nat_less_0_iff not_less of_nat_le_iff)
  show ?thesis
  proof (cases "subscribers opn i = {ri}")
    case True
    with op show ?thesis by (simp add: Close_def closeFn_def Let_def i_def k_def)
  next
    case False
    with card_one_subscriber [OF fin op(5)] have "int (card (subscribers opn i)) > 1" by force
    with False op card show ?thesis by (simp add: Close_def closeFn_def Let_def i_def k_def)
  qed
qed

lemma pool_ok_Close:
  assumes ok: "pool_ok F opn" and ri: "ri \<in> opn" and close: "Close ri F = Inr F'"
  shows "pool_ok F' (opn - {ri})"
proof -
  define i k where "i = riShared ri" and "k = siKey (faInformers F ! riShared ri)"
  note I = pool_okD [OF ok] and op = open_subscription [OF ok ri, folded i_def k_def]
  have one: "k' = k \<longleftrightarrow> j = i" if "shared_at F k' = Some j" for k' j
  proof
    assume "k' = k"
    with that op(3) show "j = i" by simp
  next
    assume "j = i"
    with I(4) [OF that] I(4) [OF op(3)] show "k' = k" by metis
  qed
  show ?thesis
  proof (cases "subscribers opn i = {ri}")
    case True
    with Close_open [OF ok ri] close have F': "F' = (with_informer i (\<lambda>si. si\<lparr>siStopped := True\<rparr>) F)
      \<lparr>faRefCount := mdel k (faRefCount F), faShared := mdel k (faShared F)\<rparr>"
      by (simp add: i_def k_def)
    have at: "shared_at F' k' = (if k' = k then None else shared_at F k')" for k'
      by (simp add: F' shared_at_def)
    have counts: "map_of (faRefCount F') k' = (if k' = k then None else map_of (faRefCount F) k')" for k'
      by (simp add: F')
    have len: "length (faInformers F') = length (faInformers F)" by (simp add: F' with_informer_def)
    have other: "faInformers F' ! j = faInformers F ! j" if "j \<noteq> i" for j
      using that by (simp add: F' with_informer_def)
    have stopped: "siStopped (faInformers F' ! i)" using op(1) by (simp add: F' with_informer_def)
    have next_: "faNext F' = faNext F" by (simp add: F' with_informer_def)
    have gone: "r = ri" if "r \<in> opn" "riShared r = i" for r
      using that True by (auto simp: subscribers_def)
    show ?thesis
    proof (rule pool_okI)
      fix r assume r: "r \<in> opn - {ri}"
      with I(2) show "riWrapper r < faNext F'" by (simp add: next_)
      from r I(3) obtain k' where "shared_at F k' = Some (riShared r)" by blast
      with one [OF this] gone [of r] r show "\<exists>k'. shared_at F' k' = Some (riShared r)" by (auto simp: at)
    next
      fix k' j assume "shared_at F' k' = Some j"
      then have j: "shared_at F k' = Some j" "k' \<noteq> k" by (auto simp: at split: if_splits)
      with one have "j \<noteq> i" by blast
      with I(4) [OF j(1)] j(2) show "j < length (faInformers F') \<and> siKey (faInformers F' ! j) = k' \<and>
          \<not> siStopped (faInformers F' ! j)"
        and "map_of (faRefCount F') k' = Some (int (card (subscribers (opn - {ri}) j)))"
        and "subscribers (opn - {ri}) j \<noteq> {}"
        by (auto simp: len other counts subscribers_remove i_def)
    next
      fix k' assume "shared_at F' k' = None"
      with I(5) [of k'] show "map_of (faRefCount F') k' = None" by (auto simp: at counts split: if_splits)
    next
      fix j assume j: "j < length (faInformers F')" "\<not> siStopped (faInformers F' ! j)"
      with stopped have "j \<noteq> i" by auto
      with j I(6) [of j] one show "shared_at F' (siKey (faInformers F' ! j)) = Some j"
        by (auto simp: len other at)
    qed (use I(1) in simp)
  next
    case False
    with Close_open [OF ok ri] close have F': "F' = F\<lparr>faRefCount :=
        mput k (int (card (subscribers opn i - {ri}))) (faRefCount F)\<rparr>"
      by (simp add: i_def k_def)
    have at: "shared_at F' = shared_at F" "faInformers F' = faInformers F" "faNext F' = faNext F"
      by (auto simp: F' shared_at_def)
    have counts: "map_of (faRefCount F') k' = (if k' = k then Some (int (card (subscribers opn i - {ri})))
        else map_of (faRefCount F) k')" for k'
      by (simp add: F')
    show ?thesis
    proof (rule pool_okI)
      fix k' j assume "shared_at F' k' = Some j"
      then have j: "shared_at F k' = Some j" by (simp add: at)
      from I(4) [OF j] one [OF j] show "map_of (faRefCount F') k' = Some (int (card (subscribers (opn - {ri}) j)))"
        by (auto simp: counts subscribers_remove i_def)
      from I(4) [OF j] False op(5) show "subscribers (opn - {ri}) j \<noteq> {}"
        by (auto simp: subscribers_remove i_def)
      from I(4) [OF j] show "j < length (faInformers F') \<and> siKey (faInformers F' ! j) = k' \<and>
          \<not> siStopped (faInformers F' ! j)" by (simp add: at)
    next
      fix k' assume "shared_at F' k' = None"
      with I(5) [of k'] op(3) show "map_of (faRefCount F') k' = None" by (auto simp: at counts)
    qed (use I(1,2,3,6) in \<open>simp_all add: at\<close>)
  qed
qed

text \<open>Handlers play no part in the counting.\<close>

lemma pool_ok_handlers:
  assumes "pool_ok F opn"
  shows "pool_ok (with_informer i (\<lambda>si. si\<lparr>siHandler := seh\<rparr>) F) opn"
proof -
  let ?F = "with_informer i (\<lambda>si. si\<lparr>siHandler := seh\<rparr>) F"
  have same: "length (faInformers ?F) = length (faInformers F)"
    "siKey (faInformers ?F ! j) = siKey (faInformers F ! j)"
    "siStopped (faInformers ?F ! j) = siStopped (faInformers F ! j)" if "j < length (faInformers F)" for j
    using that by (cases "j = i"; simp add: with_informer_def)+
  have rest: "shared_at ?F = shared_at F" "faRefCount ?F = faRefCount F" "faNext ?F = faNext F"
    "length (faInformers ?F) = length (faInformers F)"
    by (auto simp: with_informer_def shared_at_def)
  from pool_okD [OF assms] show ?thesis
    by (intro pool_okI) (auto simp: rest same)
qed

lemma pool_step_ok:
  assumes "pool_step getClient p p'" and "pool_ok (plFactory p) (plOpen p)"
  shows "pool_ok (plFactory p') (plOpen p')"
  using assms
proof (cases rule: pool_step.cases)
  case (refused av r F err F' opn)
  then show ?thesis using assms(2) by (elim GetOrCreate_cases) auto
next
  case (listen ri opn caches h period F evs F')
  then show ?thesis using assms(2) pool_ok_handlers
    by (auto simp: AddEventHandlerWithResyncPeriod_def Let_def split: prod.splits)
next
  case (unlisten ri opn F)
  have "with_informer i (\<lambda>si. si\<lparr>siHandler := f (siHandler si)\<rparr>) F =
      with_informer i (\<lambda>si. si\<lparr>siHandler := f (siHandler (faInformers F ! i))\<rparr>) F" for i f
    by (simp add: with_informer_def)
  with unlisten show ?thesis using assms(2) pool_ok_handlers by (simp add: RemoveEventHandlers_def)
qed (use pool_ok_GetOrCreate pool_ok_Close in auto)

lemma pool_reachable_ok:
  assumes "pool_reachable getClient period p"
  shows "pool_ok (plFactory p) (plOpen p)"
  using assms
  by (induction rule: rtranclp_induct) (auto simp: new_pool_def pool_ok_new intro: pool_step_ok)

section \<open>Properties\<close>

definition running :: "'h factory \<Rightarrow> nat \<Rightarrow> bool" where
  "running F i = (i < length (faInformers F) \<and> \<not> siStopped (faInformers F ! i))"

text \<open>
  C19: In every state the users of the factory can reach by subscribing, closing what they hold
  once and changing their handlers, an informer runs exactly while it has a subscriber, at most
  one informer runs for a key, and the reference count of a key is the number of open
  subscriptions to the running informer of the key, missing if none runs.
\<close>
theorem informers_run_while_used:
  assumes "pool_reachable getClient period p"
  shows "(\<forall>i. running (plFactory p) i \<longleftrightarrow> subscribers (plOpen p) i \<noteq> {}) \<and>
    (\<forall>i j. running (plFactory p) i \<longrightarrow> running (plFactory p) j \<longrightarrow>
       siKey (faInformers (plFactory p) ! i) = siKey (faInformers (plFactory p) ! j) \<longrightarrow> i = j) \<and>
    (\<forall>k. map_of (faRefCount (plFactory p)) k =
       (case shared_at (plFactory p) k of
          None \<Rightarrow> None | Some i \<Rightarrow> Some (int (card (subscribers (plOpen p) i)))))"
proof -
  note ok = pool_reachable_ok [OF assms]
  note I = pool_okD [OF ok]
  have "running (plFactory p) i \<longleftrightarrow> subscribers (plOpen p) i \<noteq> {}" for i
  proof
    assume "running (plFactory p) i"
    then have "shared_at (plFactory p) (siKey (faInformers (plFactory p) ! i)) = Some i"
      using I(6) [of i] by (simp add: running_def)
    from I(4) [OF this] show "subscribers (plOpen p) i \<noteq> {}" by simp
  next
    assume "subscribers (plOpen p) i \<noteq> {}"
    then obtain ri where "ri \<in> plOpen p" "riShared ri = i" by (auto simp: subscribers_def)
    with open_subscription(1,2) [OF ok, of ri] show "running (plFactory p) i" by (simp add: running_def)
  qed
  moreover have "i = j" if "running (plFactory p) i" "running (plFactory p) j"
    "siKey (faInformers (plFactory p) ! i) = siKey (faInformers (plFactory p) ! j)" for i j
    using that I(6) unfolding running_def by (metis option.inject)
  moreover have "map_of (faRefCount (plFactory p)) k = (case shared_at (plFactory p) k of
      None \<Rightarrow> None | Some i \<Rightarrow> Some (int (card (subscribers (plOpen p) i))))" for k
    using I(4) [of k] I(5) [of k] by (simp split: option.split)
  ultimately show ?thesis by blast
qed

text \<open>
  Closing a subscription that is in use never panics. It stops its informer if no other
  subscription uses it, and otherwise leaves all informers as they are; no other informer is
  stopped, and the other subscriptions stay usable.
\<close>
theorem close_is_safe:
  assumes "pool_reachable getClient period p" and "ri \<in> plOpen p"
  shows "\<exists>F'. Close ri (plFactory p) = Inr F' \<and>
    (\<forall>i. running F' i \<longleftrightarrow>
       running (plFactory p) i \<and> \<not> (i = riShared ri \<and> subscribers (plOpen p) i = {ri})) \<and>
    (\<forall>ri' \<in> plOpen p - {ri}. running F' (riShared ri') \<and>
       siHandler (faInformers F' ! riShared ri') = siHandler (faInformers (plFactory p) ! riShared ri'))"
proof -
  note ok = pool_reachable_ok [OF assms(1)]
  from Close_open [OF ok assms(2)] obtain F' where close: "Close ri (plFactory p) = Inr F'"
    by (cases "subscribers (plOpen p) (riShared ri) = {ri}") auto
  let ?i = "riShared ri"
  define F1 where "F1 = with_informer ?i (\<lambda>si. si\<lparr>siStopped := True\<rparr>) (plFactory p)"
  have infs: "faInformers F' = (if subscribers (plOpen p) ?i = {ri} then faInformers F1 else faInformers (plFactory p))"
    using Close_open [OF ok assms(2)] close unfolding F1_def by (auto split: if_splits)
  have inf1: "length (faInformers F1) = length (faInformers (plFactory p))"
    "j \<noteq> ?i \<Longrightarrow> faInformers F1 ! j = faInformers (plFactory p) ! j"
    "siStopped (faInformers F1 ! ?i)" "siHandler (faInformers F1 ! ?i) = siHandler (faInformers (plFactory p) ! ?i)" for j
    using open_subscription(1) [OF ok assms(2)] by (simp_all add: F1_def with_informer_def)
  have run: "running F' i \<longleftrightarrow>
       running (plFactory p) i \<and> \<not> (i = ?i \<and> subscribers (plOpen p) i = {ri})" for i
    using inf1 by (cases "i = ?i") (simp_all add: running_def infs)
  have "running F' (riShared ri')" if "ri' \<in> plOpen p - {ri}" for ri'
  proof -
    have "ri' \<in> plOpen p" "ri' \<noteq> ri" using that by auto
    then show ?thesis unfolding run
      using open_subscription(1,2,5) [OF ok, of ri'] by (metis running_def singletonD)
  qed
  moreover have "siHandler (faInformers F' ! j) = siHandler (faInformers (plFactory p) ! j)" for j
    using inf1 by (cases "j = ?i") (simp_all add: infs)
  ultimately show ?thesis using close run by blast
qed

text \<open>
  The handlers of one subscription do not disturb those of another. A handler that is added
  is told of every object in the cache at once, as an update of it to itself, and gets its own
  timer exactly if it asks to be resynced more often than its informer relists. From then
  on every event of the informer reaches it and all handlers that were there; removing the
  handlers of a subscription takes away exactly what was added through it.
\<close>
theorem handlers_are_separate:
  assumes "riShared ri < length (faInformers F)"
    and "distinct (map fst (shHandlers (siHandler (faInformers F ! riShared ri))))"
    and "AddEventHandlerWithResyncPeriod caches ri h period F = (evs, F')"
    and "Lister_List (Lister caches F ri) everything = Inr xs"
  shows "evs = map (\<lambda>x. (h, OnUpdate x x)) xs \<and>
    mset (deliver (riShared ri) ev F') = mset (deliver (riShared ri) ev F) + {#(h, ev)#} \<and>
    (let hs = handlers_of (riWrapper ri) (shHandlers (siHandler (faInformers F' ! riShared ri))) in
       ehHandler (last hs) = h \<and> (ehTimer (last hs) \<noteq> None \<longleftrightarrow>
         period < shRelist (siHandler (faInformers F ! riShared ri)))) \<and>
    (\<forall>iw. iw \<noteq> riWrapper ri \<longrightarrow>
       map_of (shHandlers (siHandler (faInformers (RemoveEventHandlers ri F') ! riShared ri))) iw =
       map_of (shHandlers (siHandler (faInformers F ! riShared ri))) iw) \<and>
    map_of (shHandlers (siHandler (faInformers (RemoveEventHandlers ri F') ! riShared ri))) (riWrapper ri) = None"
proof -
  let ?i = "riShared ri" and ?iw = "riWrapper ri"
  let ?seh = "siHandler (faInformers F ! ?i)"
  define eh where "eh = (if period < shRelist ?seh then start_timer period \<lparr>ehHandler = h, ehTimer = None\<rparr>
    else \<lparr>ehHandler = h, ehTimer = None\<rparr>)"
  have eh: "ehHandler eh = h" "ehTimer eh \<noteq> None \<longleftrightarrow> period < shRelist ?seh"
    by (auto simp: eh_def start_timer_def)
  have seh': "siHandler (faInformers F' ! ?i) =
      ?seh\<lparr>shHandlers := AList.update ?iw (handlers_of ?iw (shHandlers ?seh) @ [eh]) (shHandlers ?seh)\<rparr>"
    and evs: "evs = map (\<lambda>x. (h, OnUpdate x x)) xs" and len: "?i < length (faInformers F')"
    using assms by (auto simp: AddEventHandlerWithResyncPeriod_def addHandler_def Let_def eh_def with_informer_def
        resync_def split: prod.splits)
  have upd: "mset (concat (map (\<lambda>(iw, hs). map (\<lambda>eh. (ehHandler eh, ev)) hs)
        (AList.update ?iw (handlers_of ?iw m @ [eh]) m))) =
      mset (concat (map (\<lambda>(iw, hs). map (\<lambda>eh. (ehHandler eh, ev)) hs) m)) + {#(h, ev)#}"
    if "distinct (map fst m)" for m
    using that
  proof (induction m)
    case (Cons p m)
    then show ?case using eh
      by (cases p; cases "fst p = ?iw") (auto simp: handlers_of_def)
  qed (simp add: handlers_of_def eh)
  have "mset (deliver ?i ev F') = mset (deliver ?i ev F) + {#(h, ev)#}"
    using upd [OF assms(2)] by (simp add: deliver_def broadcast_def seh')
  moreover have "siHandler (faInformers (RemoveEventHandlers ri F') ! ?i) =
      (siHandler (faInformers F' ! ?i))\<lparr>shHandlers := AList.delete ?iw (shHandlers (siHandler (faInformers F' ! ?i)))\<rparr>"
    using len by (simp add: RemoveEventHandlers_def with_informer_def removeHandlers_def)
  ultimately show ?thesis using evs eh
    by (simp add: seh' handlers_of_def Let_def AList.delete_conv' AList.update_conv')
qed

section \<open>One subscription\<close>

definition pod_subscription :: "resource_informer res \<times> nat factory" where
  "pod_subscription = GetOrCreate (\<lambda>_ _. Inr pod_client) ''v1'' ''pods'' (NewSharedInformerFactory 10)"

definition pod_pool :: "nat pool" where
  "pod_pool = \<lparr>plFactory = snd pod_subscription, plOpen = {\<lparr>riShared = 0, riWrapper = 0\<rparr>}\<rparr>"

lemma pod_subscription_eq:
  "pod_subscription = (Inr \<lparr>riShared = 0, riWrapper = 0\<rparr>,
    \<lparr>faResync = 10, faRefCount = [(''pods.v1'', 1)], faShared = [(''pods.v1'', 0)],
     faInformers = [newSharedResourceInformer pod_client ''pods.v1'' 10], faNext = 1\<rparr>)"
  by (simp add: pod_subscription_def GetOrCreate_def NewSharedInformerFactory_def newResourceInformer_def
      resourceKey_def Let_def)

lemma pod_pool_reachable: "pool_reachable (\<lambda>_ _. Inr pod_client) 10 pod_pool"
proof -
  have "pool_step (\<lambda>_ _. Inr pod_client) (new_pool 10) pod_pool"
    unfolding new_pool_def pod_pool_def
    by (rule subscribe [where av = "''v1''" and r = "''pods''"]) (metis pod_subscription_def pod_subscription_eq snd_conv)
  then show ?thesis by blast
qed

theorem informers_run_while_used_witness:
  "pool_reachable (\<lambda>_ _. Inr pod_client) 10 pod_pool \<and> running (plFactory pod_pool) 0 \<and>
   map_of (faRefCount (plFactory pod_pool)) ''pods.v1'' = Some 1"
  using informers_run_while_used [OF pod_pool_reachable] pod_pool_reachable
  by (auto simp: pod_pool_def pod_subscription_eq subscribers_def shared_at_def)

theorem close_is_safe_witness:
  "\<exists>F'. Close \<lparr>riShared = 0, riWrapper = 0\<rparr> (plFactory pod_pool) = Inr F' \<and> \<not> running F' 0"
proof -
  have "\<lparr>riShared = 0, riWrapper = 0\<rparr> \<in> plOpen pod_pool"
    "subscribers (plOpen pod_pool) 0 = {\<lparr>riShared = 0, riWrapper = 0\<rparr>}"
    by (auto simp: pod_pool_def subscribers_def)
  with close_is_safe [OF pod_pool_reachable this(1)] show ?thesis by auto
qed

theorem handlers_are_separate_witness:
  "\<exists>F'. AddEventHandlerWithResyncPeriod
      (\<lambda>_. \<lparr>GetByKey = \<lambda>_. Inr None, ListAll = \<lambda>_. Inr [pod_a], ListAllByNamespace = \<lambda>_ _. Inr []\<rparr>)
      \<lparr>riShared = 0, riWrapper = 0\<rparr> (7::nat) 5 (plFactory pod_pool) = ([(7, OnUpdate pod_a pod_a)], F') \<and>
    deliver 0 (OnAdd pod_a) F' = [(7, OnAdd pod_a)]"
proof -
  let ?caches = "\<lambda>_ :: nat. \<lparr>GetByKey = \<lambda>_. Inr None, ListAll = \<lambda>_. Inr [pod_a], ListAllByNamespace = \<lambda>_ _. Inr []\<rparr>"
  let ?ri = "\<lparr>riShared = 0, riWrapper = 0\<rparr>"
  obtain evs F' where run: "AddEventHandlerWithResyncPeriod ?caches ?ri 7 5 (plFactory pod_pool) = (evs, F')"
    by fastforce
  have "Lister_List (Lister ?caches (plFactory pod_pool) ?ri) everything = Inr [pod_a]"
    by (simp add: Lister_List_def Lister_def)
  moreover have "riShared ?ri < length (faInformers (plFactory pod_pool))"
    "shHandlers (siHandler (faInformers (plFactory pod_pool) ! riShared ?ri)) = []"
    by (simp_all add: pod_pool_def pod_subscription_eq newSharedResourceInformer_def)
  ultimately have "evs = [(7, OnUpdate pod_a pod_a)]"
    "mset (deliver 0 (OnAdd pod_a) F') = mset (deliver 0 (OnAdd pod_a) (plFactory pod_pool)) + {#(7, OnAdd pod_a)#}"
    using handlers_are_separate [OF _ _ run] by auto
  moreover have "deliver 0 (OnAdd pod_a) (plFactory pod_pool) = []"
    by (simp add: pod_pool_def pod_subscription_eq newSharedResourceInformer_def deliver_def broadcast_def)
  ultimately show ?thesis using run by (auto simp: mset_single_iff)
qed

end
