(* ===== verification/ControllerLoop.thy ===== *)
theory ControllerLoop
  imports Complex_Main Informers Registry
begin

text \<open>
  What the controllers of the repository share: the work queue, the worker and its tick, the
  periods, and the closing of informers. The code repeats these parts in every controller.

  The work queue of client-go is the list of operations made on it. A tick of the worker is
  given the key that the queue hands out, or \<open>None\<close> for a queue that shuts down.
\<close>

section \<open>Periods and workers\<close>

definition second :: int where
  "second = 1000000000"

definition resync_period :: "int \<Rightarrow> int" where
  "resync_period seconds = (let period = seconds * second in if period < second then second else period)"

text \<open>The delay of a resync is cut to nanoseconds.\<close>

definition resync_delay :: "rat \<Rightarrow> int" where
  "resync_delay seconds = floor (seconds * of_int second)"

definition worker_count :: "int \<Rightarrow> int" where
  "worker_count workerCount = (if workerCount \<le> 0 then 5 else workerCount)"

section \<open>The queue\<close>

datatype queue_op = QAdd string | QAddAfter string int | QAddRateLimited string | QForget string | QDone string

record 'w qworld =
  qwWorld :: 'w
  qwQueue :: "queue_op list"

definition enqueue :: "queue_op list \<Rightarrow> 'w qworld \<Rightarrow> 'w qworld" where
  "enqueue ops Q = Q\<lparr>qwQueue := qwQueue Q @ ops\<rparr>"

text \<open>
  One tick. The result says whether the worker goes on; a panic passes through the deferred
  \<open>Done\<close>.
\<close>

definition work_item ::
  "(string \<Rightarrow> 'w qworld \<Rightarrow> gerr option \<times> 'w qworld) \<Rightarrow> string option \<Rightarrow> 'w qworld \<Rightarrow> bool res \<times> 'w qworld" where
  "work_item sync item Q =
     (case item of
        None \<Rightarrow> (Inr False, Q)
      | Some key \<Rightarrow>
          (case sync key Q of
             (None, Q') \<Rightarrow> (Inr True, enqueue [QForget key, QDone key] Q')
           | (Some err, Q') \<Rightarrow>
               if is_panic err then (Inl err, enqueue [QDone key] Q')
               else (Inr True, enqueue [QAddRateLimited key, QDone key] Q')))"

text \<open>A worker, given what the queue hands out one after the other.\<close>

fun work :: "(string option \<Rightarrow> 'st \<Rightarrow> bool res \<times> 'st) \<Rightarrow> string option list \<Rightarrow> 'st \<Rightarrow> unit res \<times> 'st" where
  "work process [] Q = (Inr (), Q)"
| "work process (item # items) Q =
     (case process item Q of
        (Inl p, Q') \<Rightarrow> (Inl p, Q')
      | (Inr True, Q') \<Rightarrow> work process items Q'
      | (Inr False, Q') \<Rightarrow> (Inr (), Q'))"

text \<open>
  A deletion carries an object, or a tombstone that holds an object or something else.
\<close>

datatype deleted = DObject obj | DTombstone "obj option" | DOther

definition deleted_child :: "deleted \<Rightarrow> obj option" where
  "deleted_child d = (case d of DObject x \<Rightarrow> Some x | DTombstone x \<Rightarrow> x | DOther \<Rightarrow> None)"

section \<open>What a worker promises\<close>

text \<open>What a worker does about a key when it is done with it.\<close>

definition settling :: "string \<Rightarrow> bool \<Rightarrow> queue_op list" where
  "settling key ok = [if ok then QForget key else QAddRateLimited key, QDone key]"

fun is_delay :: "queue_op \<Rightarrow> bool" where
  "is_delay (QAddAfter key d) = True"
| "is_delay _ = False"

text \<open>The outcomes of the passes of a worker.\<close>

fun outcomes ::
  "(string option \<Rightarrow> 'st \<Rightarrow> bool res \<times> 'st) \<Rightarrow> (string \<Rightarrow> 'st \<Rightarrow> gerr option \<times> 'st) \<Rightarrow> string list \<Rightarrow> 'st \<Rightarrow> bool list" where
  "outcomes process sync [] Q = []"
| "outcomes process sync (key # keys) Q =
     (fst (sync key Q) = None) # outcomes process sync keys (snd (process (Some key) Q))"

text \<open>
  The contract of a worker: a pass adds only delayed resyncs to the queue, and a tick settles
  the key of its pass.
\<close>

locale settling_worker =
  fixes process :: "string option \<Rightarrow> 'st \<Rightarrow> bool res \<times> 'st"
    and sync :: "string \<Rightarrow> 'st \<Rightarrow> gerr option \<times> 'st"
    and queue :: "'st \<Rightarrow> queue_op list"
  assumes process_settles: "process (Some key) Q = (Inr go, Q') \<Longrightarrow>
      go \<and> (\<exists>mid. queue Q' = queue Q @ mid @ settling key (fst (sync key Q) = None) \<and> list_all is_delay mid)"
begin

lemma no_key_lost:
  "work process (map Some keys) Q = (Inr (), Q') \<Longrightarrow>
   \<exists>ops. queue Q' = queue Q @ ops \<and>
     filter (\<lambda>op. \<not> is_delay op) ops = concat (map2 settling keys (outcomes process sync keys Q))"
proof (induction keys arbitrary: Q)
  case (Cons key keys)
  obtain r Q1 where p: "process (Some key) Q = (r, Q1)" by fastforce
  with Cons.prems obtain go where go: "r = Inr go" by (cases r) auto
  from process_settles [OF p [unfolded go]] obtain mid where go': go and
    mid: "queue Q1 = queue Q @ mid @ settling key (fst (sync key Q) = None)" "list_all is_delay mid"
    by blast
  with Cons.prems p go have "work process (map Some keys) Q1 = (Inr (), Q')" by simp
  from Cons.IH [OF this] obtain ops where ops: "queue Q' = queue Q1 @ ops"
    "filter (\<lambda>op. \<not> is_delay op) ops = concat (map2 settling keys (outcomes process sync keys Q1))"
    by blast
  have "filter (\<lambda>op. \<not> is_delay op) mid = []" using mid(2) by (auto simp: filter_empty_conv list_all_iff)
  moreover have "filter (\<lambda>op. \<not> is_delay op) (settling key ok) = settling key ok" for ok by (simp add: settling_def)
  ultimately show ?case using mid(1) ops p
    by (intro exI [of _ "mid @ settling key (fst (sync key Q) = None) @ ops"]) simp
qed simp

end

lemma work_item_settles:
  assumes "\<And>key Q r Q'. sync key Q = (r, Q') \<Longrightarrow> \<exists>mid. qwQueue Q' = qwQueue Q @ mid \<and> list_all is_delay mid"
    and "work_item sync (Some key) Q = (Inr go, Q')"
  shows "go \<and> (\<exists>mid. qwQueue Q' = qwQueue Q @ mid @ settling key (fst (sync key Q) = None) \<and> list_all is_delay mid)"
proof -
  obtain r Q1 where s: "sync key Q = (r, Q1)" by fastforce
  from assms(1) [OF s] assms(2) s show ?thesis
    by (auto simp: work_item_def settling_def enqueue_def split: option.splits if_splits)
qed

section \<open>Informers of a controller\<close>

text \<open>The informers an attempt has subscribed to are closed when it fails.\<close>

fun close_all :: "resource_informer list \<Rightarrow> 'h factory \<Rightarrow> 'h factory res" where
  "close_all [] F = Inr F"
| "close_all (ri # ris) F =
     (case Close ri F of
        Inl p \<Rightarrow> Inl p
      | Inr F' \<Rightarrow> close_all ris F')"

fun stop_informers :: "resource_informer list \<Rightarrow> 'h factory \<Rightarrow> 'h factory res" where
  "stop_informers [] F = Inr F"
| "stop_informers (ri # ris) F =
     (case Close ri (RemoveEventHandlers ri F) of
        Inl p \<Rightarrow> Inl p
      | Inr F' \<Rightarrow> stop_informers ris F')"

text \<open>
  Handlers are added to informers, with a period of their own if one is given; they are told
  of all cached objects.
\<close>

fun listen ::
  "(nat \<Rightarrow> indexer) \<Rightarrow> int option \<Rightarrow> 'h \<Rightarrow> resource_informer list \<Rightarrow> 'h factory \<Rightarrow> ('h \<times> event) list \<times> 'h factory" where
  "listen caches period handler [] F = ([], F)"
| "listen caches period handler (ri # ris) F =
     (case (case period of None \<Rightarrow> AddEventHandler caches ri handler F
            | Some d \<Rightarrow> AddEventHandlerWithResyncPeriod caches ri handler d F) of
        (evs, F1) \<Rightarrow> (case listen caches period handler ris F1 of (evs', F2) \<Rightarrow> (evs @ evs', F2)))"

text \<open>
  A controller subscribes to its resources one after the other, and stops at the first error. It
  keeps the informers in a map by API version and resource.
\<close>

fun subscribe ::
  "(string \<Rightarrow> string \<Rightarrow> resource_client res) \<Rightarrow> (string \<Rightarrow> string \<Rightarrow> gerr \<Rightarrow> gerr) \<Rightarrow> (string \<times> string) list \<Rightarrow>
   resource_informer gomap \<Rightarrow> 'h factory \<Rightarrow> gerr option \<times> resource_informer gomap \<times> 'h factory" where
  "subscribe getClient failed [] infs F = (None, infs, F)"
| "subscribe getClient failed ((apiVersion, resource) # rules) infs F =
     (case GetOrCreate getClient apiVersion resource F of
        (Inl err, F') \<Rightarrow> (Some (failed apiVersion resource err), infs, F')
      | (Inr ri, F') \<Rightarrow> subscribe getClient failed rules (ResourceInformerRegistrar_Set apiVersion resource ri infs) F')"

text \<open>
  Stopping closes the stop channel, which panics if it is nil or closed, and then the informers.
\<close>

definition stop_controller :: "resource_informer list \<Rightarrow> channel \<times> 'h factory \<Rightarrow> (channel \<times> 'h factory) res" where
  "stop_controller ris s =
     (case s of (ch, F) \<Rightarrow>
      (case ch of
         NilChan \<Rightarrow> Inl (Panic ''close of nil channel'')
       | ClosedChan \<Rightarrow> Inl (Panic ''close of closed channel'')
       | OpenChan \<Rightarrow>
           (case stop_informers ris F of
              Inl p \<Rightarrow> Inl p
            | Inr F' \<Rightarrow> Inr (ClosedChan, F'))))"

text \<open>
  A new subscription is none of those in use; closing several leaves what was there before.
\<close>

lemma GetOrCreate_fresh:
  assumes "pool_ok F opn" and "GetOrCreate getClient av r F = (Inr ri, F')"
  shows "ri \<notin> opn" "pool_ok F' (insert ri opn)"
proof -
  from assms(2) have "riWrapper ri = faNext F" by (elim GetOrCreate_cases) auto
  with pool_okD(2) [OF assms(1), of ri] show "ri \<notin> opn" by auto
qed (rule pool_ok_GetOrCreate [OF assms])

lemma Close_total:
  assumes "pool_ok F opn" and "ri \<in> opn"
  obtains F' where "Close ri F = Inr F'" "pool_ok F' (opn - {ri})"
proof -
  obtain F' where "Close ri F = Inr F'" using Close_open [OF assms] by (auto split: if_splits)
  with pool_ok_Close [OF assms] that show ?thesis by blast
qed

lemma close_all_ok:
  "pool_ok F (opn \<union> set ris) \<Longrightarrow> distinct ris \<Longrightarrow> set ris \<inter> opn = {} \<Longrightarrow>
   \<exists>F'. close_all ris F = Inr F' \<and> pool_ok F' opn"
proof (induction ris arbitrary: F)
  case (Cons ri ris)
  obtain F1 where F1: "Close ri F = Inr F1" "pool_ok F1 (opn \<union> set (ri # ris) - {ri})"
    by (rule Close_total [OF Cons.prems(1), of ri]) auto
  moreover have "opn \<union> set (ri # ris) - {ri} = opn \<union> set ris" using Cons.prems(2,3) by auto
  ultimately show ?case using Cons.IH [of F1] Cons.prems by auto
qed simp

abbreviation resource_key :: "string \<times> string \<Rightarrow> string" where
  "resource_key rule \<equiv> makeKeyFromAPIVersionResource (fst rule) (snd rule)"

lemma subscribe_ok:
  assumes "subscribe getClient failed rules infs F = (e, infs', F')"
    and "pool_ok F (opn \<union> set (map snd infs))" and "distinct (map snd infs)" and "snd ` set infs \<inter> opn = {}"
    and "distinct (map resource_key rules)" and "fst ` set infs \<inter> resource_key ` set rules = {}"
  shows "pool_ok F' (opn \<union> set (map snd infs')) \<and> distinct (map snd infs') \<and> snd ` set infs' \<inter> opn = {} \<and>
    (e = None \<longrightarrow> length infs' = length infs + length rules)"
  using assms
proof (induction rules arbitrary: infs F)
  case (Cons rule rules)
  obtain av r where rule: "rule = (av, r)" by fastforce
  obtain res F1 where g: "GetOrCreate getClient av r F = (res, F1)" by fastforce
  show ?case
  proof (cases res)
    case (Inl err)
    with g have "F1 = F" by (elim GetOrCreate_cases) auto
    with Cons.prems(1) Inl g have "e \<noteq> None" "infs' = infs" "F' = F" by (auto simp: rule)
    with Cons.prems(2-4) show ?thesis by simp
  next
    case (Inr ri)
    let ?infs = "infs @ [(resource_key rule, ri)]"
    from GetOrCreate_fresh [OF Cons.prems(2) g [unfolded Inr]]
    have ri: "ri \<notin> opn" "ri \<notin> snd ` set infs" "pool_ok F1 (insert ri (opn \<union> set (map snd infs)))" by auto
    have "ResourceInformerRegistrar_Set av r ri infs = ?infs"
      using Cons.prems(6) by (simp add: ResourceInformerRegistrar_Set_def rule mput_absent)
    with Cons.prems(1) g Inr have "subscribe getClient failed rules ?infs F1 = (e, infs', F')"
      by (simp add: rule)
    moreover have "opn \<union> set (map snd ?infs) = insert ri (opn \<union> set (map snd infs))" by auto
    with ri have "pool_ok F1 (opn \<union> set (map snd ?infs))" by simp
    moreover have "fst ` set ?infs \<inter> resource_key ` set rules = {}" using Cons.prems(5,6) by auto
    ultimately show ?thesis using Cons.IH [of ?infs F1] Cons.prems(3-5) ri by auto
  qed
qed simp

lemma RemoveEventHandlers_ok:
  assumes "pool_ok F opn"
  shows "pool_ok (RemoveEventHandlers ri F) opn"
proof -
  have "RemoveEventHandlers ri F = with_informer (riShared ri) (\<lambda>si. si\<lparr>siHandler :=
      removeHandlers (riWrapper ri) (siHandler (faInformers F ! riShared ri))\<rparr>) F"
    by (simp add: RemoveEventHandlers_def with_informer_def)
  with pool_ok_handlers [OF assms] show ?thesis by simp
qed

lemma stop_informers_ok:
  "pool_ok F (opn \<union> set ris) \<Longrightarrow> distinct ris \<Longrightarrow> set ris \<inter> opn = {} \<Longrightarrow>
   \<exists>F'. stop_informers ris F = Inr F' \<and> pool_ok F' opn"
proof (induction ris arbitrary: F)
  case (Cons ri ris)
  obtain F1 where F1: "Close ri (RemoveEventHandlers ri F) = Inr F1" "pool_ok F1 (opn \<union> set (ri # ris) - {ri})"
    by (rule Close_total [OF RemoveEventHandlers_ok [OF Cons.prems(1)], of ri ri]) auto
  moreover have "opn \<union> set (ri # ris) - {ri} = opn \<union> set ris" using Cons.prems(2,3) by auto
  ultimately show ?case using Cons.IH [of F1] Cons.prems by auto
qed simp

end
