(* ===== verification/MetaLoop.thy ===== *)
theory MetaLoop
  imports ControllerLoop
begin

text \<open>
  What the three meta-controllers share: a meta-controller keeps a controller running for every
  configuration that is listed. The code repeats these parts in
  \<open>controller/generic/metacontroller.go\<close>, \<open>controller/composite/metacontroller.go\<close> and
  \<open>controller/decorator/metacontroller.go\<close>; here they take what a meta-controller calls of its
  controllers as a record. \<open>Stop\<close> stops the controllers one after the other; the code does it in
  goroutines and waits for all of them.
\<close>

section \<open>The controllers that run\<close>

record ('cfg, 'c, 'h) managed =
  mdKey :: "'cfg \<Rightarrow> string"
  mdNew :: "'cfg \<Rightarrow> 'h factory \<Rightarrow> 'c res \<times> 'h factory"
  mdStart :: "'c \<Rightarrow> 'h factory \<Rightarrow> ('h \<times> event) list \<times> 'h factory"
  mdStop :: "'c \<Rightarrow> channel \<times> 'h factory \<Rightarrow> (channel \<times> 'h factory) res"
  mdConfig :: "'c \<Rightarrow> 'cfg"
  mdSame :: "'cfg \<Rightarrow> 'cfg \<Rightarrow> bool"

text \<open>
  The map of the controllers with their stop channels, the factory they take informers from, and
  what the informers told a controller when its handlers were installed.
\<close>

record ('c, 'h) team =
  tmControllers :: "('c \<times> channel) gomap"
  tmFactory :: "'h factory"
  tmTold :: "(string \<times> 'h \<times> event) list"

definition new_team :: "'h factory \<Rightarrow> ('c, 'h) team" where
  "new_team F = \<lparr>tmControllers = [], tmFactory = F, tmTold = []\<rparr>"

text \<open>Stopping a controller that runs under a key, and removing it from the map; a panic ends it.\<close>

definition remove_controller ::
  "('cfg, 'c, 'h) managed \<Rightarrow> string \<Rightarrow> ('c, 'h) team \<Rightarrow> ('c, 'h) team res" where
  "remove_controller M key T =
     (case map_of (tmControllers T) key of
        None \<Rightarrow> Inr T
      | Some (c, ch) \<Rightarrow>
          (case mdStop M c (ch, tmFactory T) of
             Inl p \<Rightarrow> Inl p
           | Inr (ch', F) \<Rightarrow> Inr (T\<lparr>tmControllers := mdel key (tmControllers T), tmFactory := F\<rparr>)))"

definition add_controller ::
  "('cfg, 'c, 'h) managed \<Rightarrow> 'cfg \<Rightarrow> ('c, 'h) team \<Rightarrow> gerr option \<times> ('c, 'h) team" where
  "add_controller M cfg T =
     (let key = mdKey M cfg in
      case mdNew M cfg (tmFactory T) of
        (Inl err, F) \<Rightarrow> (Some err, T\<lparr>tmFactory := F\<rparr>)
      | (Inr c, F) \<Rightarrow>
          (case mdStart M c F of
             (evs, F') \<Rightarrow> (None, T\<lparr>tmControllers := mput key (c, OpenChan) (tmControllers T), tmFactory := F',
                tmTold := tmTold T @ map (Pair key) evs\<rparr>)))"

definition sync_controller ::
  "('cfg, 'c, 'h) managed \<Rightarrow> 'cfg \<Rightarrow> ('c, 'h) team \<Rightarrow> gerr option \<times> ('c, 'h) team" where
  "sync_controller M cfg T =
     (case map_of (tmControllers T) (mdKey M cfg) of
        None \<Rightarrow> add_controller M cfg T
      | Some (c, ch) \<Rightarrow>
          if mdSame M cfg (mdConfig M c) then (None, T)
          else (case remove_controller M (mdKey M cfg) T of
                  Inl p \<Rightarrow> (Some p, T)
                | Inr T' \<Rightarrow> add_controller M cfg T'))"

text \<open>A sync, given what the lister finds.\<close>

definition sync_listed ::
  "('cfg, 'c, 'h) managed \<Rightarrow> string \<Rightarrow> 'cfg res \<Rightarrow> ('c, 'h) team \<Rightarrow> gerr option \<times> ('c, 'h) team" where
  "sync_listed M key found T =
     (case found of
        Inl err \<Rightarrow>
          if IsNotFound err
          then (case remove_controller M key T of Inl p \<Rightarrow> (Some p, T) | Inr T' \<Rightarrow> (None, T'))
          else (Some err, T)
      | Inr cfg \<Rightarrow> sync_controller M cfg T)"

fun stop_each ::
  "('cfg, 'c, 'h) managed \<Rightarrow> ('c \<times> channel) gomap \<Rightarrow> 'h factory \<Rightarrow> (('c \<times> channel) gomap \<times> 'h factory) res" where
  "stop_each M [] F = Inr ([], F)"
| "stop_each M ((key, c, ch) # cs) F =
     (case mdStop M c (ch, F) of
        Inl p \<Rightarrow> Inl p
      | Inr (ch', F') \<Rightarrow>
          (case stop_each M cs F' of
             Inl p \<Rightarrow> Inl p
           | Inr (cs', F'') \<Rightarrow> Inr ((key, c, ch') # cs', F'')))"

definition stop_all :: "('cfg, 'c, 'h) managed \<Rightarrow> ('c, 'h) team \<Rightarrow> ('c, 'h) team res" where
  "stop_all M T =
     (case stop_each M (tmControllers T) (tmFactory T) of
        Inl p \<Rightarrow> Inl p
      | Inr (cs, F) \<Rightarrow> Inr (T\<lparr>tmControllers := cs, tmFactory := F\<rparr>))"

text \<open>
  \<open>Stop\<close> of a meta-controller closes its own stop channel first, which panics unless it was
  started and not yet stopped. The wait for its worker is left out.
\<close>

definition stop_meta ::
  "('cfg, 'c, 'h) managed \<Rightarrow> channel \<times> ('c, 'h) team \<Rightarrow> (channel \<times> ('c, 'h) team) res" where
  "stop_meta M s =
     (case s of (ch, T) \<Rightarrow>
      (case ch of
         NilChan \<Rightarrow> Inl (Panic ''close of nil channel'')
       | ClosedChan \<Rightarrow> Inl (Panic ''close of closed channel'')
       | OpenChan \<Rightarrow> (case stop_all M T of Inl p \<Rightarrow> Inl p | Inr T' \<Rightarrow> Inr (ClosedChan, T'))))"

section \<open>What the controllers promise\<close>

text \<open>The informers of the controllers that run.\<close>

definition owned :: "('c \<Rightarrow> resource_informer list) \<Rightarrow> ('c \<times> channel) gomap \<Rightarrow> resource_informer list" where
  "owned own cs = concat (map (\<lambda>(key, c, ch). own c) cs)"

lemma owned_simps [simp]:
  "owned own [] = []" "owned own ((key, c, ch) # cs) = own c @ owned own cs" "owned own (cs @ cs') = owned own cs @ owned own cs'"
  by (simp_all add: owned_def)

text \<open>
  The state of a meta-controller: \<open>opn\<close> are the subscriptions of others. Every controller runs
  under the key of its configuration, and the subscriptions in use are those of the others and those
  of the controllers, no two of which share one.
\<close>

definition team_ok ::
  "('cfg, 'c, 'h) managed \<Rightarrow> ('c \<Rightarrow> resource_informer list) \<Rightarrow> resource_informer set \<Rightarrow> ('c, 'h) team \<Rightarrow> bool" where
  "team_ok M own opn T =
     (distinct (mkeys (tmControllers T)) \<and>
      list_all (\<lambda>(key, c, ch). ch = OpenChan \<and> mdKey M (mdConfig M c) = key) (tmControllers T) \<and>
      distinct (owned own (tmControllers T)) \<and> set (owned own (tmControllers T)) \<inter> opn = {} \<and>
      pool_ok (tmFactory T) (opn \<union> set (owned own (tmControllers T))))"

definition configured :: "('cfg, 'c, 'h) managed \<Rightarrow> ('c, 'h) team \<Rightarrow> string \<Rightarrow> 'cfg option" where
  "configured M T key = map_option (\<lambda>(c, ch). mdConfig M c) (map_of (tmControllers T) key)"

lemma team_ok_new: "pool_ok F opn \<Longrightarrow> team_ok M own opn (new_team F)"
  by (simp add: team_ok_def new_team_def)

lemma split_member:
  "map_of cs key = Some v \<Longrightarrow> distinct (mkeys cs) \<Longrightarrow>
   \<exists>as bs. cs = as @ (key, v) # bs \<and> mdel key cs = as @ bs"
proof (induction cs)
  case (Cons a cs)
  show ?case
  proof (cases "fst a = key")
    case True
    with Cons.prems have "map_of cs key = None" by (cases a) (auto simp: map_of_eq_None_iff)
    with True Cons.prems(1) show ?thesis
      by (intro exI [of _ "[]"] exI [of _ cs]) (cases a, simp add: AList.delete_eq mdel_absent [unfolded AList.delete_eq])
  next
    case False
    with Cons obtain as bs where "cs = as @ (key, v) # bs" "mdel key cs = as @ bs" by (cases a) auto
    with False show ?thesis by (intro exI [of _ "a # as"] exI [of _ bs]) (cases a, simp add: AList.delete_eq)
  qed
qed simp

lemma listen_ok: "listen caches period h ris F = (evs, F') \<Longrightarrow> pool_ok F opn \<Longrightarrow> pool_ok F' opn"
proof (induction ris arbitrary: F evs)
  case (Cons ri ris)
  have add: "pool_ok F1 opn" if "AddEventHandlerWithResyncPeriod caches ri h d F = (es, F1)" for d es F1
    using that pool_ok_handlers [OF Cons.prems(2)]
    by (auto simp: AddEventHandlerWithResyncPeriod_def Let_def split: prod.splits)
  from Cons.prems(1) obtain es F1 evs' where "pool_ok F1 opn" "listen caches period h ris F1 = (evs', F')"
    by (auto simp: AddEventHandler_def split: option.splits prod.splits dest: add)
  with Cons.IH show ?case by blast
qed simp

text \<open>
  What a meta-controller can do: sync a key, with whatever its lister finds, which is a
  valid configuration of this key or an error.
\<close>

inductive meta_step ::
  "('cfg, 'c, 'h) managed \<Rightarrow> ('cfg \<Rightarrow> bool) \<Rightarrow> ('c, 'h) team \<Rightarrow> ('c, 'h) team \<Rightarrow> bool" for M valid where
  listed: "(\<And>cfg. found = Inr cfg \<Longrightarrow> valid cfg \<and> mdKey M cfg = key) \<Longrightarrow>
     sync_listed M key found T = (r, T') \<Longrightarrow> meta_step M valid T T'"

text \<open>Several syncs, while the listing stays as it is.\<close>

fun run_syncs :: "(string \<Rightarrow> 'st \<Rightarrow> gerr option \<times> 'st) \<Rightarrow> string list \<Rightarrow> 'st \<Rightarrow> gerr list \<times> 'st" where
  "run_syncs sync [] T = ([], T)"
| "run_syncs sync (key # keys) T =
     (case sync key T of
        (r, T1) \<Rightarrow> (case run_syncs sync keys T1 of
           (errs, T2) \<Rightarrow> (case r of None \<Rightarrow> errs | Some err \<Rightarrow> err # errs, T2)))"

abbreviation sync_keys ::
  "('cfg, 'c, 'h) managed \<Rightarrow> (string \<Rightarrow> 'cfg res) \<Rightarrow> string list \<Rightarrow> ('c, 'h) team \<Rightarrow> gerr list \<times> ('c, 'h) team" where
  "sync_keys M listing \<equiv> run_syncs (\<lambda>key. sync_listed M key (listing key))"

lemma run_syncs_cong:
  "(\<And>key T. key \<in> set keys \<Longrightarrow> sync key T = sync' key T) \<Longrightarrow> run_syncs sync keys T = run_syncs sync' keys T"
  by (induction keys arbitrary: T) (auto split: prod.splits)

definition as_listed :: "('cfg, 'c, 'h) managed \<Rightarrow> (string \<Rightarrow> 'cfg res) \<Rightarrow> ('c, 'h) team \<Rightarrow> string \<Rightarrow> bool" where
  "as_listed M listing T key =
     (case listing key of
        Inl err \<Rightarrow> IsNotFound err \<and> configured M T key = None
      | Inr cfg \<Rightarrow> (\<exists>cfg'. configured M T key = Some cfg' \<and> (cfg' = cfg \<or> mdSame M cfg cfg')))"

text \<open>
  The contract of the controllers: a construction that succeeds takes subscriptions of its own, one
  that fails takes none; installing handlers changes nothing about them; a controller that
  runs gives all of them back when it is stopped.
\<close>

locale managed_controllers =
  fixes M :: "('cfg, 'c, 'h) managed"
    and own :: "'c \<Rightarrow> resource_informer list"
    and valid :: "'cfg \<Rightarrow> bool"
  assumes new_ok: "pool_ok F opn \<Longrightarrow> valid cfg \<Longrightarrow> mdNew M cfg F = (Inr c, F') \<Longrightarrow>
      pool_ok F' (opn \<union> set (own c)) \<and> set (own c) \<inter> opn = {} \<and> distinct (own c) \<and> mdConfig M c = cfg"
    and new_fails: "pool_ok F opn \<Longrightarrow> valid cfg \<Longrightarrow> mdNew M cfg F = (Inl err, F') \<Longrightarrow> pool_ok F' opn"
    and start_ok: "pool_ok F opn \<Longrightarrow> mdStart M c F = (evs, F') \<Longrightarrow> pool_ok F' opn"
    and stop_ok: "pool_ok F (opn \<union> set (own c)) \<Longrightarrow> distinct (own c) \<Longrightarrow> set (own c) \<inter> opn = {} \<Longrightarrow>
      \<exists>F'. mdStop M c (OpenChan, F) = Inr (ClosedChan, F') \<and> pool_ok F' opn"
begin

lemma remove_ok:
  assumes "team_ok M own opn T"
  shows "\<exists>T'. remove_controller M key T = Inr T' \<and> team_ok M own opn T' \<and>
    tmControllers T' = mdel key (tmControllers T) \<and> tmTold T' = tmTold T"
proof (cases "map_of (tmControllers T) key")
  case None
  with assms show ?thesis by (simp add: remove_controller_def mdel_absent)
next
  case (Some v)
  obtain c ch where v: "v = (c, ch)" by fastforce
  from split_member [OF Some] assms obtain as bs where cs: "tmControllers T = as @ (key, c, ch) # bs"
    "mdel key (tmControllers T) = as @ bs"
    by (auto simp: team_ok_def v)
  have ch: "ch = OpenChan" using assms cs(1) by (simp add: team_ok_def)
  let ?opn = "opn \<union> set (owned own (as @ bs))"
  have eq: "opn \<union> set (owned own (tmControllers T)) = ?opn \<union> set (own c)" by (auto simp: cs(1))
  have facts: "distinct (own c)" "set (own c) \<inter> ?opn = {}" "distinct (owned own (as @ bs))"
    "set (owned own (as @ bs)) \<inter> opn = {}" "distinct (mkeys (as @ bs))"
    "list_all (\<lambda>(key, c, ch). ch = OpenChan \<and> mdKey M (mdConfig M c) = key) (as @ bs)"
    using assms by (auto simp: team_ok_def cs(1))
  from assms have "pool_ok (tmFactory T) (?opn \<union> set (own c))" by (simp only: team_ok_def eq)
  from stop_ok [OF this facts(1,2)] obtain F' where "mdStop M c (OpenChan, tmFactory T) = Inr (ClosedChan, F')"
    "pool_ok F' ?opn" by blast
  with Some v ch cs(2) facts(3-6) show ?thesis
    by (simp add: remove_controller_def team_ok_def)
qed

lemma add_ok:
  assumes "team_ok M own opn T" and "valid cfg" and "map_of (tmControllers T) (mdKey M cfg) = None"
    and "add_controller M cfg T = (r, T')"
  shows "team_ok M own opn T' \<and>
    (case r of None \<Rightarrow> \<exists>c. tmControllers T' = tmControllers T @ [(mdKey M cfg, c, OpenChan)] \<and> mdConfig M c = cfg
     | Some err \<Rightarrow> tmControllers T' = tmControllers T)"
proof -
  let ?opn = "opn \<union> set (owned own (tmControllers T))"
  have pool: "pool_ok (tmFactory T) ?opn" using assms(1) by (simp add: team_ok_def)
  obtain res F where new: "mdNew M cfg (tmFactory T) = (res, F)" by fastforce
  show ?thesis
  proof (cases res)
    case (Inl err)
    from new_fails [OF pool assms(2) new [unfolded Inl]] Inl new assms(1,4) show ?thesis
      by (auto simp: add_controller_def team_ok_def)
  next
    case (Inr c)
    obtain evs F' where start: "mdStart M c F = (evs, F')" by fastforce
    from new_ok [OF pool assms(2) new [unfolded Inr]] have c: "pool_ok F (?opn \<union> set (own c))"
      "set (own c) \<inter> ?opn = {}" "distinct (own c)" "mdConfig M c = cfg" by auto
    from start_ok [OF c(1) start] have "pool_ok F' (opn \<union> set (owned own (tmControllers T @ [(mdKey M cfg, c, OpenChan)])))"
      by (simp add: Un_assoc)
    moreover have absent: "mdKey M cfg \<notin> fst ` set (tmControllers T)"
      using assms(3) by (simp add: map_of_eq_None_iff)
    moreover have "r = None" "T' = T\<lparr>tmControllers := tmControllers T @ [(mdKey M cfg, c, OpenChan)], tmFactory := F',
        tmTold := tmTold T @ map (Pair (mdKey M cfg)) evs\<rparr>"
      using assms(4) new Inr start absent by (simp_all add: add_controller_def Let_def mput_absent)
    ultimately show ?thesis using assms(1) c(2-4) by (auto simp: team_ok_def)
  qed
qed

text \<open>What a sync does, whatever it finds.\<close>

lemma sync_ok:
  assumes "team_ok M own opn T" and "\<And>cfg. found = Inr cfg \<Longrightarrow> valid cfg \<and> mdKey M cfg = key"
    and "sync_listed M key found T = (r, T')"
  shows "team_ok M own opn T' \<and>
    (\<forall>k. k \<noteq> key \<longrightarrow> map_of (tmControllers T') k = map_of (tmControllers T) k) \<and>
    (case (found, r) of
       (Inl err, None) \<Rightarrow> IsNotFound err \<and> configured M T' key = None
     | (Inl err, Some e) \<Rightarrow> e = err \<and> \<not> IsNotFound err \<and> T' = T
     | (Inr cfg, None) \<Rightarrow> \<exists>cfg'. configured M T' key = Some cfg' \<and> (cfg' = cfg \<or> T' = T \<and> mdSame M cfg cfg')
     | (Inr cfg, Some e) \<Rightarrow> configured M T' key = None)"
proof (cases found)
  case (Inl err)
  from remove_ok [OF assms(1), of key] obtain T1 where T1: "remove_controller M key T = Inr T1" "team_ok M own opn T1"
    "tmControllers T1 = mdel key (tmControllers T)" by blast
  with Inl assms(1,3) show ?thesis by (auto simp: sync_listed_def configured_def split: if_splits)
next
  case (Inr cfg)
  with assms(2) have cfg: "valid cfg" "mdKey M cfg = key" by auto
  from assms(3) Inr have run: "sync_controller M cfg T = (r, T')" by (simp add: sync_listed_def)
  have added: ?thesis if "team_ok M own opn T1" "map_of (tmControllers T1) key = None"
      "add_controller M cfg T1 = (r, T')" "\<forall>k. k \<noteq> key \<longrightarrow> map_of (tmControllers T1) k = map_of (tmControllers T) k" for T1
    using add_ok [OF that(1) cfg(1) _ that(3)] that(2,4) cfg(2) Inr
    by (cases r) (auto simp: configured_def map_add_def split: option.splits)
  show ?thesis
  proof (cases "map_of (tmControllers T) key")
    case None
    with run cfg(2) have "add_controller M cfg T = (r, T')" by (simp add: sync_controller_def)
    with added [OF assms(1) None] show ?thesis by blast
  next
    case (Some v)
    obtain c ch where v: "v = (c, ch)" by fastforce
    show ?thesis
    proof (cases "mdSame M cfg (mdConfig M c)")
      case True
      with run Some v cfg(2) have "r = None" "T' = T" by (simp_all add: sync_controller_def)
      with assms(1) Inr Some v True show ?thesis by (auto simp: configured_def)
    next
      case False
      from remove_ok [OF assms(1), of key] obtain T1 where T1: "remove_controller M key T = Inr T1" "team_ok M own opn T1"
        "tmControllers T1 = mdel key (tmControllers T)" by blast
      with run Some v cfg(2) False have "add_controller M cfg T1 = (r, T')" by (simp add: sync_controller_def)
      with added [OF T1(2)] T1(3) show ?thesis by auto
    qed
  qed
qed

lemma stop_each_ok:
  "pool_ok F (opn \<union> set (owned own cs)) \<Longrightarrow> distinct (owned own cs) \<Longrightarrow> set (owned own cs) \<inter> opn = {} \<Longrightarrow>
   list_all (\<lambda>(key, c, ch). ch = OpenChan) cs \<Longrightarrow>
   \<exists>F'. stop_each M cs F = Inr (map (\<lambda>(key, c, ch). (key, c, ClosedChan)) cs, F') \<and> pool_ok F' opn"
proof (induction cs arbitrary: F)
  case (Cons a cs)
  obtain key c where a: "a = (key, c, OpenChan)" using Cons.prems(4) by (cases a) auto
  let ?opn = "opn \<union> set (owned own cs)"
  have eq: "opn \<union> set (owned own (a # cs)) = ?opn \<union> set (own c)" by (auto simp: a)
  have "distinct (own c)" "set (own c) \<inter> ?opn = {}" using Cons.prems(2,3) by (auto simp: a)
  from stop_ok [OF Cons.prems(1) [unfolded eq] this] obtain F1 where
    F1: "mdStop M c (OpenChan, F) = Inr (ClosedChan, F1)" "pool_ok F1 ?opn" by blast
  from Cons.IH [OF F1(2)] Cons.prems a F1(1) show ?case by (auto simp: disjoint_iff)
qed simp

lemma stop_all_ok:
  assumes "team_ok M own opn T"
  shows "\<exists>T'. stop_all M T = Inr T' \<and> pool_ok (tmFactory T') opn \<and>
    list_all (\<lambda>(key, c, ch). ch = ClosedChan) (tmControllers T')"
proof -
  have "list_all (\<lambda>(key, c, ch). ch = OpenChan) (tmControllers T)"
    using assms by (auto simp: team_ok_def list_all_iff)
  with stop_each_ok [of "tmFactory T" opn "tmControllers T"] assms obtain F' where
    "stop_each M (tmControllers T) (tmFactory T) = Inr (map (\<lambda>(key, c, ch). (key, c, ClosedChan)) (tmControllers T), F')"
    "pool_ok F' opn" by (auto simp: team_ok_def)
  then show ?thesis by (simp add: stop_all_def list_all_iff split_beta)
qed

lemma steps_ok: "(meta_step M valid)\<^sup>*\<^sup>* T0 T \<Longrightarrow> team_ok M own opn T0 \<Longrightarrow> team_ok M own opn T"
proof (induction rule: rtranclp_induct)
  case (step T T')
  then show ?case using sync_ok by (fastforce elim: meta_step.cases)
qed

text \<open>Syncs without an error bring the controllers to what is listed.\<close>

lemma sync_keys_ok:
  assumes "\<And>key cfg. listing key = Inr cfg \<Longrightarrow> valid cfg \<and> mdKey M cfg = key"
  shows "team_ok M own opn T \<Longrightarrow> sync_keys M listing keys T = (errs, T') \<Longrightarrow>
    team_ok M own opn T' \<and> (\<forall>key. key \<notin> set keys \<longrightarrow> configured M T' key = configured M T key) \<and>
    (errs = [] \<longrightarrow> (\<forall>key \<in> set keys. as_listed M listing T' key))"
proof (induction keys arbitrary: T errs)
  case (Cons key keys)
  obtain r T1 where sync: "sync_listed M key (listing key) T = (r, T1)" by fastforce
  obtain errs1 where rest: "sync_keys M listing keys T1 = (errs1, T')" "errs = (case r of None \<Rightarrow> errs1 | Some err \<Rightarrow> err # errs1)"
    using Cons.prems(2) sync by (auto split: prod.splits)
  have T1: "team_ok M own opn T1" "\<forall>k. k \<noteq> key \<longrightarrow> configured M T1 k = configured M T k"
    "r = None \<longrightarrow> as_listed M listing T1 key"
    using sync_ok [OF Cons.prems(1) assms sync]
    by (auto simp: configured_def as_listed_def split: sum.splits option.splits)
  from Cons.IH [OF T1(1) rest(1)] have IH: "team_ok M own opn T'"
    "\<forall>k. k \<notin> set keys \<longrightarrow> configured M T' k = configured M T1 k"
    "errs1 = [] \<longrightarrow> (\<forall>k \<in> set keys. as_listed M listing T' k)" by blast+
  have "as_listed M listing T' key" if "errs = []"
  proof (cases "key \<in> set keys")
    case False
    with IH(2) have "configured M T' key = configured M T1 key" by blast
    moreover have "as_listed M listing T1 key" using T1(3) rest(2) that by (auto split: option.splits)
    ultimately show ?thesis by (simp only: as_listed_def)
  qed (use IH(3) rest(2) that in \<open>auto split: option.splits\<close>)
  with IH T1(2) rest(2) show ?case by (auto split: option.splits)
qed simp

end

end
