(* ===== verification/Selectors.thy ===== *)
theory Selectors
  imports Objects "HOL-Library.Multiset"
begin

text \<open>
  \<open>controller/common/selector\<close>: how a generic controller decides whether a target resource
  matches its selector terms, with the terms of
  \<open>apis/metacontroller/v1alpha1/selector.go\<close>.

  The functions of apimachinery on label selectors and on label syntax are the fields of a
  record. \<open>label_laws\<close> states what their documentation promises of a selector that is built;
  \<open>std_selectors\<close> is an implementation for which it is proved. The map of an object is never
  nil, so the checks for a nil object and for a nil map are one.
\<close>

section \<open>Selector terms\<close>

record slice_requirement =
  slKey :: string
  slOperator :: string
  slValues :: "string list"

record reference_requirement =
  rqKey :: string
  rqRefKey :: string
  rqOperator :: string

record selector_term =
  MatchSlice :: "string list gomap"
  MatchSliceExpressions :: "slice_requirement list"
  MatchFields :: strmap
  MatchFieldExpressions :: "selector_requirement list"
  MatchReference :: "string list"
  MatchReferenceExpressions :: "reference_requirement list"
  MatchLabels :: strmap
  MatchLabelExpressions :: "selector_requirement list"
  MatchAnnotations :: strmap
  MatchAnnotationExpressions :: "selector_requirement list"

definition SliceSelectorOpEquals :: string where "SliceSelectorOpEquals = ''Equals''"
definition SliceSelectorOpNotEquals :: string where "SliceSelectorOpNotEquals = ''NotEquals''"
definition SliceSelectorOpIn :: string where "SliceSelectorOpIn = ''In''"
definition SliceSelectorOpNotIn :: string where "SliceSelectorOpNotIn = ''NotIn''"

definition ReferenceSelectorOpEquals :: string where "ReferenceSelectorOpEquals = ''Equals''"
definition ReferenceSelectorOpNotEquals :: string where "ReferenceSelectorOpNotEquals = ''NotEquals''"
definition ReferenceSelectorOpEqualsUID :: string where "ReferenceSelectorOpEqualsUID = ''EqualsWatchUID''"
definition ReferenceSelectorOpEqualsName :: string where "ReferenceSelectorOpEqualsName = ''EqualsWatchName''"
definition ReferenceSelectorOpEqualsNamespace :: string where
  "ReferenceSelectorOpEqualsNamespace = ''EqualsWatchNamespace''"

lemmas operator_defs =
  SliceSelectorOpEquals_def SliceSelectorOpNotEquals_def SliceSelectorOpIn_def SliceSelectorOpNotIn_def
  ReferenceSelectorOpEquals_def ReferenceSelectorOpNotEquals_def ReferenceSelectorOpEqualsUID_def
  ReferenceSelectorOpEqualsName_def ReferenceSelectorOpEqualsNamespace_def

text \<open>What the selectors use of apimachinery, next to the label selectors.\<close>

record selector_lib = label_lib +
  IsQualifiedName :: "string \<Rightarrow> string list"
  IsValidLabelValue :: "string \<Rightarrow> string list"
  LabelSelector_String :: "label_selector \<Rightarrow> string"
  selParse :: "string \<Rightarrow> (string \<times> string) res"

definition strs_text :: "string list \<Rightarrow> string" where
  "strs_text xs = ''['' @ join '' '' xs @ '']''"

definition map_text :: "('v \<Rightarrow> string) \<Rightarrow> 'v gomap \<Rightarrow> string" where
  "map_text f m = ''map['' @ join '' '' (map (\<lambda>(k, v). k @ '':'' @ f v) (sort_key fst m)) @ '']''"

section \<open>Label syntax\<close>

definition validateLabelKey :: "'a selector_lib_scheme \<Rightarrow> string \<Rightarrow> gerr option" where
  "validateLabelKey L key =
     (let errs = IsQualifiedName L key in
      if errs \<noteq> []
      then Some (Msg (''Invalid label key '' @ quoted key @ '': ['' @ join ''; '' errs @ '']''))
      else None)"

definition validateLabelValue :: "'a selector_lib_scheme \<Rightarrow> string \<Rightarrow> string \<Rightarrow> gerr option" where
  "validateLabelValue L key val =
     (let errs = IsValidLabelValue L val in
      if errs \<noteq> []
      then Some (Msg (''Invalid label value '' @ quoted val @ '' at key '' @ quoted key @ '': ['' @
        join ''; '' errs @ '']''))
      else None)"

section \<open>Fields of strings\<close>

definition replaceValueStrings :: strmap where
  "replaceValueStrings = [(''/'', ''fwdslash'')]"

definition sanitiseValue :: "string \<Rightarrow> string" where
  "sanitiseValue given =
     (if given = '''' then ''''
      else fold (\<lambda>(old, new) newvalue. replace_all old new newvalue) replaceValueStrings given)"

definition sanitise_requirement :: "selector_requirement \<Rightarrow> selector_requirement" where
  "sanitise_requirement exp =
     \<lparr>srKey = srKey exp, srOperator = srOperator exp,
      srValues = (case srValues exp of [] \<Rightarrow> [] | oldval # vals \<Rightarrow> [sanitiseValue oldval])\<rparr>"

definition sanitiseLabels :: "label_selector \<Rightarrow> label_selector" where
  "sanitiseLabels lbls =
     \<lparr>matchLabels = fold (\<lambda>(key, val) m. mput key (sanitiseValue val) m) (matchLabels lbls) [],
      matchExpressions = map sanitise_requirement (matchExpressions lbls)\<rparr>"

record field_selection =
  fsSelector :: "selector option"
  fieldKeys :: "string list"
  fsErr :: "gerr option"

text \<open>The two loops of \<open>init\<close>: the keys so far, and the error that ends it.\<close>

fun init_labels :: "strmap \<Rightarrow> strmap \<Rightarrow> string list \<Rightarrow> gerr option \<times> string list" where
  "init_labels all [] keys = (None, keys)"
| "init_labels all ((key, val) # m) keys =
     (if key = '''' then (Some (Msg (''Init failed: Missing field key: '' @ map_text id all)), keys)
      else init_labels all m (keys @ [key]))"

definition requirement_text :: "selector_requirement \<Rightarrow> string" where
  "requirement_text exp = ''{Key:'' @ srKey exp @ '' Operator:'' @ srOperator exp @ '' Values:'' @
     strs_text (srValues exp) @ ''}''"

fun init_expressions :: "selector_requirement list \<Rightarrow> string list \<Rightarrow> gerr option \<times> string list" where
  "init_expressions [] keys = (None, keys)"
| "init_expressions (exp # exps) keys =
     (if srKey exp = ''''
      then (Some (Msg (''Init failed: Missing field expression key: '' @ requirement_text exp)), keys)
      else init_expressions exps (keys @ [srKey exp]))"

definition FieldSelection_init ::
  "'a selector_lib_scheme \<Rightarrow> label_selector \<Rightarrow> field_selection \<Rightarrow> field_selection" where
  "FieldSelection_init L lbls s =
     (case init_labels (matchLabels lbls) (matchLabels lbls) (fieldKeys s) of
        (Some err, keys) \<Rightarrow> s\<lparr>fieldKeys := keys, fsErr := Some err\<rparr>
      | (None, keys) \<Rightarrow>
     (case init_expressions (matchExpressions lbls) keys of
        (Some err, keys') \<Rightarrow> s\<lparr>fieldKeys := keys', fsErr := Some err\<rparr>
      | (None, keys') \<Rightarrow>
     (case LabelSelectorAsSelector L lbls of
        Inl err \<Rightarrow> s\<lparr>fieldKeys := keys', fsErr := Some err\<rparr>
      | Inr sel \<Rightarrow> s\<lparr>fieldKeys := keys', fsSelector := Some sel\<rparr>)))"

definition NewFieldSelector :: "'a selector_lib_scheme \<Rightarrow> label_selector \<Rightarrow> field_selection" where
  "NewFieldSelector L lbls =
     FieldSelection_init L (sanitiseLabels lbls) \<lparr>fsSelector = None, fieldKeys = [], fsErr = None\<rparr>"

fun field_labels :: "kube \<Rightarrow> obj \<Rightarrow> string list \<Rightarrow> strmap \<Rightarrow> strmap res" where
  "field_labels K target [] targetLbls = Inr targetLbls"
| "field_labels K target (key # keys) targetLbls =
     (case NestedString K target (split_on (CHR ''.'') key) of
        Inl err \<Rightarrow> Inl (Wrap (''Match failed for key '' @ key @ '': '' @ quoted (GetNamespace K target) @
          '' / '' @ quoted (GetName K target)) err)
      | Inr None \<Rightarrow> field_labels K target keys targetLbls
      | Inr (Some val) \<Rightarrow> field_labels K target keys (mput key (sanitiseValue val) targetLbls))"

definition FieldSelection_Match :: "kube \<Rightarrow> field_selection \<Rightarrow> obj \<Rightarrow> bool res" where
  "FieldSelection_Match K s target =
     (case fsErr s of
        Some err \<Rightarrow> Inl err
      | None \<Rightarrow>
          (case field_labels K target (fieldKeys s) [] of
             Inl err \<Rightarrow> Inl err
           | Inr targetLbls \<Rightarrow>
               (case fsSelector s of None \<Rightarrow> Inl nil_deref | Some sel \<Rightarrow> Inr (selMatches sel targetLbls))))"

section \<open>Slices of strings\<close>

type_synonym key_to_slice = "string list gomap"

fun KeyToSlice_Get :: "key_to_slice \<Rightarrow> string \<Rightarrow> string list" where
  "KeyToSlice_Get [] key = []"
| "KeyToSlice_Get ((k, vals) # s) key = (if k = key then vals else KeyToSlice_Get s key)"

fun KeyToSlice_Has :: "key_to_slice \<Rightarrow> string \<Rightarrow> bool" where
  "KeyToSlice_Has [] key = False"
| "KeyToSlice_Has ((k, vals) # s) key = (if k = key then True else KeyToSlice_Has s key)"

record slice_matcher =
  smKey :: string
  smOperator :: string
  DesiredValues :: "string list"

definition SliceMatcher_String :: string where
  "SliceMatcher_String = ''Slice matcher''"

fun validate_values :: "'a selector_lib_scheme \<Rightarrow> string \<Rightarrow> string list \<Rightarrow> gerr option" where
  "validate_values L key [] = None"
| "validate_values L key (v # vs) =
     (case validateLabelValue L key v of Some err \<Rightarrow> Some err | None \<Rightarrow> validate_values L key vs)"

definition NewSliceMatcher ::
  "'a selector_lib_scheme \<Rightarrow> string \<Rightarrow> string \<Rightarrow> string list \<Rightarrow> slice_matcher res" where
  "NewSliceMatcher L key op desiredValues =
     (if key = '''' then Inl (Msg (SliceMatcher_String @ '': Key can't be empty''))
      else if desiredValues = [] then Inl (Msg (SliceMatcher_String @ '': Values can't be empty''))
      else (case validateLabelKey L key of
              Some err \<Rightarrow> Inl err
            | None \<Rightarrow>
                if op \<notin> {SliceSelectorOpIn, SliceSelectorOpNotIn, SliceSelectorOpEquals, SliceSelectorOpNotEquals}
                then Inl (Msg (SliceMatcher_String @ '': Operator '' @ CHR 0x27 # op @ CHR 0x27 # '' is not recognized''))
                else (case validate_values L key desiredValues of
                        Some err \<Rightarrow> Inl err
                      | None \<Rightarrow> Inr \<lparr>smKey = key, smOperator = op, DesiredValues = desiredValues\<rparr>)))"

definition subsetOfObservedValues :: "slice_matcher \<Rightarrow> string list \<Rightarrow> bool" where
  "subsetOfObservedValues r observedValues =
     (if observedValues = [] \<and> DesiredValues r \<noteq> [] then False
      else (let store = fold (\<lambda>v m. mput v True m) observedValues []
            in list_all (\<lambda>v. map_of store v = Some True) (DesiredValues r)))"

definition equalsObservedValues :: "slice_matcher \<Rightarrow> string list \<Rightarrow> bool" where
  "equalsObservedValues r observedValues =
     (if length observedValues \<noteq> length (DesiredValues r) then False
      else subsetOfObservedValues r observedValues)"

definition SliceMatcher_Match :: "slice_matcher \<Rightarrow> key_to_slice \<Rightarrow> bool" where
  "SliceMatcher_Match r observedKeySlice =
     (let observed = KeyToSlice_Get observedKeySlice (smKey r) in
      if smOperator r = SliceSelectorOpIn then subsetOfObservedValues r observed
      else if smOperator r = SliceSelectorOpEquals then equalsObservedValues r observed
      else if smOperator r = SliceSelectorOpNotIn
      then (if \<not> KeyToSlice_Has observedKeySlice (smKey r) then True else \<not> subsetOfObservedValues r observed)
      else if smOperator r = SliceSelectorOpNotEquals
      then (if \<not> KeyToSlice_Has observedKeySlice (smKey r) then True else \<not> equalsObservedValues r observed)
      else False)"

record slice_selector =
  matchers :: "slice_matcher list"
  matchFn :: "(key_to_slice \<Rightarrow> bool) option"

definition NewSliceSelectorAlwaysTrue :: slice_selector where
  "NewSliceSelectorAlwaysTrue = \<lparr>matchers = [], matchFn = Some (\<lambda>k. True)\<rparr>"

definition SliceSelector_Add :: "slice_matcher \<Rightarrow> slice_selector \<Rightarrow> slice_selector" where
  "SliceSelector_Add m s = s\<lparr>matchers := matchers s @ [m]\<rparr>"

text \<open>Both loops of \<open>NewSliceSelector\<close> are over requirements, given as triples.\<close>

fun add_matchers ::
  "'a selector_lib_scheme \<Rightarrow> (string \<times> string \<times> string list) list \<Rightarrow> slice_selector \<Rightarrow> slice_selector res" where
  "add_matchers L [] selector = Inr selector"
| "add_matchers L ((key, op, vals) # reqs) selector =
     (case NewSliceMatcher L key op vals of
        Inl err \<Rightarrow> Inl err
      | Inr m \<Rightarrow> add_matchers L reqs (SliceSelector_Add m selector))"

definition slice_requirements :: "key_to_slice \<Rightarrow> slice_requirement list \<Rightarrow> (string \<times> string \<times> string list) list" where
  "slice_requirements matchSlice exps =
     map (\<lambda>(k, v). (k, SliceSelectorOpEquals, v)) matchSlice @
     map (\<lambda>expr. (slKey expr, slOperator expr, slValues expr)) exps"

definition NewSliceSelector ::
  "'a selector_lib_scheme \<Rightarrow> key_to_slice \<Rightarrow> slice_requirement list \<Rightarrow> slice_selector res" where
  "NewSliceSelector L matchSlice exps =
     (if length matchSlice + length exps = 0 then Inr NewSliceSelectorAlwaysTrue
      else add_matchers L (slice_requirements matchSlice exps) \<lparr>matchers = [], matchFn = None\<rparr>)"

definition SliceSelector_Match :: "slice_selector \<Rightarrow> key_to_slice \<Rightarrow> bool" where
  "SliceSelector_Match s target =
     (case matchFn s of
        Some f \<Rightarrow> f target
      | None \<Rightarrow> list_all (\<lambda>m. SliceMatcher_Match m target) (matchers s))"

section \<open>References\<close>

definition notFoundValue :: string where
  "notFoundValue = ''some-value-that-should-never-be-used''"

text \<open>\<open>Match\<close> stores the target and the reference before it walks; here they are arguments.\<close>

record reference_selection =
  cfgReference :: "string list"
  cfgExpressions :: "reference_requirement list"
  operatorMapping :: strmap
  targetExpressions :: "selector_requirement list"
  referencePairs :: strmap
  refErr :: "gerr option"

definition NewReferenceSelector :: "string list \<Rightarrow> reference_requirement list \<Rightarrow> reference_selection" where
  "NewReferenceSelector paths exps =
     \<lparr>cfgReference = paths, cfgExpressions = exps,
      operatorMapping =
        [(ReferenceSelectorOpEquals, ''In''), ('''', ''In''), (ReferenceSelectorOpNotEquals, ''NotIn''),
         (ReferenceSelectorOpEqualsUID, ''In''), (ReferenceSelectorOpEqualsName, ''In''),
         (ReferenceSelectorOpEqualsNamespace, ''In'')],
      targetExpressions = [], referencePairs = [], refErr = None\<rparr>"

definition pathToFields :: "string \<Rightarrow> string list" where
  "pathToFields nestedpath =
     map (replace_all ''-@@-'' ''.'')
       (split_on (CHR ''.'') (replace_all [CHR 0x5C, CHR ''.''] ''-@@-'' nestedpath))"

definition path_key :: "string \<Rightarrow> string" where
  "path_key nestedpath = join ''.'' (pathToFields nestedpath)"

text \<open>A value of the target that is not found becomes one that should not occur.\<close>

definition add_target_value ::
  "string \<Rightarrow> string \<Rightarrow> string option \<Rightarrow> reference_selection \<Rightarrow> reference_selection" where
  "add_target_value nestedpath op found s =
     s\<lparr>targetExpressions := targetExpressions s @
        [\<lparr>srKey = path_key nestedpath, srOperator = op,
          srValues = [case found of None \<Rightarrow> notFoundValue | Some v \<Rightarrow> v]\<rparr>]\<rparr>"

definition addTargetExpressionFromPath ::
  "'a selector_lib_scheme \<Rightarrow> kube \<Rightarrow> obj \<Rightarrow> string \<Rightarrow> reference_selection \<Rightarrow> reference_selection" where
  "addTargetExpressionFromPath L K target nestedpath s =
     (if refErr s \<noteq> None then s
      else (case NestedString K target (pathToFields nestedpath) of
              Inl err \<Rightarrow> s\<lparr>refErr := Some (Wrap (''MatchReference failed for path '' @ quoted nestedpath @
                 '' against target '' @ gvk_String (selParse L) K target) err)\<rparr>
            | Inr found \<Rightarrow> add_target_value nestedpath ''In'' found s))"

definition add_reference_value :: "string \<Rightarrow> string \<Rightarrow> reference_selection \<Rightarrow> reference_selection" where
  "add_reference_value nestedpath v s = s\<lparr>referencePairs := mput (path_key nestedpath) v (referencePairs s)\<rparr>"

definition or_empty :: "string option \<Rightarrow> string" where
  "or_empty v = (case v of None \<Rightarrow> '''' | Some s \<Rightarrow> s)"

definition addReferencePairFromPath ::
  "'a selector_lib_scheme \<Rightarrow> kube \<Rightarrow> obj \<Rightarrow> string \<Rightarrow> reference_selection \<Rightarrow> reference_selection" where
  "addReferencePairFromPath L K reference nestedpath s =
     (if refErr s \<noteq> None then s
      else (case NestedString K reference (pathToFields nestedpath) of
              Inl err \<Rightarrow> s\<lparr>refErr := Some (Wrap (''MatchReference failed for path '' @ quoted nestedpath @
                 '' against reference '' @ gvk_String (selParse L) K reference) err)\<rparr>
            | Inr found \<Rightarrow> add_reference_value nestedpath (or_empty found) s))"

definition addTargetExpressionFromExp ::
  "'a selector_lib_scheme \<Rightarrow> kube \<Rightarrow> obj \<Rightarrow> reference_requirement \<Rightarrow> reference_selection \<Rightarrow> reference_selection" where
  "addTargetExpressionFromExp L K target exp s =
     (if refErr s \<noteq> None then s
      else (case NestedString K target (pathToFields (rqKey exp)) of
              Inl err \<Rightarrow> s\<lparr>refErr := Some (Wrap (''MatchReferenceExpressions failed for path '' @ rqKey exp @
                 '' against target '' @ gvk_String (selParse L) K target) err)\<rparr>
            | Inr found \<Rightarrow>
                add_target_value (rqKey exp) (str_index (operatorMapping s) (rqOperator exp)) found s))"

definition validateExpIfRefKey :: "reference_requirement \<Rightarrow> gerr option" where
  "validateExpIfRefKey exp =
     (if rqRefKey exp = '''' then None
      else if rqOperator exp \<in> {ReferenceSelectorOpEqualsName, ReferenceSelectorOpEqualsUID,
                ReferenceSelectorOpEqualsNamespace}
      then Some (Msg (''Invalid MatchReferenceExpressions: Invalid operator '' @ quoted (rqOperator exp) @
             '' with refkey '' @ quoted (rqRefKey exp)))
      else None)"

text \<open>The value of the reference an expression compares with.\<close>

definition reference_value ::
  "'a selector_lib_scheme \<Rightarrow> kube \<Rightarrow> obj \<Rightarrow> reference_requirement \<Rightarrow> string res" where
  "reference_value L K reference exp =
     (let nestedpath = (if rqRefKey exp \<noteq> '''' then rqRefKey exp else rqKey exp) in
      if rqOperator exp \<in> {ReferenceSelectorOpEquals, ReferenceSelectorOpNotEquals, ''''}
      then (case NestedString K reference (pathToFields nestedpath) of
              Inl err \<Rightarrow> Inl (Wrap (''MatchReferenceExpressions failed for path '' @ quoted nestedpath @
                 '' against reference '' @ gvk_String (selParse L) K reference) err)
            | Inr found \<Rightarrow> Inr (or_empty found))
      else if rqOperator exp = ReferenceSelectorOpEqualsName then Inr (GetName K reference)
      else if rqOperator exp = ReferenceSelectorOpEqualsUID then Inr (GetUID K reference)
      else if rqOperator exp = ReferenceSelectorOpEqualsNamespace then Inr (GetNamespace K reference)
      else Inl (Msg (''Invalid MatchReferenceExpressions operator '' @ quoted (rqOperator exp) @ '' for path '' @
             quoted nestedpath)))"

definition addReferencePairFromExp ::
  "'a selector_lib_scheme \<Rightarrow> kube \<Rightarrow> obj \<Rightarrow> reference_requirement \<Rightarrow> reference_selection \<Rightarrow> reference_selection" where
  "addReferencePairFromExp L K reference exp s =
     (if refErr s \<noteq> None then s
      else (case validateExpIfRefKey exp of
              Some err \<Rightarrow> s\<lparr>refErr := Some err\<rparr>
            | None \<Rightarrow>
                (case reference_value L K reference exp of
                   Inl err \<Rightarrow> s\<lparr>refErr := Some err\<rparr>
                 | Inr v \<Rightarrow> add_reference_value (rqKey exp) v s)))"

fun walkExpressions ::
  "'a selector_lib_scheme \<Rightarrow> kube \<Rightarrow> obj \<Rightarrow> obj \<Rightarrow> nat \<Rightarrow> reference_requirement list \<Rightarrow> reference_selection \<Rightarrow>
   reference_selection" where
  "walkExpressions L K target reference idx [] s = s"
| "walkExpressions L K target reference idx (exp # exps) s =
     (if rqKey exp = ''''
      then s\<lparr>refErr := Some (Msg (''Invalid MatchReferenceExpressions: Missing key at '' @ show_nat idx))\<rparr>
      else walkExpressions L K target reference (Suc idx) exps
             (addTargetExpressionFromExp L K target exp (addReferencePairFromExp L K reference exp s)))"

fun walkPaths ::
  "'a selector_lib_scheme \<Rightarrow> kube \<Rightarrow> obj \<Rightarrow> obj \<Rightarrow> nat \<Rightarrow> string list \<Rightarrow> reference_selection \<Rightarrow>
   reference_selection" where
  "walkPaths L K target reference idx [] s = s"
| "walkPaths L K target reference idx (path # paths) s =
     (if path = ''''
      then s\<lparr>refErr := Some (Msg (''Invalid MatchReference: Missing key at '' @ show_nat idx))\<rparr>
      else walkPaths L K target reference (Suc idx) paths
             (addTargetExpressionFromPath L K target path (addReferencePairFromPath L K reference path s)))"

definition reference_match :: "'a selector_lib_scheme \<Rightarrow> reference_selection \<Rightarrow> bool res" where
  "reference_match L s =
     (let targetLbls = \<lparr>matchLabels = [], matchExpressions = targetExpressions s\<rparr> in
      case LabelSelectorAsSelector L targetLbls of
        Inl err \<Rightarrow> Inl (Wrap (''Failed to build target selector from '' @ LabelSelector_String L targetLbls) err)
      | Inr sel \<Rightarrow> Inr (selMatches sel (referencePairs s)))"

text \<open>The walks record an error in the selection, which \<open>Match\<close> tests only before them.\<close>

definition ReferenceSelection_Match ::
  "'a selector_lib_scheme \<Rightarrow> kube \<Rightarrow> reference_selection \<Rightarrow> obj option \<Rightarrow> obj option \<Rightarrow> bool res" where
  "ReferenceSelection_Match L K s target reference =
     (case refErr s of
        Some err \<Rightarrow> Inl err
      | None \<Rightarrow>
     (case target of
        None \<Rightarrow> Inl (Msg ''MatchReference failed: Nil target'')
      | Some t \<Rightarrow>
     (case reference of
        None \<Rightarrow> Inl (Msg ''MatchReference failed: Nil reference'')
      | Some r \<Rightarrow>
          reference_match L
            (walkPaths L K t r 0 (cfgReference s) (walkExpressions L K t r 0 (cfgExpressions s) s)))))"

section \<open>Evaluation of a target\<close>

text \<open>A term is a pointer that may be nil, and so are the target and the reference.\<close>

record evaluation =
  evTarget :: "obj option"
  evTerms :: "selector_term option list"
  evReference :: "obj option"

definition isAnnotationMatch :: "'a selector_lib_scheme \<Rightarrow> kube \<Rightarrow> evaluation \<Rightarrow> selector_term \<Rightarrow> bool res" where
  "isAnnotationMatch L K e term =
     (if length (MatchAnnotations term) + length (MatchAnnotationExpressions term) = 0 then Inr True
      else (case evTarget e of
              None \<Rightarrow> Inl (Msg ''Evaluation failed: Nil target'')
            | Some target \<Rightarrow>
                (let sel = \<lparr>matchLabels = MatchAnnotations term,
                            matchExpressions = MatchAnnotationExpressions term\<rparr> in
                 case LabelSelectorAsSelector L sel of
                   Inl err \<Rightarrow> Inl (Wrap (''Invalid annotation expressions: '' @ LabelSelector_String L sel) err)
                 | Inr annSel \<Rightarrow> Inr (selMatches annSel (mrange (GetAnnotations K target))))))"

definition isLabelMatch :: "'a selector_lib_scheme \<Rightarrow> kube \<Rightarrow> evaluation \<Rightarrow> selector_term \<Rightarrow> bool res" where
  "isLabelMatch L K e term =
     (if length (MatchLabels term) + length (MatchLabelExpressions term) = 0 then Inr True
      else (case evTarget e of
              None \<Rightarrow> Inl (Msg ''Evaluation failed: Nil target'')
            | Some target \<Rightarrow>
                (let sel = \<lparr>matchLabels = MatchLabels term, matchExpressions = MatchLabelExpressions term\<rparr> in
                 case LabelSelectorAsSelector L sel of
                   Inl err \<Rightarrow> Inl (Wrap (''Invalid label expressions: '' @ LabelSelector_String L sel) err)
                 | Inr lblSel \<Rightarrow> Inr (selMatches lblSel (mrange (GetLabels K target))))))"

definition isFieldMatch :: "'a selector_lib_scheme \<Rightarrow> kube \<Rightarrow> evaluation \<Rightarrow> selector_term \<Rightarrow> bool res" where
  "isFieldMatch L K e term =
     (if length (MatchFields term) + length (MatchFieldExpressions term) = 0 then Inr True
      else (case evTarget e of
              None \<Rightarrow> Inl (Msg ''Field match failed: Nil target'')
            | Some target \<Rightarrow>
                FieldSelection_Match K
                  (NewFieldSelector L \<lparr>matchLabels = MatchFields term,
                                       matchExpressions = MatchFieldExpressions term\<rparr>) target))"

text \<open>The actual values of the target: first at the keys of the expressions, then of the map.\<close>

definition slice_requirement_text :: "slice_requirement \<Rightarrow> string" where
  "slice_requirement_text r =
     ''{'' @ slKey r @ '' '' @ slOperator r @ '' '' @ strs_text (slValues r) @ ''}''"

definition slice_config_text :: "key_to_slice \<Rightarrow> slice_requirement list \<Rightarrow> string" where
  "slice_config_text m exps =
     ''{'' @ map_text strs_text m @ '' '' @ strs_text (map slice_requirement_text exps) @ ''}''"

fun expression_slices :: "kube \<Rightarrow> obj \<Rightarrow> slice_requirement list \<Rightarrow> key_to_slice \<Rightarrow> key_to_slice res" where
  "expression_slices K target [] newTarget = Inr newTarget"
| "expression_slices K target (sExp # exps) newTarget =
     (if slKey sExp = ''''
      then Inl (Msg (''Invalid match slice expressions: Missing key: '' @ slice_requirement_text sExp))
      else (case NestedStringSlice K target (split_on (CHR ''.'') (slKey sExp)) of
              Inl err \<Rightarrow> Inl (Wrap (''Match slice expressions failed: Key '' @ slKey sExp) err)
            | Inr vals \<Rightarrow>
                expression_slices K target exps
                  (mput (slKey sExp) (case vals of None \<Rightarrow> [] | Some vs \<Rightarrow> vs) newTarget)))"

fun map_slices :: "kube \<Rightarrow> obj \<Rightarrow> key_to_slice \<Rightarrow> key_to_slice \<Rightarrow> key_to_slice res" where
  "map_slices K target [] newTarget = Inr newTarget"
| "map_slices K target ((key, v) # m) newTarget =
     (if key = '''' then Inl (Msg (''Invalid match slice: Missing key: '' @ key))
      else (case NestedStringSlice K target (split_on (CHR ''.'') key) of
              Inl err \<Rightarrow> Inl (Wrap (''Slice match failed: Key '' @ key) err)
            | Inr vals \<Rightarrow>
                map_slices K target m (mput key (case vals of None \<Rightarrow> [] | Some vs \<Rightarrow> vs) newTarget)))"

definition isSliceMatch :: "'a selector_lib_scheme \<Rightarrow> kube \<Rightarrow> evaluation \<Rightarrow> selector_term \<Rightarrow> bool res" where
  "isSliceMatch L K e term =
     (let m = MatchSlice term; exps = MatchSliceExpressions term in
      if length m + length exps = 0 then Inr True
      else (case evTarget e of
              None \<Rightarrow> Inl (Msg ''Evaluation failed: Nil target'')
            | Some target \<Rightarrow>
                (case NewSliceSelector L m exps of
                   Inl err \<Rightarrow> Inl (Wrap (''Invalid slice expressions: '' @ slice_config_text m exps) err)
                 | Inr sliceSelector \<Rightarrow>
                     (case expression_slices K target exps [] of
                        Inl err \<Rightarrow> Inl err
                      | Inr t1 \<Rightarrow>
                          (case map_slices K target m t1 of
                             Inl err \<Rightarrow> Inl err
                           | Inr newTarget \<Rightarrow> Inr (SliceSelector_Match sliceSelector newTarget))))))"

definition isReferenceMatch :: "'a selector_lib_scheme \<Rightarrow> kube \<Rightarrow> evaluation \<Rightarrow> selector_term \<Rightarrow> bool res" where
  "isReferenceMatch L K e term =
     (if length (MatchReference term) + length (MatchReferenceExpressions term) = 0 then Inr True
      else ReferenceSelection_Match L K
             (NewReferenceSelector (MatchReference term) (MatchReferenceExpressions term))
             (evTarget e) (evReference e))"

text \<open>Within a term the matches are ANDed: how many of them succeed before one fails.\<close>

fun successful :: "(selector_term \<Rightarrow> bool res) list \<Rightarrow> selector_term \<Rightarrow> nat \<Rightarrow> nat res" where
  "successful [] term n = Inr n"
| "successful (f # fs) term n =
     (case f term of
        Inl err \<Rightarrow> Inl err
      | Inr isMatch \<Rightarrow> if \<not> isMatch then Inr n else successful fs term (Suc n))"

definition matchFns ::
  "'a selector_lib_scheme \<Rightarrow> kube \<Rightarrow> evaluation \<Rightarrow> (selector_term \<Rightarrow> bool res) list" where
  "matchFns L K e =
     [isFieldMatch L K e, isAnnotationMatch L K e, isLabelMatch L K e, isSliceMatch L K e, isReferenceMatch L K e]"

text \<open>The terms are ORed.\<close>

fun run_terms :: "(selector_term \<Rightarrow> bool res) list \<Rightarrow> selector_term option list \<Rightarrow> bool res" where
  "run_terms fs [] = Inr False"
| "run_terms fs (None # terms) = run_terms fs terms"
| "run_terms fs (Some t # terms) =
     (case successful fs t 0 of
        Inl err \<Rightarrow> Inl err
      | Inr n \<Rightarrow> if n = length fs then Inr True else run_terms fs terms)"

definition RunMatch :: "'a selector_lib_scheme \<Rightarrow> kube \<Rightarrow> evaluation \<Rightarrow> bool res" where
  "RunMatch L K e =
     (if evTerms e = [] then Inr True
      else (case evTarget e of
              None \<Rightarrow> Inl (Msg ''Evaluation failed: Nil target'')
            | Some target \<Rightarrow> run_terms (matchFns L K e) (evTerms e)))"

section \<open>What label selectors promise\<close>

definition value_holds :: "string option \<Rightarrow> selector_requirement \<Rightarrow> bool" where
  "value_holds found r =
     (if srOperator r = ''In'' then (case found of None \<Rightarrow> False | Some v \<Rightarrow> v \<in> set (srValues r))
      else if srOperator r = ''NotIn'' then (case found of None \<Rightarrow> True | Some v \<Rightarrow> v \<notin> set (srValues r))
      else if srOperator r = ''Exists'' then found \<noteq> None
      else srOperator r = ''DoesNotExist'' \<and> found = None)"

definition labels_hold :: "strmap \<Rightarrow> label_selector \<Rightarrow> bool" where
  "labels_hold ls s =
     (list_all (\<lambda>(k, v). map_of ls k = Some v) (matchLabels s) \<and>
      list_all (\<lambda>r. value_holds (map_of ls (srKey r)) r) (matchExpressions s))"

locale label_laws =
  fixes L :: "'a label_lib_scheme"
  assumes selector_matches: "LabelSelectorAsSelector L s = Inr sel \<Longrightarrow> selMatches sel ls = labels_hold ls s"
    and selector_everything: "\<exists>sel. LabelSelectorAsSelector L \<lparr>matchLabels = [], matchExpressions = []\<rparr> = Inr sel"
begin

lemma everything_matches:
  obtains sel where "LabelSelectorAsSelector L \<lparr>matchLabels = [], matchExpressions = []\<rparr> = Inr sel"
    "\<And>ls. selMatches sel ls"
proof -
  obtain sel where sel: "LabelSelectorAsSelector L \<lparr>matchLabels = [], matchExpressions = []\<rparr> = Inr sel"
    using selector_everything by blast
  then have "selMatches sel ls" for ls
    by (simp add: selector_matches [OF sel] labels_hold_def)
  with sel show ?thesis by (rule that)
qed

end

definition std_requirement_ok :: "selector_requirement \<Rightarrow> bool" where
  "std_requirement_ok r =
     (if srOperator r \<in> {''In'', ''NotIn''} then srValues r \<noteq> []
      else srOperator r \<in> {''Exists'', ''DoesNotExist''} \<and> srValues r = [])"

definition std_selectors :: selector_lib where
  "std_selectors = \<lparr>
     AddLabelToSelector = \<lambda>s k v. s\<lparr>matchLabels := mput k v (matchLabels s)\<rparr>,
     LabelSelectorAsSelector = \<lambda>s.
       if list_all std_requirement_ok (matchExpressions s)
       then Inr \<lparr>selMatches = \<lambda>ls. labels_hold ls s, selEmpty = matchLabels s = [] \<and> matchExpressions s = []\<rparr>
       else Inl (Msg ''not a valid pod selector requirement''),
     marshalField = \<lambda>v. Inr (fmt_v v),
     unmarshalSelector = \<lambda>data s. Inl (Msg ''not decoded''),
     IsQualifiedName = \<lambda>key. if key = '''' then [''name part must be non-empty''] else [],
     IsValidLabelValue = \<lambda>v. if length v > 63 then [''must be no more than 63 characters''] else [],
     LabelSelector_String = \<lambda>s. ''LabelSelector'',
     selParse = \<lambda>s. Inr ('''', s)\<rparr>"

interpretation std_labels: label_laws std_selectors
  by unfold_locales (auto simp: std_selectors_def split: if_splits)

section \<open>Properties of an evaluation\<close>

lemma successful_iff:
  "successful fs t n = Inr m \<Longrightarrow> m \<le> n + length fs \<and> (m = n + length fs \<longleftrightarrow> (\<forall>f \<in> set fs. f t = Inr True))"
proof (induction fs t n rule: successful.induct)
  case (2 f fs t n)
  then show ?case by (cases "f t") (auto split: if_splits)
qed simp

lemma run_terms_iff:
  "run_terms fs ts = Inr b \<Longrightarrow> b \<longleftrightarrow> (\<exists>t. Some t \<in> set ts \<and> (\<forall>f \<in> set fs. f t = Inr True))"
proof (induction fs ts rule: run_terms.induct)
  case (3 fs t ts)
  from "3.prems" obtain n where n: "successful fs t 0 = Inr n"
    by (auto split: sum.splits)
  from successful_iff [OF n] have *: "n = length fs \<longleftrightarrow> (\<forall>f \<in> set fs. f t = Inr True)" by simp
  show ?case
  proof (cases "n = length fs")
    case True
    with "3.prems" n * show ?thesis by auto
  next
    case False
    with 3 n have "b \<longleftrightarrow> (\<exists>t. Some t \<in> set ts \<and> (\<forall>f \<in> set fs. f t = Inr True))" by simp
    with False * show ?thesis by auto
  qed
qed simp_all

text \<open>
  When an evaluation returns without an error, it returns true exactly if it has no terms
  or all five matches of one of its terms, which is not nil, succeed on the target.
\<close>
theorem terms_are_ored:
  assumes "RunMatch L K e = Inr b"
  shows "b \<longleftrightarrow> evTerms e = [] \<or>
    (\<exists>t. Some t \<in> set (evTerms e) \<and> isFieldMatch L K e t = Inr True \<and>
      isAnnotationMatch L K e t = Inr True \<and> isLabelMatch L K e t = Inr True \<and>
      isSliceMatch L K e t = Inr True \<and> isReferenceMatch L K e t = Inr True)"
proof (cases "evTerms e = []")
  case False
  with assms have "run_terms (matchFns L K e) (evTerms e) = Inr b"
    by (auto simp: RunMatch_def split: option.splits)
  from run_terms_iff [OF this] False show ?thesis by (simp add: matchFns_def)
qed (use assms in \<open>simp add: RunMatch_def\<close>)

text \<open>The values of the target's fields that a selection sees.\<close>

definition field_value :: "kube \<Rightarrow> obj \<Rightarrow> string \<Rightarrow> string option" where
  "field_value K x key =
     (case NestedString K x (split_on (CHR ''.'') key) of Inr (Some v) \<Rightarrow> Some (sanitiseValue v) | _ \<Rightarrow> None)"

lemma field_labels_values:
  "field_labels K x keys m = Inr m' \<Longrightarrow>
   map_of m' k = (if k \<in> set keys \<and> field_value K x k \<noteq> None then field_value K x k else map_of m k)"
proof (induction K x keys m rule: field_labels.induct)
  case (2 K x key keys m)
  from "2.prems" obtain found where found: "NestedString K x (split_on (CHR ''.'') key) = Inr found"
    by (auto split: sum.splits)
  show ?case
  proof (cases found)
    case None
    with 2 found show ?thesis by (auto simp: field_value_def)
  next
    case (Some v)
    with 2 found have "field_value K x key = Some (sanitiseValue v)" by (simp add: field_value_def)
    with 2 found Some show ?thesis by auto
  qed
qed simp

lemma init_labels_ok:
  "init_labels a m keys = (None, keys') \<Longrightarrow> keys' = keys @ mkeys m"
  by (induction a m keys rule: init_labels.induct) (auto split: if_splits)

lemma init_expressions_ok:
  "init_expressions exps keys = (None, keys') \<Longrightarrow> keys' = keys @ map srKey exps"
  by (induction exps keys rule: init_expressions.induct) (auto split: if_splits)

lemma fold_mput_distinct:
  "distinct (mkeys (acc @ m)) \<Longrightarrow>
   fold (\<lambda>(key, val) m. mput key (f val) m) m acc = acc @ map (\<lambda>(k, v). (k, f v)) m"
  by (induction m arbitrary: acc) (auto simp: mput_absent)

lemma sanitiseLabels_distinct:
  "distinct (mkeys (matchLabels lbls)) \<Longrightarrow>
   sanitiseLabels lbls = \<lparr>matchLabels = map (\<lambda>(k, v). (k, sanitiseValue v)) (matchLabels lbls),
     matchExpressions = map sanitise_requirement (matchExpressions lbls)\<rparr>"
  by (simp add: sanitiseLabels_def fold_mput_distinct)

lemma value_holds_sanitised:
  "value_holds found (sanitise_requirement r) = value_holds found
     \<lparr>srKey = srKey r, srOperator = srOperator r, srValues = map sanitiseValue (take 1 (srValues r))\<rparr>"
  by (cases "srValues r") (auto simp: sanitise_requirement_def)

lemma sanitise_requirement_key [simp]: "srKey (sanitise_requirement r) = srKey r"
  by (simp add: sanitise_requirement_def)

lemma FieldSelection_Match_init:
  assumes "FieldSelection_Match K (FieldSelection_init L lbls \<lparr>fsSelector = None, fieldKeys = [], fsErr = None\<rparr>) x
    = Inr b"
  obtains sel m where "LabelSelectorAsSelector L lbls = Inr sel"
    "field_labels K x (mkeys (matchLabels lbls) @ map srKey (matchExpressions lbls)) [] = Inr m"
    "b = selMatches sel m"
  using assms
  by (fastforce simp: FieldSelection_Match_def FieldSelection_init_def
      split: prod.splits option.splits sum.splits
      dest!: init_labels_ok init_expressions_ok)

text \<open>
  Matching fields means that every field of the map has, in the target, the value asked
  for up to the replacement of slashes, and that every expression holds of the value of its
  field, of which it looks only at the first of the values it lists.
\<close>
theorem fields_match_values:
  assumes "label_laws L" and "isFieldMatch L K e term = Inr b" and "evTarget e = Some x"
    and "distinct (mkeys (MatchFields term))"
  shows "b \<longleftrightarrow> (\<forall>(k, v) \<in> set (MatchFields term). field_value K x k = Some (sanitiseValue v)) \<and>
    (\<forall>r \<in> set (MatchFieldExpressions term). value_holds (field_value K x (srKey r))
       \<lparr>srKey = srKey r, srOperator = srOperator r, srValues = map sanitiseValue (take 1 (srValues r))\<rparr>)"
proof (cases "length (MatchFields term) + length (MatchFieldExpressions term) = 0")
  case False
  let ?lbls = "\<lparr>matchLabels = map (\<lambda>(k, v). (k, sanitiseValue v)) (MatchFields term),
    matchExpressions = map sanitise_requirement (MatchFieldExpressions term)\<rparr>"
  from assms False obtain sel m where sel: "LabelSelectorAsSelector L ?lbls = Inr sel" and b: "b = selMatches sel m"
    and m: "field_labels K x (mkeys (matchLabels ?lbls) @ map srKey (matchExpressions ?lbls)) [] = Inr m"
    by (auto simp: isFieldMatch_def NewFieldSelector_def sanitiseLabels_distinct
        elim!: FieldSelection_Match_init)
  from field_labels_values [OF m]
  have val: "map_of m k = (if k \<in> fst ` set (MatchFields term) \<union> srKey ` set (MatchFieldExpressions term)
      then field_value K x k else None)" for k
    by (force simp: image_iff)
  have "b \<longleftrightarrow> labels_hold m ?lbls"
    using label_laws.selector_matches [OF assms(1) sel] b by simp
  also have "\<dots> \<longleftrightarrow> (\<forall>(k, v) \<in> set (MatchFields term). map_of m k = Some (sanitiseValue v)) \<and>
      (\<forall>r \<in> set (MatchFieldExpressions term). value_holds (map_of m (srKey r)) (sanitise_requirement r))"
    by (auto simp: labels_hold_def list_all_iff)
  also have "\<dots> \<longleftrightarrow> (\<forall>(k, v) \<in> set (MatchFields term). field_value K x k = Some (sanitiseValue v)) \<and>
      (\<forall>r \<in> set (MatchFieldExpressions term). value_holds (field_value K x (srKey r)) (sanitise_requirement r))"
  proof -
    have "map_of m k = field_value K x k" if "(k, v) \<in> set (MatchFields term)" for k v
    proof -
      from that have "k \<in> fst ` set (MatchFields term)" by (metis fst_conv imageI)
      then show ?thesis by (simp add: val)
    qed
    moreover have "map_of m (srKey r) = field_value K x (srKey r)" if "r \<in> set (MatchFieldExpressions term)" for r
      using that by (simp add: val)
    ultimately show ?thesis by auto
  qed
  finally show ?thesis by (simp only: value_holds_sanitised)
qed (use assms in \<open>simp add: isFieldMatch_def\<close>)

definition sel_pod :: obj where
  "sel_pod = [(''apiVersion'', JStr ''v1''), (''kind'', JStr ''Pod''),
     (''metadata'', JObj [(''name'', JStr ''a''), (''labels'', JObj [(''app'', JStr ''web'')]),
        (''finalizers'', JArr [JStr ''x'', JStr ''y''])]),
     (''spec'', JObj [(''image'', JStr ''org/app'')])]"

definition empty_term :: selector_term where
  "empty_term = \<lparr>MatchSlice = [], MatchSliceExpressions = [], MatchFields = [], MatchFieldExpressions = [],
     MatchReference = [], MatchReferenceExpressions = [], MatchLabels = [], MatchLabelExpressions = [],
     MatchAnnotations = [], MatchAnnotationExpressions = []\<rparr>"

definition image_term :: selector_term where
  "image_term = empty_term\<lparr>MatchFields := [(''spec.image'', ''org/app'')]\<rparr>"

abbreviation pod_evaluation :: "selector_term option list \<Rightarrow> evaluation" where
  "pod_evaluation ts \<equiv> \<lparr>evTarget = Some sel_pod, evTerms = ts, evReference = None\<rparr>"

lemma image_matches: "isFieldMatch std_selectors std_kube (pod_evaluation ts) image_term = Inr True"
  by code_simp

lemma image_term_runs: "RunMatch std_selectors std_kube (pod_evaluation [None, Some image_term]) = Inr True"
  by code_simp

lemma terms_are_ored_witness:
  "\<exists>t. Some t \<in> set [None, Some image_term] \<and>
     isFieldMatch std_selectors std_kube (pod_evaluation [None, Some image_term]) t = Inr True"
  using terms_are_ored [OF image_term_runs] by auto

lemma fields_match_values_witness:
  "field_value std_kube sel_pod ''spec.image'' = Some (sanitiseValue ''org/app'')"
  using fields_match_values [OF std_labels.label_laws_axioms image_matches [of "[]"], of sel_pod]
  by (simp add: image_term_def empty_term_def)

section \<open>Slices\<close>

definition slice_at :: "kube \<Rightarrow> obj \<Rightarrow> string \<Rightarrow> string list" where
  "slice_at K x key =
     (case NestedStringSlice K x (split_on (CHR ''.'') key) of Inr (Some vs) \<Rightarrow> vs | _ \<Rightarrow> [])"

definition same_values :: "string list \<Rightarrow> string list \<Rightarrow> bool" where
  "same_values desired observed = (length observed = length desired \<and> set desired \<subseteq> set observed)"

definition slice_holds :: "string \<Rightarrow> string list \<Rightarrow> string list \<Rightarrow> bool" where
  "slice_holds op desired observed =
     (if op = ''In'' then set desired \<subseteq> set observed
      else if op = ''NotIn'' then \<not> set desired \<subseteq> set observed
      else if op = ''Equals'' then same_values desired observed
      else op = ''NotEquals'' \<and> \<not> same_values desired observed)"

lemma KeyToSlice_Get_map_of: "KeyToSlice_Get s k = (case map_of s k of None \<Rightarrow> [] | Some v \<Rightarrow> v)"
  by (induction s k rule: KeyToSlice_Get.induct) auto

lemma KeyToSlice_Has_map_of: "KeyToSlice_Has s k \<longleftrightarrow> map_of s k \<noteq> None"
  by (induction s k rule: KeyToSlice_Has.induct) auto

lemma value_store: "map_of (fold (\<lambda>v m. mput v True m) vs m) v =
    (if v \<in> set vs then Some True else map_of m v)"
  by (induction vs arbitrary: m) auto

lemma subset_iff: "subsetOfObservedValues r os \<longleftrightarrow> set (DesiredValues r) \<subseteq> set os"
  by (cases os; cases "DesiredValues r") (auto simp: subsetOfObservedValues_def value_store list_all_iff)

lemma equals_iff: "equalsObservedValues r os \<longleftrightarrow> same_values (DesiredValues r) os"
  by (simp add: equalsObservedValues_def same_values_def subset_iff)

lemma NewSliceMatcher_ok:
  "NewSliceMatcher L key op vs = Inr m \<Longrightarrow>
   m = \<lparr>smKey = key, smOperator = op, DesiredValues = vs\<rparr> \<and> vs \<noteq> [] \<and>
   op \<in> {''In'', ''NotIn'', ''Equals'', ''NotEquals''}"
  by (auto simp: NewSliceMatcher_def operator_defs split: if_splits option.splits)

lemma SliceMatcher_Match_iff:
  assumes "NewSliceMatcher L key op vs = Inr m"
  shows "SliceMatcher_Match m s \<longleftrightarrow> slice_holds op vs (KeyToSlice_Get s key)"
  using NewSliceMatcher_ok [OF assms]
  by (auto simp: SliceMatcher_Match_def operator_defs slice_holds_def subset_iff equals_iff
      KeyToSlice_Get_map_of KeyToSlice_Has_map_of same_values_def split: option.splits)

lemma add_matchers_Match:
  "add_matchers L reqs s = Inr s' \<Longrightarrow> matchFn s = None \<Longrightarrow>
   SliceSelector_Match s' t \<longleftrightarrow> SliceSelector_Match s t \<and>
     (\<forall>(key, op, vs) \<in> set reqs. slice_holds op vs (KeyToSlice_Get t key))"
proof (induction L reqs s rule: add_matchers.induct)
  case (2 L key op vs reqs s)
  then obtain m where m: "NewSliceMatcher L key op vs = Inr m"
    by (auto split: sum.splits)
  with 2 show ?case
    by (simp add: SliceSelector_Add_def SliceSelector_Match_def SliceMatcher_Match_iff [OF m])
qed simp

lemma expression_slices_get:
  "expression_slices K x exps t = Inr t' \<Longrightarrow>
   map_of t' k = (if k \<in> slKey ` set exps then Some (slice_at K x k) else map_of t k)"
proof (induction K x exps t rule: expression_slices.induct)
  case (2 K x r exps t)
  then show ?case
    by (auto simp: slice_at_def split: sum.splits option.splits if_splits)
qed simp

lemma map_slices_get:
  "map_slices K x m t = Inr t' \<Longrightarrow>
   map_of t' k = (if k \<in> fst ` set m then Some (slice_at K x k) else map_of t k)"
proof (induction K x m t rule: map_slices.induct)
  case (2 K x key v m t)
  then show ?case
    by (auto simp: slice_at_def split: sum.splits option.splits if_splits)
qed simp

text \<open>
  Matching slices without an error means that every list of the map has as many values
  as the target's list at that key and only values of it, and that the target's list at the
  key of every expression contains all listed values, misses one, or equals them as above or
  not, as its operator says. A missing list is an empty one.
\<close>
theorem slices_match_values:
  assumes "isSliceMatch L K e term = Inr b" and "evTarget e = Some x"
  shows "b \<longleftrightarrow> (\<forall>(k, vs) \<in> set (MatchSlice term). same_values vs (slice_at K x k)) \<and>
    (\<forall>r \<in> set (MatchSliceExpressions term). slice_holds (slOperator r) (slValues r) (slice_at K x (slKey r)))"
proof (cases "length (MatchSlice term) + length (MatchSliceExpressions term) = 0")
  case False
  with assms obtain s t1 t where s: "NewSliceSelector L (MatchSlice term) (MatchSliceExpressions term) = Inr s"
    and t1: "expression_slices K x (MatchSliceExpressions term) [] = Inr t1"
    and t: "map_slices K x (MatchSlice term) t1 = Inr t" and b: "b = SliceSelector_Match s t"
    by (auto simp: isSliceMatch_def Let_def split: sum.splits)
  have get: "KeyToSlice_Get t k = slice_at K x k"
    if "k \<in> fst ` set (MatchSlice term) \<union> slKey ` set (MatchSliceExpressions term)" for k
    using that by (auto simp: KeyToSlice_Get_map_of map_slices_get [OF t] expression_slices_get [OF t1])
  from s False have "add_matchers L (slice_requirements (MatchSlice term) (MatchSliceExpressions term))
      \<lparr>matchers = [], matchFn = None\<rparr> = Inr s"
    by (auto simp: NewSliceSelector_def split: if_splits)
  from add_matchers_Match [OF this, of t] have "SliceSelector_Match s t \<longleftrightarrow>
      (\<forall>(key, op, vs) \<in> set (slice_requirements (MatchSlice term) (MatchSliceExpressions term)).
         slice_holds op vs (KeyToSlice_Get t key))"
    by (simp add: SliceSelector_Match_def [of "\<lparr>matchers = [], matchFn = None\<rparr>"])
  then have "b \<longleftrightarrow>
      (\<forall>(k, vs) \<in> set (MatchSlice term). slice_holds ''Equals'' vs (KeyToSlice_Get t k)) \<and>
      (\<forall>r \<in> set (MatchSliceExpressions term). slice_holds (slOperator r) (slValues r) (KeyToSlice_Get t (slKey r)))"
    by (simp add: b slice_requirements_def ball_Un operator_defs case_prod_beta)
  also have "\<dots> \<longleftrightarrow> (\<forall>(k, vs) \<in> set (MatchSlice term). slice_holds ''Equals'' vs (slice_at K x k)) \<and>
      (\<forall>r \<in> set (MatchSliceExpressions term). slice_holds (slOperator r) (slValues r) (slice_at K x (slKey r)))"
  proof -
    have "KeyToSlice_Get t k = slice_at K x k" if "(k, vs) \<in> set (MatchSlice term)" for k vs
      using that by (metis get UnI1 fst_conv imageI)
    moreover have "KeyToSlice_Get t (slKey r) = slice_at K x (slKey r)" if "r \<in> set (MatchSliceExpressions term)" for r
      using that by (simp add: get)
    ultimately show ?thesis by auto
  qed
  finally show ?thesis by (simp add: slice_holds_def)
qed (use assms in \<open>simp add: isSliceMatch_def Let_def\<close>)

definition finalizers_term :: selector_term where
  "finalizers_term = empty_term\<lparr>MatchSlice := [(''metadata.finalizers'', [''y'', ''x''])]\<rparr>"

lemma slices_match_values_witness:
  "same_values [''y'', ''x''] (slice_at std_kube sel_pod ''metadata.finalizers'')"
proof -
  have "isSliceMatch std_selectors std_kube (pod_evaluation []) finalizers_term = Inr True"
    by code_simp
  from slices_match_values [OF this, of sel_pod] show ?thesis
    by (simp add: finalizers_term_def empty_term_def)
qed

text \<open>
  For desired values without repetition, the equality of slices is equality up to order.
\<close>
theorem equal_slices_are_permutations:
  assumes "distinct (DesiredValues r)"
  shows "equalsObservedValues r observed \<longleftrightarrow> mset observed = mset (DesiredValues r)"
proof
  assume "equalsObservedValues r observed"
  then have len: "length observed = length (DesiredValues r)" and sub: "set (DesiredValues r) \<subseteq> set observed"
    by (auto simp: equals_iff same_values_def)
  have "card (set observed) \<le> card (set (DesiredValues r))"
    by (metis assms card_length distinct_card len)
  with sub have eq: "set observed = set (DesiredValues r)"
    by (metis List.finite_set card_seteq)
  then have "distinct observed"
    by (metis assms card_distinct distinct_card len)
  with assms eq show "mset observed = mset (DesiredValues r)"
    by (simp add: set_eq_iff_mset_eq_distinct)
next
  assume "mset observed = mset (DesiredValues r)"
  then show "equalsObservedValues r observed"
    by (metis equals_iff mset_eq_setD order_refl same_values_def size_mset)
qed

lemma equal_slices_are_permutations_witness:
  "mset [''y'', ''x''] = mset (DesiredValues \<lparr>smKey = ''k'', smOperator = ''Equals'', DesiredValues = [''x'', ''y'']\<rparr>)"
  by (subst equal_slices_are_permutations [symmetric]) (simp, code_simp)

text \<open>Of repeated desired values, only one need be there.\<close>

lemma equality_ignores_repetition:
  "equalsObservedValues \<lparr>smKey = ''k'', smOperator = ''Equals'', DesiredValues = [''x'', ''x'']\<rparr> [''x'', ''y'']"
  by code_simp

section \<open>References\<close>

definition target_value :: "kube \<Rightarrow> obj \<Rightarrow> string \<Rightarrow> string" where
  "target_value K x path =
     (case NestedString K x (pathToFields path) of Inr (Some v) \<Rightarrow> v | _ \<Rightarrow> notFoundValue)"

definition expression_error :: "'a selector_lib_scheme \<Rightarrow> kube \<Rightarrow> obj \<Rightarrow> obj \<Rightarrow> reference_requirement \<Rightarrow> bool" where
  "expression_error L K x r exp =
     (rqKey exp = '''' \<or> validateExpIfRefKey exp \<noteq> None \<or> \<not> isOK (reference_value L K r exp) \<or>
      \<not> isOK (NestedString K x (pathToFields (rqKey exp))))"

definition path_error :: "kube \<Rightarrow> obj \<Rightarrow> obj \<Rightarrow> string \<Rightarrow> bool" where
  "path_error K x r path =
     (path = '''' \<or> \<not> isOK (NestedString K r (pathToFields path)) \<or> \<not> isOK (NestedString K x (pathToFields path)))"

definition target_requirement :: "kube \<Rightarrow> obj \<Rightarrow> string \<times> string \<Rightarrow> selector_requirement" where
  "target_requirement K x = (\<lambda>(path, op). \<lparr>srKey = path_key path, srOperator = op, srValues = [target_value K x path]\<rparr>)"

text \<open>A walk whose steps do not fail collects one requirement and one value per path.\<close>

definition op_of :: "reference_requirement \<Rightarrow> string" where
  "op_of exp = (if rqOperator exp = ReferenceSelectorOpNotEquals then ''NotIn'' else ''In'')"

definition value_of :: "'a selector_lib_scheme \<Rightarrow> kube \<Rightarrow> obj \<Rightarrow> reference_requirement \<Rightarrow> string" where
  "value_of L K r exp = (case reference_value L K r exp of Inl err \<Rightarrow> '''' | Inr v \<Rightarrow> v)"

definition path_value :: "kube \<Rightarrow> obj \<Rightarrow> string \<Rightarrow> string" where
  "path_value K r path = (case NestedString K r (pathToFields path) of Inr (Some v) \<Rightarrow> v | _ \<Rightarrow> '''')"

abbreviation put_all :: "(string \<times> string) list \<Rightarrow> strmap \<Rightarrow> strmap" where
  "put_all \<equiv> fold (\<lambda>(k, v). mput (path_key k) v)"

lemma reference_value_ok:
  "reference_value L K r exp = Inr v \<Longrightarrow>
   str_index (operatorMapping (NewReferenceSelector paths exps)) (rqOperator exp) = op_of exp"
  by (auto simp: reference_value_def NewReferenceSelector_def op_of_def str_index_def operator_defs Let_def
      split: if_splits)

lemma walk_expression:
  assumes "\<not> expression_error L K x r exp" and "refErr s = None"
    and "operatorMapping s = operatorMapping (NewReferenceSelector [] [])"
  shows "addTargetExpressionFromExp L K x exp (addReferencePairFromExp L K r exp s) =
    s\<lparr>targetExpressions := targetExpressions s @ [target_requirement K x (rqKey exp, op_of exp)],
      referencePairs := mput (path_key (rqKey exp)) (value_of L K r exp) (referencePairs s)\<rparr>"
proof -
  from assms(1) obtain v found where v: "reference_value L K r exp = Inr v"
    and found: "NestedString K x (pathToFields (rqKey exp)) = Inr found"
    by (auto simp: expression_error_def isOK_iff)
  have "(case found of None \<Rightarrow> notFoundValue | Some v \<Rightarrow> v) = target_value K x (rqKey exp)"
    by (cases found) (simp_all add: target_value_def found)
  with assms v found reference_value_ok [OF v, of "[]" "[]"] show ?thesis
    by (simp add: addTargetExpressionFromExp_def addReferencePairFromExp_def add_reference_value_def
        expression_error_def add_target_value_def target_requirement_def value_of_def)
qed

lemma walkExpressions_ok:
  assumes "\<forall>exp \<in> set exps. \<not> expression_error L K x r exp" and "refErr s = None"
    and "operatorMapping s = operatorMapping (NewReferenceSelector [] [])"
  shows "walkExpressions L K x r idx exps s =
    s\<lparr>targetExpressions := targetExpressions s @ map (target_requirement K x) (map (\<lambda>e. (rqKey e, op_of e)) exps),
      referencePairs := put_all (map (\<lambda>e. (rqKey e, value_of L K r e)) exps) (referencePairs s)\<rparr>"
  using assms
proof (induction exps arbitrary: idx s)
  case (Cons exp exps)
  then have "rqKey exp \<noteq> ''''" by (auto simp: expression_error_def)
  with Cons show ?case
    by (simp add: walk_expression)
qed simp

lemma walk_path:
  assumes "\<not> path_error K x r path" and "refErr s = None"
  shows "addTargetExpressionFromPath L K x path (addReferencePairFromPath L K r path s) =
    s\<lparr>targetExpressions := targetExpressions s @ [target_requirement K x (path, ''In'')],
      referencePairs := mput (path_key path) (path_value K r path) (referencePairs s)\<rparr>"
proof -
  from assms(1) obtain v found where v: "NestedString K r (pathToFields path) = Inr v"
    and found: "NestedString K x (pathToFields path) = Inr found"
    by (auto simp: path_error_def isOK_iff)
  have "(case found of None \<Rightarrow> notFoundValue | Some v \<Rightarrow> v) = target_value K x path"
    by (cases found) (simp_all add: target_value_def found)
  moreover have "or_empty v = path_value K r path"
    by (cases v) (simp_all add: or_empty_def path_value_def \<open>NestedString K r (pathToFields path) = Inr v\<close>)
  ultimately show ?thesis using assms v found
    by (simp add: addTargetExpressionFromPath_def addReferencePairFromPath_def add_reference_value_def
        add_target_value_def target_requirement_def)
qed

lemma walkPaths_ok:
  assumes "\<forall>path \<in> set paths. \<not> path_error K x r path" and "refErr s = None"
  shows "walkPaths L K x r idx paths s =
    s\<lparr>targetExpressions := targetExpressions s @ map (target_requirement K x) (map (\<lambda>p. (p, ''In'')) paths),
      referencePairs := put_all (map (\<lambda>p. (p, path_value K r p)) paths) (referencePairs s)\<rparr>"
  using assms
proof (induction paths arbitrary: idx s)
  case (Cons path paths)
  then have "path \<noteq> ''''" by (auto simp: path_error_def)
  with Cons show ?case by (simp add: walk_path)
qed simp

lemma put_all_get:
  assumes "distinct (map path_key (map fst es))" and "(k, v) \<in> set es"
  shows "map_of (put_all es m) (path_key k) = Some v"
proof -
  have other: "map_of (put_all es m) key = map_of m key" if "key \<notin> (\<lambda>e. path_key (fst e)) ` set es" for es m key
    using that by (induction es arbitrary: m) auto
  show ?thesis using assms
    by (induction es arbitrary: m) (auto simp: other comp_def)
qed

text \<open>
  When no step of the walks fails and the expressions and paths have keys of their own,
  a target matches a reference exactly if for every expression the value of the target at its
  key is the value of the reference it names, or differs from it for \<open>NotEquals\<close>, and the
  values at every path are equal. A value the target does not have is a fixed text.
\<close>
theorem reference_match_compares:
  assumes "label_laws L"
    and "ReferenceSelection_Match L K (NewReferenceSelector paths exps) (Some x) (Some r) = Inr b"
    and "\<forall>exp \<in> set exps. \<not> expression_error L K x r exp" and "\<forall>p \<in> set paths. \<not> path_error K x r p"
    and "distinct (map path_key (map rqKey exps @ paths))"
  shows "b \<longleftrightarrow> (\<forall>exp \<in> set exps. (target_value K x (rqKey exp) = value_of L K r exp) \<longleftrightarrow>
      rqOperator exp \<noteq> ReferenceSelectorOpNotEquals) \<and>
    (\<forall>p \<in> set paths. target_value K x p = path_value K r p)"
proof -
  let ?reqs = "map (\<lambda>e. (rqKey e, op_of e)) exps @ map (\<lambda>p. (p, ''In'')) paths"
  let ?es = "map (\<lambda>e. (rqKey e, value_of L K r e)) exps @ map (\<lambda>p. (p, path_value K r p)) paths"
  let ?sel = "\<lparr>matchLabels = [], matchExpressions = map (target_requirement K x) ?reqs\<rparr>"
  let ?m = "put_all ?es []"
  have "ReferenceSelection_Match L K (NewReferenceSelector paths exps) (Some x) (Some r) =
      reference_match L ((NewReferenceSelector paths exps)\<lparr>targetExpressions := map (target_requirement K x) ?reqs,
        referencePairs := ?m\<rparr>)"
    by (simp add: ReferenceSelection_Match_def NewReferenceSelector_def walkExpressions_ok [OF assms(3)]
        walkPaths_ok [OF assms(4)])
  with assms(2) obtain sel where sel: "LabelSelectorAsSelector L ?sel = Inr sel" and b: "b = selMatches sel ?m"
    by (auto simp: reference_match_def Let_def split: sum.splits)
  have get: "map_of ?m (path_key k) = Some v" if "(k, v) \<in> set ?es" for k v
    using that by (rule put_all_get [rotated]) (use assms(5) in \<open>simp add: comp_def\<close>)
  have "b \<longleftrightarrow> (\<forall>q \<in> set ?reqs. value_holds (map_of ?m (path_key (fst q))) (target_requirement K x q))"
    unfolding b label_laws.selector_matches [OF assms(1) sel]
    by (simp add: labels_hold_def list_all_iff target_requirement_def case_prod_beta ball_Un)
  also have "\<dots> \<longleftrightarrow> (\<forall>exp \<in> set exps. value_holds (Some (value_of L K r exp)) (target_requirement K x (rqKey exp, op_of exp))) \<and>
      (\<forall>p \<in> set paths. value_holds (Some (path_value K r p)) (target_requirement K x (p, ''In'')))"
  proof -
    have "map_of ?m (path_key (rqKey e)) = Some (value_of L K r e)" if "e \<in> set exps" for e
      by (rule get) (use that in auto)
    moreover have "map_of ?m (path_key p) = Some (path_value K r p)" if "p \<in> set paths" for p
      by (rule get) (use that in auto)
    ultimately show ?thesis by (simp add: ball_Un)
  qed
  finally show ?thesis
    by (auto simp: value_holds_def target_requirement_def op_of_def)
qed

definition owner_requirement :: reference_requirement where
  "owner_requirement = \<lparr>rqKey = ''metadata.labels.app'', rqRefKey = '''', rqOperator = ReferenceSelectorOpEqualsName\<rparr>"

definition web :: obj where
  "web = [(''apiVersion'', JStr ''v1''), (''kind'', JStr ''Service''), (''metadata'', JObj [(''name'', JStr ''web'')])]"

lemma reference_match_compares_witness:
  "target_value std_kube sel_pod ''metadata.labels.app'' = value_of std_selectors std_kube web owner_requirement"
proof -
  have run: "ReferenceSelection_Match std_selectors std_kube (NewReferenceSelector [''apiVersion''] [owner_requirement])
      (Some sel_pod) (Some web) = Inr True"
    by code_simp
  have ok: "\<forall>exp \<in> set [owner_requirement]. \<not> expression_error std_selectors std_kube sel_pod web exp"
    "\<forall>p \<in> set [''apiVersion'']. \<not> path_error std_kube sel_pod web p"
    "distinct (map path_key (map rqKey [owner_requirement] @ [''apiVersion'']))"
    by code_simp+
  from reference_match_compares [OF std_labels.label_laws_axioms run ok] show ?thesis
    by (simp add: owner_requirement_def operator_defs)
qed

text \<open>After an error the walks add nothing to what is compared.\<close>

lemma frozen_expressions:
  "refErr s \<noteq> None \<Longrightarrow>
   targetExpressions (walkExpressions L K x r idx exps s) = targetExpressions s \<and>
   refErr (walkExpressions L K x r idx exps s) \<noteq> None"
  by (induction L K x r idx exps s rule: walkExpressions.induct)
    (auto simp: addTargetExpressionFromExp_def addReferencePairFromExp_def)

lemma frozen_paths:
  "refErr s \<noteq> None \<Longrightarrow> targetExpressions (walkPaths L K x r idx paths s) = targetExpressions s"
  by (induction L K x r idx paths s rule: walkPaths.induct)
    (auto simp: addTargetExpressionFromPath_def addReferencePairFromPath_def)

lemma failed_expression:
  assumes "expression_error L K x r exp" and "rqKey exp \<noteq> ''''" and "refErr s = None"
  shows "refErr (addTargetExpressionFromExp L K x exp (addReferencePairFromExp L K r exp s)) \<noteq> None \<and>
    targetExpressions (addTargetExpressionFromExp L K x exp (addReferencePairFromExp L K r exp s)) =
      targetExpressions s"
  using assms
  by (auto simp: expression_error_def addTargetExpressionFromExp_def addReferencePairFromExp_def isOK_iff
      add_reference_value_def split: option.splits sum.splits)

text \<open>
  When the first reference expression is invalid or cannot be read, no error is returned
  and the target matches, whatever the other expressions and paths are.
\<close>
theorem failed_reference_matches:
  assumes "label_laws L" and "expression_error L K x r exp"
  shows "ReferenceSelection_Match L K (NewReferenceSelector paths (exp # exps)) (Some x) (Some r) = Inr True"
proof -
  let ?s = "NewReferenceSelector paths (exp # exps)"
  let ?w = "walkExpressions L K x r 0 (exp # exps) ?s"
  have new: "refErr ?s = None" "targetExpressions ?s = []" "cfgExpressions ?s = exp # exps" "cfgReference ?s = paths"
    by (simp_all add: NewReferenceSelector_def)
  have "refErr ?w \<noteq> None \<and> targetExpressions ?w = []"
  proof (cases "rqKey exp = ''''")
    case False
    with failed_expression [OF assms(2) False new(1)] new show ?thesis by (simp add: frozen_expressions)
  qed (simp add: new)
  then have walked: "targetExpressions (walkPaths L K x r 0 paths ?w) = []"
    by (simp add: frozen_paths)
  from label_laws.everything_matches [OF assms(1)] obtain sel where
    "LabelSelectorAsSelector L \<lparr>matchLabels = [], matchExpressions = []\<rparr> = Inr sel" "\<And>ls. selMatches sel ls"
    by blast
  with walked new show ?thesis
    by (simp add: ReferenceSelection_Match_def reference_match_def)
qed

definition misspelt_requirement :: reference_requirement where
  "misspelt_requirement = \<lparr>rqKey = ''metadata.name'', rqRefKey = '''', rqOperator = ''equals''\<rparr>"

lemma failed_reference_matches_witness:
  "ReferenceSelection_Match std_selectors std_kube
     (NewReferenceSelector [''metadata.namespace''] [misspelt_requirement, owner_requirement])
     (Some sel_pod) (Some web) = Inr True"
  by (rule failed_reference_matches [OF std_labels.label_laws_axioms]) code_simp

end
