(* ===== verification/Selection.thy ===== *)
theory Selection
  imports Selectors Discovery Registry
begin

text \<open>
  \<open>controller/generic/selector.go\<close>: the selectors of a generic controller for its watch and
  for its attachments, registered by API version and kind, with the types of
  \<open>apis/metacontroller/v1alpha1/types_generic.go\<close> and \<open>nameselector.go\<close> they are made from.
\<close>

section \<open>Resources of a generic controller\<close>

record annotation_selector =
  asMatchAnnotations :: strmap
  asMatchExpressions :: "selector_requirement list"

record gctl_resource =
  grAPIVersion :: string
  grResource :: string
  grNameSelector :: "string list option"
  grLabelSelector :: "label_selector option"
  grAnnotationSelector :: "annotation_selector option"
  grAdvancedSelector :: "selector_term option list option"

record attachment_strategy =
  asMethod :: string
  asPatch :: "bool option"

record gctl_attachment = gctl_resource +
  gaUpdateStrategy :: "attachment_strategy option"

fun NameSelector_Contains :: "string list \<Rightarrow> string \<Rightarrow> bool" where
  "NameSelector_Contains [] search = False"
| "NameSelector_Contains (name # s) search = (if name = search then True else NameSelector_Contains s search)"

definition ContainsOrTrue :: "string list \<Rightarrow> string \<Rightarrow> bool" where
  "ContainsOrTrue s search = (if length s = 0 then True else NameSelector_Contains s search)"

section \<open>Registrars\<close>

definition makeSelectorKeyFromAVK :: "string \<Rightarrow> string \<Rightarrow> string" where
  "makeSelectorKeyFromAVK apiVersion kind = kind @ ''.'' @ apiVersion"

definition NameSelector_Set :: "string \<Rightarrow> string \<Rightarrow> string list \<Rightarrow> string list gomap \<Rightarrow> string list gomap" where
  "NameSelector_Set apiVersion kind s m = mput (makeSelectorKeyFromAVK apiVersion kind) s m"

definition NameSelector_Get :: "string list gomap \<Rightarrow> string \<Rightarrow> string \<Rightarrow> string list option" where
  "NameSelector_Get m apiVersion kind = map_of m (makeSelectorKeyFromAVK apiVersion kind)"

definition LabelSelector_Set :: "string \<Rightarrow> string \<Rightarrow> selector \<Rightarrow> selector gomap \<Rightarrow> selector gomap" where
  "LabelSelector_Set apiVersion kind s m = mput (makeSelectorKeyFromAVK apiVersion kind) s m"

definition LabelSelector_Get :: "selector gomap \<Rightarrow> string \<Rightarrow> string \<Rightarrow> selector option" where
  "LabelSelector_Get m apiVersion kind = map_of m (makeSelectorKeyFromAVK apiVersion kind)"

definition AnnotationSelector_Set :: "string \<Rightarrow> string \<Rightarrow> selector \<Rightarrow> selector gomap \<Rightarrow> selector gomap" where
  "AnnotationSelector_Set apiVersion kind s m = mput (makeSelectorKeyFromAVK apiVersion kind) s m"

definition AnnotationSelector_Get :: "selector gomap \<Rightarrow> string \<Rightarrow> string \<Rightarrow> selector option" where
  "AnnotationSelector_Get m apiVersion kind = map_of m (makeSelectorKeyFromAVK apiVersion kind)"

definition AdvancedSelector_Set :: "string \<Rightarrow> string \<Rightarrow> evaluation \<Rightarrow> evaluation gomap \<Rightarrow> evaluation gomap" where
  "AdvancedSelector_Set apiVersion kind s m = mput (makeSelectorKeyFromAVK apiVersion kind) s m"

definition AdvancedSelector_Get :: "evaluation gomap \<Rightarrow> string \<Rightarrow> string \<Rightarrow> evaluation option" where
  "AdvancedSelector_Get m apiVersion kind = map_of m (makeSelectorKeyFromAVK apiVersion kind)"

record selection =
  nameSelectorReg :: "string list gomap"
  labelSelectorReg :: "selector gomap"
  annotationSelectorReg :: "selector gomap"
  advancedSelectorReg :: "evaluation gomap"

section \<open>Registration\<close>

definition isDuplicateResource :: "selection \<Rightarrow> api_resource \<Rightarrow> bool" where
  "isDuplicateResource s object =
     list_ex (\<lambda>avk. avk = makeSelectorKeyFromAVK (rAPIVersion object) (rKind object)) (mkeys (nameSelectorReg s))"

text \<open>\<open>labels.Everything()\<close>, which matches all labels and is empty.\<close>

definition everything_selector :: selector where
  "everything_selector = \<lparr>selMatches = \<lambda>ls. True, selEmpty = True\<rparr>"

definition setLabelSelectorOrEverything ::
  "'a selector_lib_scheme \<Rightarrow> 'b gctl_resource_scheme \<Rightarrow> api_resource \<Rightarrow> selection \<Rightarrow> gerr option \<times> selection" where
  "setLabelSelectorOrEverything L r api s =
     (let put = (\<lambda>sel. s\<lparr>labelSelectorReg :=
            LabelSelector_Set (rAPIVersion api) (rKind api) sel (labelSelectorReg s)\<rparr>) in
      case grLabelSelector r of
        None \<Rightarrow> (None, put everything_selector)
      | Some ls \<Rightarrow>
          (case LabelSelectorAsSelector L ls of
             Inl err \<Rightarrow> (Some (Wrap (''Label selector failed: '' @ quoted (grResource r) @ '': Version '' @
               quoted (grAPIVersion r)) err), s)
           | Inr sel \<Rightarrow> (None, put sel)))"

definition setAnnotationSelectorOrEverything ::
  "'a selector_lib_scheme \<Rightarrow> 'b gctl_resource_scheme \<Rightarrow> api_resource \<Rightarrow> selection \<Rightarrow> gerr option \<times> selection" where
  "setAnnotationSelectorOrEverything L r api s =
     (let put = (\<lambda>sel. s\<lparr>annotationSelectorReg :=
            AnnotationSelector_Set (rAPIVersion api) (rKind api) sel (annotationSelectorReg s)\<rparr>) in
      case grAnnotationSelector r of
        None \<Rightarrow> (None, put everything_selector)
      | Some a \<Rightarrow>
          (case LabelSelectorAsSelector L
                  \<lparr>matchLabels = asMatchAnnotations a, matchExpressions = asMatchExpressions a\<rparr> of
             Inl err \<Rightarrow> (Some (Wrap (''Annotation selector failed: '' @ quoted (grResource r) @ '': Version '' @
               quoted (grAPIVersion r)) err), s)
           | Inr sel \<Rightarrow> (None, put sel)))"

definition setNameSelectorOrEverything ::
  "'b gctl_resource_scheme \<Rightarrow> api_resource \<Rightarrow> selection \<Rightarrow> gerr option \<times> selection" where
  "setNameSelectorOrEverything r api s =
     (let nameSelector = (case grNameSelector r of None \<Rightarrow> [] | Some names \<Rightarrow> names) in
      (None, s\<lparr>nameSelectorReg :=
         NameSelector_Set (rAPIVersion api) (rKind api) nameSelector (nameSelectorReg s)\<rparr>))"

definition setAdvancedSelectorOrEverything ::
  "'b gctl_resource_scheme \<Rightarrow> api_resource \<Rightarrow> selection \<Rightarrow> gerr option \<times> selection" where
  "setAdvancedSelectorOrEverything r api s =
     (let terms = (case grAdvancedSelector r of None \<Rightarrow> [] | Some ts \<Rightarrow> ts) in
      (None, s\<lparr>advancedSelectorReg := AdvancedSelector_Set (rAPIVersion api) (rKind api)
         \<lparr>evTarget = None, evTerms = terms, evReference = None\<rparr> (advancedSelectorReg s)\<rparr>))"

fun run_setters :: "(selection \<Rightarrow> gerr option \<times> selection) list \<Rightarrow> selection \<Rightarrow> gerr option \<times> selection" where
  "run_setters [] s = (None, s)"
| "run_setters (setter # setters) s =
     (case setter s of
        (Some err, s') \<Rightarrow> (Some (Wrap ''Selector init failed'' err), s')
      | (None, s') \<Rightarrow> run_setters setters s')"

definition register ::
  "'a selector_lib_scheme \<Rightarrow> discovery option \<Rightarrow> 'b gctl_resource_scheme \<Rightarrow> selection \<Rightarrow> gerr option \<times> selection" where
  "register L discoveryMgr r s =
     (case discoveryMgr of
        None \<Rightarrow> (Some (Msg ''Selector init failed: Nil api resource discovery manager''), s)
      | Some d \<Rightarrow>
          if grAPIVersion r = ''''
          then (Some (Msg ''Selector init failed: Missing gctl resource api version''), s)
          else if grResource r = ''''
          then (Some (Msg ''Selector init failed: Missing gctl resource name''), s)
          else (case GetAPIForAPIVersionAndResource d (grAPIVersion r) (grResource r) of
                  None \<Rightarrow> (Some (Msg (''Selector init failed: Can't find '' @ quoted (grResource r) @ '': Version '' @
                    quoted (grAPIVersion r))), s)
                | Some api \<Rightarrow>
                    if isDuplicateResource s api
                    then (Some (Msg (''Selector init failed: Duplicate resource '' @ quoted (grResource r) @
                      '': Version '' @ quoted (grAPIVersion r))), s)
                    else run_setters
                           [setLabelSelectorOrEverything L r api, setAnnotationSelectorOrEverything L r api,
                            setNameSelectorOrEverything r api, setAdvancedSelectorOrEverything r api] s))"

definition selection_init :: selection where
  "selection_init =
     \<lparr>nameSelectorReg = [], labelSelectorReg = [], annotationSelectorReg = [], advancedSelectorReg = []\<rparr>"

definition NewSelectorForWatch ::
  "'a selector_lib_scheme \<Rightarrow> discovery option \<Rightarrow> 'b gctl_resource_scheme \<Rightarrow> selection res" where
  "NewSelectorForWatch L d watch =
     (case register L d watch selection_init of (Some err, s) \<Rightarrow> Inl err | (None, s) \<Rightarrow> Inr s)"

fun register_all ::
  "'a selector_lib_scheme \<Rightarrow> discovery option \<Rightarrow> 'b gctl_resource_scheme list \<Rightarrow> selection \<Rightarrow> selection res" where
  "register_all L d [] s = Inr s"
| "register_all L d (a # attachments) s =
     (case register L d a s of (Some err, s') \<Rightarrow> Inl err | (None, s') \<Rightarrow> register_all L d attachments s')"

definition NewSelectorForAttachments ::
  "'a selector_lib_scheme \<Rightarrow> discovery option \<Rightarrow> 'b gctl_resource_scheme list \<Rightarrow> selection res" where
  "NewSelectorForAttachments L d attachments = register_all L d attachments selection_init"

section \<open>Matching\<close>

text \<open>A missing label or annotation selector is a nil interface, whose call panics.\<close>

definition MatchLAN :: "kube \<Rightarrow> selection \<Rightarrow> obj option \<Rightarrow> bool res" where
  "MatchLAN K s x =
     (case x of
        None \<Rightarrow> Inl (Msg ''Match failed: Nil target'')
      | Some x \<Rightarrow>
          (let av = GetAPIVersion K x; kind = GetKind K x in
           case LabelSelector_Get (labelSelectorReg s) av kind of
             None \<Rightarrow> Inl nil_deref
           | Some ls \<Rightarrow>
               if \<not> selMatches ls (mrange (GetLabels K x)) then Inr False
               else (case AnnotationSelector_Get (annotationSelectorReg s) av kind of
                       None \<Rightarrow> Inl nil_deref
                     | Some as' \<Rightarrow>
                         if \<not> selMatches as' (mrange (GetAnnotations K x)) then Inr False
                         else Inr (ContainsOrTrue
                                (case NameSelector_Get (nameSelectorReg s) av kind of None \<Rightarrow> [] | Some ns \<Rightarrow> ns)
                                (GetName K x)))))"

definition advanced_match ::
  "'a selector_lib_scheme \<Rightarrow> kube \<Rightarrow> selection \<Rightarrow> obj \<Rightarrow> obj option \<Rightarrow> bool res" where
  "advanced_match L K s x reference =
     RunMatch L K
       \<lparr>evTarget = Some x,
        evTerms = (case AdvancedSelector_Get (advancedSelectorReg s) (GetAPIVersion K x) (GetKind K x) of
                     None \<Rightarrow> [] | Some sel \<Rightarrow> evTerms sel),
        evReference = reference\<rparr>"

definition both_match :: "bool res \<Rightarrow> (unit \<Rightarrow> bool res) \<Rightarrow> bool res" where
  "both_match lan advanced =
     (case lan of
        Inl err \<Rightarrow> Inl err
      | Inr lanMatch \<Rightarrow>
          (case advanced () of Inl err \<Rightarrow> Inl err | Inr advanceMatch \<Rightarrow> Inr (lanMatch \<and> advanceMatch)))"

definition Selection_Match :: "'a selector_lib_scheme \<Rightarrow> kube \<Rightarrow> selection \<Rightarrow> obj option \<Rightarrow> bool res" where
  "Selection_Match L K s x =
     both_match (MatchLAN K s x)
       (\<lambda>_. case x of None \<Rightarrow> Inl nil_deref | Some x \<Rightarrow> advanced_match L K s x None)"

definition MatchAttachmentAgainstWatch ::
  "'a selector_lib_scheme \<Rightarrow> kube \<Rightarrow> selection \<Rightarrow> obj option \<Rightarrow> obj option \<Rightarrow> bool res" where
  "MatchAttachmentAgainstWatch L K s attachment watch =
     both_match (MatchLAN K s attachment)
       (\<lambda>_. case attachment of None \<Rightarrow> Inl nil_deref | Some x \<Rightarrow> advanced_match L K s x watch)"

section \<open>What a selection looks up\<close>

definition label_of :: "'a selector_lib_scheme \<Rightarrow> 'b gctl_resource_scheme \<Rightarrow> selector res" where
  "label_of L r = (case grLabelSelector r of None \<Rightarrow> Inr everything_selector | Some ls \<Rightarrow> LabelSelectorAsSelector L ls)"

definition annotation_of :: "'a selector_lib_scheme \<Rightarrow> 'b gctl_resource_scheme \<Rightarrow> selector res" where
  "annotation_of L r =
     (case grAnnotationSelector r of None \<Rightarrow> Inr everything_selector
      | Some a \<Rightarrow> LabelSelectorAsSelector L
          \<lparr>matchLabels = asMatchAnnotations a, matchExpressions = asMatchExpressions a\<rparr>)"

definition names_of :: "'b gctl_resource_scheme \<Rightarrow> string list" where
  "names_of r = (case grNameSelector r of None \<Rightarrow> [] | Some names \<Rightarrow> names)"

definition terms_of :: "'b gctl_resource_scheme \<Rightarrow> selector_term option list" where
  "terms_of r = (case grAdvancedSelector r of None \<Rightarrow> [] | Some ts \<Rightarrow> ts)"

definition api_key :: "api_resource \<Rightarrow> string" where
  "api_key api = makeSelectorKeyFromAVK (rAPIVersion api) (rKind api)"

record registration =
  rgNames :: "string list"
  rgLabels :: selector
  rgAnnotations :: selector
  rgAdvanced :: evaluation

definition registration_at :: "selection \<Rightarrow> string \<Rightarrow> registration option" where
  "registration_at s k =
     (case (map_of (nameSelectorReg s) k, map_of (labelSelectorReg s) k, map_of (annotationSelectorReg s) k,
            map_of (advancedSelectorReg s) k) of
        (Some ns, Some ls, Some as', Some ev) \<Rightarrow>
          Some \<lparr>rgNames = ns, rgLabels = ls, rgAnnotations = as', rgAdvanced = ev\<rparr>
      | _ \<Rightarrow> None)"

definition complete_at :: "selection \<Rightarrow> string \<Rightarrow> bool" where
  "complete_at s k =
     ((map_of (labelSelectorReg s) k = None) = (map_of (nameSelectorReg s) k = None) \<and>
      (map_of (annotationSelectorReg s) k = None) = (map_of (nameSelectorReg s) k = None) \<and>
      (map_of (advancedSelectorReg s) k = None) = (map_of (nameSelectorReg s) k = None))"

definition made_of :: "'a selector_lib_scheme \<Rightarrow> 'b gctl_resource_scheme \<Rightarrow> registration \<Rightarrow> bool" where
  "made_of L r reg =
     (\<exists>ls as'. label_of L r = Inr ls \<and> annotation_of L r = Inr as' \<and>
        reg = \<lparr>rgNames = names_of r, rgLabels = ls, rgAnnotations = as',
          rgAdvanced = \<lparr>evTarget = None, evTerms = terms_of r, evReference = None\<rparr>\<rparr>)"

lemmas registrar_defs = NameSelector_Set_def NameSelector_Get_def LabelSelector_Set_def LabelSelector_Get_def
  AnnotationSelector_Set_def AnnotationSelector_Get_def AdvancedSelector_Set_def AdvancedSelector_Get_def

lemma isDuplicateResource_iff:
  "isDuplicateResource s api \<longleftrightarrow> map_of (nameSelectorReg s) (api_key api) \<noteq> None"
  unfolding mem_mkeys_iff [symmetric] by (auto simp: isDuplicateResource_def list_ex_iff api_key_def)

lemma register_ok:
  assumes "register L D r s = (None, s')"
  obtains d api ls as' where "D = Some d"
    "GetAPIForAPIVersionAndResource d (grAPIVersion r) (grResource r) = Some api"
    "map_of (nameSelectorReg s) (api_key api) = None" "label_of L r = Inr ls" "annotation_of L r = Inr as'"
    "s' = \<lparr>nameSelectorReg = mput (api_key api) (names_of r) (nameSelectorReg s),
      labelSelectorReg = mput (api_key api) ls (labelSelectorReg s),
      annotationSelectorReg = mput (api_key api) as' (annotationSelectorReg s),
      advancedSelectorReg = mput (api_key api) \<lparr>evTarget = None, evTerms = terms_of r, evReference = None\<rparr>
        (advancedSelectorReg s)\<rparr>"
proof -
  from assms obtain d api where d: "D = Some d"
    and api: "GetAPIForAPIVersionAndResource d (grAPIVersion r) (grResource r) = Some api"
    and new: "map_of (nameSelectorReg s) (api_key api) = None"
    and run: "run_setters [setLabelSelectorOrEverything L r api, setAnnotationSelectorOrEverything L r api,
        setNameSelectorOrEverything r api, setAdvancedSelectorOrEverything r api] s = (None, s')"
    by (auto simp: register_def isDuplicateResource_iff split: option.splits if_splits)
  from run obtain ls where ls: "label_of L r = Inr ls"
    and l: "setLabelSelectorOrEverything L r api s = (None, s\<lparr>labelSelectorReg := mput (api_key api) ls (labelSelectorReg s)\<rparr>)"
    by (auto simp: setLabelSelectorOrEverything_def label_of_def LabelSelector_Set_def api_key_def Let_def
        split: option.splits sum.splits)
  obtain as' where as': "annotation_of L r = Inr as'"
    and a: "setAnnotationSelectorOrEverything L r api t =
      (None, t\<lparr>annotationSelectorReg := mput (api_key api) as' (annotationSelectorReg t)\<rparr>)" for t
    using run l
    by (auto simp: setAnnotationSelectorOrEverything_def annotation_of_def AnnotationSelector_Set_def api_key_def
        Let_def split: option.splits sum.splits)
  have "s' = \<lparr>nameSelectorReg = mput (api_key api) (names_of r) (nameSelectorReg s),
      labelSelectorReg = mput (api_key api) ls (labelSelectorReg s),
      annotationSelectorReg = mput (api_key api) as' (annotationSelectorReg s),
      advancedSelectorReg = mput (api_key api) \<lparr>evTarget = None, evTerms = terms_of r, evReference = None\<rparr>
        (advancedSelectorReg s)\<rparr>"
    using run l a
    by (auto simp: setNameSelectorOrEverything_def setAdvancedSelectorOrEverything_def names_of_def terms_of_def
        NameSelector_Set_def AdvancedSelector_Set_def api_key_def)
  with that d api new ls as' show ?thesis by blast
qed

lemma register_registers:
  assumes "register L D r s = (None, s')"
  shows "\<exists>d api. D = Some d \<and> GetAPIForAPIVersionAndResource d (grAPIVersion r) (grResource r) = Some api \<and>
    registration_at s (api_key api) = None \<and>
    (\<exists>reg. made_of L r reg \<and> (\<forall>k. registration_at s' k = (if k = api_key api then Some reg else registration_at s k))) \<and>
    ((\<forall>k. complete_at s k) \<longrightarrow> (\<forall>k. complete_at s' k))"
  by (rule register_ok [OF assms])
    (auto simp: registration_at_def made_of_def complete_at_def split: option.splits)

lemma register_all_registers:
  assumes "register_all L D rs s = Inr s'" and "\<forall>k. complete_at s k"
  shows "(\<forall>k reg. registration_at s k = Some reg \<longrightarrow> registration_at s' k = Some reg) \<and> (\<forall>k. complete_at s' k) \<and>
    (\<forall>r \<in> set rs. \<exists>d api reg. D = Some d \<and>
       GetAPIForAPIVersionAndResource d (grAPIVersion r) (grResource r) = Some api \<and>
       made_of L r reg \<and> registration_at s' (api_key api) = Some reg) \<and>
    (\<forall>k. registration_at s' k \<noteq> None \<longrightarrow> registration_at s k \<noteq> None \<or>
       (\<exists>r \<in> set rs. \<exists>d api. D = Some d \<and>
          GetAPIForAPIVersionAndResource d (grAPIVersion r) (grResource r) = Some api \<and> k = api_key api))"
  using assms
proof (induction rs arbitrary: s)
  case (Cons r rs)
  then obtain s1 where r: "register L D r s = (None, s1)" and rs: "register_all L D rs s1 = Inr s'"
    by (auto split: option.splits prod.splits)
  from register_registers [OF r] Cons.prems(2) obtain d api reg where
    api: "D = Some d" "GetAPIForAPIVersionAndResource d (grAPIVersion r) (grResource r) = Some api"
    and new: "registration_at s (api_key api) = None" and reg: "made_of L r reg"
    and at: "\<And>k. registration_at s1 k = (if k = api_key api then Some reg else registration_at s k)"
    and comp: "\<forall>k. complete_at s1 k"
    by blast
  note IH = Cons.IH [OF rs comp]
  note keep = IH [THEN conjunct1, rule_format] and comp' = IH [THEN conjunct2, THEN conjunct1]
    and all = IH [THEN conjunct2, THEN conjunct2, THEN conjunct1]
    and only = IH [THEN conjunct2, THEN conjunct2, THEN conjunct2, rule_format]
  have here: "registration_at s' (api_key api) = Some reg" using keep at by simp
  have keep': "registration_at s' k = Some reg'" if "registration_at s k = Some reg'" for k reg'
    using keep [of k] at [of k] that new by (cases "k = api_key api") auto
  have only': "registration_at s k \<noteq> None \<or> (\<exists>r \<in> set (r # rs). \<exists>d api. D = Some d \<and>
      GetAPIForAPIVersionAndResource d (grAPIVersion r) (grResource r) = Some api \<and> k = api_key api)"
    if "registration_at s' k \<noteq> None" for k
    using only [OF that] at [of k] api by (cases "k = api_key api") auto
  have "\<exists>d api reg. D = Some d \<and> GetAPIForAPIVersionAndResource d (grAPIVersion r') (grResource r') = Some api \<and>
      made_of L r' reg \<and> registration_at s' (api_key api) = Some reg" if "r' \<in> set (r # rs)" for r'
  proof (cases "r' = r")
    case True
    with here reg api show ?thesis by blast
  next
    case False
    with that all show ?thesis by simp
  qed
  then show ?case by (intro conjI allI impI ballI keep' comp' [rule_format] only')
qed simp

lemma registers_from_init:
  assumes "register_all L D rs selection_init = Inr s"
  shows "\<forall>k. complete_at s k" and
    "r \<in> set rs \<Longrightarrow> GetAPIForAPIVersionAndResource d (grAPIVersion r) (grResource r) = Some api \<Longrightarrow> D = Some d \<Longrightarrow>
      \<exists>reg. made_of L r reg \<and> registration_at s (api_key api) = Some reg" and
    "registration_at s k \<noteq> None \<Longrightarrow> \<exists>r \<in> set rs. \<exists>d api. D = Some d \<and>
      GetAPIForAPIVersionAndResource d (grAPIVersion r) (grResource r) = Some api \<and> k = api_key api"
proof -
  have "\<forall>k. complete_at selection_init k" "\<And>k. registration_at selection_init k = None"
    by (simp_all add: complete_at_def selection_init_def registration_at_def)
  from register_all_registers [OF assms this(1)] this(2)
  show "\<forall>k. complete_at s k" and
    "r \<in> set rs \<Longrightarrow> GetAPIForAPIVersionAndResource d (grAPIVersion r) (grResource r) = Some api \<Longrightarrow> D = Some d \<Longrightarrow>
      \<exists>reg. made_of L r reg \<and> registration_at s (api_key api) = Some reg" and
    "registration_at s k \<noteq> None \<Longrightarrow> \<exists>r \<in> set rs. \<exists>d api. D = Some d \<and>
      GetAPIForAPIVersionAndResource d (grAPIVersion r) (grResource r) = Some api \<and> k = api_key api"
    by (fastforce, fastforce, meson)
qed

lemma NewSelectorForWatch_all: "NewSelectorForWatch L D watch = register_all L D [watch] selection_init"
  by (auto simp: NewSelectorForWatch_def split: prod.splits option.splits)

text \<open>No two resources of the same API version and kind are accepted together.\<close>

lemma register_all_distinct:
  assumes "register_all L D rs s = Inr s'" and "\<forall>k. complete_at s k"
  shows "distinct (map (\<lambda>r. (grAPIVersion r, grResource r)) rs) \<and>
    (\<forall>r \<in> set rs. \<exists>d api. D = Some d \<and>
       GetAPIForAPIVersionAndResource d (grAPIVersion r) (grResource r) = Some api \<and> registration_at s (api_key api) = None)"
  using assms
proof (induction rs arbitrary: s)
  case (Cons r rs)
  then obtain s1 where r: "register L D r s = (None, s1)" and rs: "register_all L D rs s1 = Inr s'"
    by (auto split: option.splits prod.splits)
  from register_registers [OF r] Cons.prems(2) obtain d api reg where
    api: "D = Some d" "GetAPIForAPIVersionAndResource d (grAPIVersion r) (grResource r) = Some api"
    and new: "registration_at s (api_key api) = None"
    and at: "\<And>k. registration_at s1 k = (if k = api_key api then Some reg else registration_at s k)"
    and comp: "\<forall>k. complete_at s1 k"
    by blast
  note IH = Cons.IH [OF rs comp]
  have other: "(grAPIVersion r', grResource r') \<noteq> (grAPIVersion r, grResource r) \<and>
      (\<exists>d api. D = Some d \<and> GetAPIForAPIVersionAndResource d (grAPIVersion r') (grResource r') = Some api \<and>
         registration_at s (api_key api) = None)" if r': "r' \<in> set rs" for r'
  proof -
    from IH r' obtain api' where "GetAPIForAPIVersionAndResource d (grAPIVersion r') (grResource r') = Some api'"
      "registration_at s1 (api_key api') = None" using api(1) by blast
    with at [of "api_key api'"] api show ?thesis by (auto split: if_splits)
  qed
  have "(grAPIVersion r, grResource r) \<notin> (\<lambda>r. (grAPIVersion r, grResource r)) ` set rs"
  proof
    assume "(grAPIVersion r, grResource r) \<in> (\<lambda>r. (grAPIVersion r, grResource r)) ` set rs"
    then obtain r' where "(grAPIVersion r, grResource r) = (grAPIVersion r', grResource r')" "r' \<in> set rs" by (rule imageE)
    with other [of r'] show False by simp
  qed
  with IH other new api show ?case by simp
qed simp

section \<open>What a selection matches\<close>

definition labels_match :: "label_selector option \<Rightarrow> strmap \<Rightarrow> bool" where
  "labels_match ls m = (case ls of None \<Rightarrow> True | Some s \<Rightarrow> labels_hold m s)"

definition annotations_match :: "annotation_selector option \<Rightarrow> strmap \<Rightarrow> bool" where
  "annotations_match a m = (case a of None \<Rightarrow> True
     | Some s \<Rightarrow> labels_hold m \<lparr>matchLabels = asMatchAnnotations s, matchExpressions = asMatchExpressions s\<rparr>)"

definition lan_selects :: "kube \<Rightarrow> 'b gctl_resource_scheme \<Rightarrow> obj \<Rightarrow> bool" where
  "lan_selects K r x =
     (labels_match (grLabelSelector r) (mrange (GetLabels K x)) \<and>
      annotations_match (grAnnotationSelector r) (mrange (GetAnnotations K x)) \<and>
      (names_of r = [] \<or> GetName K x \<in> set (names_of r)))"

definition object_avk :: "kube \<Rightarrow> obj \<Rightarrow> string" where
  "object_avk K x = makeSelectorKeyFromAVK (GetAPIVersion K x) (GetKind K x)"

lemma ContainsOrTrue_iff: "ContainsOrTrue ns n \<longleftrightarrow> ns = [] \<or> n \<in> set ns"
proof -
  have "NameSelector_Contains ns n \<longleftrightarrow> n \<in> set ns" by (induction ns n rule: NameSelector_Contains.induct) auto
  then show ?thesis by (simp add: ContainsOrTrue_def)
qed

lemma label_of_matches:
  "label_laws L \<Longrightarrow> label_of L r = Inr sel \<Longrightarrow> selMatches sel m = labels_match (grLabelSelector r) m"
  by (auto simp: label_of_def labels_match_def everything_selector_def label_laws.selector_matches split: option.splits)

lemma annotation_of_matches:
  "label_laws L \<Longrightarrow> annotation_of L r = Inr sel \<Longrightarrow> selMatches sel m = annotations_match (grAnnotationSelector r) m"
  by (auto simp: annotation_of_def annotations_match_def everything_selector_def label_laws.selector_matches
      split: option.splits)

lemma MatchLAN_registered:
  assumes "registration_at s (object_avk K x) = Some reg" and "made_of L r reg" and "label_laws L"
  shows "MatchLAN K s (Some x) = Inr (lan_selects K r x)"
  using assms
  by (auto simp: registration_at_def object_avk_def MatchLAN_def registrar_defs made_of_def lan_selects_def
      ContainsOrTrue_iff label_of_matches annotation_of_matches Let_def split: option.splits)

lemma advanced_match_registered:
  assumes "registration_at s (object_avk K x) = Some reg" and "made_of L r reg"
  shows "advanced_match L K s x w = RunMatch L K \<lparr>evTarget = Some x, evTerms = terms_of r, evReference = w\<rparr>"
  using assms
  by (auto simp: registration_at_def object_avk_def advanced_match_def registrar_defs made_of_def split: option.splits)

lemma registered_lookup:
  assumes "register_all L (Some d) rs selection_init = Inr s" and "r \<in> set rs"
    and "GetAPIForAPIVersionAndResource d (grAPIVersion r) (grResource r) = Some api"
    and "object_avk K x = api_key api"
  obtains reg where "registration_at s (object_avk K x) = Some reg" "made_of L r reg"
  using registers_from_init(2) [OF assms(1-3)] assms(4) by auto

text \<open>
  C40: Matching an attachment of a registered resource against a watch, when it does not fail,
  is the conjunction of what that resource's own selectors say of the attachment's labels,
  annotations and name, an absent one saying yes, and of its selector terms with the watch as
  their reference; the selectors of other resources play no part.
\<close>
theorem attachment_match_is_own:
  assumes "label_laws L" and "NewSelectorForAttachments L (Some d) rs = Inr s" and "r \<in> set rs"
    and "GetAPIForAPIVersionAndResource d (grAPIVersion r) (grResource r) = Some api"
    and "object_avk K x = api_key api"
    and "MatchAttachmentAgainstWatch L K s (Some x) w = Inr b"
  shows "b \<longleftrightarrow> lan_selects K r x \<and>
    RunMatch L K \<lparr>evTarget = Some x, evTerms = terms_of r, evReference = w\<rparr> = Inr True"
proof -
  obtain reg where "registration_at s (object_avk K x) = Some reg" "made_of L r reg"
    using registered_lookup [OF assms(2)[unfolded NewSelectorForAttachments_def] assms(3-5)] .
  with assms(1,6) show ?thesis
    by (auto simp: MatchAttachmentAgainstWatch_def both_match_def MatchLAN_registered advanced_match_registered
        split: sum.splits)
qed

text \<open>
  Matching an object panics exactly if its API version and kind are those of no resource
  that was registered.
\<close>
theorem unregistered_match_panics:
  assumes "label_laws L" and "NewSelectorForAttachments L (Some d) rs = Inr s"
  shows "MatchLAN K s (Some x) = Inl nil_deref \<longleftrightarrow>
    \<not> (\<exists>r \<in> set rs. \<exists>api. GetAPIForAPIVersionAndResource d (grAPIVersion r) (grResource r) = Some api \<and>
        object_avk K x = api_key api)"
proof -
  note init = registers_from_init [OF assms(2)[unfolded NewSelectorForAttachments_def]]
  show ?thesis
  proof (cases "registration_at s (object_avk K x)")
    case None
    with init(1) [rule_format, of "object_avk K x"] have "map_of (labelSelectorReg s) (object_avk K x) = None"
      by (auto simp: registration_at_def complete_at_def split: option.splits)
    then have "MatchLAN K s (Some x) = Inl nil_deref"
      by (simp add: MatchLAN_def registrar_defs object_avk_def)
    moreover have "\<not> (\<exists>r \<in> set rs. \<exists>api. GetAPIForAPIVersionAndResource d (grAPIVersion r) (grResource r) = Some api \<and>
        object_avk K x = api_key api)"
      using init(2) None by force
    ultimately show ?thesis by simp
  next
    case (Some reg)
    with init(3) [of "object_avk K x"] obtain r api where r: "r \<in> set rs"
      "GetAPIForAPIVersionAndResource d (grAPIVersion r) (grResource r) = Some api" "object_avk K x = api_key api"
      by auto
    then obtain reg' where "registration_at s (object_avk K x) = Some reg'" "made_of L r reg'"
      using registered_lookup [OF assms(2)[unfolded NewSelectorForAttachments_def] r] by blast
    from MatchLAN_registered [OF this assms(1)] r show ?thesis by auto
  qed
qed

definition pod_attachment :: gctl_resource where
  "pod_attachment = \<lparr>grAPIVersion = ''v1'', grResource = ''pods'', grNameSelector = None,
     grLabelSelector = Some \<lparr>matchLabels = [(''app'', ''web'')], matchExpressions = []\<rparr>,
     grAnnotationSelector = None, grAdvancedSelector = Some [Some image_term]\<rparr>"

definition pod_discovery :: discovery where
  "pod_discovery = NewAPIResourceDiscoverer\<lparr>discoveredResources :=
     Some [(''v1'', \<lparr>rsStore = map (complete ''v1'' ('''', ''v1'')) pods, rsResources = [(''pods'', 0)],
        rsKinds = [(''Pod'', 0)], rsSubresources = []\<rparr>)]\<rparr>"

abbreviation pod_selection :: "selection res" where
  "pod_selection \<equiv> NewSelectorForAttachments std_selectors (Some pod_discovery) [pod_attachment]"

lemma pod_selection_ok:
  obtains s where "pod_selection = Inr s"
    "MatchAttachmentAgainstWatch std_selectors std_kube s (Some sel_pod) None = Inr True"
    "MatchLAN std_kube s (Some web) = Inl nil_deref"
proof -
  have "isOK pod_selection"
    "case pod_selection of Inl e \<Rightarrow> False
     | Inr s \<Rightarrow> MatchAttachmentAgainstWatch std_selectors std_kube s (Some sel_pod) None = Inr True \<and>
         MatchLAN std_kube s (Some web) = Inl nil_deref"
    by code_simp+
  with that show ?thesis by (auto simp: isOK_iff)
qed

lemma pod_api:
  "GetAPIForAPIVersionAndResource pod_discovery (grAPIVersion pod_attachment) (grResource pod_attachment) =
     Some (complete ''v1'' ('''', ''v1'') (pods ! 0))"
  "object_avk std_kube sel_pod = api_key (complete ''v1'' ('''', ''v1'') (pods ! 0))"
  by code_simp+

lemma attachment_match_is_own_witness:
  "lan_selects std_kube pod_attachment sel_pod \<and>
   RunMatch std_selectors std_kube \<lparr>evTarget = Some sel_pod, evTerms = [Some image_term], evReference = None\<rparr> = Inr True"
proof -
  obtain s where s: "pod_selection = Inr s"
    "MatchAttachmentAgainstWatch std_selectors std_kube s (Some sel_pod) None = Inr True"
    by (rule pod_selection_ok)
  have "terms_of pod_attachment = [Some image_term]" by (simp add: terms_of_def pod_attachment_def)
  with attachment_match_is_own [OF std_labels.label_laws_axioms s(1) _ pod_api s(2)] show ?thesis by simp
qed

lemma unregistered_match_panics_witness:
  "\<exists>s. pod_selection = Inr s \<and> MatchLAN std_kube s (Some web) = Inl nil_deref"
proof -
  obtain s where s: "pod_selection = Inr s" by (rule pod_selection_ok)
  have "object_avk std_kube web \<noteq> api_key (complete ''v1'' ('''', ''v1'') (pods ! 0))" by code_simp
  with unregistered_match_panics [OF std_labels.label_laws_axioms s, of std_kube web] s show ?thesis
    by (simp add: pod_api(1))
qed

end
