(* ===== verification/Hooks.thy ===== *)
theory Hooks
  imports Prelude
begin

text \<open>
  \<open>hooks/hooks.go\<close>, \<open>hooks/webhook/webhook.go\<close>, \<open>controller/common/invoke_hook.go\<close> and
  \<open>controller/generic/inlinehook.go\<close>, with the types of
  \<open>apis/metacontroller/v1alpha1/hooks.go\<close>: from the schema of a hook to the function that
  answers a request.

  The JSON codec, the HTTP client and the printing of durations and of pointers are the fields
  of a record. A response that is filled through a pointer is the result of the function; a hook
  leaves its request as it is. Durations are nanoseconds.
\<close>

section \<open>Schemas\<close>

record service_reference =
  svName :: string
  svNamespace :: string
  svPort :: "int option"
  svProtocol :: "string option"

record webhook =
  whURL :: "string option"
  whTimeout :: "int option"
  whPath :: "string option"
  whService :: "service_reference option"

text \<open>The function name of an inline hook is a pointer.\<close>

record hook =
  hkWebhook :: "webhook option"
  hkInline :: "string option option"

text \<open>
  \<open>httpPost\<close> takes the URL, the timeout and the body; it fails, or answers with a status and
  with the body or the error of reading it.
\<close>

record ('q, 'r) hook_io =
  marshalRequest :: "'q \<Rightarrow> string res"
  httpPost :: "string \<Rightarrow> int \<Rightarrow> string \<Rightarrow> (int \<times> string res) res"
  unmarshalResponse :: "string \<Rightarrow> 'r res"
  durationText :: "int \<Rightarrow> string"
  webhookText :: "webhook \<Rightarrow> string"
  hookText :: "hook \<Rightarrow> string"

section \<open>Webhooks\<close>

record webhook_invoker =
  wiURL :: string
  wiTimeout :: int

type_synonym webhook_option = "webhook_invoker \<Rightarrow> webhook_invoker res"

fun apply_options :: "webhook_option list \<Rightarrow> webhook_invoker \<Rightarrow> webhook_invoker res" where
  "apply_options [] i = Inr i"
| "apply_options (o1 # opts) i = (case o1 i of Inl err \<Rightarrow> Inl err | Inr i' \<Rightarrow> apply_options opts i')"

definition webhook_NewInvoker :: "webhook_option list \<Rightarrow> webhook_invoker res" where
  "webhook_NewInvoker opts = apply_options opts \<lparr>wiURL = '''', wiTimeout = 0\<rparr>"

definition webhook_String :: "('q, 'r) hook_io \<Rightarrow> webhook_invoker \<Rightarrow> string" where
  "webhook_String H i = ''Webhook Invoker: URL='' @ wiURL i @ '': Timeout='' @ durationText H (wiTimeout i)"

definition webhook_Invoke :: "('q, 'r) hook_io \<Rightarrow> webhook_invoker \<Rightarrow> 'q \<Rightarrow> 'r res" where
  "webhook_Invoke H i request =
     (case marshalRequest H request of
        Inl err \<Rightarrow> Inl (Wrap (webhook_String H i @ '': Failed to marshal'') err)
      | Inr reqBody \<Rightarrow>
     (case httpPost H (wiURL i) (wiTimeout i) reqBody of
        Inl err \<Rightarrow> Inl (Wrap (webhook_String H i @ '': Failed to invoke'') err)
      | Inr (statusCode, body) \<Rightarrow>
     (case body of
        Inl err \<Rightarrow> Inl (Wrap (webhook_String H i @ '': Failed to read response'') err)
      | Inr respBody \<Rightarrow>
          if statusCode \<noteq> 200
          then Inl (Msg (webhook_String H i @ '': Response status is not OK: Got '' @ show_int statusCode @
                 '': Response '' @ quoted respBody))
          else (case unmarshalResponse H respBody of
                  Inl err \<Rightarrow> Inl (Wrap (webhook_String H i @ '': Failed to unmarshal response'') err)
                | Inr response \<Rightarrow> Inr response))))"

section \<open>Invokers\<close>

text \<open>An option may set the function of an invoker or fail; \<open>NewInvoker\<close> drops the error.\<close>

type_synonym ('q, 'r) invoke_fn = "'q \<Rightarrow> 'r res"

type_synonym ('q, 'r) invoker_option = "('q, 'r) invoke_fn option \<Rightarrow> gerr option \<times> ('q, 'r) invoke_fn option"

definition NewInvoker :: "('q, 'r) invoker_option \<Rightarrow> ('q, 'r) invoker_option list \<Rightarrow> ('q, 'r) invoke_fn res" where
  "NewInvoker must others =
     (case fold (\<lambda>opt fn. snd (opt fn)) (must # others) None of
        None \<Rightarrow> Inl (Msg ''Invoke func can't be nil'')
      | Some fn \<Rightarrow> Inr fn)"

definition SetWebhookURLFromSchema :: "('q, 'r) hook_io \<Rightarrow> webhook \<Rightarrow> webhook_option" where
  "SetWebhookURLFromSchema H schema caller =
     (case whURL schema of
        Some url \<Rightarrow> Inr (caller\<lparr>wiURL := url\<rparr>)
      | None \<Rightarrow>
          (case (whService schema, whPath schema) of
             (Some service, Some path) \<Rightarrow>
               if svName service = '''' \<or> svNamespace service = ''''
               then Inl (Msg (''Invalid webhook service: Specify service 'Name' & 'Namespace': '' @
                      webhookText H schema))
               else (let port = (case svPort service of None \<Rightarrow> 80 | Some p \<Rightarrow> p);
                         protocol = (case svProtocol service of None \<Rightarrow> ''http'' | Some p \<Rightarrow> p)
                     in Inr (caller\<lparr>wiURL := protocol @ ''://'' @ svName service @ ''.'' @ svNamespace service @
                          '':'' @ show_int port @ path\<rparr>))
           | _ \<Rightarrow> Inl (Msg (''Invalid webhook: Specify either full 'URL', or both 'Service' & 'Path': '' @
                    webhookText H schema))))"

definition default_timeout :: int where
  "default_timeout = 10 * 1000000000"

definition SetWebhookTimeoutFromSchemaOrDefault :: "('q, 'r) hook_io \<Rightarrow> webhook \<Rightarrow> webhook_option" where
  "SetWebhookTimeoutFromSchemaOrDefault H schema caller =
     (case whTimeout schema of
        None \<Rightarrow> Inr (caller\<lparr>wiTimeout := default_timeout\<rparr>)
      | Some d \<Rightarrow>
          if d \<le> 0 then Inl (Msg (''Invalid webhook timeout: Must be > 0: '' @ webhookText H schema))
          else Inr (caller\<lparr>wiTimeout := d\<rparr>))"

definition WithHookSchema :: "('q, 'r) hook_io \<Rightarrow> hook \<Rightarrow> ('q, 'r) invoker_option" where
  "WithHookSchema H schema invoker =
     (case hkWebhook schema of
        None \<Rightarrow> (Some (Msg (''Unsupported hook '' @ hookText H schema)), invoker)
      | Some wh \<Rightarrow>
          (case webhook_NewInvoker [SetWebhookURLFromSchema H wh, SetWebhookTimeoutFromSchemaOrDefault H wh] of
             Inl err \<Rightarrow> (Some err, invoker)
           | Inr whi \<Rightarrow> (None, Some (webhook_Invoke H whi))))"

definition InvokeHook :: "('q, 'r) hook_io \<Rightarrow> hook \<Rightarrow> 'q \<Rightarrow> 'r res" where
  "InvokeHook H schema request =
     (case NewInvoker (WithHookSchema H schema) [] of Inl err \<Rightarrow> Inl err | Inr fn \<Rightarrow> fn request)"

section \<open>Inline hooks\<close>

type_synonym ('q, 'r) inline_registry = "('q, 'r) invoke_fn gomap"

definition AddToInlineRegistry ::
  "string \<Rightarrow> ('q, 'r) invoke_fn \<Rightarrow> ('q, 'r) inline_registry \<Rightarrow> ('q, 'r) inline_registry" where
  "AddToInlineRegistry funcName fn registry = mput funcName fn registry"

definition NewInlineHookInvoker :: "string \<Rightarrow> string res" where
  "NewInlineHookInvoker funcName =
     (if funcName = '''' then Inl (Msg ''Inline invoker function name can't be empty'') else Inr funcName)"

definition InlineHookInvoker_Invoke :: "('q, 'r) inline_registry \<Rightarrow> string \<Rightarrow> 'q \<Rightarrow> 'r res" where
  "InlineHookInvoker_Invoke registry funcName req =
     (case map_of registry funcName of
        None \<Rightarrow> Inl (Msg (''Inline hook function not found for '' @ funcName))
      | Some fn \<Rightarrow> fn req)"

text \<open>\<open>HookInvoker.Invoke\<close> of the generic controller; the schema is not nil.\<close>

definition HookInvoker_Invoke ::
  "('q, 'r) hook_io \<Rightarrow> ('q, 'r) inline_registry \<Rightarrow> hook \<Rightarrow> 'q \<Rightarrow> 'r res" where
  "HookInvoker_Invoke H registry schema req =
     (case hkInline schema of
        Some (Some funcName) \<Rightarrow>
          (case NewInlineHookInvoker funcName of
             Inl err \<Rightarrow> Inl err
           | Inr ihi \<Rightarrow> InlineHookInvoker_Invoke registry ihi req)
      | _ \<Rightarrow> InvokeHook H schema req)"

section \<open>What a webhook calls\<close>

text \<open>The address and timeout a schema stands for, if it is one that can be called.\<close>

definition endpoint :: "webhook \<Rightarrow> (string \<times> int) option" where
  "endpoint wh =
     (let timeout = (case whTimeout wh of None \<Rightarrow> Some default_timeout
                     | Some d \<Rightarrow> if 0 < d then Some d else None);
          url = (case (whURL wh, whService wh, whPath wh) of
                   (Some url, _, _) \<Rightarrow> Some url
                 | (None, Some s, Some path) \<Rightarrow>
                     if svName s \<noteq> '''' \<and> svNamespace s \<noteq> ''''
                     then Some ((case svProtocol s of None \<Rightarrow> ''http'' | Some p \<Rightarrow> p) @ ''://'' @ svName s @ ''.'' @
                       svNamespace s @ '':'' @ show_int (case svPort s of None \<Rightarrow> 80 | Some p \<Rightarrow> p) @ path)
                     else None
                 | _ \<Rightarrow> None)
      in case (url, timeout) of (Some u, Some t) \<Rightarrow> Some (u, t) | _ \<Rightarrow> None)"

lemma options_endpoint:
  "(case webhook_NewInvoker [SetWebhookURLFromSchema H wh, SetWebhookTimeoutFromSchemaOrDefault H wh] of
      Inl err \<Rightarrow> None | Inr whi \<Rightarrow> Some (wiURL whi, wiTimeout whi)) = endpoint wh"
  by (auto simp: webhook_NewInvoker_def SetWebhookURLFromSchema_def SetWebhookTimeoutFromSchemaOrDefault_def
      endpoint_def Let_def split: option.splits)

lemma webhook_Invoke_answer:
  "webhook_Invoke H i q = Inr r \<longleftrightarrow>
   (\<exists>body answer. marshalRequest H q = Inr body \<and> httpPost H (wiURL i) (wiTimeout i) body = Inr (200, Inr answer) \<and>
      unmarshalResponse H answer = Inr r)"
  by (auto simp: webhook_Invoke_def split: sum.splits prod.splits if_splits)

text \<open>
  A hook that is no inline function answers exactly if its schema has a webhook with an
  address and a positive timeout, 10 seconds if none is set, and the response is what the body
  decodes to that was returned with status 200 to the encoded request posted there.
\<close>
theorem webhook_answers:
  assumes "hkInline schema = None"
  shows "HookInvoker_Invoke H registry schema q = Inr r \<longleftrightarrow>
    (\<exists>wh url timeout body answer. hkWebhook schema = Some wh \<and> endpoint wh = Some (url, timeout) \<and>
       marshalRequest H q = Inr body \<and> httpPost H url timeout body = Inr (200, Inr answer) \<and>
       unmarshalResponse H answer = Inr r)"
proof (cases "hkWebhook schema")
  case (Some wh)
  let ?new = "webhook_NewInvoker [SetWebhookURLFromSchema H wh, SetWebhookTimeoutFromSchemaOrDefault H wh]"
  show ?thesis
  proof (cases ?new)
    case (Inl err)
    with options_endpoint [of H wh] have "endpoint wh = None" by simp
    with assms Some Inl show ?thesis
      by (simp add: HookInvoker_Invoke_def InvokeHook_def NewInvoker_def WithHookSchema_def)
  next
    case (Inr whi)
    with options_endpoint [of H wh] have "endpoint wh = Some (wiURL whi, wiTimeout whi)" by simp
    with assms Some Inr show ?thesis
      by (simp add: HookInvoker_Invoke_def InvokeHook_def NewInvoker_def WithHookSchema_def webhook_Invoke_answer)
  qed
qed (simp add: assms HookInvoker_Invoke_def InvokeHook_def NewInvoker_def WithHookSchema_def)

definition echo_io :: "(string, string) hook_io" where
  "echo_io = \<lparr>marshalRequest = Inr, httpPost = \<lambda>url timeout body. Inr (200, Inr (url @ body)), unmarshalResponse = Inr,
     durationText = show_int, webhookText = \<lambda>wh. ''webhook'', hookText = \<lambda>hk. ''hook''\<rparr>"

definition service_hook :: "int option \<Rightarrow> hook" where
  "service_hook timeout = \<lparr>hkWebhook = Some \<lparr>whURL = None, whTimeout = timeout, whPath = Some ''/sync'',
     whService = Some \<lparr>svName = ''hook'', svNamespace = ''ns'', svPort = None, svProtocol = None\<rparr>\<rparr>,
     hkInline = None\<rparr>"

lemma webhook_answers_witness:
  "HookInvoker_Invoke echo_io [] (service_hook None) ''q'' = Inr ''http://hook.ns:80/syncq''"
proof (subst webhook_answers)
  show "hkInline (service_hook None) = None" by (simp add: service_hook_def)
  have "show_int 80 = ''80''" by code_simp
  then show "\<exists>wh url timeout body answer. hkWebhook (service_hook None) = Some wh \<and> endpoint wh = Some (url, timeout) \<and>
     marshalRequest echo_io ''q'' = Inr body \<and> httpPost echo_io url timeout body = Inr (200, Inr answer) \<and>
     unmarshalResponse echo_io answer = Inr ''http://hook.ns:80/syncq''"
    by (simp add: service_hook_def endpoint_def echo_io_def Let_def)
qed

text \<open>
  The error that says why a schema cannot be called is lost: every such schema gives the
  same message.
\<close>
theorem schema_error_is_lost:
  assumes "hkInline schema = None" and "case hkWebhook schema of None \<Rightarrow> True | Some wh \<Rightarrow> endpoint wh = None"
  shows "HookInvoker_Invoke H registry schema q = Inl (Msg ''Invoke func can't be nil'')"
proof (cases "hkWebhook schema")
  case (Some wh)
  with assms(2) options_endpoint [of H wh] obtain err where
    "webhook_NewInvoker [SetWebhookURLFromSchema H wh, SetWebhookTimeoutFromSchemaOrDefault H wh] = Inl err"
    by (auto split: sum.splits)
  with assms(1) Some show ?thesis
    by (simp add: HookInvoker_Invoke_def InvokeHook_def NewInvoker_def WithHookSchema_def)
qed (simp add: assms HookInvoker_Invoke_def InvokeHook_def NewInvoker_def WithHookSchema_def)

lemma schema_error_is_lost_witness:
  "HookInvoker_Invoke echo_io [] (service_hook (Some (-1))) ''q'' = Inl (Msg ''Invoke func can't be nil'')"
  by (rule schema_error_is_lost) (simp_all add: service_hook_def endpoint_def Let_def)

end
