(* ===== verification/Logs.thy ===== *)
theory Logs
  imports Client
begin

text \<open>
  Which calls an operation adds to the log of the world: the loops that read, modify and write,
  and the finalizers built from them.
\<close>

section \<open>Logs of calls\<close>

text \<open>From one world to another only calls with \<open>P\<close> were made.\<close>

definition logs :: "(request \<Rightarrow> bool) \<Rightarrow> 's world \<Rightarrow> 's world \<Rightarrow> bool" where
  "logs P w w' = (\<exists>ts. calls w' = calls w @ ts \<and> list_all (\<lambda>(q, r). P q) ts)"

lemma logs_refl [simp]: "logs P w w"
  by (simp add: logs_def)

lemma logs_trans: "logs P w w1 \<Longrightarrow> logs P w1 w2 \<Longrightarrow> logs P w w2"
  unfolding logs_def by (elim exE, rule_tac x = "ts @ tsa" in exI) auto

lemma logs_mono: "logs P w w' \<Longrightarrow> (\<And>q. P q \<Longrightarrow> P' q) \<Longrightarrow> logs P' w w'"
  by (fastforce simp: logs_def list_all_iff)

lemma logs_call: "call E q w = (r, w') \<Longrightarrow> P q \<Longrightarrow> logs P w w'"
  using calls_call [of E q w r w'] by (auto simp: logs_def)

lemma logs_same: "calls w' = calls w \<Longrightarrow> logs P w w'"
  by (simp add: logs_def)

text \<open>The writes of a read-modify-write loop.\<close>

definition live_write :: "kube \<Rightarrow> (obj \<Rightarrow> request) \<Rightarrow> obj \<Rightarrow> update_fn \<Rightarrow> request \<Rightarrow> bool" where
  "live_write K wreq x f q =
     (\<exists>current y. GetUID K current = GetUID K x \<and> f current = (True, y) \<and> q = wreq y)"

lemma AtomicUpdate_logs:
  assumes "conflict_retry (retryOf E)" and "AtomicUpdate E rc x f w = (r, w')"
  shows "logs (\<lambda>q. is_read q \<or> live_write (kubeOf E) (rc_Update rc) x f q) w w'"
proof -
  from AtomicUpdate_log [OF assms] obtain ts where ts: "calls w' = calls w @ ts"
    "rmw_log (kubeOf E) (rc_Get rc (GetName (kubeOf E) x)) (rc_Update rc) x f ts"
    by blast
  have "is_read q \<or> live_write (kubeOf E) (rc_Update rc) x f q" if "(q, resp) \<in> set ts" for q resp
    using rmw_log_writes [OF ts(2) that] unfolding live_write_def
    by (cases "q = rc_Get rc (GetName (kubeOf E) x)") auto
  with ts(1) show ?thesis by (auto simp: logs_def list_all_iff)
qed

lemma AtomicStatusUpdate_log:
  assumes "conflict_retry (retryOf E)" and "AtomicStatusUpdate E rc x f w = (r, w')"
  shows "\<exists>ts. calls w' = calls w @ ts \<and>
    list_all (\<lambda>(q, resp). is_read q \<or> live_write (kubeOf E) (status_write rc) x f q) ts \<and>
    (\<forall>result. r = Inr result \<longrightarrow>
      update_outcome (rc_Get rc (GetName (kubeOf E) x)) (status_write rc) (kubeOf E) x f ts result)"
proof -
  obtain e result w1 where l:
    "retryOf E (update_attempt E rc (status_write rc) x f) (None, w) = (e, result, w1)"
    by (metis prod_cases3)
  with assms(2) have eq: "w' = w1" "r = (case e of None \<Rightarrow> Inr result | Some e \<Rightarrow> Inl e)"
    by (auto simp: AtomicStatusUpdate_def split: option.splits)
  from loop_spec [OF assms(1) l] obtain ts where ts: "calls w1 = calls w @ ts"
    "rmw_log (kubeOf E) (rc_Get rc (GetName (kubeOf E) x)) (status_write rc) x f ts"
    "e = None \<longrightarrow> update_outcome (rc_Get rc (GetName (kubeOf E) x)) (status_write rc) (kubeOf E) x f ts result"
    by blast
  have "is_read q \<or> live_write (kubeOf E) (status_write rc) x f q" if "(q, resp) \<in> set ts" for q resp
    using rmw_log_writes [OF ts(2) that] unfolding live_write_def
    by (cases "q = rc_Get rc (GetName (kubeOf E) x)") auto
  with ts eq show ?thesis by (auto simp: list_all_iff split: option.splits)
qed

section \<open>Finalizers\<close>

text \<open>The finalizer functions given to the loop.\<close>

definition finalizer_write :: "kube \<Rightarrow> resource_client \<Rightarrow> finalizer \<Rightarrow> obj \<Rightarrow> request \<Rightarrow> bool" where
  "finalizer_write K rc f x q =
     (\<exists>current y. GetUID K current = GetUID K x \<and>
        (y = AddFinalizer K current (fName f) \<or> y = RemoveFinalizer K current (fName f)) \<and>
        q = rc_Update (Namespace rc (GetNamespace K x)) y)"

lemma rc_AddFinalizer_logs:
  assumes "conflict_retry (retryOf E)"
    and "rc_AddFinalizer E (Namespace rc (GetNamespace (kubeOf E) x)) x (fName f) w = (r, w')"
  shows "logs (\<lambda>q. is_read q \<or> finalizer_write (kubeOf E) rc f x q) w w'"
  using AtomicUpdate_logs [OF assms(1) assms(2) [unfolded rc_AddFinalizer_def]]
  by (rule logs_mono) (auto simp: live_write_def finalizer_write_def split: if_splits)

lemma rc_RemoveFinalizer_logs:
  assumes "conflict_retry (retryOf E)"
    and "rc_RemoveFinalizer E (Namespace rc (GetNamespace (kubeOf E) x)) x (fName f) w = (r, w')"
  shows "logs (\<lambda>q. is_read q \<or> finalizer_write (kubeOf E) rc f x q) w w'"
  using AtomicUpdate_logs [OF assms(1) assms(2) [unfolded rc_RemoveFinalizer_def]]
  by (rule logs_mono) (auto simp: live_write_def finalizer_write_def split: if_splits)

lemma SyncObject_logs:
  assumes "conflict_retry (retryOf E)" and "SyncObject E f rc x w = (r, w')"
  shows "logs (\<lambda>q. is_read q \<or> finalizer_write (kubeOf E) rc f x q) w w'"
  using assms rc_AddFinalizer_logs [OF assms(1)] rc_RemoveFinalizer_logs [OF assms(1)]
  by (auto simp: SyncObject_def split: if_splits)

end
