(* ===== verification/Watched.thy ===== *)
theory Watched
  imports ControllerLoop Logs
begin

text \<open>
  What the generic and the decorator controllers share, because the code repeats it in both: the
  queue keys of the objects they watch, which name the kind besides namespace and name, the
  update of labels and annotations in which nil deletes, and the writes that bring a watched
  object to what the response of its hook asks for.
\<close>

section \<open>Queue keys\<close>

text \<open>What an event hands over: an object, a tombstone, a key, or something else.\<close>

datatype watch_item = WObject obj | WTombstone string | WExplicitKey string | WOther

definition queue_key :: "gerr \<Rightarrow> kube \<Rightarrow> watch_item \<Rightarrow> string res" where
  "queue_key failed K item =
     (case item of
        WTombstone key \<Rightarrow> Inr key
      | WExplicitKey key \<Rightarrow> Inr key
      | WObject x \<Rightarrow>
          Inr (GetAPIVersion K x @ '':'' @ GetKind K x @ '':'' @ GetNamespace K x @ '':'' @ GetName K x)
      | WOther \<Rightarrow> Inl failed)"

definition split_key :: "gerr \<Rightarrow> string \<Rightarrow> (string \<times> string \<times> string \<times> string) res" where
  "split_key failed key =
     (case splitN (CHR '':'') 4 key of
        [p0, p1, p2, p3] \<Rightarrow> Inr (p0, p1, p2, p3)
      | _ \<Rightarrow> Inl failed)"

section \<open>Maps of labels and annotations\<close>

text \<open>A nil entry of the updates deletes the key.\<close>

fun update_entries :: "string option gomap \<Rightarrow> strmap \<times> bool \<Rightarrow> strmap \<times> bool" where
  "update_entries [] (dest, changed) = (dest, changed)"
| "update_entries ((k, None) # updates) (dest, changed) =
     (if map_of dest k \<noteq> None then update_entries updates (mdel k dest, True)
      else update_entries updates (dest, changed))"
| "update_entries ((k, Some v) # updates) (dest, changed) =
     (if map_of dest k \<noteq> Some v then update_entries updates (mput k v dest, True)
      else update_entries updates (dest, changed))"

section \<open>Updating a watched object\<close>

text \<open>The part of a response that is about the watched object itself.\<close>

record answer =
  anLabels :: "string option gomap"
  anAnnotations :: "string option gomap"
  anStatus :: "obj option"
  anFinalized :: bool

text \<open>\<open>reflect.DeepEqual\<close> of two maps that may be nil, and a nil map as a value.\<close>

definition status_equal :: "obj option \<Rightarrow> obj option \<Rightarrow> bool" where
  "status_equal a b =
     (case (a, b) of
        (None, None) \<Rightarrow> True
      | (Some x, Some y) \<Rightarrow> deep_equal (JObj x) (JObj y)
      | _ \<Rightarrow> False)"

definition status_value :: "obj option \<Rightarrow> json" where
  "status_value s = (case s of None \<Rightarrow> JNull | Some x \<Rightarrow> JObj x)"

text \<open>The copy of the object with its new labels, annotations and status, and what changed.\<close>

definition final_object :: "kube \<Rightarrow> obj \<Rightarrow> answer \<Rightarrow> (obj \<times> bool \<times> bool) res" where
  "final_object K x a =
     (let status = GetNestedObject x [''status''];
          desiredStatus = (case anStatus a of None \<Rightarrow> status | Some s \<Rightarrow> Some s);
          (labels, labelsChanged) = update_entries (anLabels a) (mrange (GetLabels K x), False);
          (annotations, annotationsChanged) = update_entries (anAnnotations a) (mrange (GetAnnotations K x), False);
          statusChanged = (\<not> status_equal status desiredStatus);
          copy1 = SetLabels K x labels;
          copy2 = SetAnnotations K copy1 annotations
      in case SetNestedField copy2 (status_value desiredStatus) [''status''] of
           Inl p \<Rightarrow> Inl p
         | Inr copy3 \<Rightarrow> Inr (copy3, labelsChanged \<or> annotationsChanged, statusChanged))"

text \<open>The status is written first when it is a subresource, which regular updates ignore.\<close>

definition write_object ::
  "'s env \<Rightarrow> (gerr \<Rightarrow> gerr) \<Rightarrow> (gerr \<Rightarrow> gerr) \<Rightarrow> finalizer \<Rightarrow> resource_client \<Rightarrow> obj \<Rightarrow> obj \<Rightarrow> bool \<Rightarrow> bool \<Rightarrow> 's world \<Rightarrow>
   gerr option \<times> 's world" where
  "write_object E updateFailed statusFailed f client x copy statusChanged finalized w =
     (let K = kubeOf E; client' = Namespace client (GetNamespace K x);
          finish = (\<lambda>y. if finalized then Finalizer_RemoveFinalizer K f y else y);
          update = (\<lambda>y w. case call E (rc_Update client' (finish y)) w of
            (Inl err, w') \<Rightarrow> (Some (updateFailed err), w')
          | (Inr resp, w') \<Rightarrow> (None, w'))
      in if statusChanged \<and> HasSubresource (rcResource client) ''status''
         then (case call E (rc_UpdateStatus client' copy) w of
                 (Inl err, w') \<Rightarrow> (Some (statusFailed err), w')
               | (Inr result, w') \<Rightarrow> update (SetResourceVersion K copy (GetResourceVersion K result)) w')
         else update copy w)"

definition update_object ::
  "'s env \<Rightarrow> (gerr \<Rightarrow> gerr) \<Rightarrow> (gerr \<Rightarrow> gerr) \<Rightarrow> finalizer \<Rightarrow> resource_client \<Rightarrow> obj \<Rightarrow> answer \<Rightarrow> 's world \<Rightarrow>
   gerr option \<times> 's world" where
  "update_object E updateFailed statusFailed f client x a w =
     (case final_object (kubeOf E) x a of
        Inl p \<Rightarrow> (Some p, w)
      | Inr (copy, metaChanged, statusChanged) \<Rightarrow>
          if metaChanged \<or> statusChanged \<or> (anFinalized a \<and> HasFinalizer (kubeOf E) x (fName f))
          then write_object E updateFailed statusFailed f client x copy statusChanged (anFinalized a) w
          else (None, w))"

section \<open>Keys and maps\<close>

lemma split_4:
  assumes "c \<notin> set p0" and "c \<notin> set p1" and "c \<notin> set p2"
  shows "splitN c 4 (p0 @ c # p1 @ c # p2 @ c # p3) = [p0, p1, p2, p3]"
  using assms by (simp add: takeWhile_sep dropWhile_sep eval_nat_numeral)

lemma splitN_few:
  "length (filter (\<lambda>x. x = c) s) < n \<Longrightarrow> length (splitN c (Suc n) s) \<le> Suc (length (filter (\<lambda>x. x = c) s))"
proof (induction n arbitrary: s)
  case (Suc n)
  show ?case
  proof (cases "c \<in> set s")
    case True
    then obtain p q where s: "s = p @ c # q" "c \<notin> set p" by (meson split_list_first)
    then have "filter (\<lambda>x. x = c) p = []" by (auto simp: filter_empty_conv)
    with Suc s show ?thesis by (simp add: takeWhile_sep dropWhile_sep)
  qed simp
qed simp

lemma splitN_Cons2D:
  assumes "splitN c n s = p # q # ps"
  shows "\<exists>rest. s = p @ c # rest \<and> c \<notin> set p \<and> splitN c (n - 1) rest = q # ps"
proof -
  obtain m where n: "n = Suc (Suc m)" using assms by (cases n rule: nat.exhaust) (auto elim: splitN.elims)
  show ?thesis
  proof (cases "c \<in> set s")
    case True
    then obtain a b where s: "s = a @ c # b" "c \<notin> set a" by (meson split_list_first)
    with assms n show ?thesis by (auto simp: takeWhile_sep dropWhile_sep)
  next
    case False
    with assms n show ?thesis by simp
  qed
qed

lemma split_4_iff:
  "splitN c 4 s = [p0, p1, p2, p3] \<longleftrightarrow>
   s = p0 @ c # p1 @ c # p2 @ c # p3 \<and> c \<notin> set p0 \<and> c \<notin> set p1 \<and> c \<notin> set p2"
proof
  assume "splitN c 4 s = [p0, p1, p2, p3]"
  from splitN_Cons2D [OF this] obtain r0 where r0: "s = p0 @ c # r0" "c \<notin> set p0" "splitN c 3 r0 = [p1, p2, p3]"
    by auto
  from splitN_Cons2D [OF r0(3)] obtain r1 where r1: "r0 = p1 @ c # r1" "c \<notin> set p1" "splitN c 2 r1 = [p2, p3]"
    by auto
  from splitN_Cons2D [OF r1(3)] obtain r2 where "r1 = p2 @ c # r2" "c \<notin> set p2" "splitN c 1 r2 = [p3]"
    by auto
  with r0 r1 show "s = p0 @ c # p1 @ c # p2 @ c # p3 \<and> c \<notin> set p0 \<and> c \<notin> set p1 \<and> c \<notin> set p2" by simp
qed (simp add: split_4)

lemma split_key_iff:
  "split_key failed key = Inr (av, kind, ns, n) \<longleftrightarrow>
   key = av @ '':'' @ kind @ '':'' @ ns @ '':'' @ n \<and>
   CHR '':'' \<notin> set av \<and> CHR '':'' \<notin> set kind \<and> CHR '':'' \<notin> set ns"
proof -
  have "split_key failed key = Inr (av, kind, ns, n) \<longleftrightarrow> splitN CHR '':'' 4 key = [av, kind, ns, n]"
    by (auto simp: split_key_def split: list.splits)
  then show ?thesis by (simp add: split_4_iff)
qed

text \<open>What a map holds after updates in which nil deletes.\<close>

definition updated_map :: "strmap \<Rightarrow> string option gomap \<Rightarrow> string \<Rightarrow> string option" where
  "updated_map m u k = (case map_of u k of None \<Rightarrow> map_of m k | Some v \<Rightarrow> v)"

lemma updated_map_Nil: "updated_map m [] = map_of m"
  by (simp add: updated_map_def fun_eq_iff)

lemma updated_map_Cons:
  assumes "k \<notin> set (mkeys u)" and "map_of m' = (map_of m)(k := v)"
  shows "updated_map m' u = updated_map m ((k, v) # u)"
proof
  fix j
  have "map_of u k = None" using assms(1) by (simp add: map_of_eq_None_iff)
  with fun_cong [OF assms(2), of j] show "updated_map m' u j = updated_map m ((k, v) # u) j"
    by (auto simp: updated_map_def split: option.splits)
qed

lemma update_entries_map:
  "update_entries u (m, c) = (m', c') \<Longrightarrow> distinct (mkeys u) \<Longrightarrow>
   map_of m' = updated_map m u \<and> c' = (c \<or> updated_map m u \<noteq> map_of m)"
proof (induction u arbitrary: m c)
  case (Cons kv u)
  obtain k v where kv: "kv = (k, v)" by fastforce
  have k: "k \<notin> set (mkeys u)" and d: "distinct (mkeys u)" using Cons.prems(2) kv by auto
  show ?case
  proof (cases "map_of m k = v")
    case True
    with Cons.prems(1) kv have run: "update_entries u (m, c) = (m', c')" by (cases v) auto
    have "map_of m = (map_of m)(k := v)" using True by (simp add: fun_upd_idem)
    with updated_map_Cons [OF k] Cons.IH [OF run d] kv show ?thesis by simp
  next
    case False
    let ?m = "case v of None \<Rightarrow> mdel k m | Some s \<Rightarrow> mput k s m"
    from False Cons.prems(1) kv have run: "update_entries u (?m, True) = (m', c')" by (cases v) auto
    have upd: "map_of ?m = (map_of m)(k := v)" by (cases v) auto
    from updated_map_Cons [OF k upd] kv have eq: "updated_map ?m u = updated_map m (kv # u)" by simp
    have "updated_map m (kv # u) k = v" using kv by (simp add: updated_map_def)
    with False have "updated_map m (kv # u) \<noteq> map_of m" by auto
    with Cons.IH [OF run d] eq show ?thesis by simp
  qed
qed (simp add: updated_map_Nil)

section \<open>What is written\<close>

text \<open>
  The raw map of an object and the library's view of it: a field at the top level is the entry
  of the map, and what is below depends on that entry only.
\<close>

locale kube_objects = kube_lib +
  assumes nested_top: "NestedField K a [f] = Inr (map_of a f)"
    and nested_below: "map_of a f = map_of b f \<Longrightarrow> NestedField K a (f # p) = NestedField K b (f # p)"
begin

lemma top_field: "map_of a f = map_of b f \<longleftrightarrow> NestedField K a [f] = NestedField K b [f]"
  by (simp add: nested_top)

lemma finalizers_frame: "diverge finalizers_path q \<Longrightarrow> NestedField K (RemoveFinalizer K x f) q = NestedField K x q"
  by (simp add: RemoveFinalizer_def frame_finalizers split: option.splits)

lemma status_frame: "f \<noteq> ''status'' \<Longrightarrow> NestedField K (mput ''status'' v x) (f # p) = NestedField K x (f # p)"
  by (rule nested_below) simp

end

interpretation std_objects: kube_objects std_kube
proof unfold_locales
  show "map_of a f = map_of b f \<Longrightarrow> NestedField std_kube a (f # p) = NestedField std_kube b (f # p)" for a b f p
    by (simp add: std_kube_def)
qed (simp add: std_kube_def split: option.splits)

text \<open>
  A watch as its hook wants it: labels and annotations updated, the status replaced unless there
  is none, and all fields but finalizers and version otherwise untouched.
\<close>

definition as_answered :: "kube \<Rightarrow> obj \<Rightarrow> answer \<Rightarrow> obj \<Rightarrow> bool" where
  "as_answered K watch an y =
     (map_of (mrange (GetLabels K y)) = updated_map (mrange (GetLabels K watch)) (anLabels an) \<and>
      map_of (mrange (GetAnnotations K y)) = updated_map (mrange (GetAnnotations K watch)) (anAnnotations an) \<and>
      map_of y ''status'' = Some (status_value (case anStatus an of
        None \<Rightarrow> GetNestedObject watch [''status''] | Some s \<Rightarrow> Some s)) \<and>
      (\<forall>q. diverge [''status''] q \<and> diverge labels_path q \<and> diverge annotations_path q \<and>
           diverge finalizers_path q \<and> diverge [''metadata'', ''resourceVersion''] q \<longrightarrow>
         NestedField K y q = NestedField K watch q))"

lemma as_answered_frame:
  assumes "kube_objects K" and "as_answered K watch an y"
    and "\<And>q. q \<in> {labels_path, annotations_path, [''status'']} \<or>
      diverge finalizers_path q \<and> diverge [''metadata'', ''resourceVersion''] q \<Longrightarrow> NestedField K z q = NestedField K y q"
  shows "as_answered K watch an z"
proof -
  have kl: "kube_lib K" using assms(1) by (simp add: kube_objects_def)
  have "GetLabels K z = GetLabels K y" by (rule kube_lib.local_labels [OF kl assms(3)]) simp
  moreover have "GetAnnotations K z = GetAnnotations K y" by (rule kube_lib.local_annotations [OF kl assms(3)]) simp
  moreover have "map_of z ''status'' = map_of y ''status''"
    unfolding kube_objects.top_field [OF assms(1)] by (rule assms(3)) simp
  ultimately show ?thesis using assms(2,3) unfolding as_answered_def by metis
qed

lemma as_answered_finalizer:
  assumes "kube_objects K" and "as_answered K watch an y"
  shows "as_answered K watch an (RemoveFinalizer K y f)"
  by (rule as_answered_frame [OF assms]) (auto simp: kube_objects.finalizers_frame [OF assms(1)])

lemma as_answered_version:
  assumes "kube_objects K" and "as_answered K watch an y"
  shows "as_answered K watch an (SetResourceVersion K y v)"
proof (rule as_answered_frame [OF assms])
  have kl: "kube_lib K" using assms(1) by (simp add: kube_objects_def)
  show "NestedField K (SetResourceVersion K y v) q = NestedField K y q"
    if "q \<in> {labels_path, annotations_path, [''status'']} \<or>
      diverge finalizers_path q \<and> diverge [''metadata'', ''resourceVersion''] q" for q
    using that by (auto intro!: kube_lib.frame_resourceVersion [OF kl])
qed

definition meta_unchanged :: "kube \<Rightarrow> obj \<Rightarrow> answer \<Rightarrow> bool" where
  "meta_unchanged K watch an =
     (updated_map (mrange (GetLabels K watch)) (anLabels an) = map_of (mrange (GetLabels K watch)) \<and>
      updated_map (mrange (GetAnnotations K watch)) (anAnnotations an) = map_of (mrange (GetAnnotations K watch)))"

definition status_unchanged :: "obj \<Rightarrow> answer \<Rightarrow> bool" where
  "status_unchanged watch an = (let status = GetNestedObject watch [''status''] in
     status_equal status (case anStatus an of None \<Rightarrow> status | Some s \<Rightarrow> Some s))"

lemma final_object_answers:
  assumes "kube_objects K" and "meta_ok watch" and "distinct (mkeys (anLabels an))"
    and "distinct (mkeys (anAnnotations an))"
  obtains y where "final_object K watch an = Inr (y, \<not> meta_unchanged K watch an, \<not> status_unchanged watch an)"
    "as_answered K watch an y" "GetFinalizers K y = GetFinalizers K watch" "meta_ok y"
proof -
  have kl: "kube_lib K" using assms(1) by (simp add: kube_objects_def)
  note laws = kube_lib.get_set_labels [OF kl] kube_lib.get_set_annotations [OF kl] kube_lib.frame_labels [OF kl]
    kube_lib.frame_annotations [OF kl] kube_lib.meta_ok_setters [OF kl]
  obtain ls lc where ls: "update_entries (anLabels an) (mrange (GetLabels K watch), False) = (ls, lc)" by fastforce
  obtain as ac where as: "update_entries (anAnnotations an) (mrange (GetAnnotations K watch), False) = (as, ac)"
    by fastforce
  note lmap = update_entries_map [OF ls assms(3)] and amap = update_entries_map [OF as assms(4)]
  let ?z = "SetAnnotations K (SetLabels K watch ls) as"
  let ?v = "status_value (case anStatus an of None \<Rightarrow> GetNestedObject watch [''status''] | Some s \<Rightarrow> Some s)"
  let ?y = "mput ''status'' ?v ?z"
  have below: "NestedField K ?y (f # p) = NestedField K ?z (f # p)" if "f \<noteq> ''status''" for f p
    by (rule kube_objects.status_frame [OF assms(1) that])
  have "GetLabels K ?z = Some ls"
    using kube_lib.local_labels [OF kl, of ?z "SetLabels K watch ls"] assms(2) laws by simp
  moreover have "GetLabels K ?y = GetLabels K ?z" by (rule kube_lib.local_labels [OF kl]) (simp add: below)
  ultimately have l: "GetLabels K ?y = Some ls" by simp
  have "GetAnnotations K ?z = Some as" using assms(2) laws by simp
  moreover have "GetAnnotations K ?y = GetAnnotations K ?z" by (rule kube_lib.local_annotations [OF kl]) (simp add: below)
  ultimately have a: "GetAnnotations K ?y = Some as" by simp
  have frame: "NestedField K ?y q = NestedField K watch q"
    if "diverge [''status''] q" "diverge labels_path q" "diverge annotations_path q" for q
    using that below laws by (cases q) auto
  have "GetFinalizers K ?y = GetFinalizers K watch"
    by (rule kube_lib.local_finalizers [OF kl]) (simp add: frame)
  moreover have "as_answered K watch an ?y"
    using l a lmap amap frame by (simp add: as_answered_def)
  moreover have "final_object K watch an = Inr (?y, \<not> meta_unchanged K watch an, \<not> status_unchanged watch an)"
    using lmap amap by (simp add: final_object_def ls as SetNestedField_def meta_unchanged_def status_unchanged_def Let_def)
  moreover have "meta_ok ?y" using kube_lib.meta_ok_cong [OF kl, of ?y ?z] assms(2) laws by simp
  ultimately show ?thesis using that by blast
qed

text \<open>The writes of a watch: in its own namespace, of an object that is as the hook wants it.\<close>

definition object_write :: "kube \<Rightarrow> resource_client \<Rightarrow> obj \<Rightarrow> answer \<Rightarrow> request \<Rightarrow> bool" where
  "object_write K client watch an q =
     (\<exists>y. as_answered K watch an y \<and>
        (q = rc_Update (Namespace client (GetNamespace K watch)) y \<or>
         q = rc_UpdateStatus (Namespace client (GetNamespace K watch)) y))"

text \<open>The last write is a regular update, which alone can remove the finalizer.\<close>

definition last_write :: "kube \<Rightarrow> resource_client \<Rightarrow> finalizer \<Rightarrow> obj \<Rightarrow> answer \<Rightarrow> request \<Rightarrow> bool" where
  "last_write K client f watch an q =
     (\<exists>y. q = rc_Update (Namespace client (GetNamespace K watch)) y \<and> as_answered K watch an y \<and>
        GetFinalizers K y = (if anFinalized an then remove1 (fName f) (GetFinalizers K watch)
                             else GetFinalizers K watch))"

lemma write_object_writes:
  assumes "kube_objects (kubeOf E)" and "as_answered (kubeOf E) watch an y" and "meta_ok y"
    and "GetFinalizers (kubeOf E) y = GetFinalizers (kubeOf E) watch"
    and "write_object E up st f client watch y changed (anFinalized an) w = (r, w')"
  shows "\<exists>ts. calls w' = calls w @ ts \<and> ts \<noteq> [] \<and> length ts \<le> 2 \<and>
    list_all (\<lambda>(q, a). object_write (kubeOf E) client watch an q) ts \<and>
    (r = None \<longrightarrow> list_all (\<lambda>(q, a). isOK a) ts \<and>
       last_write (kubeOf E) client f watch an (fst (last ts)) \<and>
       (changed \<and> HasSubresource (rcResource client) ''status'' \<longrightarrow>
          (\<exists>y a. (rc_UpdateStatus (Namespace client (GetNamespace (kubeOf E) watch)) y, a) \<in> set ts)))"
proof -
  let ?K = "kubeOf E" and ?c = "Namespace client (GetNamespace (kubeOf E) watch)"
  have kl: "kube_lib ?K" using assms(1) by (simp add: kube_objects_def)
  let ?fin = "\<lambda>x. if anFinalized an then Finalizer_RemoveFinalizer ?K f x else x"
  have fin: "as_answered ?K watch an (?fin x) \<and> last_write ?K client f watch an (rc_Update ?c (?fin x))"
    if "as_answered ?K watch an x" "meta_ok x" "GetFinalizers ?K x = GetFinalizers ?K watch" for x
    using that as_answered_finalizer [OF assms(1) that(1)] finalizer_laws [OF kl that(2)]
    by (auto simp: Finalizer_RemoveFinalizer_def last_write_def)
  show ?thesis
  proof (cases "changed \<and> HasSubresource (rcResource client) ''status''")
    case True
    obtain a w1 where st: "call E (rc_UpdateStatus ?c y) w = (a, w1)" by fastforce
    have st': "calls w1 = calls w @ [(rc_UpdateStatus ?c y, a)]" using calls_call [OF st] .
    have ok1: "object_write ?K client watch an (rc_UpdateStatus ?c y)" using assms(2) by (auto simp: object_write_def)
    show ?thesis
    proof (cases a)
      case (Inl err)
      with True st st' ok1 assms(5) show ?thesis by (auto simp: write_object_def Let_def)
    next
      case (Inr result)
      let ?y = "SetResourceVersion ?K y (GetResourceVersion ?K result)"
      obtain b w2 where up: "call E (rc_Update ?c (?fin ?y)) w1 = (b, w2)" by fastforce
      have fins: "GetFinalizers ?K ?y = GetFinalizers ?K watch"
        using kube_lib.local_finalizers [OF kl, of ?y y] kube_lib.frame_resourceVersion [OF kl] assms(4) by simp
      note last = fin [OF as_answered_version [OF assms(1,2)] kube_lib.meta_ok_setters(5) [OF kl assms(3)] fins]
      then have "object_write ?K client watch an (rc_Update ?c (?fin ?y))" by (auto simp: object_write_def)
      moreover have "calls w2 = calls w @ [(rc_UpdateStatus ?c y, a), (rc_Update ?c (?fin ?y), b)]"
        using calls_call [OF up] st' by simp
      moreover have "r = None \<longleftrightarrow> isOK b" "w' = w2"
        using True Inr st up assms(5) by (auto simp: write_object_def Let_def split: sum.splits)
      ultimately show ?thesis using last ok1 Inr
        by (intro exI [of _ "[(rc_UpdateStatus ?c y, a), (rc_Update ?c (?fin ?y), b)]"]) auto
    qed
  next
    case False
    obtain b w2 where up: "call E (rc_Update ?c (?fin y)) w = (b, w2)" by fastforce
    note last = fin [OF assms(2,3,4)]
    then have "object_write ?K client watch an (rc_Update ?c (?fin y))" by (auto simp: object_write_def)
    moreover have "r = None \<longleftrightarrow> isOK b" "w' = w2"
      using False up assms(5) by (auto simp: write_object_def Let_def split: sum.splits)
    ultimately show ?thesis using last False calls_call [OF up]
      by (intro exI [of _ "[(rc_Update ?c (?fin y), b)]"]) auto
  qed
qed

lemma object_is_written:
  assumes "kube_objects (kubeOf E)" and "meta_ok watch"
    and "distinct (mkeys (anLabels an))" and "distinct (mkeys (anAnnotations an))"
    and "update_object E up st f client watch an w = (r, w')"
  shows "\<exists>ts. calls w' = calls w @ ts \<and> length ts \<le> 2 \<and>
    (ts = [] \<longleftrightarrow> meta_unchanged (kubeOf E) watch an \<and> status_unchanged watch an \<and>
       \<not> (anFinalized an \<and> HasFinalizer (kubeOf E) watch (fName f))) \<and>
    list_all (\<lambda>(q, a). object_write (kubeOf E) client watch an q) ts \<and>
    (r = None \<and> ts \<noteq> [] \<longrightarrow> list_all (\<lambda>(q, a). isOK a) ts \<and>
       last_write (kubeOf E) client f watch an (fst (last ts)) \<and>
       (\<not> status_unchanged watch an \<and> HasSubresource (rcResource client) ''status'' \<longrightarrow>
          (\<exists>y a. (rc_UpdateStatus (Namespace client (GetNamespace (kubeOf E) watch)) y, a) \<in> set ts)))"
proof -
  obtain y where y: "final_object (kubeOf E) watch an =
      Inr (y, \<not> meta_unchanged (kubeOf E) watch an, \<not> status_unchanged watch an)"
    "as_answered (kubeOf E) watch an y" "GetFinalizers (kubeOf E) y = GetFinalizers (kubeOf E) watch" "meta_ok y"
    by (rule final_object_answers [OF assms(1-4)])
  let ?same = "meta_unchanged (kubeOf E) watch an \<and> status_unchanged watch an \<and>
       \<not> (anFinalized an \<and> HasFinalizer (kubeOf E) watch (fName f))"
  show ?thesis
  proof (cases ?same)
    case True
    with y(1) assms(5) show ?thesis by (intro exI [of _ "[]"]) (simp add: update_object_def)
  next
    case False
    with y(1) assms(5) have "write_object E up st f client watch y (\<not> status_unchanged watch an) (anFinalized an) w = (r, w')"
      by (auto simp: update_object_def)
    from write_object_writes [OF assms(1) y(2,4,3) this] False show ?thesis by blast
  qed
qed

end
