(* ===== verification/WatchController.thy ===== *)
theory WatchController
  imports Selection Hooks StatesController Watched
begin

text \<open>
  \<open>controller/generic/controller.go\<close> with \<open>updatestrategy.go\<close>, \<open>hooks.go\<close> and
  \<open>options.go\<close>: a generic controller, from its options and its construction, through the events
  of its watch and its queue, to the reconciliation of one watch.

  Goroutines, the wait for the caches and the logging are left out. The discovery of the
  controller is the one its clients use, as the server starts them. A panic is never wrapped.
\<close>

section \<open>Schema and options\<close>

record gctl_hooks =
  ghSync :: "hook option"
  ghFinalize :: "hook option"

record generic_controller =
  gcNamespace :: string
  gcName :: string
  gcWatch :: gctl_resource
  gcAttachments :: "gctl_attachment list"
  gcHooks :: "gctl_hooks option"
  gcResyncPeriodSeconds :: "int option"
  gcReadOnly :: "bool option"
  gcUpdateAny :: "bool option"
  gcDeleteAny :: "bool option"
  gcParameters :: strmap

definition GenericControllerKey :: "string \<Rightarrow> string \<Rightarrow> string" where
  "GenericControllerKey namespace name = (if namespace = '''' then name else namespace @ ''/'' @ name)"

definition AsNamespaceNameKey :: "generic_controller \<Rightarrow> string" where
  "AsNamespaceNameKey gc = GenericControllerKey (gcNamespace gc) (gcName gc)"

type_synonym gctl_option = "generic_controller \<Rightarrow> generic_controller"

definition WithReadOnly :: "bool option \<Rightarrow> gctl_option" where
  "WithReadOnly b ctl = ctl\<lparr>gcReadOnly := b\<rparr>"

definition WithUpdateAny :: "bool option \<Rightarrow> gctl_option" where
  "WithUpdateAny b ctl = ctl\<lparr>gcUpdateAny := b\<rparr>"

definition WithDeleteAny :: "bool option \<Rightarrow> gctl_option" where
  "WithDeleteAny b ctl = ctl\<lparr>gcDeleteAny := b\<rparr>"

text \<open>A missing hook is created before a part of it is set.\<close>

definition hooks_of :: "generic_controller \<Rightarrow> gctl_hooks" where
  "hooks_of ctl = (case gcHooks ctl of None \<Rightarrow> \<lparr>ghSync = None, ghFinalize = None\<rparr> | Some h \<Rightarrow> h)"

definition hook_of :: "hook option \<Rightarrow> hook" where
  "hook_of h = (case h of None \<Rightarrow> \<lparr>hkWebhook = None, hkInline = None\<rparr> | Some h \<Rightarrow> h)"

definition url_webhook :: "string \<Rightarrow> webhook" where
  "url_webhook url = \<lparr>whURL = Some url, whTimeout = None, whPath = None, whService = None\<rparr>"

definition WithInlinehookSyncFunc :: "string option \<Rightarrow> gctl_option" where
  "WithInlinehookSyncFunc funcName ctl =
     (case funcName of
        None \<Rightarrow> ctl
      | Some fn \<Rightarrow> (let hooks = hooks_of ctl in
          ctl\<lparr>gcHooks := Some (hooks\<lparr>ghSync := Some ((hook_of (ghSync hooks))\<lparr>hkInline := Some (Some fn)\<rparr>)\<rparr>)\<rparr>))"

definition WithWebhookSyncURL :: "string option \<Rightarrow> gctl_option" where
  "WithWebhookSyncURL url ctl =
     (case url of
        None \<Rightarrow> ctl
      | Some u \<Rightarrow> (let hooks = hooks_of ctl in
          ctl\<lparr>gcHooks := Some (hooks\<lparr>ghSync := Some ((hook_of (ghSync hooks))\<lparr>hkWebhook := Some (url_webhook u)\<rparr>)\<rparr>)\<rparr>))"

definition WithInlinehookFinalizeFunc :: "string option \<Rightarrow> gctl_option" where
  "WithInlinehookFinalizeFunc funcName ctl =
     (case funcName of
        None \<Rightarrow> ctl
      | Some fn \<Rightarrow> (let hooks = hooks_of ctl in
          ctl\<lparr>gcHooks := Some (hooks\<lparr>ghFinalize := Some ((hook_of (ghFinalize hooks))\<lparr>hkInline := Some (Some fn)\<rparr>)\<rparr>)\<rparr>))"

definition WithWebhookFinalizeURL :: "string option \<Rightarrow> gctl_option" where
  "WithWebhookFinalizeURL url ctl =
     (case url of
        None \<Rightarrow> ctl
      | Some u \<Rightarrow> (let hooks = hooks_of ctl in
          ctl\<lparr>gcHooks := Some (hooks\<lparr>ghFinalize :=
            Some ((hook_of (ghFinalize hooks))\<lparr>hkWebhook := Some (url_webhook u)\<rparr>)\<rparr>)\<rparr>))"

definition WithWatch :: "gctl_resource option \<Rightarrow> gctl_option" where
  "WithWatch watch ctl = (case watch of None \<Rightarrow> ctl | Some w \<Rightarrow> ctl\<lparr>gcWatch := w\<rparr>)"

text \<open>A rule is an API version and a resource.\<close>

definition rule_resource :: "string \<times> string \<Rightarrow> gctl_resource" where
  "rule_resource rule =
     \<lparr>grAPIVersion = fst rule, grResource = snd rule, grNameSelector = None, grLabelSelector = None,
      grAnnotationSelector = None, grAdvancedSelector = None\<rparr>"

definition WithWatchRule :: "(string \<times> string) option \<Rightarrow> gctl_option" where
  "WithWatchRule rule ctl = (case rule of None \<Rightarrow> ctl | Some r \<Rightarrow> ctl\<lparr>gcWatch := rule_resource r\<rparr>)"

definition rule_attachment :: "string \<times> string \<Rightarrow> gctl_attachment" where
  "rule_attachment rule = gctl_resource.extend (rule_resource rule) \<lparr>gaUpdateStrategy = None\<rparr>"

definition WithAttachmentRules :: "(string \<times> string) option list \<Rightarrow> gctl_option" where
  "WithAttachmentRules rules ctl = ctl\<lparr>gcAttachments := map rule_attachment (List.map_filter id rules)\<rparr>"

definition WithAttachments :: "gctl_attachment option list \<Rightarrow> gctl_option" where
  "WithAttachments atts ctl = ctl\<lparr>gcAttachments := gcAttachments ctl @ List.map_filter id atts\<rparr>"

section \<open>Update strategies\<close>

text \<open>
  Two components keep the strategies of the attachments: a map that is made with the
  controller, and a manager that is made in every pass.
\<close>

definition ChildUpdateOnDelete :: string where
  "ChildUpdateOnDelete = ''OnDelete''"

definition makeAttachmentUpdateStrategyKey :: "string \<Rightarrow> string \<Rightarrow> string" where
  "makeAttachmentUpdateStrategyKey apiGroup kind = kind @ ''.'' @ apiGroup"

fun strategies_for_attachments ::
  "discovery \<Rightarrow> gctl_attachment list \<Rightarrow> attachment_strategy gomap \<Rightarrow> attachment_strategy gomap res" where
  "strategies_for_attachments d [] m = Inr m"
| "strategies_for_attachments d (a # attachments) m =
     (case gaUpdateStrategy a of
        None \<Rightarrow> strategies_for_attachments d attachments m
      | Some st \<Rightarrow>
          if asMethod st \<noteq> ChildUpdateOnDelete
          then (case GetAPIForAPIVersionAndResource d (grAPIVersion a) (grResource a) of
                  None \<Rightarrow> Inl (Msg (''Can't find attachment '' @ quoted (grResource a) @ '' with version '' @
                    quoted (grAPIVersion a)))
                | Some resource \<Rightarrow>
                    strategies_for_attachments d attachments
                      (mput (makeAttachmentUpdateStrategyKey (fst (ParseAPIVersionToGroupVersion (grAPIVersion a)))
                               (rKind resource)) st m))
          else strategies_for_attachments d attachments m)"

definition makeUpdateStrategyForAttachments ::
  "discovery \<Rightarrow> gctl_attachment list \<Rightarrow> attachment_strategy gomap res" where
  "makeUpdateStrategyForAttachments d attachments = strategies_for_attachments d attachments []"

definition strategies_get :: "attachment_strategy gomap \<Rightarrow> string \<Rightarrow> string \<Rightarrow> attachment_strategy option" where
  "strategies_get m apiGroup kind = map_of m (makeAttachmentUpdateStrategyKey apiGroup kind)"

definition GetOrDefault :: "attachment_strategy gomap \<Rightarrow> string \<Rightarrow> string \<Rightarrow> string" where
  "GetOrDefault m apiGroup kind =
     (case strategies_get m apiGroup kind of
        None \<Rightarrow> ChildUpdateOnDelete
      | Some st \<Rightarrow> if asMethod st = '''' then ChildUpdateOnDelete else asMethod st)"

record strategy_manager =
  smStrategies :: "attachment_strategy gomap"
  smDefaultMethod :: string

definition makeUpdateStrategyKeyFromGK :: "string \<Rightarrow> string \<Rightarrow> string" where
  "makeUpdateStrategyKeyFromGK apiGroup kind = kind @ ''.'' @ apiGroup"

fun manager_strategies ::
  "discovery \<Rightarrow> string \<Rightarrow> gctl_attachment list \<Rightarrow> attachment_strategy gomap \<Rightarrow> attachment_strategy gomap" where
  "manager_strategies d dflt [] m = m"
| "manager_strategies d dflt (a # attachments) m =
     (case gaUpdateStrategy a of
        None \<Rightarrow> manager_strategies d dflt attachments m
      | Some st \<Rightarrow>
          if asMethod st \<noteq> dflt
          then (case GetAPIForAPIVersionAndResource d (grAPIVersion a) (grResource a) of
                  None \<Rightarrow> manager_strategies d dflt attachments m
                | Some resource \<Rightarrow>
                    manager_strategies d dflt attachments
                      (mput (makeUpdateStrategyKeyFromGK (fst (ParseAPIVersionToGroupVersion (grAPIVersion a)))
                               (rKind resource)) st m))
          else manager_strategies d dflt attachments m)"

definition newAttachmentUpdateStrategyManager ::
  "discovery \<Rightarrow> gctl_attachment list \<Rightarrow> strategy_manager res" where
  "newAttachmentUpdateStrategyManager d attachments =
     Inr \<lparr>smStrategies = manager_strategies d ChildUpdateOnDelete attachments [],
          smDefaultMethod = ChildUpdateOnDelete\<rparr>"

definition getStrategyByGK :: "strategy_manager \<Rightarrow> string \<Rightarrow> string \<Rightarrow> attachment_strategy option" where
  "getStrategyByGK mgr apiGroup kind = map_of (smStrategies mgr) (makeUpdateStrategyKeyFromGK apiGroup kind)"

definition GetStrategyByGKOrDefault :: "strategy_manager \<Rightarrow> string \<Rightarrow> string \<Rightarrow> string" where
  "GetStrategyByGKOrDefault mgr apiGroup kind =
     (case getStrategyByGK mgr apiGroup kind of
        None \<Rightarrow> smDefaultMethod mgr
      | Some st \<Rightarrow> if asMethod st = '''' then smDefaultMethod mgr else asMethod st)"

definition manager_IsPatchByGK :: "strategy_manager \<Rightarrow> string \<Rightarrow> string \<Rightarrow> bool" where
  "manager_IsPatchByGK mgr apiGroup kind =
     (case getStrategyByGK mgr apiGroup kind of
        None \<Rightarrow> False
      | Some st \<Rightarrow> (case asPatch st of None \<Rightarrow> False | Some b \<Rightarrow> b))"

section \<open>Requests and responses of hooks\<close>

record watch_request =
  wrController :: generic_controller
  wrWatch :: obj
  wrAttachments :: registry
  wrFinalizing :: bool

record watch_response =
  wsLabels :: "string option gomap"
  wsAnnotations :: "string option gomap"
  wsStatus :: "obj option"
  wsAttachments :: "obj list"
  wsExplicitUpdates :: "obj list"
  wsExplicitDeletes :: "obj list"
  wsResyncAfterSeconds :: rat
  wsSkipReconcile :: bool
  wsFinalized :: bool

section \<open>The controller\<close>

datatype watch_handler = WatchHandlers

type_synonym wc_factory = "watch_handler factory"

record watch_controller =
  wcConfig :: generic_controller
  wcWatchAPIRegistry :: "api_resource gomap"
  wcWatchSelector :: selection
  wcAttachmentSelector :: selection
  wcUpdateStrategies :: "attachment_strategy gomap"
  wcWatchInformers :: "resource_informer gomap"
  wcAttachmentInformers :: "resource_informer gomap"
  wcFinalizer :: finalizer

definition config_String :: "generic_controller \<Rightarrow> string" where
  "config_String gc = ''GenericController '' @ quoted (gcNamespace gc) @ '' / '' @ quoted (gcName gc)"

definition WatchController_String :: "watch_controller \<Rightarrow> string" where
  "WatchController_String mgr = config_String (wcConfig mgr)"

definition makeAllSelectors ::
  "'a selector_lib_scheme \<Rightarrow> discovery option \<Rightarrow> generic_controller \<Rightarrow> (selection \<times> selection) res" where
  "makeAllSelectors L d schema =
     (case NewSelectorForWatch L d (gcWatch schema) of
        Inl err \<Rightarrow> Inl err
      | Inr watchSelector \<Rightarrow>
          (case NewSelectorForAttachments L d (gcAttachments schema) of
             Inl err \<Rightarrow> Inl err
           | Inr attachmentSelector \<Rightarrow> Inr (watchSelector, attachmentSelector)))"

definition subscribe_attachments ::
  "(string \<Rightarrow> string \<Rightarrow> resource_client res) \<Rightarrow> string \<Rightarrow> gctl_attachment list \<Rightarrow> resource_informer gomap \<Rightarrow>
   'h factory \<Rightarrow> gerr option \<times> resource_informer gomap \<times> 'h factory" where
  "subscribe_attachments getClient who attachments =
     subscribe getClient (\<lambda>apiVersion resource err.
         Wrap (''Can't create informer for attachment '' @ quoted resource @ '' with version '' @
           quoted apiVersion @ '': '' @ who) err)
       (map (\<lambda>a. (grAPIVersion a, grResource a)) attachments)"

text \<open>From the first subscription on, an error closes all informers of the controller.\<close>

definition subscribe_all ::
  "clientset \<Rightarrow> generic_controller \<Rightarrow> 'h factory \<Rightarrow>
   (resource_informer gomap \<times> resource_informer gomap) res \<times> 'h factory" where
  "subscribe_all cs config F =
     (let getClient = GetClientForAPIVersionAndResource (csParse cs) (csDiscovery cs);
          av = grAPIVersion (gcWatch config); r = grResource (gcWatch config); who = config_String config in
      case GetOrCreate getClient av r F of
        (Inl err, F1) \<Rightarrow>
          (Inl (Wrap (''Can't create informer for watch '' @ quoted r @ '' with version '' @ quoted av @ '': '' @ who) err), F1)
      | (Inr ri, F1) \<Rightarrow>
          (let watchInformers = ResourceInformerRegistrar_Set av r ri [] in
           case subscribe_attachments getClient who (gcAttachments config) [] F1 of
             (Some err, attachmentInformers, F2) \<Rightarrow>
               (case close_all (map snd attachmentInformers @ map snd watchInformers) F2 of
                  Inl p \<Rightarrow> (Inl p, F2)
                | Inr F3 \<Rightarrow> (Inl err, F3))
           | (None, attachmentInformers, F2) \<Rightarrow> (Inr (watchInformers, attachmentInformers), F2)))"

definition NewWatchController ::
  "'a selector_lib_scheme \<Rightarrow> clientset \<Rightarrow> generic_controller \<Rightarrow> 'h factory \<Rightarrow> watch_controller res \<times> 'h factory" where
  "NewWatchController L cs config F =
     (let d = csDiscovery cs; watch = gcWatch config in
      case gcHooks config of
        None \<Rightarrow> (Inl nil_deref, F)
      | Some hooks \<Rightarrow>
     (case makeAllSelectors L (Some d) config of
        Inl err \<Rightarrow> (Inl err, F)
      | Inr (watchSelector, attachmentSelector) \<Rightarrow>
     (case GetAPIForAPIVersionAndResource d (grAPIVersion watch) (grResource watch) of
        None \<Rightarrow> (Inl (Msg (''Discovery failed: Can't find watch '' @ quoted (grResource watch) @ '' with version '' @
                 quoted (grAPIVersion watch) @ '': '' @ config_String config)), F)
      | Some watchAPI \<Rightarrow>
     (case makeUpdateStrategyForAttachments d (gcAttachments config) of
        Inl err \<Rightarrow> (Inl err, F)
      | Inr strategies \<Rightarrow>
     (case subscribe_all cs config F of
        (Inl err, F') \<Rightarrow> (Inl err, F')
      | (Inr (watchInformers, attachmentInformers), F') \<Rightarrow>
          (Inr \<lparr>wcConfig = config,
                wcWatchAPIRegistry = ResourceRegistrar_Set (rGroup watchAPI) (rKind watchAPI) watchAPI [],
                wcWatchSelector = watchSelector, wcAttachmentSelector = attachmentSelector,
                wcUpdateStrategies = strategies, wcWatchInformers = watchInformers,
                wcAttachmentInformers = attachmentInformers,
                wcFinalizer = \<lparr>fName = ''protect.gctl.metac.openebs.io/'' @
                                 DescMetaAsSanitisedNSName (gcNamespace config) (gcName config),
                               fEnabled = ghFinalize hooks \<noteq> None\<rparr>\<rparr>, F'))))))"

definition watch_Start_handlers ::
  "(watch_handler \<Rightarrow> 'h) \<Rightarrow> (nat \<Rightarrow> indexer) \<Rightarrow> watch_controller \<Rightarrow> 'h factory \<Rightarrow> ('h \<times> event) list \<times> 'h factory" where
  "watch_Start_handlers tag caches mgr F =
     listen caches (map_option resync_period (gcResyncPeriodSeconds (wcConfig mgr))) (tag WatchHandlers)
       (map snd (wcWatchInformers mgr)) F"

definition watch_worker_count :: "int \<Rightarrow> int" where
  "watch_worker_count workerCount = (if workerCount \<le> 0 then 5 else workerCount)"

definition watch_Stop :: "watch_controller \<Rightarrow> channel \<times> 'h factory \<Rightarrow> (channel \<times> 'h factory) res" where
  "watch_Stop mgr s = stop_controller (map snd (wcAttachmentInformers mgr) @ map snd (wcWatchInformers mgr)) s"

section \<open>Events and the queue\<close>

record 's wenv =
  weDyn :: "'s env"
  weClients :: clientset
  weLib :: selector_lib
  weFactory :: wc_factory
  weCaches :: "nat \<Rightarrow> indexer"
  weHooks :: "(watch_request, watch_response) hook_io"
  weInline :: "(watch_request, watch_response) inline_registry"

abbreviation weKube :: "'s wenv \<Rightarrow> kube" where
  "weKube X \<equiv> kubeOf (weDyn X)"

definition makeWatchQueueKey :: "kube \<Rightarrow> watch_item \<Rightarrow> string res" where
  "makeWatchQueueKey K watch = queue_key (Msg ''Can't make key for watch with type'') K watch"

definition splitWatchQueueKey :: "string \<Rightarrow> (string \<times> string \<times> string \<times> string) res" where
  "splitWatchQueueKey key =
     split_key (Msg (''Invalid queue key '' @ quoted key @ '': Want in format apiVersion:kind:ns:name'')) key"

definition enqueueWatch :: "kube \<Rightarrow> watch_controller \<Rightarrow> watch_item \<Rightarrow> queue_op list res" where
  "enqueueWatch K mgr item =
     (let add = (case makeWatchQueueKey K item of Inl err \<Rightarrow> Inr [] | Inr key \<Rightarrow> Inr [QAdd key]) in
      case item of
        WObject x \<Rightarrow>
          (case MatchLAN K (wcWatchSelector mgr) (Some x) of
             Inl err \<Rightarrow> if is_panic err then Inl err else Inr []
           | Inr isMatch \<Rightarrow>
               if \<not> isMatch \<and> \<not> HasFinalizer K x (fName (wcFinalizer mgr)) then Inr [] else add)
      | _ \<Rightarrow> add)"

definition enqueueWatchAfter :: "kube \<Rightarrow> watch_item \<Rightarrow> int \<Rightarrow> queue_op list" where
  "enqueueWatchAfter K item delay =
     (case makeWatchQueueKey K item of Inl err \<Rightarrow> [] | Inr key \<Rightarrow> [QAddAfter key delay])"

definition updateWatch :: "kube \<Rightarrow> watch_controller \<Rightarrow> watch_item \<Rightarrow> watch_item \<Rightarrow> queue_op list res" where
  "updateWatch K mgr old cur = enqueueWatch K mgr cur"

text \<open>The handlers \<open>Start\<close> installs.\<close>

fun watch_event :: "kube \<Rightarrow> watch_controller \<Rightarrow> watch_handler \<times> event \<Rightarrow> queue_op list res" where
  "watch_event K mgr (WatchHandlers, OnAdd x) = enqueueWatch K mgr (WObject x)"
| "watch_event K mgr (WatchHandlers, OnUpdate old cur) = updateWatch K mgr (WObject old) (WObject cur)"
| "watch_event K mgr (WatchHandlers, OnDelete x) = enqueueWatch K mgr (WObject x)"

section \<open>Maps of labels and annotations\<close>

definition updateStringMap :: "strmap option \<Rightarrow> string option gomap \<Rightarrow> strmap option \<times> bool" where
  "updateStringMap dest updates =
     (case dest of
        None \<Rightarrow> (None, False)
      | Some m \<Rightarrow> (case update_entries updates (m, False) of (m', changed) \<Rightarrow> (Some m', changed)))"

section \<open>Attachments\<close>

definition watch_text :: "kube \<Rightarrow> watch_controller \<Rightarrow> string \<Rightarrow> obj \<Rightarrow> string" where
  "watch_text K mgr what watch = what @ DescObjectAsKey K watch @ '': '' @ WatchController_String mgr"

fun observe_objects ::
  "'s wenv \<Rightarrow> watch_controller \<Rightarrow> obj \<Rightarrow> obj list \<Rightarrow> registry \<Rightarrow> registry res" where
  "observe_objects X mgr watch [] m = Inr m"
| "observe_objects X mgr watch (x # xs) m =
     (case MatchAttachmentAgainstWatch (weLib X) (weKube X) (wcAttachmentSelector mgr) (Some x) (Some watch) of
        Inl err \<Rightarrow> Inl (wrapf (''Match failed for attachment '' @ DescObjectAsKey (weKube X) x @ '' against watch '' @
          watch_text (weKube X) mgr '''' watch) err)
      | Inr isMatch \<Rightarrow>
          observe_objects X mgr watch xs (if \<not> isMatch then m else Insert (weKube X) x m))"

fun observe_kinds ::
  "'s wenv \<Rightarrow> watch_controller \<Rightarrow> obj \<Rightarrow> gctl_attachment list \<Rightarrow> registry \<Rightarrow> registry res" where
  "observe_kinds X mgr watch [] m = Inr m"
| "observe_kinds X mgr watch (a # attachments) m =
     (case ResourceInformerRegistrar_Get (wcAttachmentInformers mgr) (grAPIVersion a) (grResource a) of
        None \<Rightarrow> Inl (Msg (''Can't find attachment informer for '' @ quoted (grResource a) @ '' with version '' @
                 quoted (grAPIVersion a) @ '': '' @ watch_text (weKube X) mgr ''Watch '' watch))
      | Some ri \<Rightarrow>
     (case Lister_List (Lister (weCaches X) (weFactory X) ri) everything of
        Inl err \<Rightarrow> Inl (wrapf (''Can't list attachments for '' @ grResource a @ '' with version '' @ grAPIVersion a @
                 '': '' @ watch_text (weKube X) mgr ''Watch '' watch) err)
      | Inr attachmentObjs \<Rightarrow>
     (case GetAPIForAPIVersionAndResource (csDiscovery (weClients X)) (grAPIVersion a) (grResource a) of
        None \<Rightarrow> observe_kinds X mgr watch attachments m
      | Some api \<Rightarrow>
     (case observe_objects X mgr watch attachmentObjs (Init (grAPIVersion a) (rKind api) m) of
        Inl err \<Rightarrow> Inl err
      | Inr m' \<Rightarrow> observe_kinds X mgr watch attachments m'))))"

definition getObservedAttachments :: "'s wenv \<Rightarrow> watch_controller \<Rightarrow> obj \<Rightarrow> registry res" where
  "getObservedAttachments X mgr watch = observe_kinds X mgr watch (gcAttachments (wcConfig mgr)) []"

section \<open>Hooks\<close>

text \<open>The response, nil when there is none to apply, and the request as it was sent.\<close>

definition watch_callSyncHook ::
  "'s wenv \<Rightarrow> watch_controller \<Rightarrow> watch_request \<Rightarrow> watch_response option res \<times> watch_request" where
  "watch_callSyncHook X mgr request =
     (let K = weKube X; watch = wrWatch request;
          invoke = (\<lambda>schema req failed.
            case HookInvoker_Invoke (weHooks X) (weInline X) schema req of
              Inl err \<Rightarrow> (Inl (wrapf failed err), req)
            | Inr response \<Rightarrow> (Inr (Some response), req))
      in case gcHooks (wcConfig mgr) of
           None \<Rightarrow> (Inl (Msg (''Invalid spec: Missing hooks: '' @ WatchController_String mgr)), request)
         | Some hooks \<Rightarrow>
             if ghFinalize hooks = None \<and> ghSync hooks = None
             then (Inl (Msg (''Invalid spec: Missing hooks: '' @ WatchController_String mgr)), request)
             else (case MatchLAN K (wcWatchSelector mgr) (Some watch) of
                     Inl err \<Rightarrow> (Inl (wrapf (watch_text K mgr ''Match failed for watch '' watch) err), request)
                   | Inr isMatch \<Rightarrow>
                       (case ghFinalize hooks of
                          Some schema \<Rightarrow>
                            if GetDeletionTimestamp K watch \<noteq> None \<or> \<not> isMatch
                            then invoke schema (request\<lparr>wrFinalizing := True\<rparr>) ''Finalize hook failed''
                            else (case ghSync hooks of
                                    None \<Rightarrow> (Inr None, request)
                                  | Some sync \<Rightarrow> invoke sync (request\<lparr>wrFinalizing := False\<rparr>) ''Sync hook failed'')
                        | None \<Rightarrow>
                            (case ghSync hooks of
                               None \<Rightarrow> (Inr None, request)
                             | Some sync \<Rightarrow> invoke sync (request\<lparr>wrFinalizing := False\<rparr>) ''Sync hook failed''))))"

section \<open>Updating the watch\<close>

definition watch_answer :: "watch_response \<Rightarrow> answer" where
  "watch_answer resp = \<lparr>anLabels = wsLabels resp, anAnnotations = wsAnnotations resp, anStatus = wsStatus resp,
     anFinalized = wsFinalized resp\<rparr>"

definition update_watch ::
  "'s wenv \<Rightarrow> watch_controller \<Rightarrow> resource_client \<Rightarrow> obj \<Rightarrow> watch_response \<Rightarrow> 's world \<Rightarrow> gerr option \<times> 's world" where
  "update_watch X mgr client watch resp w =
     update_object (weDyn X) (wrapf (watch_text (weKube X) mgr ''Failed to update watch '' watch))
       (wrapf (watch_text (weKube X) mgr ''Failed to update status for watch '' watch))
       (wcFinalizer mgr) client watch (watch_answer resp) w"

section \<open>Reconciling a watch\<close>

definition isReconcileAttachments :: "kube \<Rightarrow> watch_controller \<Rightarrow> obj \<Rightarrow> watch_request \<Rightarrow> watch_response \<Rightarrow> bool" where
  "isReconcileAttachments K mgr watch syncRequest syncResponse =
     (GetDeletionTimestamp K watch = None \<or> ShouldFinalize K (wcFinalizer mgr) watch \<or>
      (GetDeletionTimestamp K watch \<noteq> None \<and> wrFinalizing syncRequest \<and> \<not> wsFinalized syncResponse))"

definition attachment_states ::
  "'s wenv \<Rightarrow> watch_controller \<Rightarrow> strategy_manager \<Rightarrow> obj \<Rightarrow> registry \<Rightarrow> watch_request \<Rightarrow> watch_response \<Rightarrow>
   's cluster_states" where
  "attachment_states X mgr strategies watch observed req resp =
     \<lparr>cBase = \<lparr>GetChildUpdateStrategyByGK = GetStrategyByGKOrDefault strategies,
        IsPatchByGK = manager_IsPatchByGK strategies, Watch = watch, IsWatchOwner = None,
        UpdateAny = gcUpdateAny (wcConfig mgr), DeleteAny = gcDeleteAny (wcConfig mgr),
        UpdateDuringPendingDelete = Some (wrFinalizing req)\<rparr>,
      DynamicClientSet = weClients X, Observed = observed,
      Desired = MakeAnyUnstructRegistry (weKube X) (wsAttachments resp),
      ExplicitDeletes = MakeAnyUnstructRegistry (weKube X) (wsExplicitDeletes resp),
      ExplicitUpdates = MakeAnyUnstructRegistry (weKube X) (wsExplicitUpdates resp),
      DeleteFn = None, CreateOrUpdateFn = None, ExplicitDeleteFn = None, ExplicitUpdateFn = None, cErrs = []\<rparr>"

definition reconcile_attachments ::
  "'s wenv \<Rightarrow> watch_controller \<Rightarrow> obj \<Rightarrow> registry \<Rightarrow> watch_request \<Rightarrow> watch_response \<Rightarrow> 's world \<Rightarrow>
   gerr option \<times> 's world" where
  "reconcile_attachments X mgr watch observed req resp w =
     (if wsSkipReconcile resp then (None, w)
      else if gcReadOnly (wcConfig mgr) = Some True then (None, w)
      else if \<not> isReconcileAttachments (weKube X) mgr watch req resp then (None, w)
      else (case newAttachmentUpdateStrategyManager (csDiscovery (weClients X)) (gcAttachments (wcConfig mgr)) of
              Inl err \<Rightarrow> (Some err, w)
            | Inr strategies \<Rightarrow>
                (case ClusterStates_Apply (weDyn X) (attachment_states X mgr strategies watch observed req resp) w of
                   (Inl p, m, w') \<Rightarrow> (Some p, w')
                 | (Inr err, m, w') \<Rightarrow> (err, w'))))"

text \<open>Whether a watch is of interest: it matches, or has the finalizer of the controller.\<close>

definition concerns :: "'s wenv \<Rightarrow> watch_controller \<Rightarrow> obj \<Rightarrow> bool res" where
  "concerns X mgr watch =
     (case MatchLAN (weKube X) (wcWatchSelector mgr) (Some watch) of
        Inl err \<Rightarrow> Inl (wrapf (watch_text (weKube X) mgr ''Match failed for watch '' watch) err)
      | Inr isMatch \<Rightarrow> Inr (isMatch \<or> HasFinalizer (weKube X) watch (fName (wcFinalizer mgr))))"

text \<open>The part of a pass after the response of a hook.\<close>

definition apply_watch_response ::
  "'s wenv \<Rightarrow> watch_controller \<Rightarrow> resource_client \<Rightarrow> obj \<Rightarrow> registry \<Rightarrow> watch_request \<Rightarrow> watch_response \<Rightarrow>
   's world qworld \<Rightarrow> gerr option \<times> 's world qworld" where
  "apply_watch_response X mgr client watch observed req resp Q =
     (let Q1 = enqueue (if wsResyncAfterSeconds resp > 0
            then enqueueWatchAfter (weKube X) (WObject watch) (resync_delay (wsResyncAfterSeconds resp)) else []) Q in
      case update_watch X mgr client watch resp (qwWorld Q1) of
        (Some err, w) \<Rightarrow> (Some err, Q1\<lparr>qwWorld := w\<rparr>)
      | (None, w) \<Rightarrow>
          (case reconcile_attachments X mgr watch observed req resp w of
             (err, w') \<Rightarrow> (err, Q1\<lparr>qwWorld := w'\<rparr>)))"

definition sync_concerned ::
  "'s wenv \<Rightarrow> watch_controller \<Rightarrow> resource_client \<Rightarrow> obj \<Rightarrow> 's world qworld \<Rightarrow> gerr option \<times> 's world qworld" where
  "sync_concerned X mgr client watch Q =
     (case getObservedAttachments X mgr watch of
        Inl err \<Rightarrow> (Some err, Q)
      | Inr observed \<Rightarrow>
          (let request = \<lparr>wrController = wcConfig mgr, wrWatch = watch, wrAttachments = observed,
                          wrFinalizing = False\<rparr> in
           case watch_callSyncHook X mgr request of
             (Inl err, req) \<Rightarrow> (Some err, Q)
           | (Inr None, req) \<Rightarrow> (None, Q)
           | (Inr (Some resp), req) \<Rightarrow> apply_watch_response X mgr client watch observed req resp Q))"

definition syncWatchObj ::
  "'s wenv \<Rightarrow> watch_controller \<Rightarrow> obj \<Rightarrow> 's world qworld \<Rightarrow> gerr option \<times> 's world qworld" where
  "syncWatchObj X mgr watch0 Q =
     (let K = weKube X; cs = weClients X in
      case concerns X mgr watch0 of
        Inl err \<Rightarrow> (Some err, Q)
      | Inr False \<Rightarrow> (None, Q)
      | Inr True \<Rightarrow>
     (case GetClientForAPIVersionAndKind (csParse cs) (csDiscovery cs) (GetAPIVersion K watch0) (GetKind K watch0) of
        Inl err \<Rightarrow> (Some (wrapf (watch_text K mgr ''Failed to get client for watch '' watch0) err), Q)
      | Inr client \<Rightarrow>
     (case SyncObject (weDyn X) (wcFinalizer mgr) client watch0 (qwWorld Q) of
        (Inl err, w) \<Rightarrow>
          (Some (wrapf (watch_text K mgr ''Can't sync finalizer for watch '' watch0) err), Q\<lparr>qwWorld := w\<rparr>)
      | (Inr None, w) \<Rightarrow> (Some nil_deref, Q\<lparr>qwWorld := w\<rparr>)
      | (Inr (Some watch), w) \<Rightarrow>
     (case concerns X mgr watch of
        Inl err \<Rightarrow> (Some err, Q\<lparr>qwWorld := w\<rparr>)
      | Inr False \<Rightarrow> (None, Q\<lparr>qwWorld := w\<rparr>)
      | Inr True \<Rightarrow> sync_concerned X mgr client watch (Q\<lparr>qwWorld := w\<rparr>)))))"

definition syncWatch ::
  "'s wenv \<Rightarrow> watch_controller \<Rightarrow> string \<Rightarrow> 's world qworld \<Rightarrow> gerr option \<times> 's world qworld" where
  "syncWatch X mgr key Q =
     (case splitWatchQueueKey key of
        Inl err \<Rightarrow> (Some err, Q)
      | Inr (apiVersion, kind, namespace, name) \<Rightarrow>
     (case GetAPIForAPIVersionAndKind (csDiscovery (weClients X)) apiVersion kind of
        None \<Rightarrow> (Some (Msg (''Can't discover watch API: Kind '' @ quoted kind @ '': Version '' @ quoted apiVersion @
                 '': '' @ WatchController_String mgr)), Q)
      | Some watchAPI \<Rightarrow>
     (case ResourceInformerRegistrar_Get (wcWatchInformers mgr) apiVersion (rName watchAPI) of
        None \<Rightarrow> (Some (Msg (''Can't find informer for watch API '' @ quoted (rName watchAPI) @ '': Kind '' @ quoted kind @
                 '': Version '' @ quoted apiVersion @ '': '' @ WatchController_String mgr)), Q)
      | Some watchInformer \<Rightarrow>
     (case Lister_Get (Lister (weCaches X) (weFactory X) watchInformer) namespace name of
        Inl err \<Rightarrow> if IsNotFound err then (None, Q) else (Some err, Q)
      | Inr watchObj \<Rightarrow> syncWatchObj X mgr watchObj Q))))"

definition watch_processNextWorkItem ::
  "'s wenv \<Rightarrow> watch_controller \<Rightarrow> string option \<Rightarrow> 's world qworld \<Rightarrow> bool res \<times> 's world qworld" where
  "watch_processNextWorkItem X mgr item Q = work_item (syncWatch X mgr) item Q"

definition watch_worker ::
  "'s wenv \<Rightarrow> watch_controller \<Rightarrow> string option list \<Rightarrow> 's world qworld \<Rightarrow> unit res \<times> 's world qworld" where
  "watch_worker X mgr items Q = work (watch_processNextWorkItem X mgr) items Q"

end
