(* ===== verification/Config.thy ===== *)
theory Config
  imports WatchController
begin

text \<open>
  \<open>config/config.go\<close> and \<open>third_party/kubernetes/yaml.go\<close>: the configuration files of the
  generic controllers. The file system and the YAML and JSON libraries are parameters.
\<close>

section \<open>YAML\<close>

text \<open>\<open>bytes.Split(s, sep)\<close> for a separator that is not empty.\<close>

function split_str :: "string \<Rightarrow> string \<Rightarrow> string list" where
  "split_str sep [] = [[]]"
| "split_str sep (x # xs) =
     (if sep \<noteq> [] \<and> take (length sep) (x # xs) = sep
      then [] # split_str sep (drop (length sep) (x # xs))
      else (case split_str sep xs of [] \<Rightarrow> [[x]] | p # ps \<Rightarrow> (x # p) # ps))"
  by pat_completeness auto
termination
  by (relation "measure (\<lambda>(sep, s). length s)") auto

definition yamlSeparator :: string where
  "yamlSeparator = [CHR 0x0A] @ ''---'' @ [CHR 0x0A]"

definition splitYAML :: "string \<Rightarrow> string list" where
  "splitYAML s = filter (\<lambda>doc. doc \<noteq> []) (split_str yamlSeparator s)"

record UnstructList =
  ulAPIVersion :: string
  ulKind :: string
  ulItems :: "obj list"

text \<open>What the code uses of the YAML libraries and of unstructured objects and lists.\<close>

record yaml_lib =
  goyaml_Unmarshal :: "string \<Rightarrow> obj res"
  goyaml_Marshal :: "UnstructList \<Rightarrow> string res"
  yaml_ToJSON :: "string \<Rightarrow> string res"
  UnmarshalJSON :: "string \<Rightarrow> obj res"
  IsList :: "obj \<Rightarrow> bool"
  EachListItem :: "obj \<Rightarrow> obj list res"

fun unmarshal_items :: "yaml_lib \<Rightarrow> string list \<Rightarrow> obj list res" where
  "unmarshal_items Y [] = Inr []"
| "unmarshal_items Y (item # items) =
     (case goyaml_Unmarshal Y item of
        Inl err \<Rightarrow> Inl (Wrap ''Failed to unmarshal'' err)
      | Inr x \<Rightarrow> (case unmarshal_items Y items of Inl err \<Rightarrow> Inl err | Inr xs \<Rightarrow> Inr (x # xs)))"

definition toList :: "yaml_lib \<Rightarrow> string list \<Rightarrow> string res" where
  "toList Y docs =
     (case unmarshal_items Y docs of
        Inl err \<Rightarrow> Inl err
      | Inr items \<Rightarrow> goyaml_Marshal Y \<lparr>ulAPIVersion = ''v1'', ulKind = ''List'', ulItems = items\<rparr>)"

definition JSONToUnstructured :: "yaml_lib \<Rightarrow> string \<Rightarrow> obj res" where
  "JSONToUnstructured Y s =
     (case UnmarshalJSON Y s of Inl err \<Rightarrow> Inl (Wrap ''Failed to unmarshal JSON'' err) | Inr x \<Rightarrow> Inr x)"

definition YAMLToUnstructured :: "yaml_lib \<Rightarrow> string \<Rightarrow> obj res" where
  "YAMLToUnstructured Y s =
     (let docs = splitYAML s in
      case (if length docs \<noteq> 1
            then (case toList Y docs of
                    Inl err \<Rightarrow> Inl (Wrap (''Failed to split yaml docs: Len '' @ show_nat (length docs)) err)
                  | Inr d \<Rightarrow> Inr d)
            else Inr (docs ! 0)) of
        Inl err \<Rightarrow> Inl err
      | Inr d \<Rightarrow>
          (case yaml_ToJSON Y d of
             Inl err \<Rightarrow> Inl (Wrap ''Failed to convert YAML to JSON'' err)
           | Inr json \<Rightarrow> JSONToUnstructured Y json))"

definition YAMLToUnstructuredSlice :: "yaml_lib \<Rightarrow> string \<Rightarrow> obj list res" where
  "YAMLToUnstructuredSlice Y s =
     (case YAMLToUnstructured Y s of
        Inl err \<Rightarrow> Inl err
      | Inr u \<Rightarrow>
          if IsList Y u
          then (case EachListItem Y u of
                  Inl err \<Rightarrow> Inl (Wrap ''Failed to convert yaml docs into slice of unstructured instances'' err)
                | Inr result \<Rightarrow> Inr result)
          else Inr [u])"

section \<open>Configuration files\<close>

text \<open>A directory lists its entries by name, with whether they are directories.\<close>

record config_fs =
  ReadDir :: "string \<Rightarrow> (string \<times> bool) list res"
  ReadFile :: "string \<Rightarrow> string res"

definition has_suffix :: "string \<Rightarrow> string \<Rightarrow> bool" where
  "has_suffix s suf = (length suf \<le> length s \<and> drop (length s - length suf) s = suf)"

fun load_files :: "config_fs \<Rightarrow> yaml_lib \<Rightarrow> string \<Rightarrow> (string \<times> bool) list \<Rightarrow> obj list \<Rightarrow> obj list res" where
  "load_files D Y path [] out = Inr out"
| "load_files D Y path ((fileName, isDir) # files) out =
     (if isDir \<or> \<not> has_suffix fileName ''.yaml'' \<and> \<not> has_suffix fileName ''.json''
      then load_files D Y path files out
      else (let fileNameWithPath = path @ fileName in
            case ReadFile D fileNameWithPath of
              Inl err \<Rightarrow> Inl (Wrap (''Failed to read metac config '' @ fileNameWithPath) err)
            | Inr contents \<Rightarrow>
           (case YAMLToUnstructuredSlice Y contents of
              Inl err \<Rightarrow> Inl (Wrap (''Failed to load metac config '' @ fileNameWithPath) err)
            | Inr ul \<Rightarrow> load_files D Y path files (out @ ul))))"

definition config_Load :: "config_fs \<Rightarrow> yaml_lib \<Rightarrow> string \<Rightarrow> obj list res" where
  "config_Load D Y path =
     (case ReadDir D path of
        Inl err \<Rightarrow> Inl err
      | Inr files \<Rightarrow>
          if files = [] then Inl (Msg (''No metac config(s) found at '' @ path))
          else load_files D Y path files [])"

text \<open>\<open>decode\<close> is the way of an object through JSON to a typed value.\<close>

fun ListGenericControllers :: "kube \<Rightarrow> (obj \<Rightarrow> generic_controller res) \<Rightarrow> obj list \<Rightarrow> generic_controller list res" where
  "ListGenericControllers K decode [] = Inr []"
| "ListGenericControllers K decode (u # us) =
     (if GetKind K u \<noteq> ''GenericController'' then ListGenericControllers K decode us
      else (case decode u of
              Inl err \<Rightarrow> Inl err
            | Inr gctl \<Rightarrow>
                (case ListGenericControllers K decode us of Inl err \<Rightarrow> Inl err | Inr gctls \<Rightarrow> Inr (gctl # gctls))))"

section \<open>Lemmas\<close>

lemma split_str_nonempty [simp]: "split_str sep s \<noteq> []"
  by (induction sep s rule: split_str.induct) (auto split: list.splits)

text \<open>
  What is loaded: the objects of the files, in the order of the directory.
\<close>

definition is_config :: "string \<times> bool \<Rightarrow> bool" where
  "is_config f = (\<not> snd f \<and> (has_suffix (fst f) ''.yaml'' \<or> has_suffix (fst f) ''.json''))"

definition file_objects :: "config_fs \<Rightarrow> yaml_lib \<Rightarrow> string \<Rightarrow> string \<times> bool \<Rightarrow> obj list res" where
  "file_objects D Y path f = (case ReadFile D (path @ fst f) of Inl err \<Rightarrow> Inl err | Inr contents \<Rightarrow> YAMLToUnstructuredSlice Y contents)"

lemma load_files_all:
  "load_files D Y path files out = Inr us \<Longrightarrow>
   \<exists>uss. map Inr uss = map (file_objects D Y path) (filter is_config files) \<and> us = out @ concat uss"
proof (induction D Y path files out rule: load_files.induct)
  case (2 D Y path name dir files out)
  show ?case
  proof (cases "is_config (name, dir)")
    case False
    with 2 show ?thesis by (auto simp: is_config_def)
  next
    case True
    then have cond: "\<not> (dir \<or> \<not> has_suffix name ''.yaml'' \<and> \<not> has_suffix name ''.json'')" by (auto simp: is_config_def)
    with "2.prems" obtain contents ul where f: "ReadFile D (path @ name) = Inr contents"
      "YAMLToUnstructuredSlice Y contents = Inr ul" "load_files D Y path files (out @ ul) = Inr us"
      by (auto simp: Let_def split: sum.splits if_splits)
    from "2.IH"(2) [OF cond refl f] obtain uss where
      "map Inr uss = map (file_objects D Y path) (filter is_config files)" "us = (out @ ul) @ concat uss" by blast
    with True f(1,2) show ?thesis by (intro exI [of _ "ul # uss"]) (simp add: file_objects_def)
  qed
qed simp

lemma ListGenericControllers_all:
  "ListGenericControllers K decode us = Inr gctls \<Longrightarrow>
   map Inr gctls = map decode (filter (\<lambda>u. GetKind K u = ''GenericController'') us)"
  by (induction us arbitrary: gctls) (auto split: if_splits sum.splits)

end
