(* ===== verification/Rollout.thy ===== *)
theory Rollout
  imports Complex_Main ManageChildren
begin

text \<open>
  \<open>controller/composite/rolling_update.go\<close>: the rollout of a new parent revision, child by
  child, with the claims kept in the controller revisions, and the update strategies of the
  child kinds.

  A parent revision is a pointer in the code: here its index in the list, where index 0 is the
  latest. The revision of a parent revision is never nil at this point, and the children of a
  hook response hold no nil (the registry built from them would have panicked).
\<close>

section \<open>Update strategies\<close>

record status_check =
  chkType :: string
  chkStatus :: "string option"
  chkReason :: "string option"

record child_strategy =
  stMethod :: string
  stChecks :: "status_check list"

type_synonym strategy_map = "child_strategy gomap"

definition claimMapKey :: "string \<Rightarrow> string \<Rightarrow> string" where
  "claimMapKey apiGroup kind = kind @ ''.'' @ apiGroup"

definition strategy_get :: "strategy_map \<Rightarrow> string \<Rightarrow> string \<Rightarrow> child_strategy option" where
  "strategy_get m apiGroup kind = map_of m (claimMapKey apiGroup kind)"

definition strategy_Get :: "strategy_map \<Rightarrow> string \<Rightarrow> string \<Rightarrow> string" where
  "strategy_Get m apiGroup kind =
     (case strategy_get m apiGroup kind of
        None \<Rightarrow> ''OnDelete''
      | Some s \<Rightarrow> if stMethod s = '''' then ''OnDelete'' else stMethod s)"

definition isRollingStrategy :: "child_strategy option \<Rightarrow> bool" where
  "isRollingStrategy strategy =
     (case strategy of
        None \<Rightarrow> False
      | Some s \<Rightarrow> stMethod s = ''RollingInPlace'' \<or> stMethod s = ''RollingRecreate'')"

definition isRolling :: "strategy_map \<Rightarrow> string \<Rightarrow> string \<Rightarrow> bool" where
  "isRolling m apiGroup kind = isRollingStrategy (strategy_get m apiGroup kind)"

definition anyRolling :: "strategy_map \<Rightarrow> bool" where
  "anyRolling m = list_ex (\<lambda>(key, s). isRollingStrategy (Some s)) m"

text \<open>A child resource rule: API version, resource and strategy.\<close>

type_synonym child_rule = "string \<times> string \<times> child_strategy option"

fun makeUpdateStrategyMap :: "discovery \<Rightarrow> child_rule list \<Rightarrow> strategy_map \<Rightarrow> strategy_map res" where
  "makeUpdateStrategyMap d [] m = Inr m"
| "makeUpdateStrategyMap d ((apiVersion, resource, None) # rules) m = makeUpdateStrategyMap d rules m"
| "makeUpdateStrategyMap d ((apiVersion, resource, Some s) # rules) m =
     (if stMethod s = ''OnDelete'' then makeUpdateStrategyMap d rules m
      else (case GetAPIForAPIVersionAndResource d apiVersion resource of
              None \<Rightarrow> Inl (Msg (''can't find child resource '' @ quoted resource @ '' in '' @ apiVersion))
            | Some r \<Rightarrow>
                makeUpdateStrategyMap d rules
                  (mput (claimMapKey (fst (ParseAPIVersionToGroupVersion apiVersion)) (rKind r)) s m)))"

section \<open>Status checks\<close>

fun childStatusCheck :: "status_check list \<Rightarrow> obj \<Rightarrow> gerr option" where
  "childStatusCheck [] child = None"
| "childStatusCheck (c # cs) child =
     (case GetStatusCondition child (chkType c) of
        None \<Rightarrow> Some (Msg (''required condition type missing: '' @ quoted (chkType c)))
      | Some cond \<Rightarrow>
          if chkStatus c \<noteq> None \<and> cStatus cond \<noteq> the (chkStatus c)
          then Some (Msg (quoted (chkType c) @ '' condition status is '' @ quoted (cStatus cond) @ '' (want '' @
                 quoted (the (chkStatus c)) @ '')''))
          else if chkReason c \<noteq> None \<and> cReason cond \<noteq> the (chkReason c)
          then Some (Msg (quoted (chkType c) @ '' condition reason is '' @ quoted (cReason cond) @ '' (want '' @
                 quoted (the (chkReason c)) @ '')''))
          else childStatusCheck cs child)"

section \<open>Parent revisions\<close>

record sync_response =
  rsStatus :: "obj option"
  rsChildren :: "obj list"
  rsResyncAfterSeconds :: rat
  rsFinalized :: bool

record parent_revision =
  prParent :: obj
  prRevision :: controller_revision
  prResult :: sync_response
  prDesired :: registry

definition matching_group :: "string \<Rightarrow> string \<Rightarrow> revision_children \<Rightarrow> bool" where
  "matching_group apiGroup kind ch = (rcAPIGroup ch = apiGroup \<and> rcKind ch = kind)"

text \<open>Both functions change the first group that matches, in place.\<close>

fun add_to_group :: "string \<Rightarrow> string \<Rightarrow> string \<Rightarrow> revision_children list \<Rightarrow> revision_children list" where
  "add_to_group apiGroup kind name [] = [\<lparr>rcAPIGroup = apiGroup, rcKind = kind, rcNames = [name]\<rparr>]"
| "add_to_group apiGroup kind name (ch # chs) =
     (if matching_group apiGroup kind ch
      then (if name \<in> set (rcNames ch) then ch else ch\<lparr>rcNames := rcNames ch @ [name]\<rparr>) # chs
      else ch # add_to_group apiGroup kind name chs)"

fun remove_from_group :: "string \<Rightarrow> string \<Rightarrow> string \<Rightarrow> revision_children list \<Rightarrow> revision_children list" where
  "remove_from_group apiGroup kind name [] = []"
| "remove_from_group apiGroup kind name (ch # chs) =
     (if matching_group apiGroup kind ch
      then (case cut_first name (rcNames ch) of
              None \<Rightarrow> ch
            | Some names \<Rightarrow> ch\<lparr>rcNames := names\<rparr>) # chs
      else ch # remove_from_group apiGroup kind name chs)"

definition with_children ::
  "(revision_children list \<Rightarrow> revision_children list) \<Rightarrow> parent_revision \<Rightarrow> parent_revision" where
  "with_children f pr = pr\<lparr>prRevision := (prRevision pr)\<lparr>crChildren := f (crChildren (prRevision pr))\<rparr>\<rparr>"

definition addChild :: "string \<Rightarrow> string \<Rightarrow> string \<Rightarrow> parent_revision \<Rightarrow> parent_revision" where
  "addChild apiGroup kind name = with_children (add_to_group apiGroup kind name)"

definition removeChild :: "string \<Rightarrow> string \<Rightarrow> string \<Rightarrow> parent_revision \<Rightarrow> parent_revision" where
  "removeChild apiGroup kind name = with_children (remove_from_group apiGroup kind name)"

definition countChildren :: "parent_revision \<Rightarrow> nat" where
  "countChildren pr = sum_list (map (\<lambda>ch. length (rcNames ch)) (crChildren (prRevision pr)))"

definition pruneParentRevisions :: "parent_revision list \<Rightarrow> parent_revision list res" where
  "pruneParentRevisions prs =
     (case prs of
        [] \<Rightarrow> Inl (Panic ''index out of range'')
      | latest # others \<Rightarrow> Inr (latest # filter (\<lambda>pr. countChildren pr > 0) others))"

section \<open>Claims\<close>

text \<open>For each kind, the index of the parent revision that claims a name.\<close>

type_synonym claim_map = "nat gomap gomap"

definition claims_of :: "claim_map \<Rightarrow> string \<Rightarrow> nat gomap" where
  "claims_of m key = (case map_of m key of None \<Rightarrow> [] | Some cm \<Rightarrow> cm)"

definition getKind :: "claim_map \<Rightarrow> string \<Rightarrow> string \<Rightarrow> nat gomap" where
  "getKind m apiGroup kind = claims_of m (claimMapKey apiGroup kind)"

definition set_claim :: "string \<Rightarrow> string \<Rightarrow> nat \<Rightarrow> claim_map \<Rightarrow> claim_map" where
  "set_claim key name i m = mput key (mput name i (claims_of m key)) m"

definition setParentRevision :: "string \<Rightarrow> string \<Rightarrow> string \<Rightarrow> nat \<Rightarrow> claim_map \<Rightarrow> claim_map" where
  "setParentRevision apiGroup kind name i m = set_claim (claimMapKey apiGroup kind) name i m"

fun claim_names ::
  "registry \<Rightarrow> nat \<Rightarrow> string \<Rightarrow> string \<Rightarrow> string list \<Rightarrow> claim_map \<Rightarrow> string list \<Rightarrow>
   (string list \<times> claim_map) res" where
  "claim_names desired i apiGroup kind [] claimed names = Inr (names, claimed)"
| "claim_names desired i apiGroup kind (name # rest) claimed names =
     (case FindByGroupKindName desired apiGroup kind name of
        Inl p \<Rightarrow> Inl p
      | Inr None \<Rightarrow> claim_names desired i apiGroup kind rest claimed names
      | Inr (Some x) \<Rightarrow>
          let key = claimMapKey apiGroup kind in
          if map_of (claims_of claimed key) name \<noteq> None
          then claim_names desired i apiGroup kind rest claimed names
          else claim_names desired i apiGroup kind rest (set_claim key name i claimed) (names @ [name]))"

text \<open>The group is kept as it was, with all its names, if one of them is claimed.\<close>

fun claim_kinds ::
  "strategy_map \<Rightarrow> registry \<Rightarrow> nat \<Rightarrow> revision_children list \<Rightarrow> claim_map \<Rightarrow> revision_children list \<Rightarrow>
   (revision_children list \<times> claim_map) res" where
  "claim_kinds st desired i [] claimed children = Inr (children, claimed)"
| "claim_kinds st desired i (ck # cks) claimed children =
     (if \<not> isRolling st (rcAPIGroup ck) (rcKind ck) then claim_kinds st desired i cks claimed children
      else (case claim_names desired i (rcAPIGroup ck) (rcKind ck) (rcNames ck) claimed [] of
              Inl p \<Rightarrow> Inl p
            | Inr (names, claimed') \<Rightarrow>
                claim_kinds st desired i cks claimed' (if names = [] then children else children @ [ck])))"

fun claim_revisions ::
  "strategy_map \<Rightarrow> registry \<Rightarrow> nat \<Rightarrow> parent_revision list \<Rightarrow> claim_map \<Rightarrow>
   (parent_revision list \<times> claim_map) res" where
  "claim_revisions st desired i [] claimed = Inr ([], claimed)"
| "claim_revisions st desired i (pr # prs) claimed =
     (case claim_kinds st desired i (crChildren (prRevision pr)) claimed [] of
        Inl p \<Rightarrow> Inl p
      | Inr (children, claimed') \<Rightarrow>
          (case claim_revisions st desired (Suc i) prs claimed' of
             Inl p \<Rightarrow> Inl p
           | Inr (prs', claimed'') \<Rightarrow> Inr (with_children (\<lambda>_. children) pr # prs', claimed'')))"

definition syncRevisionClaims ::
  "strategy_map \<Rightarrow> parent_revision list \<Rightarrow> (parent_revision list \<times> claim_map) res" where
  "syncRevisionClaims st prs =
     (case prs of
        [] \<Rightarrow> Inl (Panic ''index out of range'')
      | latest # others \<Rightarrow> claim_revisions st (prDesired latest) 0 prs [])"

section \<open>The rolling update\<close>

text \<open>
  Giving a child to the latest revision. The claim map of a kind is read once, before the
  names of the kind are visited.
\<close>

definition give :: "string \<Rightarrow> string \<Rightarrow> string \<Rightarrow> parent_revision list \<Rightarrow> parent_revision list" where
  "give apiGroup kind name prs = prs[0 := addChild apiGroup kind name (prs ! 0)]"

definition take_back :: "nat \<Rightarrow> string \<Rightarrow> string \<Rightarrow> string \<Rightarrow> parent_revision list \<Rightarrow> parent_revision list" where
  "take_back i apiGroup kind name prs = prs[i := removeChild apiGroup kind name (prs ! i)]"

fun claim_latest ::
  "kube \<Rightarrow> registry \<Rightarrow> string \<Rightarrow> string \<Rightarrow> nat gomap \<Rightarrow> obj option gomap \<Rightarrow>
   parent_revision list \<Rightarrow> claim_map \<Rightarrow> (parent_revision list \<times> claim_map) res" where
  "claim_latest K observed apiGroup kind cm [] prs claimed = Inr (prs, claimed)"
| "claim_latest K observed apiGroup kind cm ((name, desiredChild) # objects) prs claimed =
     (case map_of cm name of
        None \<Rightarrow>
          claim_latest K observed apiGroup kind cm objects (give apiGroup kind name prs)
            (setParentRevision apiGroup kind name 0 claimed)
      | Some i \<Rightarrow>
          if i = 0 then claim_latest K observed apiGroup kind cm objects prs claimed
          else (case FindByGroupKindName observed apiGroup kind name of
                  Inl p \<Rightarrow> Inl p
                | Inr None \<Rightarrow> claim_latest K observed apiGroup kind cm objects prs claimed
                | Inr (Some child) \<Rightarrow>
                    (case desiredChild of
                       None \<Rightarrow> Inl nil_deref
                     | Some d \<Rightarrow>
                         (case Apply_Merge K empty_apply child d of
                            (Inl err, a, d') \<Rightarrow>
                              if is_panic err then Inl err
                              else claim_latest K observed apiGroup kind cm objects prs claimed
                          | (Inr updated, a, d') \<Rightarrow>
                              if deep_equal (JObj child) (JObj updated)
                              then claim_latest K observed apiGroup kind cm objects
                                     (take_back i apiGroup kind name (give apiGroup kind name prs))
                                     (setParentRevision apiGroup kind name 0 claimed)
                              else claim_latest K observed apiGroup kind cm objects prs claimed))))"

fun claim_latest_kinds ::
  "kube \<Rightarrow> strategy_map \<Rightarrow> registry \<Rightarrow> registry \<Rightarrow> parent_revision list \<Rightarrow> claim_map \<Rightarrow>
   (parent_revision list \<times> claim_map) res" where
  "claim_latest_kinds K st observed [] prs claimed = Inr (prs, claimed)"
| "claim_latest_kinds K st observed ((vk, objects) # m) prs claimed =
     (case ParseKeyToAPIVersionKind vk of
        Inl p \<Rightarrow> Inl p
      | Inr (apiVersion, kind) \<Rightarrow>
          let apiGroup = fst (ParseAPIVersionToGroupVersion apiVersion) in
          if \<not> isRolling st apiGroup kind then claim_latest_kinds K st observed m prs claimed
          else (case claim_latest K observed apiGroup kind (getKind claimed apiGroup kind) objects prs claimed of
                  Inl p \<Rightarrow> Inl p
                | Inr (prs', claimed') \<Rightarrow> claim_latest_kinds K st observed m prs' claimed'))"

text \<open>One child of the latest revision: nothing if it is up to date and happy.\<close>

definition check_child ::
  "kube \<Rightarrow> registry \<Rightarrow> child_strategy \<Rightarrow> parent_revision \<Rightarrow> string \<Rightarrow> string \<Rightarrow> string \<Rightarrow> gerr option" where
  "check_child K observed s latest apiGroup kind name =
     (case FindByGroupKindName observed apiGroup kind name of
        Inl p \<Rightarrow> Some p
      | Inr None \<Rightarrow> Some (Msg (''missing child '' @ kind @ '' '' @ name))
      | Inr (Some child) \<Rightarrow>
     (case FindByGroupKindName (prDesired latest) apiGroup kind name of
        Inl p \<Rightarrow> Some p
      | Inr None \<Rightarrow> Some nil_deref
      | Inr (Some d) \<Rightarrow>
     (case Apply_Merge K empty_apply child d of
        (Inl err, a, d') \<Rightarrow>
          Some (if is_panic err then err
                else Msg (''can't check if child '' @ kind @ '' '' @ name @ '' is updated: '' @ err_text err))
      | (Inr updated, a, d') \<Rightarrow>
          if \<not> deep_equal (JObj child) (JObj updated)
          then Some (Msg (''child '' @ kind @ '' '' @ name @ '' is not updated yet''))
          else if stMethod s = ''RollingInPlace'' \<and> GetObservedGeneration child > 0 \<and>
             GetObservedGeneration child < GetGeneration K child
          then Some (Msg (''child '' @ kind @ '' '' @ name @
                 '' with RollingInPlace update strategy hasn't observed latest spec''))
          else (case childStatusCheck (stChecks s) child of
                  None \<Rightarrow> None
                | Some err \<Rightarrow>
                    Some (Msg (''child '' @ kind @ '' '' @ name @ '' failed status check: '' @ err_text err))))))"

fun check_names ::
  "kube \<Rightarrow> registry \<Rightarrow> child_strategy \<Rightarrow> parent_revision \<Rightarrow> string \<Rightarrow> string \<Rightarrow> string list \<Rightarrow> gerr option" where
  "check_names K observed s latest apiGroup kind [] = None"
| "check_names K observed s latest apiGroup kind (name # names) =
     (case check_child K observed s latest apiGroup kind name of
        Some err \<Rightarrow> Some err
      | None \<Rightarrow> check_names K observed s latest apiGroup kind names)"

fun check_kinds ::
  "kube \<Rightarrow> strategy_map \<Rightarrow> registry \<Rightarrow> parent_revision \<Rightarrow> revision_children list \<Rightarrow> gerr option" where
  "check_kinds K st observed latest [] = None"
| "check_kinds K st observed latest (ck # cks) =
     (case strategy_get st (rcAPIGroup ck) (rcKind ck) of
        None \<Rightarrow> check_kinds K st observed latest cks
      | Some s \<Rightarrow>
          if \<not> isRollingStrategy (Some s) then check_kinds K st observed latest cks
          else (case check_names K observed s latest (rcAPIGroup ck) (rcKind ck) (rcNames ck) of
                  Some err \<Rightarrow> Some err
                | None \<Rightarrow> check_kinds K st observed latest cks))"

definition shouldContinueRolling ::
  "kube \<Rightarrow> strategy_map \<Rightarrow> registry \<Rightarrow> parent_revision \<Rightarrow> gerr option" where
  "shouldContinueRolling K st observed latest =
     check_kinds K st observed latest (crChildren (prRevision latest))"

text \<open>
  The status of the latest response is changed in place; a nil status panics, as writing to a
  nil map does.
\<close>

definition with_condition :: "StatusCondition \<Rightarrow> parent_revision list \<Rightarrow> parent_revision list res" where
  "with_condition c prs =
     (case rsStatus (prResult (prs ! 0)) of
        None \<Rightarrow> Inl (Panic ''assignment to entry in nil map'')
      | Some status \<Rightarrow>
          (case SetCondition status c of
             Inl p \<Rightarrow> Inl p
           | Inr status' \<Rightarrow>
               Inr (prs[0 := (prs ! 0)\<lparr>prResult := (prResult (prs ! 0))\<lparr>rsStatus := Some status'\<rparr>\<rparr>])))"

definition updated_condition :: "string \<Rightarrow> string \<Rightarrow> string \<Rightarrow> StatusCondition" where
  "updated_condition status reason message =
     \<lparr>cType = ''Updated'', cStatus = status, cReason = reason, cMessage = message\<rparr>"

definition child_key :: "kube \<Rightarrow> obj \<Rightarrow> string \<times> string \<times> string" where
  "child_key K x = (fst (ParseAPIVersionToGroupVersion (GetAPIVersion K x)), GetKind K x, GetName K x)"

fun next_child :: "kube \<Rightarrow> strategy_map \<Rightarrow> claim_map \<Rightarrow> obj list \<Rightarrow> (string \<times> string \<times> string) option" where
  "next_child K st claimed [] = None"
| "next_child K st claimed (child # children) =
     (case child_key K child of (apiGroup, kind, name) \<Rightarrow>
        if isRolling st apiGroup kind \<and> map_of (getKind claimed apiGroup kind) name \<noteq> Some 0
        then Some (apiGroup, kind, name)
        else next_child K st claimed children)"

definition move_child ::
  "string \<Rightarrow> string \<Rightarrow> string \<Rightarrow> parent_revision list \<Rightarrow> parent_revision list" where
  "move_child apiGroup kind name prs =
     (case prs of
        [] \<Rightarrow> []
      | latest # others \<Rightarrow> addChild apiGroup kind name latest # map (removeChild apiGroup kind name) others)"

definition syncRollingUpdate ::
  "kube \<Rightarrow> strategy_map \<Rightarrow> parent_revision list \<Rightarrow> registry \<Rightarrow> parent_revision list res" where
  "syncRollingUpdate K st prs observed =
     (case syncRevisionClaims st prs of
        Inl p \<Rightarrow> Inl p
      | Inr (prs0, claimed0) \<Rightarrow>
     (case claim_latest_kinds K st observed (prDesired (prs0 ! 0)) prs0 claimed0 of
        Inl p \<Rightarrow> Inl p
      | Inr (prs1, claimed) \<Rightarrow>
     (case next_child K st claimed (rsChildren (prResult (prs1 ! 0))) of
        None \<Rightarrow>
          with_condition (updated_condition ''True'' ''OnLatestRevision''
            (''latest ControllerRevision: '' @ crName (prRevision (prs1 ! 0)))) prs1
      | Some (apiGroup, kind, name) \<Rightarrow>
          (case shouldContinueRolling K st observed (prs1 ! 0) of
             Some err \<Rightarrow>
               if is_panic err then Inl err
               else with_condition (updated_condition ''False'' ''RolloutWaiting'' (err_text err)) prs1
           | None \<Rightarrow>
               with_condition (updated_condition ''False'' ''RolloutProgressing''
                 (''updating '' @ kind @ '' '' @ name)) (move_child apiGroup kind name prs1)))))"

section \<open>Claim maps as keyed stores\<close>

definition claim_get :: "claim_map \<Rightarrow> string \<Rightarrow> string \<Rightarrow> nat option" where
  "claim_get m key name = map_of (claims_of m key) name"

lemma claims_of_set: "claims_of (set_claim key name i m) key' =
    (if key' = key then mput name i (claims_of m key) else claims_of m key')"
  by (simp add: set_claim_def claims_of_def)

interpretation claims: keyed_store claim_get set_claim "[]" "\<lambda>_ _. True"
  by unfold_locales (auto simp: claim_get_def claims_of_set, simp add: claims_of_def)

lemma claimMapKey_inj:
  assumes "CHR ''.'' \<notin> set kind" and "CHR ''.'' \<notin> set kind'" and "claimMapKey g kind = claimMapKey g' kind'"
  shows "g = g' \<and> kind = kind'"
proof -
  have "takeWhile (\<lambda>c. c \<noteq> CHR ''.'') (claimMapKey g kind) = kind"
    "takeWhile (\<lambda>c. c \<noteq> CHR ''.'') (claimMapKey g' kind') = kind'"
    using assms(1,2) takeWhile_sep by (simp_all add: claimMapKey_def)
  with assms(3) show ?thesis by (simp add: claimMapKey_def)
qed

interpretation strategies: keyed_store strategy_get "\<lambda>g kind s m. mput (claimMapKey g kind) s m" "[]"
    "\<lambda>g kind. CHR ''.'' \<notin> set kind"
  by unfold_locales (auto simp: strategy_get_def dest: claimMapKey_inj)

section \<open>The children a revision holds\<close>

type_synonym child_id = "string \<times> string \<times> string"

definition held_in :: "revision_children list \<Rightarrow> child_id set" where
  "held_in chs = {(rcAPIGroup ch, rcKind ch, n) | ch n. ch \<in> set chs \<and> n \<in> set (rcNames ch)}"

definition held :: "parent_revision \<Rightarrow> child_id set" where
  "held pr = held_in (crChildren (prRevision pr))"

lemma held_in_simps [simp]:
  "held_in [] = {}"
  "held_in (ch # chs) = {(rcAPIGroup ch, rcKind ch, n) | n. n \<in> set (rcNames ch)} \<union> held_in chs"
  by (auto simp: held_in_def)

lemma held_add_to_group: "held_in (add_to_group g k n chs) = insert (g, k, n) (held_in chs)"
  by (induction chs) (auto simp: matching_group_def)

lemma set_cut_first: "cut_first n ns = Some ns' \<Longrightarrow> set ns' \<subseteq> set ns \<and> set ns \<subseteq> insert n (set ns')"
  by (induction n ns arbitrary: ns' rule: cut_first.induct) (auto split: if_splits)

lemma held_remove_from_group:
  "held_in (remove_from_group g k n chs) \<subseteq> held_in chs \<and>
   held_in chs \<subseteq> insert (g, k, n) (held_in (remove_from_group g k n chs))"
proof (induction chs)
  case (Cons ch chs)
  show ?case
  proof (cases "matching_group g k ch")
    case True
    then show ?thesis
      by (cases "cut_first n (rcNames ch)") (auto simp: matching_group_def dest!: set_cut_first)
  next
    case False
    with Cons show ?thesis by auto
  qed
qed simp

lemma with_children_sel [simp]:
  "crChildren (prRevision (with_children f pr)) = f (crChildren (prRevision pr))"
  "prDesired (with_children f pr) = prDesired pr" "prResult (with_children f pr) = prResult pr"
  "prParent (with_children f pr) = prParent pr"
  by (simp_all add: with_children_def)

lemma held_addChild [simp]: "held (addChild g k n pr) = insert (g, k, n) (held pr)"
  by (simp add: held_def addChild_def held_add_to_group)

lemma held_removeChild:
  "held (removeChild g k n pr) \<subseteq> held pr" "held pr \<subseteq> insert (g, k, n) (held (removeChild g k n pr))"
  using held_remove_from_group by (simp_all add: held_def removeChild_def)

lemma child_frame [simp]:
  "prDesired (addChild g k n pr) = prDesired pr" "prResult (addChild g k n pr) = prResult pr"
  "prDesired (removeChild g k n pr) = prDesired pr" "prResult (removeChild g k n pr) = prResult pr"
  by (simp_all add: addChild_def removeChild_def)

text \<open>Two lists of revisions that differ in their children only.\<close>

definition same_work :: "parent_revision list \<Rightarrow> parent_revision list \<Rightarrow> bool" where
  "same_work prs prs' = (map prDesired prs' = map prDesired prs \<and> map prResult prs' = map prResult prs)"

lemma same_work_refl [simp]: "same_work prs prs"
  by (simp add: same_work_def)

lemma same_work_trans: "same_work a b \<Longrightarrow> same_work b c \<Longrightarrow> same_work a c"
  by (simp add: same_work_def)

lemma same_work_length: "same_work a b \<Longrightarrow> length b = length a"
  unfolding same_work_def by (metis length_map)

lemma same_work_nth:
  "same_work a b \<Longrightarrow> i < length a \<Longrightarrow> prDesired (b ! i) = prDesired (a ! i) \<and> prResult (b ! i) = prResult (a ! i)"
  unfolding same_work_def by (metis length_map nth_map)

lemma same_work_update:
  "prDesired x = prDesired (a ! i) \<Longrightarrow> prResult x = prResult (a ! i) \<Longrightarrow> same_work a (a[i := x])"
  by (cases "i < length a") (simp_all add: same_work_def map_update list_update_same_conv list_update_beyond)

lemma same_work_give: "same_work prs (give g k n prs)"
  by (simp add: give_def same_work_update)

lemma same_work_take_back: "same_work prs (take_back i g k n prs)"
  by (simp add: take_back_def same_work_update)

section \<open>Handing children to the latest revision\<close>

text \<open>
  The steps the first loop may take: a child nobody claims goes to the latest revision, and a
  child that is already as the latest revision wants it moves there.
\<close>

definition already_latest :: "kube \<Rightarrow> registry \<Rightarrow> obj \<Rightarrow> child_id \<Rightarrow> bool" where
  "already_latest K observed d x =
     (case x of (g, k, n) \<Rightarrow>
        (case FindByGroupKindName observed g k n of
           Inr (Some child) \<Rightarrow>
             (case Apply_Merge K empty_apply child d of
                (Inr updated, a, d') \<Rightarrow> deep_equal (JObj child) (JObj updated)
              | _ \<Rightarrow> False)
         | _ \<Rightarrow> False))"

inductive hand_over ::
  "kube \<Rightarrow> registry \<Rightarrow> claim_map \<Rightarrow> parent_revision list \<Rightarrow> parent_revision list \<Rightarrow> bool"
  for K observed claimed where
  unclaimed: "map_of (getKind claimed g k) n = None \<Longrightarrow>
    hand_over K observed claimed prs (give g k n prs)"
| no_change: "map_of (getKind claimed g k) n = Some i \<Longrightarrow> i \<noteq> 0 \<Longrightarrow>
    Some d \<in> set (registry_List (prDesired (prs ! 0))) \<Longrightarrow> already_latest K observed d (g, k, n) \<Longrightarrow>
    hand_over K observed claimed prs (take_back i g k n (give g k n prs))"

inductive hand_overs ::
  "kube \<Rightarrow> registry \<Rightarrow> claim_map \<Rightarrow> parent_revision list \<Rightarrow> parent_revision list \<Rightarrow> bool"
  for K observed claimed where
  none: "hand_overs K observed claimed prs prs"
| step: "hand_overs K observed claimed prs prs1 \<Longrightarrow> hand_over K observed claimed prs1 prs2 \<Longrightarrow>
    hand_overs K observed claimed prs prs2"

inductive_cases hand_overE: "hand_over K observed claimed prs prs'"

lemma hand_overs_trans:
  "hand_overs K obs c b d \<Longrightarrow> hand_overs K obs c a b \<Longrightarrow> hand_overs K obs c a d"
  by (induction rule: hand_overs.induct) (auto intro: hand_overs.step)

lemma hand_over_same_work: "hand_over K obs c a b \<Longrightarrow> same_work a b"
  by (auto elim!: hand_overE simp: same_work_give intro: same_work_trans same_work_give same_work_take_back)

lemma hand_overs_same_work: "hand_overs K obs c a b \<Longrightarrow> same_work a b"
  by (induction rule: hand_overs.induct) (auto dest: hand_over_same_work same_work_trans)

text \<open>The claims only change by giving names to the latest revision.\<close>

definition later_claims :: "claim_map \<Rightarrow> claim_map \<Rightarrow> bool" where
  "later_claims c c' = (\<forall>key n. claim_get c' key n = claim_get c key n \<or> claim_get c' key n = Some 0)"

lemma later_claims_refl: "later_claims c c"
  by (simp add: later_claims_def)

lemma later_claims_set: "later_claims c c' \<Longrightarrow> later_claims c (set_claim key n 0 c')"
  by (auto simp: later_claims_def claims.get_put_cases)

lemma single_step: "hand_over K obs c a b \<Longrightarrow> hand_overs K obs c b d \<Longrightarrow> hand_overs K obs c a d"
  by (rule hand_overs_trans [OF _ hand_overs.step [OF hand_overs.none]])

lemma claim_latest_steps:
  assumes "later_claims c0 c1" and cm: "cm = getKind c1 g k"
  shows "claim_latest K obs g k cm objects prs c = Inr (prs', c') \<Longrightarrow> later_claims c0 c \<Longrightarrow> prs \<noteq> [] \<Longrightarrow>
    \<forall>n d. (n, d) \<in> set objects \<longrightarrow> d \<in> set (registry_List (prDesired (prs ! 0))) \<Longrightarrow>
    hand_overs K obs c0 prs prs' \<and> later_claims c0 c'"
proof (induction objects arbitrary: prs c)
  case Nil
  then show ?case by (auto intro: hand_overs.none)
next
  case (Cons p objects)
  obtain n d where p: "p = (n, d)" by fastforce
  have c0: "map_of cm n = None \<Longrightarrow> map_of (getKind c0 g k) n = None"
    "map_of cm n = Some i \<Longrightarrow> i \<noteq> 0 \<Longrightarrow> map_of (getKind c0 g k) n = Some i" for i
    using assms unfolding later_claims_def claim_get_def getKind_def by (metis option.distinct(1) option.inject)+
  let ?set = "setParentRevision g k n 0 c"
  have later: "later_claims c0 ?set"
    using Cons.prems(2) by (simp add: setParentRevision_def later_claims_set)
  have skip: ?case if "claim_latest K obs g k cm objects prs c = Inr (prs', c')"
    using Cons.IH [OF that Cons.prems(2,3)] Cons.prems(4) by auto
  have move: ?case if "claim_latest K obs g k cm objects prs1 ?set = Inr (prs', c')"
    "hand_over K obs c0 prs prs1" for prs1
  proof -
    note w = hand_over_same_work [OF that(2)]
    with Cons.prems(3) have "prs1 \<noteq> []" using same_work_length by fastforce
    moreover have "prDesired (prs1 ! 0) = prDesired (prs ! 0)" using same_work_nth [OF w, of 0] Cons.prems(3) by simp
    ultimately show ?thesis
      using Cons.IH [OF that(1) later] Cons.prems(4) single_step [OF that(2)] by auto
  qed
  show ?case
  proof (cases "map_of cm n")
    case None
    then show ?thesis using Cons.prems(1) p move c0(1) by (auto intro: hand_over.unclaimed)
  next
    case (Some i)
    show ?thesis
    proof (cases "i = 0")
      case True
      with Some Cons.prems(1) p skip show ?thesis by simp
    next
      case i: False
      show ?thesis
      proof (cases "FindByGroupKindName obs g k n")
        case (Inl e)
        with Some i Cons.prems(1) p show ?thesis by simp
      next
        case found: (Inr r)
        show ?thesis
        proof (cases r)
          case None
          with Some i found Cons.prems(1) p skip show ?thesis by simp
        next
          case child: (Some child)
          with Some i found Cons.prems(1) p obtain x where d: "d = Some x" by (cases d) auto
          obtain m a d' where m: "Apply_Merge K empty_apply child x = (m, a, d')" by (metis prod_cases3)
          show ?thesis
          proof (cases "\<exists>y. m = Inr y \<and> deep_equal (JObj child) (JObj y)")
            case True
            with found child m have same: "already_latest K obs x (g, k, n)" by (auto simp: already_latest_def)
            from Cons.prems(4) p d have "Some x \<in> set (registry_List (prDesired (prs ! 0)))" by auto
            note h = hand_over.no_change [OF c0(2) [OF Some i] i this same]
            from True Some i found child d m Cons.prems(1) p
            have "claim_latest K obs g k cm objects (take_back i g k n (give g k n prs)) ?set = Inr (prs', c')"
              by (auto simp del: deep_equal.simps)
            then show ?thesis using h by (rule move)
          next
            case False
            with Some i found child d m Cons.prems(1) p skip show ?thesis
              by (cases m) (auto split: if_splits)
          qed
        qed
      qed
    qed
  qed
qed

lemma claim_latest_kinds_steps:
  "claim_latest_kinds K st obs m prs c = Inr (prs', c') \<Longrightarrow> later_claims c0 c \<Longrightarrow> prs \<noteq> [] \<Longrightarrow>
   set (registry_List m) \<subseteq> set (registry_List (prDesired (prs ! 0))) \<Longrightarrow>
   hand_overs K obs c0 prs prs' \<and> later_claims c0 c'"
proof (induction m arbitrary: prs c)
  case Nil
  then show ?case by (auto intro: hand_overs.none)
next
  case (Cons p m)
  obtain vk objects where p: "p = (vk, objects)" by fastforce
  with Cons.prems(1) obtain av k where key: "ParseKeyToAPIVersionKind vk = Inr (av, k)"
    by (auto split: sum.splits)
  let ?g = "fst (ParseAPIVersionToGroupVersion av)"
  from Cons.prems(4) p have objs: "\<forall>n d. (n, d) \<in> set objects \<longrightarrow> d \<in> set (registry_List (prDesired (prs ! 0)))"
    and rest: "set (registry_List m) \<subseteq> set (registry_List (prDesired (prs ! 0)))"
  proof -
    from p have "registry_List (p # m) = map snd objects @ registry_List m" by (simp add: registry_List_def)
    with Cons.prems(4) show "set (registry_List m) \<subseteq> set (registry_List (prDesired (prs ! 0)))"
      and "\<forall>n d. (n, d) \<in> set objects \<longrightarrow> d \<in> set (registry_List (prDesired (prs ! 0)))"
      by auto
  qed
  show ?case
  proof (cases "isRolling st ?g k")
    case False
    with Cons.prems(1) p key have "claim_latest_kinds K st obs m prs c = Inr (prs', c')" by (simp add: Let_def)
    from Cons.IH [OF this Cons.prems(2,3) rest] show ?thesis .
  next
    case True
    with Cons.prems(1) p key obtain prs1 c1 where
      l: "claim_latest K obs ?g k (getKind c ?g k) objects prs c = Inr (prs1, c1)" and
      r: "claim_latest_kinds K st obs m prs1 c1 = Inr (prs', c')"
      by (auto simp: Let_def split: sum.splits)
    from claim_latest_steps [OF Cons.prems(2) refl l Cons.prems(2,3) objs]
    have one: "hand_overs K obs c0 prs prs1" "later_claims c0 c1" by auto
    note w = hand_overs_same_work [OF one(1)]
    with Cons.prems(3) have "prs1 \<noteq> []" using same_work_length by fastforce
    moreover have "prDesired (prs1 ! 0) = prDesired (prs ! 0)" using same_work_nth [OF w, of 0] Cons.prems(3) by simp
    ultimately show ?thesis using Cons.IH [OF r one(2)] rest hand_overs_trans [OF _ one(1)] by auto
  qed
qed

definition movable :: "kube \<Rightarrow> registry \<Rightarrow> claim_map \<Rightarrow> registry \<Rightarrow> child_id set" where
  "movable K obs c desired =
     {(g, k, n). map_of (getKind c g k) n = None \<or>
        (\<exists>d. Some d \<in> set (registry_List desired) \<and> already_latest K obs d (g, k, n))}"

text \<open>
  How the children may be spread after some steps: the latest revision keeps its children,
  the others gain none, and what one of them loses the latest revision has.
\<close>

definition spread :: "parent_revision list \<Rightarrow> parent_revision list \<Rightarrow> child_id set \<Rightarrow> bool" where
  "spread a b new =
     (same_work a b \<and> held (a ! 0) \<subseteq> held (b ! 0) \<and> held (b ! 0) \<subseteq> held (a ! 0) \<union> new \<and>
      (\<forall>i. 0 < i \<and> i < length a \<longrightarrow>
         held (b ! i) \<subseteq> held (a ! i) \<and> held (a ! i) \<subseteq> held (b ! i) \<union> held (b ! 0)))"

lemma spread_refl: "spread a a new"
  by (auto simp: spread_def)

lemma spread_trans:
  assumes "spread a b new" and "spread b c new'"
  shows "spread a c (new \<union> new')"
proof -
  have len: "length b = length a" using assms(1) same_work_length by (auto simp: spread_def)
  have "same_work a c" using assms same_work_trans by (auto simp: spread_def)
  moreover have "held (a ! 0) \<subseteq> held (c ! 0)" "held (c ! 0) \<subseteq> held (a ! 0) \<union> (new \<union> new')"
    using assms unfolding spread_def by blast+
  moreover have "held (c ! i) \<subseteq> held (a ! i) \<and> held (a ! i) \<subseteq> held (c ! i) \<union> held (c ! 0)"
    if "0 < i" "i < length a" for i
  proof -
    from assms(1) that have "held (b ! i) \<subseteq> held (a ! i)" "held (a ! i) \<subseteq> held (b ! i) \<union> held (b ! 0)"
      by (auto simp: spread_def)
    moreover from assms(2) that len have "held (c ! i) \<subseteq> held (b ! i)" "held (b ! i) \<subseteq> held (c ! i) \<union> held (c ! 0)"
      "held (b ! 0) \<subseteq> held (c ! 0)" by (auto simp: spread_def)
    ultimately show ?thesis by blast
  qed
  ultimately show ?thesis by (simp add: spread_def)
qed

lemma give_spread: "prs \<noteq> [] \<Longrightarrow> spread prs (give g k n prs) {(g, k, n)}"
  by (auto simp: spread_def same_work_give) (auto simp: give_def)

lemma take_back_spread:
  assumes "prs \<noteq> []" and "i \<noteq> 0"
  shows "spread prs (take_back i g k n (give g k n prs)) {(g, k, n)}"
proof -
  let ?a = "give g k n prs" and ?b = "take_back i g k n (give g k n prs)"
  have "?b ! 0 = ?a ! 0" using assms by (simp add: take_back_def)
  moreover have "held (?a ! 0) = insert (g, k, n) (held (prs ! 0))" using assms by (simp add: give_def)
  moreover have "held (?b ! j) \<subseteq> held (prs ! j) \<and> held (prs ! j) \<subseteq> insert (g, k, n) (held (?b ! j))"
    if "0 < j" "j < length prs" for j
  proof (cases "j = i")
    case True
    with that held_removeChild [where g = g and k = k and n = n and pr = "prs ! j"] show ?thesis by (simp add: take_back_def give_def)
  next
    case False
    with that have "?b ! j = prs ! j" by (simp add: take_back_def give_def)
    then show ?thesis by auto
  qed
  moreover have "same_work prs ?b" using same_work_trans [OF same_work_give same_work_take_back] .
  ultimately show ?thesis unfolding spread_def by simp blast
qed

lemma hand_overs_spread:
  "hand_overs K obs c a b \<Longrightarrow> a \<noteq> [] \<Longrightarrow> spread a b (movable K obs c (prDesired (a ! 0)))"
proof (induction rule: hand_overs.induct)
  case (none prs)
  show ?case by (rule spread_refl)
next
  case (step prs prs1 prs2)
  then have sp: "spread prs prs1 (movable K obs c (prDesired (prs ! 0)))" by simp
  then have w: "same_work prs prs1" by (simp add: spread_def)
  with step.prems have ne: "prs1 \<noteq> []" using same_work_length by fastforce
  have d: "prDesired (prs1 ! 0) = prDesired (prs ! 0)" using same_work_nth [OF w, of 0] step.prems by simp
  from step.hyps(2) obtain x where "spread prs1 prs2 {x}" "x \<in> movable K obs c (prDesired (prs ! 0))"
  proof (cases rule: hand_over.cases)
    case (unclaimed g k n)
    with give_spread [OF ne] that [of "(g, k, n)"] show ?thesis by (auto simp: movable_def)
  next
    case (no_change g k n i x)
    with take_back_spread [OF ne] d that [of "(g, k, n)"] show ?thesis by (auto simp: movable_def)
  qed
  with spread_trans [OF sp this(1)] show ?case by (simp add: insert_absorb)
qed

lemma move_child_spread: "prs \<noteq> [] \<Longrightarrow> spread prs (move_child g k n prs) {(g, k, n)}"
proof (cases prs)
  case (Cons latest others)
  have "same_work prs (move_child g k n prs)" by (simp add: Cons move_child_def same_work_def)
  moreover have "held (move_child g k n prs ! i) \<subseteq> held (prs ! i) \<and>
      held (prs ! i) \<subseteq> insert (g, k, n) (held (move_child g k n prs ! i))" if "0 < i" "i < length prs" for i
    using that held_removeChild [where g = g and k = k and n = n and pr = "others ! (i - 1)"]
    by (cases i) (auto simp: Cons move_child_def)
  moreover have "held (move_child g k n prs ! 0) = insert (g, k, n) (held (prs ! 0))"
    by (simp add: Cons move_child_def)
  ultimately show ?thesis unfolding spread_def by simp blast
qed simp

section \<open>The first revision claims a child\<close>

definition wanted :: "registry \<Rightarrow> child_id \<Rightarrow> bool" where
  "wanted desired x = (case x of (g, k, n) \<Rightarrow>
     (case FindByGroupKindName desired g k n of Inr (Some y) \<Rightarrow> True | _ \<Rightarrow> False))"

definition claimable :: "strategy_map \<Rightarrow> registry \<Rightarrow> revision_children list \<Rightarrow> string \<Rightarrow> string \<Rightarrow> bool" where
  "claimable st desired chs key n =
     list_ex (\<lambda>ck. isRolling st (rcAPIGroup ck) (rcKind ck) \<and> key = claimMapKey (rcAPIGroup ck) (rcKind ck) \<and>
       n \<in> set (rcNames ck) \<and> wanted desired (rcAPIGroup ck, rcKind ck, n)) chs"

fun first_claim :: "strategy_map \<Rightarrow> registry \<Rightarrow> nat \<Rightarrow> parent_revision list \<Rightarrow> string \<Rightarrow> string \<Rightarrow> nat option" where
  "first_claim st desired i [] key n = None"
| "first_claim st desired i (pr # prs) key n =
     (if claimable st desired (crChildren (prRevision pr)) key n then Some i
      else first_claim st desired (Suc i) prs key n)"

lemma claim_get_key: "map_of (claims_of c key) n = claim_get c key n"
  by (simp add: claim_get_def)

lemma claim_names_spec:
  "claim_names desired i g k ns c names = Inr (names', c') \<Longrightarrow>
   (\<forall>key n. claim_get c' key n =
      (if claim_get c key n = None \<and> key = claimMapKey g k \<and> n \<in> set ns \<and> wanted desired (g, k, n)
       then Some i else claim_get c key n)) \<and>
   (\<exists>new. names' = names @ new \<and> (\<forall>n \<in> set new. n \<in> set ns \<and> claim_get c' (claimMapKey g k) n = Some i))"
proof (induction ns arbitrary: c names)
  case (Cons n ns)
  show ?case
  proof (cases "wanted desired (g, k, n) \<and> claim_get c (claimMapKey g k) n = None")
    case True
    with Cons.prems have rest:
      "claim_names desired i g k ns (set_claim (claimMapKey g k) n i c) (names @ [n]) = Inr (names', c')"
      by (auto simp: wanted_def claim_get_key Let_def split: sum.splits option.splits)
    from conjunct2 [OF Cons.IH [OF rest]] obtain new where new: "names' = (names @ [n]) @ new"
      "\<forall>m \<in> set new. m \<in> set ns \<and> claim_get c' (claimMapKey g k) m = Some i" by blast
    from Cons.IH [OF rest] have get: "claim_get c' key m =
        (if claim_get (set_claim (claimMapKey g k) n i c) key m = None \<and> key = claimMapKey g k \<and> m \<in> set ns \<and>
            wanted desired (g, k, m) then Some i else claim_get (set_claim (claimMapKey g k) n i c) key m)" for key m
      by blast
    show ?thesis
    proof (intro conjI allI)
      show "claim_get c' key m = (if claim_get c key m = None \<and> key = claimMapKey g k \<and> m \<in> set (n # ns) \<and>
          wanted desired (g, k, m) then Some i else claim_get c key m)" for key m
        unfolding get using True by (auto simp: claims.get_put_cases)
      show "\<exists>new. names' = names @ new \<and> (\<forall>m \<in> set new. m \<in> set (n # ns) \<and>
          claim_get c' (claimMapKey g k) m = Some i)"
        using new get [of "claimMapKey g k" n]
        by (intro exI [of _ "n # new"]) (simp add: claims.get_put_cases)
    qed
  next
    case False
    with Cons.prems have rest: "claim_names desired i g k ns c names = Inr (names', c')"
      by (auto simp: wanted_def claim_get_key Let_def split: sum.splits option.splits if_splits)
    note ih = Cons.IH [OF this]
    from conjunct1 [OF ih] False have "\<forall>key m. claim_get c' key m = (if claim_get c key m = None \<and>
        key = claimMapKey g k \<and> m \<in> set (n # ns) \<and> wanted desired (g, k, m) then Some i else claim_get c key m)"
      by auto
    moreover from conjunct2 [OF ih] have "\<exists>new. names' = names @ new \<and>
        (\<forall>m \<in> set new. m \<in> set (n # ns) \<and> claim_get c' (claimMapKey g k) m = Some i)" by fastforce
    ultimately show ?thesis by blast
  qed
qed auto

lemma claim_names_kept:
  "claim_names desired i g k ns c names = Inr (names', c') \<Longrightarrow>
   claim_get c key n = None \<Longrightarrow> claim_get c' key n \<noteq> None \<Longrightarrow> names' \<noteq> []"
proof (induction ns arbitrary: c names)
  case (Cons m ns)
  show ?case
  proof (cases "wanted desired (g, k, m) \<and> claim_get c (claimMapKey g k) m = None")
    case True
    with Cons.prems(1) have rest:
      "claim_names desired i g k ns (set_claim (claimMapKey g k) m i c) (names @ [m]) = Inr (names', c')"
      by (auto simp: wanted_def claim_get_key Let_def split: sum.splits option.splits)
    from conjunct2 [OF claim_names_spec [OF this]] show ?thesis by auto
  next
    case False
    with Cons.prems(1) have rest: "claim_names desired i g k ns c names = Inr (names', c')"
      by (auto simp: wanted_def claim_get_key Let_def split: sum.splits option.splits if_splits)
    from Cons.IH [OF this Cons.prems(2,3)] show ?thesis .
  qed
qed simp

lemma claim_kinds_spec:
  "claim_kinds st desired i chs c children = Inr (children', c') \<Longrightarrow>
   (\<forall>key n. claim_get c' key n =
      (if claim_get c key n = None \<and> claimable st desired chs key n then Some i else claim_get c key n)) \<and>
   (\<exists>kept. children' = children @ kept \<and> subseq kept chs \<and>
      (\<forall>ck \<in> set kept. isRolling st (rcAPIGroup ck) (rcKind ck) \<and>
         (\<exists>n \<in> set (rcNames ck). claim_get c' (claimMapKey (rcAPIGroup ck) (rcKind ck)) n = Some i)))"
proof (induction chs arbitrary: c children)
  case (Cons ck chs)
  let ?g = "rcAPIGroup ck" and ?k = "rcKind ck"
  show ?case
  proof (cases "isRolling st ?g ?k")
    case False
    with Cons.prems have "claim_kinds st desired i chs c children = Inr (children', c')" by simp
    note ih = Cons.IH [OF this]
    from conjunct2 [OF ih] obtain kept where "children' = children @ kept" "subseq kept (ck # chs)"
      "\<forall>ck \<in> set kept. isRolling st (rcAPIGroup ck) (rcKind ck) \<and>
         (\<exists>n \<in> set (rcNames ck). claim_get c' (claimMapKey (rcAPIGroup ck) (rcKind ck)) n = Some i)"
      by (metis list_emb_Cons)
    with conjunct1 [OF ih] False show ?thesis by (auto simp: claimable_def)
  next
    case True
    with Cons.prems obtain names c1 where names: "claim_names desired i ?g ?k (rcNames ck) c [] = Inr (names, c1)"
      and rest: "claim_kinds st desired i chs c1 (if names = [] then children else children @ [ck]) = Inr (children', c')"
      by (auto split: sum.splits)
    note cn = claim_names_spec [OF names]
    note ih = Cons.IH [OF rest]
    have "claim_get c' key n = (if claim_get c key n = None \<and> claimable st desired (ck # chs) key n
        then Some i else claim_get c key n)" for key n
      using conjunct1 [OF ih] conjunct1 [OF cn] True by (auto simp: claimable_def)
    moreover have "\<exists>kept. children' = children @ kept \<and> subseq kept (ck # chs) \<and>
      (\<forall>ck \<in> set kept. isRolling st (rcAPIGroup ck) (rcKind ck) \<and>
         (\<exists>n \<in> set (rcNames ck). claim_get c' (claimMapKey (rcAPIGroup ck) (rcKind ck)) n = Some i))"
    proof (cases "names = []")
      case True
      with conjunct2 [OF ih] obtain kept where "children' = children @ kept" "subseq kept chs"
        "\<forall>ck \<in> set kept. isRolling st (rcAPIGroup ck) (rcKind ck) \<and>
           (\<exists>n \<in> set (rcNames ck). claim_get c' (claimMapKey (rcAPIGroup ck) (rcKind ck)) n = Some i)"
        by auto
      then show ?thesis by (intro exI [of _ kept]) (simp add: list_emb_Cons)
    next
      case False
      then obtain n where n: "n \<in> set names" by (cases names) auto
      with conjunct2 [OF cn] have "n \<in> set (rcNames ck)" "claim_get c1 (claimMapKey ?g ?k) n = Some i" by auto
      with conjunct1 [OF ih] have first: "\<exists>n \<in> set (rcNames ck). claim_get c' (claimMapKey ?g ?k) n = Some i"
        by (intro bexI [of _ n]) simp_all
      from conjunct2 [OF ih] False obtain kept where kept: "children' = (children @ [ck]) @ kept" "subseq kept chs"
        "\<forall>ck \<in> set kept. isRolling st (rcAPIGroup ck) (rcKind ck) \<and>
           (\<exists>n \<in> set (rcNames ck). claim_get c' (claimMapKey (rcAPIGroup ck) (rcKind ck)) n = Some i)"
        by auto
      with first True show ?thesis by (intro exI [of _ "ck # kept"]) simp
    qed
    ultimately show ?thesis by blast
  qed
qed (auto simp: claimable_def)

definition kept_children ::
  "strategy_map \<Rightarrow> claim_map \<Rightarrow> nat \<Rightarrow> parent_revision \<Rightarrow> parent_revision \<Rightarrow> bool" where
  "kept_children st c i pr pr' =
     (subseq (crChildren (prRevision pr')) (crChildren (prRevision pr)) \<and>
      list_all (\<lambda>ck. isRolling st (rcAPIGroup ck) (rcKind ck) \<and>
        list_ex (\<lambda>n. claim_get c (claimMapKey (rcAPIGroup ck) (rcKind ck)) n = Some i) (rcNames ck))
        (crChildren (prRevision pr')))"

lemma claim_revisions_spec:
  "claim_revisions st desired i prs c = Inr (prs', c') \<Longrightarrow>
   (\<forall>key n. claim_get c' key n =
      (case claim_get c key n of Some j \<Rightarrow> Some j | None \<Rightarrow> first_claim st desired i prs key n)) \<and>
   same_work prs prs' \<and>
   (\<forall>j < length prs. kept_children st c' (i + j) (prs ! j) (prs' ! j))"
proof (induction prs arbitrary: i c prs')
  case Nil
  then show ?case by (auto split: option.splits)
next
  case (Cons pr prs)
  from Cons.prems obtain children c1 prs1 where
    k: "claim_kinds st desired i (crChildren (prRevision pr)) c [] = Inr (children, c1)" and
    r: "claim_revisions st desired (Suc i) prs c1 = Inr (prs1, c')" and
    prs': "prs' = with_children (\<lambda>_. children) pr # prs1"
    by (auto split: sum.splits)
  note ks = claim_kinds_spec [OF k]
  note ih = Cons.IH [OF r]
  have get: "claim_get c' key n = (case claim_get c key n of Some j \<Rightarrow> Some j
      | None \<Rightarrow> first_claim st desired i (pr # prs) key n)" for key n
    using conjunct1 [OF ih] conjunct1 [OF ks] by (auto split: option.splits)
  moreover have "same_work (pr # prs) prs'" using ih by (simp add: prs' same_work_def)
  moreover have "kept_children st c' (i + j) ((pr # prs) ! j) (prs' ! j)" if "j < length (pr # prs)" for j
  proof (cases j)
    case 0
    have "claim_get c' key n = Some i" if "claim_get c1 key n = Some i" for key n
      using conjunct1 [OF ih] that by simp
    with conjunct2 [OF ks] have "subseq children (crChildren (prRevision pr)) \<and>
        (\<forall>ck \<in> set children. isRolling st (rcAPIGroup ck) (rcKind ck) \<and>
          (\<exists>n \<in> set (rcNames ck). claim_get c' (claimMapKey (rcAPIGroup ck) (rcKind ck)) n = Some i))"
      by (metis append_Nil)
    then show ?thesis by (simp add: 0 prs' kept_children_def list_all_iff list_ex_iff)
  next
    case (Suc m)
    with ih that show ?thesis by (simp add: prs')
  qed
  ultimately show ?case by blast
qed

lemma syncRevisionClaims_spec:
  assumes "syncRevisionClaims st prs = Inr (prs', c)"
  shows "prs \<noteq> [] \<and> same_work prs prs' \<and>
    (\<forall>key n. claim_get c key n = first_claim st (prDesired (prs ! 0)) 0 prs key n) \<and>
    (\<forall>j < length prs. kept_children st c j (prs ! j) (prs' ! j))"
proof (cases prs)
  case (Cons latest others)
  with assms have "claim_revisions st (prDesired latest) 0 prs [] = Inr (prs', c)"
    by (simp add: syncRevisionClaims_def)
  from claim_revisions_spec [OF this] Cons show ?thesis by (simp add: claims.get_empty)
qed (use assms in \<open>simp add: syncRevisionClaims_def\<close>)

section \<open>The last step of a pass\<close>

lemma check_names_ok:
  "check_names K obs s latest g k ns = None \<longleftrightarrow> (\<forall>n \<in> set ns. check_child K obs s latest g k n = None)"
  by (induction ns) (auto split: option.splits)

lemma ball_triple: "(\<forall>x \<in> A. case x of (g, k, n) \<Rightarrow> P g k n) \<longleftrightarrow> (\<forall>g k n. (g, k, n) \<in> A \<longrightarrow> P g k n)"
  by auto

lemma check_kinds_ok:
  "check_kinds K st obs latest chs = None \<longleftrightarrow>
   (\<forall>(g, k, n) \<in> held_in chs. isRolling st g k \<longrightarrow>
      check_child K obs (the (strategy_get st g k)) latest g k n = None)"
proof (induction chs)
  case (Cons ck chs)
  let ?s = "strategy_get st (rcAPIGroup ck) (rcKind ck)"
  have "check_kinds K st obs latest (ck # chs) = None \<longleftrightarrow>
      (isRolling st (rcAPIGroup ck) (rcKind ck) \<longrightarrow>
        check_names K obs (the ?s) latest (rcAPIGroup ck) (rcKind ck) (rcNames ck) = None) \<and>
      check_kinds K st obs latest chs = None"
    by (cases ?s) (auto simp: isRolling_def isRollingStrategy_def split: option.split)
  also have "\<dots> \<longleftrightarrow> (\<forall>(g, k, n) \<in> held_in (ck # chs). isRolling st g k \<longrightarrow>
      check_child K obs (the (strategy_get st g k)) latest g k n = None)"
    unfolding check_names_ok Cons ball_triple by auto
  finally show ?case .
qed simp

lemma with_condition_cases:
  assumes "with_condition c prs = Inr prs'"
  obtains status status' where "rsStatus (prResult (prs ! 0)) = Some status" "SetCondition status c = Inr status'"
    "prs' = prs[0 := (prs ! 0)\<lparr>prResult := (prResult (prs ! 0))\<lparr>rsStatus := Some status'\<rparr>\<rparr>]"
  using assms by (auto simp: with_condition_def split: option.splits sum.splits)

lemma with_condition_held: "with_condition c prs = Inr prs' \<Longrightarrow> map held prs' = map held prs"
  by (elim with_condition_cases, cases prs) (auto simp: held_def)

text \<open>What the claim map gives to the latest revision, the latest revision holds.\<close>

definition on_revision :: "claim_map \<Rightarrow> nat \<Rightarrow> parent_revision \<Rightarrow> bool" where
  "on_revision c i pr =
     (\<forall>key n. claim_get c key n = Some i \<longrightarrow> (\<exists>g k. key = claimMapKey g k \<and> (g, k, n) \<in> held pr))"

lemma claim_kinds_held:
  "claim_kinds st desired i chs c children = Inr (children', c') \<Longrightarrow>
   set children \<subseteq> set children' \<and>
   (\<forall>key n. claim_get c key n = None \<and> claim_get c' key n = Some j \<longrightarrow>
      j = i \<and> (\<exists>g k. key = claimMapKey g k \<and> (g, k, n) \<in> held_in children'))"
proof (induction chs arbitrary: c children)
  case (Cons ck chs)
  let ?g = "rcAPIGroup ck" and ?k = "rcKind ck"
  show ?case
  proof (cases "isRolling st ?g ?k")
    case False
    with Cons show ?thesis by simp
  next
    case True
    with Cons.prems obtain names c1 where names: "claim_names desired i ?g ?k (rcNames ck) c [] = Inr (names, c1)"
      and rest: "claim_kinds st desired i chs c1 (if names = [] then children else children @ [ck]) = Inr (children', c')"
      by (auto split: sum.splits)
    note cn = claim_names_spec [OF names]
    note ih = Cons.IH [OF rest]
    have later: "claim_get c1 key n = Some m \<Longrightarrow> claim_get c' key n = Some m" for key n m
      using conjunct1 [OF claim_kinds_spec [OF rest]] by simp
    have "j = i \<and> (\<exists>g k. key = claimMapKey g k \<and> (g, k, n) \<in> held_in children')"
      if new: "claim_get c key n = None" "claim_get c' key n = Some j" for key n
    proof (cases "claim_get c1 key n")
      case None
      with conjunct2 [OF ih] new show ?thesis by blast
    next
      case (Some m)
      with conjunct1 [OF cn] new(1) have m: "m = i" "key = claimMapKey ?g ?k" "n \<in> set (rcNames ck)"
        by (auto split: if_splits)
      have "names \<noteq> []"
      proof
        assume "names = []"
        with claim_names_kept [OF names] Some new(1) show False by auto
      qed
      with conjunct1 [OF ih] have "ck \<in> set children'" by simp
      with m(2,3) have "\<exists>g k. key = claimMapKey g k \<and> (g, k, n) \<in> held_in children'"
        unfolding held_in_def by blast
      with later [OF Some] new(2) m(1) show ?thesis by simp
    qed
    moreover have "set children \<subseteq> set children'" using conjunct1 [OF ih] by (auto split: if_splits)
    ultimately show ?thesis by blast
  qed
qed auto

lemma claim_revisions_held:
  "claim_revisions st desired i prs c = Inr (prs', c') \<Longrightarrow>
   \<forall>key n. claim_get c key n = None \<and> claim_get c' key n = Some j \<longrightarrow>
     i \<le> j \<and> j < i + length prs \<and> (\<exists>g k. key = claimMapKey g k \<and> (g, k, n) \<in> held (prs' ! (j - i)))"
proof (induction prs arbitrary: i c prs')
  case (Cons pr prs)
  from Cons.prems obtain children c1 prs1 where
    k: "claim_kinds st desired i (crChildren (prRevision pr)) c [] = Inr (children, c1)" and
    r: "claim_revisions st desired (Suc i) prs c1 = Inr (prs1, c')" and
    prs': "prs' = with_children (\<lambda>_. children) pr # prs1"
    by (auto split: sum.splits)
  show ?case
  proof (intro allI impI)
    fix key n
    assume new: "claim_get c key n = None \<and> claim_get c' key n = Some j"
    show "i \<le> j \<and> j < i + length (pr # prs) \<and>
        (\<exists>g k. key = claimMapKey g k \<and> (g, k, n) \<in> held (prs' ! (j - i)))"
    proof (cases "claim_get c1 key n")
      case None
      with Cons.IH [OF r] new have "Suc i \<le> j \<and> j < Suc i + length prs \<and>
          (\<exists>g k. key = claimMapKey g k \<and> (g, k, n) \<in> held (prs1 ! (j - Suc i)))" by blast
      then show ?thesis by (auto simp: prs' nth_Cons' )
    next
      case (Some m)
      with conjunct1 [OF claim_revisions_spec [OF r]] new have "m = j" by simp
      with claim_kinds_held [OF k, of j] Some new have "j = i"
        "\<exists>g k. key = claimMapKey g k \<and> (g, k, n) \<in> held_in children" by blast+
      then show ?thesis by (simp add: prs' held_def)
    qed
  qed
qed auto

lemma syncRevisionClaims_held:
  assumes "syncRevisionClaims st prs = Inr (prs', c)"
  shows "on_revision c 0 (prs' ! 0)"
proof (cases prs)
  case (Cons latest others)
  with assms have "claim_revisions st (prDesired latest) 0 prs [] = Inr (prs', c)"
    by (simp add: syncRevisionClaims_def)
  from claim_revisions_held [OF this, of 0] show ?thesis by (simp add: on_revision_def claims.get_empty)
qed (use assms in \<open>simp add: syncRevisionClaims_def\<close>)

lemma on_revision_give:
  assumes "on_revision c 0 (prs ! 0)" and "prs \<noteq> []"
  shows "on_revision (setParentRevision g k n 0 c) 0 (give g k n prs ! 0)"
    and "i \<noteq> 0 \<Longrightarrow> on_revision (setParentRevision g k n 0 c) 0 (take_back i g k n (give g k n prs) ! 0)"
  using assms
  by (fastforce simp: on_revision_def give_def take_back_def setParentRevision_def claims.get_put_cases
      split: if_splits)+

lemma claim_latest_held:
  "claim_latest K obs g k cm objects prs c = Inr (prs', c') \<Longrightarrow> on_revision c 0 (prs ! 0) \<Longrightarrow> prs \<noteq> [] \<Longrightarrow>
   on_revision c' 0 (prs' ! 0) \<and> prs' \<noteq> []"
proof (induction objects arbitrary: prs c)
  case (Cons p objects)
  obtain n d where p: "p = (n, d)" by fastforce
  have ne: "give g k n prs \<noteq> []" "take_back i g k n (give g k n prs) \<noteq> []" for i
    using Cons.prems(3) by (simp_all add: give_def take_back_def)
  note give = on_revision_give [where g = g and k = k and n = n, OF Cons.prems(2,3)]
  consider "claim_latest K obs g k cm objects prs c = Inr (prs', c')"
    | "claim_latest K obs g k cm objects (give g k n prs) (setParentRevision g k n 0 c) = Inr (prs', c')"
    | i where "i \<noteq> 0" "claim_latest K obs g k cm objects (take_back i g k n (give g k n prs))
        (setParentRevision g k n 0 c) = Inr (prs', c')"
    using Cons.prems(1) p
    by (simp split: option.splits sum.splits prod.splits if_splits del: deep_equal.simps)
  then show ?case
  proof cases
    case 1
    with Cons.IH Cons.prems(2,3) show ?thesis by blast
  next
    case 2
    with Cons.IH give ne show ?thesis by blast
  next
    case 3
    with Cons.IH give ne show ?thesis by blast
  qed
qed simp

lemma claim_latest_kinds_held:
  "claim_latest_kinds K st obs m prs c = Inr (prs', c') \<Longrightarrow> on_revision c 0 (prs ! 0) \<Longrightarrow> prs \<noteq> [] \<Longrightarrow>
   on_revision c' 0 (prs' ! 0) \<and> prs' \<noteq> []"
proof (induction m arbitrary: prs c)
  case (Cons p m)
  obtain vk objects where p: "p = (vk, objects)" by fastforce
  with Cons.prems(1) obtain av k where key: "ParseKeyToAPIVersionKind vk = Inr (av, k)"
    by (auto split: sum.splits)
  let ?g = "fst (ParseAPIVersionToGroupVersion av)"
  show ?case
  proof (cases "isRolling st ?g k")
    case False
    with Cons p key show ?thesis by (simp add: Let_def)
  next
    case True
    with Cons.prems(1) p key obtain prs1 c1 where
      l: "claim_latest K obs ?g k (getKind c ?g k) objects prs c = Inr (prs1, c1)" and
      r: "claim_latest_kinds K st obs m prs1 c1 = Inr (prs', c')"
      by (auto simp: Let_def split: sum.splits)
    from claim_latest_held [OF l Cons.prems(2,3)] Cons.IH [OF r] show ?thesis by blast
  qed
qed simp

lemma next_child_cases:
  "next_child K st c children = None \<longleftrightarrow>
   list_all (\<lambda>x. case child_key K x of (g, k, n) \<Rightarrow>
     isRolling st g k \<longrightarrow> map_of (getKind c g k) n = Some 0) children"
  by (induction children) (auto split: prod.splits)

section \<open>Properties\<close>

lemma syncRollingUpdate_parts:
  assumes "syncRollingUpdate K st prs observed = Inr prs'"
  obtains prs0 c0 prs1 c b cond where "syncRevisionClaims st prs = Inr (prs0, c0)"
    "claim_latest_kinds K st observed (prDesired (prs0 ! 0)) prs0 c0 = Inr (prs1, c)"
    "with_condition cond b = Inr prs'" "cType cond = ''Updated''"
    "cStatus cond = (if next_child K st c (rsChildren (prResult (prs1 ! 0))) = None then ''True'' else ''False'')"
    "b = prs1 \<or> (\<exists>g k n. next_child K st c (rsChildren (prResult (prs1 ! 0))) = Some (g, k, n) \<and>
       shouldContinueRolling K st observed (prs1 ! 0) = None \<and> b = move_child g k n prs1)"
proof -
  from assms obtain prs0 c0 where 1: "syncRevisionClaims st prs = Inr (prs0, c0)"
    by (auto simp: syncRollingUpdate_def split: sum.splits)
  with assms obtain prs1 c where 2: "claim_latest_kinds K st observed (prDesired (prs0 ! 0)) prs0 c0 = Inr (prs1, c)"
    by (auto simp: syncRollingUpdate_def split: sum.splits)
  note sel = updated_condition_def StatusCondition.select_convs
  show thesis
  proof (cases "next_child K st c (rsChildren (prResult (prs1 ! 0)))")
    case None
    with assms 1 2 have "with_condition (updated_condition ''True'' ''OnLatestRevision''
        (''latest ControllerRevision: '' @ crName (prRevision (prs1 ! 0)))) prs1 = Inr prs'"
      by (simp add: syncRollingUpdate_def)
    then show thesis by (rule that [OF 1 2]) (simp_all add: sel None)
  next
    case (Some x)
    obtain g k n where x: "x = (g, k, n)" by (rule prod_cases3)
    show thesis
    proof (cases "shouldContinueRolling K st observed (prs1 ! 0)")
      case None
      with assms 1 2 Some x have "with_condition (updated_condition ''False'' ''RolloutProgressing''
          (''updating '' @ k @ '' '' @ n)) (move_child g k n prs1) = Inr prs'"
        by (simp add: syncRollingUpdate_def)
      then show thesis by (rule that [OF 1 2]) (simp_all add: sel None Some x)
    next
      case err: (Some err)
      with assms 1 2 Some x have
        "with_condition (updated_condition ''False'' ''RolloutWaiting'' (err_text err)) prs1 = Inr prs'"
        by (simp add: syncRollingUpdate_def split: if_splits)
      then show thesis by (rule that [OF 1 2]) (simp_all add: sel Some)
    qed
  qed
qed

lemma rollout_stages:
  assumes "syncRevisionClaims st prs = Inr (prs0, c0)"
    and "claim_latest_kinds K st observed (prDesired (prs0 ! 0)) prs0 c0 = Inr (prs1, c)"
  shows "prs \<noteq> [] \<and> same_work prs prs0 \<and> same_work prs0 prs1 \<and> prs1 \<noteq> [] \<and> on_revision c 0 (prs1 ! 0) \<and>
    spread prs0 prs1 (movable K observed c0 (prDesired (prs ! 0)))"
proof -
  note spec = syncRevisionClaims_spec [OF assms(1)]
  then have ne: "prs0 \<noteq> []" using same_work_length by fastforce
  have d: "prDesired (prs0 ! 0) = prDesired (prs ! 0)" using spec same_work_nth [of prs prs0 0] by simp
  from claim_latest_kinds_steps [OF assms(2) later_claims_refl ne] have steps: "hand_overs K observed c0 prs0 prs1"
    by simp
  from hand_overs_spread [OF steps ne] have "spread prs0 prs1 (movable K observed c0 (prDesired (prs ! 0)))"
    by (simp add: d)
  moreover from this have "same_work prs0 prs1" by (simp add: spread_def)
  moreover from claim_latest_kinds_held [OF assms(2) syncRevisionClaims_held [OF assms(1)] ne]
  have "on_revision c 0 (prs1 ! 0)" "prs1 \<noteq> []" by auto
  ultimately show ?thesis using spec by blast
qed

lemma check_child_cong:
  assumes "prDesired a = prDesired b"
  shows "check_child K observed s a g k n = check_child K observed s b g k n"
  unfolding check_child_def assms ..

text \<open>
  C13: A pass of the rollout moves at most one child that needs a change, and only when all is
  well. Compared with the claims after the clean-up, the latest revision keeps what it holds, an
  older one gains nothing, and what it loses the latest one has. What the latest revision
  gains was claimed by nobody, or already is as the latest revision wants it, or is one single
  child; and that one is moved only if every rolling child the latest revision held
  was observed, is up to date and passes its status checks.
\<close>
theorem rollout_is_gradual:
  assumes "syncRollingUpdate K st prs observed = Inr prs'"
  shows "\<exists>prs0 c0 moved. syncRevisionClaims st prs = Inr (prs0, c0) \<and> length prs' = length prs \<and>
    held (prs0 ! 0) \<subseteq> held (prs' ! 0) \<and>
    held (prs' ! 0) \<subseteq> held (prs0 ! 0) \<union> movable K observed c0 (prDesired (prs ! 0)) \<union> set_option moved \<and>
    (\<forall>i. 0 < i \<and> i < length prs \<longrightarrow>
       held (prs' ! i) \<subseteq> held (prs0 ! i) \<and> held (prs0 ! i) \<subseteq> held (prs' ! i) \<union> held (prs' ! 0)) \<and>
    (moved \<noteq> None \<longrightarrow> (\<forall>(g, k, n) \<in> held (prs0 ! 0). isRolling st g k \<longrightarrow>
       check_child K observed (the (strategy_get st g k)) (prs ! 0) g k n = None))"
proof -
  from assms obtain prs0 c0 prs1 c where claims: "syncRevisionClaims st prs = Inr (prs0, c0)"
    and kinds: "claim_latest_kinds K st observed (prDesired (prs0 ! 0)) prs0 c0 = Inr (prs1, c)"
    and last: "(\<exists>cond. with_condition cond prs1 = Inr prs') \<or>
     (\<exists>cond g k n. shouldContinueRolling K st observed (prs1 ! 0) = None \<and>
        with_condition cond (move_child g k n prs1) = Inr prs')"
    by (rule syncRollingUpdate_parts) blast
  let ?mv = "movable K observed c0 (prDesired (prs ! 0))"
  note st = rollout_stages [OF claims kinds]
  then have len: "length prs0 = length prs" using same_work_length by blast
  have fields: "length b = length prs0 \<and> (\<forall>i < length prs0. held (prs' ! i) = held (b ! i))"
    if "with_condition cond b = Inr prs'" "spread prs0 b new" for cond b new
  proof -
    from that(2) have l: "length b = length prs0" using same_work_length by (auto simp: spread_def)
    from with_condition_held [OF that(1)] have "map held prs' = map held b" .
    with l show ?thesis by (metis length_map nth_map)
  qed
  from last show ?thesis
  proof
    assume "\<exists>cond. with_condition cond prs1 = Inr prs'"
    then obtain cond where w: "with_condition cond prs1 = Inr prs'" by blast
    from st have sp: "spread prs0 prs1 ?mv" by simp
    from with_condition_held [OF w] have "length prs' = length prs1" by (metis length_map)
    with fields [OF w sp] sp st len claims show ?thesis
      by (intro exI [of _ prs0] exI [of _ c0] exI [of _ "None :: child_id option"]) (auto simp: spread_def)
  next
    assume "\<exists>cond g k n. shouldContinueRolling K st observed (prs1 ! 0) = None \<and>
        with_condition cond (move_child g k n prs1) = Inr prs'"
    then obtain cond g k n where go: "shouldContinueRolling K st observed (prs1 ! 0) = None"
      and w: "with_condition cond (move_child g k n prs1) = Inr prs'" by blast
    from st have sp: "spread prs0 (move_child g k n prs1) (?mv \<union> {(g, k, n)})"
      using spread_trans move_child_spread by blast
    have d: "prDesired (prs1 ! 0) = prDesired (prs ! 0)"
      using st same_work_nth [of prs prs0 0] same_work_nth [of prs0 prs1 0] len by simp
    have "held (prs0 ! 0) \<subseteq> held (prs1 ! 0)" using st by (simp add: spread_def)
    moreover from go have "\<forall>(g, k, n) \<in> held (prs1 ! 0). isRolling st g k \<longrightarrow>
        check_child K observed (the (strategy_get st g k)) (prs ! 0) g k n = None"
      unfolding shouldContinueRolling_def check_kinds_ok held_def [symmetric] check_child_cong [OF d] .
    ultimately have ok: "\<forall>(g, k, n) \<in> held (prs0 ! 0). isRolling st g k \<longrightarrow>
        check_child K observed (the (strategy_get st g k)) (prs ! 0) g k n = None"
      by blast
    from with_condition_held [OF w] have "length prs' = length (move_child g k n prs1)" by (metis length_map)
    with fields [OF w sp] sp st len claims ok show ?thesis
      by (intro exI [of _ prs0] exI [of _ c0] exI [of _ "Some (g, k, n)"]) (auto simp: spread_def)
  qed
qed

definition holds_child :: "parent_revision \<Rightarrow> string \<Rightarrow> string \<Rightarrow> string \<Rightarrow> bool" where
  "holds_child pr g k n = (\<exists>g' k'. claimMapKey g' k' = claimMapKey g k \<and> (g', k', n) \<in> held pr)"

lemma stored_condition:
  assumes "SetCondition status cond = Inr status'"
  shows "find_condition (cType cond) (elems (GetNestedArray status' [''conditions''])) = Some cond"
proof (rule SetCondition_eq [of status cond])
  fix zs
  assume "SetCondition status cond = Inr (mput ''conditions'' (JArr zs) status)"
    and "\<And>t. find_condition t zs = (if t = cType cond then Some cond
      else find_condition t (elems (GetNestedArray status [''conditions''])))"
  with assms show ?thesis by (auto simp: GetNestedArray_def GetNestedField_def index_def)
qed

text \<open>
  A pass that ends without an error leaves the condition \<open>Updated\<close> in the status of the
  latest response, true or false; when it is true, every rolling child the latest response
  desires is held by the latest revision, so no child is left on an older one.
\<close>
theorem rollout_reports:
  assumes "syncRollingUpdate K st prs observed = Inr prs'"
  shows "\<exists>status cond. rsStatus (prResult (prs' ! 0)) = Some status \<and>
    find_condition ''Updated'' (elems (GetNestedArray status [''conditions''])) = Some cond \<and>
    cStatus cond \<in> {''True'', ''False''} \<and>
    (cStatus cond = ''True'' \<longrightarrow> (\<forall>x \<in> set (rsChildren (prResult (prs ! 0))).
       case child_key K x of (g, k, n) \<Rightarrow> isRolling st g k \<longrightarrow> holds_child (prs' ! 0) g k n))"
proof -
  from assms obtain prs0 c0 prs1 c b cond where claims: "syncRevisionClaims st prs = Inr (prs0, c0)"
    and kinds: "claim_latest_kinds K st observed (prDesired (prs0 ! 0)) prs0 c0 = Inr (prs1, c)"
    and w: "with_condition cond b = Inr prs'" and ty: "cType cond = ''Updated''"
    and stat: "cStatus cond = (if next_child K st c (rsChildren (prResult (prs1 ! 0))) = None then ''True'' else ''False'')"
    and b: "b = prs1 \<or> (\<exists>g k n. next_child K st c (rsChildren (prResult (prs1 ! 0))) = Some (g, k, n) \<and>
       shouldContinueRolling K st observed (prs1 ! 0) = None \<and> b = move_child g k n prs1)"
    by (rule syncRollingUpdate_parts)
  note st = rollout_stages [OF claims kinds]
  then have len: "length prs0 = length prs" "length prs1 = length prs" using same_work_length by fastforce+
  have res: "prResult (prs1 ! 0) = prResult (prs ! 0)"
    using st same_work_nth [of prs prs0 0] same_work_nth [of prs0 prs1 0] len by simp
  have "b \<noteq> []" using b st by (cases prs1) (auto simp: move_child_def)
  with w obtain status status' where s: "SetCondition status cond = Inr status'"
    "rsStatus (prResult (prs' ! 0)) = Some status'" by (elim with_condition_cases) simp
  have "holds_child (prs' ! 0) g k n" if "cStatus cond = ''True''" "x \<in> set (rsChildren (prResult (prs ! 0)))"
    "child_key K x = (g, k, n)" "isRolling st g k" for x g k n
  proof -
    from that(1) stat have none: "next_child K st c (rsChildren (prResult (prs1 ! 0))) = None"
      by (auto split: if_splits)
    with that(2-4) have "claim_get c (claimMapKey g k) n = Some 0"
      unfolding next_child_cases res by (auto simp: list_all_iff claim_get_def getKind_def)
    with st have "holds_child (prs1 ! 0) g k n" unfolding on_revision_def holds_child_def by metis
    moreover from none b have "b = prs1" by auto
    with with_condition_held [OF w] st have "held (prs' ! 0) = held (prs1 ! 0)"
      by (metis length_map length_greater_0_conv nth_map)
    ultimately show ?thesis by (simp add: holds_child_def)
  qed
  with s stored_condition [OF s(1)] ty stat show ?thesis
    by (intro exI [of _ status'] exI [of _ cond]) auto
qed

lemma parse_panics: "ParseKeyToAPIVersionKind key = Inl p \<Longrightarrow> is_panic p"
  by (auto simp: ParseKeyToAPIVersionKind_def split: list.splits)

lemma find_panics: "FindByGroupKindName m g k n = Inl p \<Longrightarrow> is_panic p"
  by (induction m) (auto dest: parse_panics split: sum.splits option.splits if_splits)

lemma claim_names_panics: "claim_names desired i g k ns c names = Inl p \<Longrightarrow> is_panic p"
  by (induction ns arbitrary: c names)
    (auto simp: Let_def dest: find_panics split: sum.splits option.splits if_splits)

lemma claim_kinds_panics: "claim_kinds st desired i chs c children = Inl p \<Longrightarrow> is_panic p"
  by (induction chs arbitrary: c children)
    (auto dest: claim_names_panics split: sum.splits if_splits)

lemma claim_revisions_panics: "claim_revisions st desired i prs c = Inl p \<Longrightarrow> is_panic p"
  by (induction prs arbitrary: i c) (auto dest: claim_kinds_panics split: sum.splits)

lemma claim_latest_panics: "claim_latest K obs g k cm objects prs c = Inl p \<Longrightarrow> is_panic p"
proof (induction objects arbitrary: prs c)
  case (Cons q objects)
  then show ?case
    by (cases q) (auto simp del: deep_equal.simps dest: find_panics split: option.splits sum.splits prod.splits if_splits)
qed simp

lemma claim_latest_kinds_panics: "claim_latest_kinds K st obs m prs c = Inl p \<Longrightarrow> is_panic p"
proof (induction m arbitrary: prs c)
  case (Cons q m)
  obtain vk objects where q: "q = (vk, objects)" by fastforce
  show ?case
  proof (cases "ParseKeyToAPIVersionKind vk")
    case (Inl e)
    with Cons.prems q parse_panics show ?thesis by auto
  next
    case (Inr r)
    obtain av k where r: "r = (av, k)" by fastforce
    let ?l = "claim_latest K obs (fst (ParseAPIVersionToGroupVersion av)) k
      (getKind c (fst (ParseAPIVersionToGroupVersion av)) k) objects prs c"
    from Cons Inr q r claim_latest_panics show ?thesis
      by (cases ?l) (auto simp: Let_def split: if_splits)
  qed
qed simp

lemma syncRevisionClaims_panics: "syncRevisionClaims st prs = Inl p \<Longrightarrow> is_panic p"
  by (cases prs) (auto simp: syncRevisionClaims_def simp del: claim_revisions.simps dest: claim_revisions_panics)

text \<open>
  A pass of the rollout needs a status. When the hook's response for the latest revision
  has none, the pass panics, whatever the claims and the children are: every outcome writes
  the condition \<open>Updated\<close> into the nil map.
\<close>
theorem rollout_needs_status:
  assumes "rsStatus (prResult latest) = None"
  shows "\<exists>text. syncRollingUpdate K st (latest # others) observed = Inl (Panic text)"
proof -
  let ?prs = "latest # others"
  define prs where "prs = ?prs"
  from assms have latest: "rsStatus (prResult (prs ! 0)) = None" by (simp add: prs_def)
  have "is_panic p" if "syncRollingUpdate K st prs observed = Inl p" for p
  proof (cases "syncRevisionClaims st prs")
    case (Inl e)
    with that syncRevisionClaims_panics show ?thesis by (simp add: syncRollingUpdate_def)
  next
    case claims: (Inr r)
    obtain prs0 c0 where r: "r = (prs0, c0)" by fastforce
    show ?thesis
    proof (cases "claim_latest_kinds K st observed (prDesired (prs0 ! 0)) prs0 c0")
      case (Inl e)
      with that claims r claim_latest_kinds_panics show ?thesis by (auto simp: syncRollingUpdate_def)
    next
      case kinds: (Inr r')
      obtain prs1 c where r': "r' = (prs1, c)" by fastforce
      note st = rollout_stages [OF claims [unfolded r] kinds [unfolded r']]
      then have "prResult (prs1 ! 0) = prResult (prs ! 0)"
        using same_work_nth [of prs prs0 0] same_work_nth [of prs0 prs1 0] same_work_length by fastforce
      then have "rsStatus (prResult (prs1 ! 0)) = None" using latest by simp
      moreover from this st have "rsStatus (prResult (move_child g k n prs1 ! 0)) = None" for g k n
        by (cases prs1) (auto simp: move_child_def)
      ultimately show ?thesis using that claims r kinds r'
        by (auto simp: syncRollingUpdate_def with_condition_def split: option.splits prod.splits if_splits)
    qed
  qed
  moreover have "syncRollingUpdate K st prs observed \<noteq> Inr prs'" for prs'
  proof
    assume ok: "syncRollingUpdate K st prs observed = Inr prs'"
    show False
      using ok
    proof (rule syncRollingUpdate_parts)
      fix prs0 c0 prs1 c b cond
      assume claims: "syncRevisionClaims st prs = Inr (prs0, c0)"
        and kinds: "claim_latest_kinds K st observed (prDesired (prs0 ! 0)) prs0 c0 = Inr (prs1, c)"
        and w: "with_condition cond b = Inr prs'"
        and b: "b = prs1 \<or> (\<exists>g k n. next_child K st c (rsChildren (prResult (prs1 ! 0))) = Some (g, k, n) \<and>
           shouldContinueRolling K st observed (prs1 ! 0) = None \<and> b = move_child g k n prs1)"
      note st = rollout_stages [OF claims kinds]
      then have "prResult (prs1 ! 0) = prResult (prs ! 0)"
        using same_work_nth [of prs prs0 0] same_work_nth [of prs0 prs1 0] same_work_length by fastforce
      with latest b st have "rsStatus (prResult (b ! 0)) = None"
        by (cases prs1) (auto simp: move_child_def)
      with w show False by (elim with_condition_cases) simp
    qed
  qed
  ultimately have "\<exists>text. syncRollingUpdate K st prs observed = Inl (Panic text)"
    by (metis is_panic.elims(2) sum.exhaust)
  then show ?thesis by (simp add: prs_def)
qed

text \<open>
  C33: Cleaning up the claims gives every desired rolling child to the first revision in the
  list that names it, the latest one first, and to no other. A revision keeps, in their
  order, only groups of a rolling kind in which it claims a name; but a group is kept with
  all the names it had, also those that are claimed by another revision or no longer desired.
\<close>
theorem first_revision_claims:
  assumes "syncRevisionClaims st prs = Inr (prs', c)"
  shows "(\<forall>key n. claim_get c key n = first_claim st (prDesired (prs ! 0)) 0 prs key n) \<and>
    length prs' = length prs \<and> list_all2 (\<lambda>(j, pr) pr'. kept_children st c j pr pr') (enumerate 0 prs) prs'"
proof -
  note spec = syncRevisionClaims_spec [OF assms]
  then have len: "length prs' = length prs" using same_work_length by blast
  with spec show ?thesis by (auto simp: list_all2_conv_all_nth nth_enumerate_eq)
qed

section \<open>A rollout\<close>

text \<open>
  Pods roll in place. The only revision claims the pods \<open>a\<close> and \<open>b\<close>; the hook no longer
  desires \<open>b\<close>.
\<close>

definition pod_strategies :: strategy_map where
  "pod_strategies = [(''Pod.'', \<lparr>stMethod = ''RollingInPlace'', stChecks = []\<rparr>)]"

definition pod_v1 :: obj where
  "pod_v1 = [(''apiVersion'', JStr ''v1''), (''kind'', JStr ''Pod''), (''metadata'', JObj [(''name'', JStr ''a'')])]"

definition pod_revision :: "obj option \<Rightarrow> parent_revision" where
  "pod_revision status =
     \<lparr>prParent = [],
      prRevision = \<lparr>crAPIVersion = ''metac.openebs.io/v1alpha1'', crKind = ''ControllerRevision'',
        crNamespace = '''', crName = ''r'', crUID = '''', crDeletionTimestamp = None, crLabels = None,
        crAnnotations = None, crOwnerReferences = [], crParentPatch = '''',
        crChildren = [\<lparr>rcAPIGroup = '''', rcKind = ''Pod'', rcNames = [''a'', ''b'']\<rparr>]\<rparr>,
      prResult = \<lparr>rsStatus = status, rsChildren = [pod_v1], rsResyncAfterSeconds = 0, rsFinalized = False\<rparr>,
      prDesired = [(''Pod.v1'', [(''a'', Some pod_v1)])]\<rparr>"

lemma pod_key: "ParseKeyToAPIVersionKind ''Pod.v1'' = Inr (''v1'', ''Pod'')"
    "ParseAPIVersionToGroupVersion ''v1'' = ('''', ''v1'')"
  by (simp_all add: ParseKeyToAPIVersionKind_def ParseAPIVersionToGroupVersion_def numeral_2_eq_2)

lemma pod_rolling: "isRolling pod_strategies '''' ''Pod''"
  by (simp add: isRolling_def strategy_get_def pod_strategies_def claimMapKey_def isRollingStrategy_def)

lemma pod_child_key: "child_key std_kube pod_v1 = ('''', ''Pod'', ''a'')"
  by (simp add: child_key_def std_kube_sel std_read_def pod_v1_def pod_key)

lemma pod_claims: "syncRevisionClaims pod_strategies [pod_revision s] = Inr ([pod_revision s], [(''Pod.'', [(''a'', 0)])])"
  by (simp add: syncRevisionClaims_def pod_revision_def pod_rolling pod_key claimMapKey_def claims_of_def
      set_claim_def with_children_def)

lemma pod_rollout_runs:
  "\<exists>prs'. syncRollingUpdate std_kube pod_strategies [pod_revision (Some [])] [] = Inr prs'"
proof -
  have "claim_latest_kinds std_kube pod_strategies [] (prDesired (pod_revision (Some []))) [pod_revision (Some [])]
      [(''Pod.'', [(''a'', 0)])] = Inr ([pod_revision (Some [])], [(''Pod.'', [(''a'', 0)])])"
    by (simp add: pod_revision_def pod_key pod_rolling getKind_def claims_of_def claimMapKey_def)
  moreover have "next_child std_kube pod_strategies [(''Pod.'', [(''a'', 0)])]
      (rsChildren (prResult (pod_revision (Some [])))) = None"
    by (simp add: pod_revision_def pod_child_key getKind_def claims_of_def claimMapKey_def)
  moreover have "\<exists>prs'. with_condition c [pod_revision (Some [])] = Inr prs'" for c
    by (rule SetCondition_eq [of "[]" c]) (simp add: with_condition_def pod_revision_def)
  ultimately show ?thesis by (simp add: syncRollingUpdate_def pod_claims)
qed

theorem first_revision_claims_witness:
  "\<exists>prs' c. syncRevisionClaims pod_strategies [pod_revision None] = Inr (prs', c) \<and>
    claim_get c ''Pod.'' ''b'' = None \<and> (''''::string, ''Pod'', ''b'') \<in> held (prs' ! 0) \<and>
    list_all2 (\<lambda>(j, pr) pr'. kept_children pod_strategies c j pr pr') (enumerate 0 [pod_revision None]) prs'"
  using first_revision_claims [OF pod_claims [of None]] pod_claims [of None]
  by (simp add: claim_get_def claims_of_def held_def pod_revision_def)

theorem rollout_is_gradual_witness:
  "\<exists>prs'. syncRollingUpdate std_kube pod_strategies [pod_revision (Some [])] [] = Inr prs' \<and>
    held (pod_revision (Some [])) \<subseteq> held (prs' ! 0)"
proof -
  from pod_rollout_runs obtain prs' where
    run: "syncRollingUpdate std_kube pod_strategies [pod_revision (Some [])] [] = Inr prs'" by blast
  from rollout_is_gradual [OF run] run show ?thesis by (auto simp: pod_claims)
qed

theorem rollout_reports_witness:
  "\<exists>prs' status cond. syncRollingUpdate std_kube pod_strategies [pod_revision (Some [])] [] = Inr prs' \<and>
    rsStatus (prResult (prs' ! 0)) = Some status \<and>
    find_condition ''Updated'' (elems (GetNestedArray status [''conditions''])) = Some cond"
proof -
  from pod_rollout_runs obtain prs' where
    run: "syncRollingUpdate std_kube pod_strategies [pod_revision (Some [])] [] = Inr prs'" by blast
  from rollout_reports [OF run] run show ?thesis by blast
qed

theorem rollout_needs_status_witness:
  "\<exists>text. syncRollingUpdate std_kube pod_strategies [pod_revision None] [] = Inl (Panic text)"
  using rollout_needs_status [of "pod_revision None" std_kube pod_strategies "[]" "[]"]
  by (simp add: pod_revision_def)

end
