(* ===== verification/Sha1.thy ===== *)
theory Sha1
  imports Prelude "HOL-Library.Word"
begin

text \<open>
  The two functions of Go's standard library that name a controller revision: \<open>crypto/sha1\<close> on
  bytes, with 32-bit words that wrap around, and \<open>encoding/hex\<close>.
\<close>

unbundle bit_operations_syntax

definition rotl :: "nat \<Rightarrow> 32 word \<Rightarrow> 32 word" where
  "rotl n x = push_bit n x OR drop_bit (32 - n) x"

definition be_word :: "nat list \<Rightarrow> 32 word" where
  "be_word bs = foldl (\<lambda>acc b. push_bit 8 acc OR of_nat b) 0 bs"

definition be_bytes :: "nat \<Rightarrow> nat \<Rightarrow> nat list" where
  "be_bytes n v = map (\<lambda>i. v div 256 ^ (n - 1 - i) mod 256) [0..<n]"

definition sha1_pad :: "nat list \<Rightarrow> nat list" where
  "sha1_pad bs = bs @ [0x80] @ replicate ((119 - length bs mod 64) mod 64) 0 @ be_bytes 8 (8 * length bs)"

fun groups_of :: "nat \<Rightarrow> nat \<Rightarrow> 'a list \<Rightarrow> 'a list list" where
  "groups_of 0 k xs = []"
| "groups_of (Suc n) k xs = take k xs # groups_of n k (drop k xs)"

fun sha1_schedule :: "nat \<Rightarrow> 32 word list \<Rightarrow> 32 word list" where
  "sha1_schedule 0 ws = ws"
| "sha1_schedule (Suc n) ws =
     (let t = length ws
      in sha1_schedule n (ws @ [rotl 1 (ws ! (t - 3) XOR ws ! (t - 8) XOR ws ! (t - 14) XOR ws ! (t - 16))]))"

type_synonym sha1_state = "32 word \<times> 32 word \<times> 32 word \<times> 32 word \<times> 32 word"

definition sha1_round :: "nat \<times> 32 word \<Rightarrow> sha1_state \<Rightarrow> sha1_state" where
  "sha1_round tw st =
     (case st of (a, b, c, d, e) \<Rightarrow>
      case tw of (t, w) \<Rightarrow>
      let (f, k) =
        (if t < 20 then ((b AND c) OR ((NOT b) AND d), 0x5A827999)
         else if t < 40 then (b XOR c XOR d, 0x6ED9EBA1)
         else if t < 60 then ((b AND c) OR (b AND d) OR (c AND d), 0x8F1BBCDC)
         else (b XOR c XOR d, 0xCA62C1D6))
      in (rotl 5 a + f + e + k + w, a, rotl 30 b, c, d))"

definition sha1_block :: "nat list \<Rightarrow> sha1_state \<Rightarrow> sha1_state" where
  "sha1_block block st =
     (let ws = sha1_schedule 64 (map be_word (groups_of 16 4 block)) in
      case st of (a, b, c, d, e) \<Rightarrow>
      case fold sha1_round (enumerate 0 ws) st of (a', b', c', d', e') \<Rightarrow>
        (a + a', b + b', c + c', d + d', e + e'))"

definition sha1 :: "nat list \<Rightarrow> sha1_state" where
  "sha1 bs =
     (let padded = sha1_pad bs in
      fold sha1_block (groups_of (length padded div 64) 64 padded)
        (0x67452301, 0xEFCDAB89, 0x98BADCFE, 0x10325476, 0xC3D2E1F0))"

definition hex_digit :: "nat \<Rightarrow> char" where
  "hex_digit n = (if n < 10 then char_of (48 + n) else char_of (87 + n))"

definition hex_word :: "32 word \<Rightarrow> string" where
  "hex_word w = map (\<lambda>i. hex_digit (unat (drop_bit (28 - 4 * i) w AND 15))) [0..<8]"

definition sha1_hex :: "string \<Rightarrow> string" where
  "sha1_hex s = (case sha1 (map of_char s) of (a, b, c, d, e) \<Rightarrow> concat (map hex_word [a, b, c, d, e]))"

lemma length_sha1_hex: "length (sha1_hex s) = 40"
  by (cases "sha1 (map of_char s)" rule: prod_cases5) (simp add: sha1_hex_def hex_word_def)

end
