(* ===== verification/Revisions.thy ===== *)
theory Revisions
  imports Rollout Sha1
begin

text \<open>
  \<open>controller/composite/controller_revision.go\<close> and \<open>hooks.go\<close>: the revisions of a parent
  of a composite controller, from the claimed ones to the hook calls, the rollout and
  the revisions that are kept, with the label selector and the adoption check of the
  controller that these use.

  Two clients talk to one server: the dynamic one, and the generated one for controller
  revisions. The state of the latter is the world of the former. The hook and the informer
  caches answer for the time of one pass and are functions. The model does not tell a nil
  slice from an empty one, as \<open>reflect.DeepEqual\<close> does.
\<close>

section \<open>What a composite controller is given\<close>

record hook_request =
  hrParent :: obj
  hrChildren :: registry
  hrFinalizing :: bool

text \<open>\<open>ccHooks\<close> is nil or says which of the sync and the finalize hook are defined.\<close>

record composite =
  ccNamespace :: string
  ccName :: string
  ccKind :: string
  ccParentResource :: api_resource
  ccRevisionHistory :: "string list option"
  ccChildResources :: "child_rule list"
  ccGenerateSelector :: "bool option"
  ccHooks :: "(bool \<times> bool) option"
  ccStrategy :: strategy_map
  ccFinalizer :: finalizer
  ccParentClient :: resource_client

type_synonym 's cworld = "'s world cr_world"

record 's cenv =
  ceDyn :: "'s env"
  ceClients :: clientset
  ceRevisions :: "string \<Rightarrow> 's world cr_env"
  ceRevisionLister :: "string \<Rightarrow> controller_revision list res"
  ceLabels :: label_lib
  ceInvokeHook :: "hook_request \<Rightarrow> sync_response res"

abbreviation ceKube :: "'s cenv \<Rightarrow> kube" where
  "ceKube X \<equiv> kubeOf (ceDyn X)"

definition dyn :: "('s world \<Rightarrow> 'r \<times> 's world) \<Rightarrow> 's cworld \<Rightarrow> 'r \<times> 's cworld" where
  "dyn op W = (case op (crSrv W) of (r, w') \<Rightarrow> (r, W\<lparr>crSrv := w'\<rparr>))"

definition composite_String :: "composite \<Rightarrow> string" where
  "composite_String P = ccNamespace P @ ''/'' @ ccName P @ '' for '' @ rKind (ccParentResource P)"

definition ns_name :: "kube \<Rightarrow> obj \<Rightarrow> string" where
  "ns_name K x = GetNamespace K x @ ''/'' @ GetName K x"

section \<open>Hooks\<close>

definition NewSyncHookRequest :: "obj \<Rightarrow> registry \<Rightarrow> hook_request" where
  "NewSyncHookRequest parent children = \<lparr>hrParent = parent, hrChildren = children, hrFinalizing = False\<rparr>"

definition gvk_text :: "'s cenv \<Rightarrow> obj \<Rightarrow> string" where
  "gvk_text X x = gvk_String (csParse (ceClients X)) (ceKube X) x"

definition SyncHookRequest_String :: "'s cenv \<Rightarrow> hook_request \<Rightarrow> string" where
  "SyncHookRequest_String X req =
     ''SyncHookRequest '' @ ns_name (ceKube X) (hrParent req) @ '' of '' @ gvk_text X (hrParent req)"

definition HookExecutor_String :: "composite \<Rightarrow> string" where
  "HookExecutor_String P = ''HookExecutor '' @ ccNamespace P @ ''/'' @ ccName P @ '' of '' @ ccKind P"

definition Execute :: "'s cenv \<Rightarrow> composite \<Rightarrow> hook_request \<Rightarrow> sync_response res" where
  "Execute X P req =
     (case ccHooks P of
        None \<Rightarrow> Inl (Msg (HookExecutor_String P @ '': Execute failed: Nil hooks''))
      | Some (hasSync, hasFinalize) \<Rightarrow>
          if GetDeletionTimestamp (ceKube X) (hrParent req) \<noteq> None \<and> hasFinalize
          then (case ceInvokeHook X (req\<lparr>hrFinalizing := True\<rparr>) of
                  Inl err \<Rightarrow> Inl (Wrap (HookExecutor_String P @ '': Finalize hook failed for '' @
                    SyncHookRequest_String X req) err)
                | Inr resp \<Rightarrow> Inr resp)
          else if \<not> hasSync
          then Inl (Msg (HookExecutor_String P @ '': Sync hook not defined for '' @ SyncHookRequest_String X req))
          else (case ceInvokeHook X (req\<lparr>hrFinalizing := False\<rparr>) of
                  Inl err \<Rightarrow> Inl (Wrap (HookExecutor_String P @ '': Sync hook failed for '' @
                    SyncHookRequest_String X req) err)
                | Inr resp \<Rightarrow> Inr resp))"

definition callSyncHook :: "'s cenv \<Rightarrow> composite \<Rightarrow> hook_request \<Rightarrow> sync_response res" where
  "callSyncHook X P request = Execute X P request"

section \<open>Selector and adoption\<close>

definition empty_label_selector :: label_selector where
  "empty_label_selector = \<lparr>matchLabels = [], matchExpressions = []\<rparr>"

definition base_selector :: "'s cenv \<Rightarrow> composite \<Rightarrow> obj \<Rightarrow> label_selector res" where
  "base_selector X P parent =
     (let L = ceLabels X; K = ceKube X in
      if ccGenerateSelector P = Some True
      then Inr (AddLabelToSelector L empty_label_selector ''controller-uid'' (GetUID K parent))
      else (case GetNestedFieldInto (marshalField L) (unmarshalSelector L) empty_label_selector parent
                   [''spec'', ''selector''] of
              Inl err \<Rightarrow> Inl (Wrap (''CompositeController '' @ composite_String P @
                 '': can't get label selector from '' @ ns_name K parent) err)
            | Inr ls \<Rightarrow>
                if matchLabels ls = [] \<and> matchExpressions ls = []
                then Inl (Msg (''CompositeController '' @ composite_String P @ '': .spec.selector of '' @
                       ns_name K parent @ '' must have either matchLabels, matchExpressions, or both''))
                else Inr ls))"

text \<open>The message of the last error leaves out Go's rendering of the label selector.\<close>

definition makeSelector :: "'s cenv \<Rightarrow> composite \<Rightarrow> obj \<Rightarrow> strmap \<Rightarrow> selector res" where
  "makeSelector X P parent extraMatchLabels =
     (case base_selector X P parent of
        Inl err \<Rightarrow> Inl err
      | Inr ls \<Rightarrow>
          (case LabelSelectorAsSelector (ceLabels X)
                  (fold (\<lambda>(key, value) s. AddLabelToSelector (ceLabels X) s key value) extraMatchLabels ls) of
             Inl err \<Rightarrow> Inl (Wrap (''CompositeController '' @ composite_String P @
                '': can't convert label selector for '' @ ns_name (ceKube X) parent) err)
           | Inr selector \<Rightarrow> Inr selector))"

definition fresh_parent :: "'s cenv \<Rightarrow> composite \<Rightarrow> obj \<Rightarrow> 's world \<Rightarrow> obj res \<times> 's world" where
  "fresh_parent X P parent w =
     (let K = ceKube X in
      case call (ceDyn X) (rc_Get (Namespace (ccParentClient P) (GetNamespace K parent)) (GetName K parent)) w of
        (Inl err, w') \<Rightarrow> (Inl err, w')
      | (Inr fresh, w') \<Rightarrow>
          if GetUID K fresh \<noteq> GetUID K parent
          then (Inl (Msg (''CompositeController '' @ composite_String P @ '': original '' @ ns_name K parent @
                  '' is gone: got uid '' @ GetUID K fresh @ '', wanted '' @ GetUID K parent)), w')
          else (Inr fresh, w'))"

definition canAdoptFunc :: "'s cenv \<Rightarrow> composite \<Rightarrow> obj \<Rightarrow> 's world \<Rightarrow> gerr option \<times> 's world" where
  "canAdoptFunc X P parent = ErrorOnDeletionTimestamp (ceKube X) (fresh_parent X P parent)"

section \<open>Claiming revisions\<close>

definition labelKeyAPIGroup :: string where
  "labelKeyAPIGroup = ''metac.openebs.io/apiGroup''"

definition labelKeyResource :: string where
  "labelKeyResource = ''metac.openebs.io/resource''"

definition claimRevisions ::
  "'s cenv \<Rightarrow> composite \<Rightarrow> obj \<Rightarrow> 's cworld \<Rightarrow> controller_revision list res \<times> 's cworld" where
  "claimRevisions X P parent W =
     (let K = ceKube X; ns = GetNamespace K parent; api = ccParentResource P in
      case GetGroupVersionKind (csParse (ceClients X)) api of
        Inl p \<Rightarrow> (Inl p, W)
      | Inr parentGVK \<Rightarrow>
     (case makeSelector X P parent [(labelKeyAPIGroup, rGroup api), (labelKeyResource, rName api)] of
        Inl err \<Rightarrow> (Inl err, W)
      | Inr selector \<Rightarrow>
     (case ceRevisionLister X ns of
        Inl err \<Rightarrow> (Inl (Msg (''can't list ControllerRevisions: '' @ err_text err)), W)
      | Inr all \<Rightarrow>
          (case cr_BulkClaim (ceRevisions X ns)
                  \<lparr>Watched = parent, WatchedKind = parentGVK, SelectorMatches = selMatches selector,
                   CanAdoptFunc = Some (dyn (canAdoptFunc X P parent))\<rparr> all (None, W) of
             ((claimed, errs), (once, W')) \<Rightarrow>
               if errs = [] then (Inr claimed, W')
               else (Inl (Msg (''can't claim ControllerRevisions: '' @ err_text (Aggregate errs))), W')))))"

section \<open>Patches\<close>

text \<open>Both functions copy the values at the paths that have one from one object to another.\<close>

fun copy_fields :: "obj \<Rightarrow> string list \<Rightarrow> obj \<Rightarrow> obj res" where
  "copy_fields src [] dest = Inr dest"
| "copy_fields src (fieldPath # fieldPaths) dest =
     (let pathParts = split_on CHR ''.'' fieldPath; value = GetNestedField src pathParts in
      if value = JNull then copy_fields src fieldPaths dest
      else (case SetNestedField dest value pathParts of
              Inl p \<Rightarrow> Inl p
            | Inr dest' \<Rightarrow> copy_fields src fieldPaths dest'))"

definition makePatch :: "obj \<Rightarrow> string list \<Rightarrow> obj res" where
  "makePatch src fieldPaths = copy_fields src fieldPaths []"

definition applyPatch :: "obj \<Rightarrow> obj \<Rightarrow> string list \<Rightarrow> obj res" where
  "applyPatch dest patch fieldPaths = copy_fields patch fieldPaths dest"

section \<open>New revisions\<close>

definition controllerRevisionHash :: "string \<Rightarrow> string \<Rightarrow> string" where
  "controllerRevisionHash parentUID patchData = sha1_hex (parentUID @ patchData)"

definition controllerRevisionName :: "kube \<Rightarrow> api_resource \<Rightarrow> obj \<Rightarrow> string \<Rightarrow> string" where
  "controllerRevisionName K parentResource parent patchData =
     (let apiGroup = (if rGroup parentResource = '''' then ''core'' else rGroup parentResource);
          prefix = rName parentResource @ ''.'' @ apiGroup;
          prefix' = (if length prefix > 253 - 41 then take (253 - 41) prefix else prefix)
      in prefix' @ ''-'' @ controllerRevisionHash (GetUID K parent) patchData)"

definition newControllerRevision :: "kube \<Rightarrow> api_resource \<Rightarrow> obj \<Rightarrow> obj \<Rightarrow> controller_revision res" where
  "newControllerRevision K parentResource parent patch =
     (case Marshal K patch of
        Inl err \<Rightarrow> Inl (Msg (''can't marshal ControllerRevision parentPatch: '' @ err_text err))
      | Inr patchData \<Rightarrow>
          let labels = mrange (GetNestedMap parent [''spec'', ''template'', ''metadata'', ''labels'']);
              labels' = mput labelKeyResource (rName parentResource)
                          (mput labelKeyAPIGroup (rGroup parentResource) labels)
          in Inr \<lparr>crAPIVersion = ''metac.openebs.io/v1alpha1'', crKind = ''ControllerRevision'',
               crNamespace = GetNamespace K parent,
               crName = controllerRevisionName K parentResource parent patchData, crUID = '''',
               crDeletionTimestamp = None, crLabels = Some labels', crAnnotations = None,
               crOwnerReferences = [], crParentPatch = patchData, crChildren = []\<rparr>)"

section \<open>Managing revisions\<close>

definition rev_map :: "controller_revision list \<Rightarrow> controller_revision gomap" where
  "rev_map revisions = fold (\<lambda>r m. mput (crName r) r m) revisions []"

fun delete_revisions ::
  "'s world cr_env \<Rightarrow> string \<Rightarrow> controller_revision gomap \<Rightarrow> controller_revision list \<Rightarrow> 's cworld \<Rightarrow>
   gerr option \<times> 's cworld" where
  "delete_revisions C parentText desiredMap [] W = (None, W)"
| "delete_revisions C parentText desiredMap (r # revisions) W =
     (if map_of desiredMap (crName r) \<noteq> None then delete_revisions C parentText desiredMap revisions W
      else (case cr_call C (CRDelete (crName r) (crUID r)) W of
              (Inl err, W') \<Rightarrow>
                (Some (Msg (''can't delete ControllerRevision '' @ crName r @ '' for '' @ parentText @ '': '' @
                   err_text err)), W')
            | (Inr resp, W') \<Rightarrow> delete_revisions C parentText desiredMap revisions W'))"

fun write_revisions ::
  "'s world cr_env \<Rightarrow> string \<Rightarrow> owner_ref \<Rightarrow> controller_revision gomap \<Rightarrow> controller_revision list \<Rightarrow> 's cworld \<Rightarrow>
   gerr option \<times> 's cworld" where
  "write_revisions C parentText ownerRef observedMap [] W = (None, W)"
| "write_revisions C parentText ownerRef observedMap (r # revisions) W =
     (case map_of observedMap (crName r) of
        Some oldObj \<Rightarrow>
          if oldObj = r then write_revisions C parentText ownerRef observedMap revisions W
          else (case cr_call C (CRUpdate r) W of
                  (Inl err, W') \<Rightarrow>
                    (Some (Msg (''can't update ControllerRevision '' @ crName r @ '' for '' @ parentText @ '': '' @
                       err_text err)), W')
                | (Inr resp, W') \<Rightarrow> write_revisions C parentText ownerRef observedMap revisions W')
      | None \<Rightarrow>
          (case cr_call C (CRCreate (r\<lparr>crOwnerReferences := crOwnerReferences r @ [ownerRef]\<rparr>)) W of
             (Inl err, W') \<Rightarrow>
               (Some (Msg (''can't create ControllerRevision '' @ crName r @ '' for '' @ parentText @ '': '' @
                  err_text err)), W')
           | (Inr resp, W') \<Rightarrow> write_revisions C parentText ownerRef observedMap revisions W'))"

definition manageRevisions ::
  "'s cenv \<Rightarrow> composite \<Rightarrow> obj \<Rightarrow> controller_revision list \<Rightarrow> controller_revision list \<Rightarrow> 's cworld \<Rightarrow>
   gerr option \<times> 's cworld" where
  "manageRevisions X P parent observedRevisions desiredRevisions W =
     (let K = ceKube X; C = ceRevisions X (GetNamespace K parent);
          parentText = rKind (ccParentResource P) @ '' '' @ ns_name K parent
      in case delete_revisions C parentText (rev_map desiredRevisions) observedRevisions W of
           (Some err, W') \<Rightarrow> (Some err, W')
         | (None, W') \<Rightarrow>
             write_revisions C parentText (MakeOwnerRef K parent) (rev_map observedRevisions) desiredRevisions W')"

section \<open>One pass\<close>

text \<open>
  The revisions that differ from the latest patch become parent revisions; one that equals it
  is the revision of the latest. The hook's answers come later, so the result of a new parent
  revision is still empty here.
\<close>

definition no_response :: sync_response where
  "no_response = \<lparr>rsStatus = None, rsChildren = [], rsResyncAfterSeconds = 0, rsFinalized = False\<rparr>"

fun materialize ::
  "kube \<Rightarrow> obj \<Rightarrow> string list \<Rightarrow> obj \<Rightarrow> controller_revision list \<Rightarrow> controller_revision option \<Rightarrow>
   parent_revision list \<Rightarrow> (controller_revision option \<times> parent_revision list) res" where
  "materialize K parent fieldPaths latestPatch [] latest prs = Inr (latest, prs)"
| "materialize K parent fieldPaths latestPatch (revision # revisions) latest prs =
     (case Unmarshal K (crParentPatch revision) of
        Inl err \<Rightarrow> Inl (Msg (''can't unmarshal ControllerRevision parentPatch: '' @ err_text err))
      | Inr patch \<Rightarrow>
          if deep_equal (JObj patch) (JObj latestPatch)
          then materialize K parent fieldPaths latestPatch revisions (Some revision) prs
          else (case applyPatch parent patch fieldPaths of
                  Inl p \<Rightarrow> Inl p
                | Inr parent' \<Rightarrow>
                    materialize K parent fieldPaths latestPatch revisions latest
                      (prs @ [\<lparr>prParent = parent', prRevision = revision, prResult = no_response,
                               prDesired = []\<rparr>])))"

text \<open>The hook is called for every revision; the first error in the list is reported.\<close>

fun call_hooks ::
  "'s cenv \<Rightarrow> composite \<Rightarrow> obj \<Rightarrow> registry \<Rightarrow> parent_revision list \<Rightarrow> parent_revision list res" where
  "call_hooks X P parent observed [] = Inr []"
| "call_hooks X P parent observed (pr # prs) =
     (case callSyncHook X P (NewSyncHookRequest (prParent pr) observed) of
        Inl err \<Rightarrow>
          Inl (Msg (''sync hook failed for '' @ rKind (ccParentResource P) @ '' '' @ ns_name (ceKube X) parent @
             '': '' @ err_text err))
      | Inr resp \<Rightarrow>
          (case call_hooks X P parent observed prs of
             Inl err \<Rightarrow> Inl err
           | Inr prs' \<Rightarrow>
               Inr (pr\<lparr>prResult := resp,
                       prDesired := MakeAnyUnstructRegistryByReference (ceKube X) parent (rsChildren resp)\<rparr> # prs')))"

text \<open>The children that older revisions still claim replace those of the latest one.\<close>

fun overwrite_names ::
  "kube \<Rightarrow> obj \<Rightarrow> registry \<Rightarrow> string \<Rightarrow> string \<Rightarrow> string list \<Rightarrow> registry \<Rightarrow> registry res" where
  "overwrite_names K parent older g k [] desired = Inr desired"
| "overwrite_names K parent older g k (name # names) desired =
     (case FindByGroupKindName older g k name of
        Inl p \<Rightarrow> Inl p
      | Inr None \<Rightarrow> overwrite_names K parent older g k names desired
      | Inr (Some child) \<Rightarrow> overwrite_names K parent older g k names (ReplaceByReference K parent child desired))"

fun overwrite_groups :: "kube \<Rightarrow> obj \<Rightarrow> registry \<Rightarrow> revision_children list \<Rightarrow> registry \<Rightarrow> registry res" where
  "overwrite_groups K parent older [] desired = Inr desired"
| "overwrite_groups K parent older (ck # cks) desired =
     (case overwrite_names K parent older (rcAPIGroup ck) (rcKind ck) (rcNames ck) desired of
        Inl p \<Rightarrow> Inl p
      | Inr desired' \<Rightarrow> overwrite_groups K parent older cks desired')"

fun overwrite_children :: "kube \<Rightarrow> obj \<Rightarrow> parent_revision list \<Rightarrow> registry \<Rightarrow> registry res" where
  "overwrite_children K parent [] desired = Inr desired"
| "overwrite_children K parent (pr # prs) desired =
     (case overwrite_groups K parent (prDesired pr) (crChildren (prRevision pr)) desired of
        Inl p \<Rightarrow> Inl p
      | Inr desired' \<Rightarrow> overwrite_children K parent prs desired')"

text \<open>The smallest positive delay wins.\<close>

definition min_resync :: "parent_revision list \<Rightarrow> rat \<Rightarrow> rat" where
  "min_resync prs r0 =
     fold (\<lambda>pr r. let resync = rsResyncAfterSeconds (prResult pr) in
       if resync > 0 \<and> (r = 0 \<or> resync < r) then resync else r) prs r0"

definition all_finalized :: "parent_revision list \<Rightarrow> bool" where
  "all_finalized prs = list_all (\<lambda>pr. rsFinalized (prResult pr)) prs"

definition field_paths :: "composite \<Rightarrow> string list" where
  "field_paths P =
     (case ccRevisionHistory P of
        Some paths \<Rightarrow> if length paths > 0 then paths else [''spec'']
      | None \<Rightarrow> [''spec''])"

definition single_sync :: "'s cenv \<Rightarrow> composite \<Rightarrow> obj \<Rightarrow> registry \<Rightarrow> sync_response res" where
  "single_sync X P parent observed =
     (case callSyncHook X P (NewSyncHookRequest parent observed) of
        Inl err \<Rightarrow>
          Inl (Wrap (composite_String P @ '': sync hook failed for '' @ ns_name (ceKube X) parent) err)
      | Inr resp \<Rightarrow> Inr resp)"

text \<open>The parent revisions with the hook's answers, the latest first.\<close>

definition parent_revisions ::
  "'s cenv \<Rightarrow> composite \<Rightarrow> obj \<Rightarrow> registry \<Rightarrow> controller_revision list \<Rightarrow> parent_revision list res" where
  "parent_revisions X P parent observed observedRevisions =
     (let K = ceKube X; fieldPaths = field_paths P in
      case makePatch parent fieldPaths of
        Inl p \<Rightarrow> Inl p
      | Inr latestPatch \<Rightarrow>
     (case materialize K parent fieldPaths latestPatch observedRevisions None [] of
        Inl err \<Rightarrow> Inl err
      | Inr (latestRevision, others) \<Rightarrow>
     (case (case latestRevision of
              Some revision \<Rightarrow> Inr revision
            | None \<Rightarrow> newControllerRevision K (ccParentResource P) parent latestPatch) of
        Inl err \<Rightarrow> Inl err
      | Inr revision \<Rightarrow>
          call_hooks X P parent observed
            (\<lparr>prParent = parent, prRevision = revision, prResult = no_response, prDesired = []\<rparr> # others))))"

text \<open>The response of the pass; the children of a registry built from a response are never nil.\<close>

definition aggregate_result :: "parent_revision list \<Rightarrow> registry \<Rightarrow> sync_response" where
  "aggregate_result prs desired =
     \<lparr>rsStatus = rsStatus (prResult (prs ! 0)), rsChildren = List.map_filter id (registry_List desired),
      rsResyncAfterSeconds = min_resync prs 0, rsFinalized = all_finalized prs\<rparr>"

definition rolling_sync ::
  "'s cenv \<Rightarrow> composite \<Rightarrow> obj \<Rightarrow> registry \<Rightarrow> controller_revision list \<Rightarrow> 's cworld \<Rightarrow>
   sync_response res \<times> 's cworld" where
  "rolling_sync X P parent observed observedRevisions W =
     (let K = ceKube X in
      case parent_revisions X P parent observed observedRevisions of
        Inl err \<Rightarrow> (Inl err, W)
      | Inr prs0 \<Rightarrow>
     (case syncRollingUpdate K (ccStrategy P) prs0 observed of
        Inl err \<Rightarrow> (Inl err, W)
      | Inr prs1 \<Rightarrow>
     (case pruneParentRevisions prs1 of
        Inl p \<Rightarrow> (Inl p, W)
      | Inr prs \<Rightarrow>
     (case manageRevisions X P parent observedRevisions (map prRevision prs) W of
        (Some err, W') \<Rightarrow>
          (Inl (Msg (rKind (ccParentResource P) @ '' '' @ ns_name K parent @
             '': can't reconcile ControllerRevisions: '' @ err_text err)), W')
      | (None, W') \<Rightarrow>
     (case overwrite_children K parent (tl prs) (prDesired (prs ! 0)) of
        Inl p \<Rightarrow> (Inl p, W')
      | Inr desired \<Rightarrow> (Inr (aggregate_result prs desired), W'))))))"

definition syncRevisions ::
  "'s cenv \<Rightarrow> composite \<Rightarrow> obj \<Rightarrow> registry \<Rightarrow> 's cworld \<Rightarrow> sync_response res \<times> 's cworld" where
  "syncRevisions X P parent observed W =
     (let K = ceKube X in
      if \<not> anyRolling (ccStrategy P) \<or>
         (GetDeletionTimestamp K parent \<noteq> None \<and> \<not> ShouldFinalize K (ccFinalizer P) parent)
      then (single_sync X P parent observed, W)
      else (case claimRevisions X P parent W of
              (Inl err, W') \<Rightarrow> (Inl err, W')
            | (Inr observedRevisions, W') \<Rightarrow> rolling_sync X P parent observed observedRevisions W'))"

end
