(* ===== verification/Composite.thy ===== *)
theory Composite
  imports Revisions ControllerLoop
begin

text \<open>
  \<open>controller/composite/controller.go\<close>: a composite controller, from its construction and the
  events of its informers, through its work queue, to the reconciliation of one parent.

  Goroutines, the wait for the caches and the logging are left out. Two functions of client-go
  that turn objects into keys and back are parameters.
\<close>

section \<open>The controller\<close>

datatype cc_handler = ParentHandlers | ChildHandlers

record composite_spec =
  csComposite :: composite
  csParentAPI :: "string \<times> string"
  csHasFinalize :: bool
  csResyncPeriodSeconds :: "int option"

record parent_controller =
  pcComposite :: composite
  pcResyncPeriodSeconds :: "int option"
  pcParentInformer :: resource_informer
  pcChildInformers :: "resource_informer gomap"

type_synonym cc_factory = "cc_handler factory"

definition subscribe_children ::
  "(string \<Rightarrow> string \<Rightarrow> resource_client res) \<Rightarrow> child_rule list \<Rightarrow> resource_informer gomap \<Rightarrow> 'h factory \<Rightarrow>
   gerr option \<times> resource_informer gomap \<times> 'h factory" where
  "subscribe_children getClient rules =
     subscribe getClient (\<lambda>apiVersion resource err.
         Wrap (''can't create informer for child resource '' @ quoted apiVersion @ '' '' @ quoted resource) err)
       (map (\<lambda>(apiVersion, resource, st). (apiVersion, resource)) rules)"

definition newParentController ::
  "clientset \<Rightarrow> composite_spec \<Rightarrow> 'h factory \<Rightarrow> parent_controller res \<times> 'h factory" where
  "newParentController cs api F =
     (let getClient = GetClientForAPIVersionAndResource (csParse cs) (csDiscovery cs);
          (apiVersion, resource) = csParentAPI api; P = csComposite api in
      case getClient apiVersion resource of
        Inl err \<Rightarrow> (Inl err, F)
      | Inr parentClient \<Rightarrow>
     (case makeUpdateStrategyMap (csDiscovery cs) (ccChildResources P) [] of
        Inl err \<Rightarrow> (Inl err, F)
      | Inr updateStrategy \<Rightarrow>
     (case GetOrCreate getClient apiVersion resource F of
        (Inl err, F1) \<Rightarrow>
          (Inl (Wrap (''can't create informer for parent resource '' @ quoted apiVersion @ '' '' @ quoted resource) err), F1)
      | (Inr parentInformer, F1) \<Rightarrow>
     (case subscribe_children getClient (ccChildResources P) [] F1 of
        (Some err, childInformers, F2) \<Rightarrow>
          (case close_all (map snd childInformers @ [parentInformer]) F2 of
             Inl p \<Rightarrow> (Inl p, F2)
           | Inr F3 \<Rightarrow> (Inl err, F3))
      | (None, childInformers, F2) \<Rightarrow>
          (Inr \<lparr>pcComposite = P\<lparr>ccParentResource := rcResource parentClient, ccStrategy := updateStrategy,
                  ccFinalizer := \<lparr>fName = ''metac.openebs.io/compositecontroller-'' @ ccName P,
                                  fEnabled = csHasFinalize api\<rparr>,
                  ccParentClient := parentClient\<rparr>,
                pcResyncPeriodSeconds = csResyncPeriodSeconds api,
                pcParentInformer = parentInformer, pcChildInformers = childInformers\<rparr>, F2)))))"

text \<open>
  What \<open>Start\<close> does before it launches its goroutine: it installs the handlers, which are told
  of all cached objects, and fixes the number of workers.
\<close>

definition Start_handlers ::
  "(cc_handler \<Rightarrow> 'h) \<Rightarrow> (nat \<Rightarrow> indexer) \<Rightarrow> parent_controller \<Rightarrow> 'h factory \<Rightarrow> ('h \<times> event) list \<times> 'h factory" where
  "Start_handlers tag caches pc F =
     (case (case pcResyncPeriodSeconds pc of
              Some seconds \<Rightarrow>
                AddEventHandlerWithResyncPeriod caches (pcParentInformer pc) (tag ParentHandlers) (resync_period seconds) F
            | None \<Rightarrow> AddEventHandler caches (pcParentInformer pc) (tag ParentHandlers) F) of
        (evs, F1) \<Rightarrow>
          (case listen caches None (tag ChildHandlers) (map snd (pcChildInformers pc)) F1 of (evs', F2) \<Rightarrow> (evs @ evs', F2)))"

definition parent_Stop :: "parent_controller \<Rightarrow> channel \<times> 'h factory \<Rightarrow> (channel \<times> 'h factory) res" where
  "parent_Stop pc s = stop_controller (map snd (pcChildInformers pc) @ [pcParentInformer pc]) s"

section \<open>The queue and the events\<close>

record 's penv =
  peC :: "'s cenv"
  peFactory :: cc_factory
  peCaches :: "nat \<Rightarrow> indexer"
  peKeyFunc :: "obj \<Rightarrow> string res"
  peSplitKey :: "string \<Rightarrow> (string \<times> string) res"

abbreviation peKube :: "'s penv \<Rightarrow> kube" where
  "peKube X \<equiv> ceKube (peC X)"

definition parent_lister :: "'s penv \<Rightarrow> parent_controller \<Rightarrow> lister" where
  "parent_lister X pc = Lister (peCaches X) (peFactory X) (pcParentInformer pc)"

definition enqueueParentObject :: "'s penv \<Rightarrow> obj \<Rightarrow> queue_op list" where
  "enqueueParentObject X x = (case peKeyFunc X x of Inl err \<Rightarrow> [] | Inr key \<Rightarrow> [QAdd key])"

definition enqueueParentObjectAfter :: "'s penv \<Rightarrow> obj \<Rightarrow> int \<Rightarrow> queue_op list" where
  "enqueueParentObjectAfter X x delay = (case peKeyFunc X x of Inl err \<Rightarrow> [] | Inr key \<Rightarrow> [QAddAfter key delay])"

definition updateParentObject :: "'s penv \<Rightarrow> obj \<Rightarrow> obj \<Rightarrow> queue_op list" where
  "updateParentObject X old cur = enqueueParentObject X cur"

definition resolveControllerRef ::
  "'s penv \<Rightarrow> parent_controller \<Rightarrow> string \<Rightarrow> owner_ref \<Rightarrow> obj option" where
  "resolveControllerRef X pc childNamespace controllerRef =
     (let r = ccParentResource (pcComposite pc); apiGroup = fst (ParseAPIVersionToGroupVersion (orAPIVersion controllerRef)) in
      if apiGroup \<noteq> rGroup r then None
      else if orKind controllerRef \<noteq> rKind r then None
      else (let parentNamespace = (if rNamespaced r then childNamespace else '''') in
            case Lister_Get (parent_lister X pc) parentNamespace (orName controllerRef) of
              Inl err \<Rightarrow> None
            | Inr parent \<Rightarrow> if GetUID (peKube X) parent \<noteq> orUID controllerRef then None else Some parent))"

definition findPotentialParents :: "'s penv \<Rightarrow> parent_controller \<Rightarrow> obj \<Rightarrow> obj list" where
  "findPotentialParents X pc child =
     (let K = peKube X; P = pcComposite pc; childLabels = mrange (GetLabels K child) in
      case (if rNamespaced (ccParentResource P)
            then Lister_ListNamespace (parent_lister X pc) (GetNamespace K child) everything
            else Lister_List (parent_lister X pc) everything) of
        Inl err \<Rightarrow> []
      | Inr parents \<Rightarrow>
          filter (\<lambda>parent. case makeSelector (peC X) P parent [] of
              Inl err \<Rightarrow> False
            | Inr selector \<Rightarrow> \<not> selEmpty selector \<and> selMatches selector childLabels) parents)"

definition onChildDelete :: "'s penv \<Rightarrow> parent_controller \<Rightarrow> deleted \<Rightarrow> queue_op list" where
  "onChildDelete X pc d =
     (case deleted_child d of
        None \<Rightarrow> []
      | Some child \<Rightarrow>
          (case GetControllerOf (peKube X) child of
             None \<Rightarrow> []
           | Some controllerRef \<Rightarrow>
               (case resolveControllerRef X pc (GetNamespace (peKube X) child) controllerRef of
                  None \<Rightarrow> []
                | Some parent \<Rightarrow> enqueueParentObject X parent)))"

definition onChildAdd :: "'s penv \<Rightarrow> parent_controller \<Rightarrow> obj \<Rightarrow> queue_op list" where
  "onChildAdd X pc child =
     (if GetDeletionTimestamp (peKube X) child \<noteq> None then onChildDelete X pc (DObject child)
      else (case GetControllerOf (peKube X) child of
              Some controllerRef \<Rightarrow>
                (case resolveControllerRef X pc (GetNamespace (peKube X) child) controllerRef of
                   None \<Rightarrow> []
                 | Some parent \<Rightarrow> enqueueParentObject X parent)
            | None \<Rightarrow> concat (map (enqueueParentObject X) (findPotentialParents X pc child))))"

definition onChildUpdate :: "'s penv \<Rightarrow> parent_controller \<Rightarrow> obj \<Rightarrow> obj \<Rightarrow> queue_op list" where
  "onChildUpdate X pc old cur =
     (if GetResourceVersion (peKube X) old = GetResourceVersion (peKube X) cur then []
      else onChildAdd X pc cur)"

text \<open>The handlers \<open>Start\<close> installs.\<close>

fun handle_event :: "'s penv \<Rightarrow> parent_controller \<Rightarrow> cc_handler \<times> event \<Rightarrow> queue_op list" where
  "handle_event X pc (ParentHandlers, OnAdd x) = enqueueParentObject X x"
| "handle_event X pc (ParentHandlers, OnUpdate old cur) = updateParentObject X old cur"
| "handle_event X pc (ParentHandlers, OnDelete x) = enqueueParentObject X x"
| "handle_event X pc (ChildHandlers, OnAdd x) = onChildAdd X pc x"
| "handle_event X pc (ChildHandlers, OnUpdate old cur) = onChildUpdate X pc old cur"
| "handle_event X pc (ChildHandlers, OnDelete x) = onChildDelete X pc (DObject x)"

section \<open>Claiming children\<close>

definition children_manager :: "'s penv \<Rightarrow> composite \<Rightarrow> obj \<Rightarrow> string \<times> string \<times> string \<Rightarrow> selector \<Rightarrow>
    's world claim_manager" where
  "children_manager X P parent gvk selector =
     \<lparr>Watched = parent, WatchedKind = gvk, SelectorMatches = selMatches selector,
      CanAdoptFunc = Some (canAdoptFunc (peC X) P parent)\<rparr>"

fun claim_kinds_of ::
  "'s penv \<Rightarrow> parent_controller \<Rightarrow> obj \<Rightarrow> string \<times> string \<times> string \<Rightarrow> selector \<Rightarrow> child_rule list \<Rightarrow> registry \<Rightarrow>
   's world \<Rightarrow> registry res \<times> 's world" where
  "claim_kinds_of X pc parent gvk selector [] childMap w = (Inr childMap, w)"
| "claim_kinds_of X pc parent gvk selector ((apiVersion, resource, st) # rules) childMap w =
     (let K = peKube X; P = pcComposite pc; cs = ceClients (peC X); who = ''CompositeController '' @ composite_String P in
      case GetClientForAPIVersionAndResource (csParse cs) (csDiscovery cs) apiVersion resource of
        Inl err \<Rightarrow> (Inl err, w)
      | Inr childClient \<Rightarrow>
     (case ResourceInformerRegistrar_Get (pcChildInformers pc) apiVersion resource of
        None \<Rightarrow> (Inl (Msg (who @ '': no informer for child '' @ quoted resource @ '' in apiVersion '' @ quoted apiVersion)), w)
      | Some ri \<Rightarrow>
     (let l = Lister (peCaches X) (peFactory X) ri; kind = rKind (rcResource childClient) in
      case (if rNamespaced (ccParentResource P) then Lister_ListNamespace l (GetNamespace K parent) everything
            else Lister_List l everything) of
        Inl err \<Rightarrow> (Inl (Wrap (who @ '': can't list '' @ quoted kind @ '' children'') err), w)
      | Inr all \<Rightarrow>
     (case GetGroupVersionKind (csParse cs) (rcResource childClient) of
        Inl p \<Rightarrow> (Inl p, w)
      | Inr childGVK \<Rightarrow>
     (case BulkClaim (ceDyn (peC X)) (children_manager X P parent gvk selector) childClient all (None, w) of
        ((children, errs), (once, w')) \<Rightarrow>
          if errs \<noteq> []
          then (Inl (Wrap (who @ '': can't claim '' @ quoted kind @ '' children'') (Aggregate errs)), w')
          else claim_kinds_of X pc parent gvk selector rules
                 (fold (InsertByReference K parent) children (Init apiVersion kind childMap)) w')))))"

definition claimChildren ::
  "'s penv \<Rightarrow> parent_controller \<Rightarrow> obj \<Rightarrow> 's world \<Rightarrow> registry res \<times> 's world" where
  "claimChildren X pc parent w =
     (let P = pcComposite pc in
      case GetGroupVersionKind (csParse (ceClients (peC X))) (ccParentResource P) of
        Inl p \<Rightarrow> (Inl p, w)
      | Inr parentGVK \<Rightarrow>
     (case makeSelector (peC X) P parent [] of
        Inl err \<Rightarrow> (Inl err, w)
      | Inr selector \<Rightarrow> claim_kinds_of X pc parent parentGVK selector (ccChildResources P) [] w))"

section \<open>Status\<close>

definition status_update :: "obj \<Rightarrow> update_fn" where
  "status_update status x =
     (if deep_equal (index x ''status'') (JObj status) then (False, x)
      else (True, mput ''status'' (JObj status) x))"

definition updateParentStatus ::
  "'s penv \<Rightarrow> parent_controller \<Rightarrow> obj \<Rightarrow> obj option \<Rightarrow> 's world \<Rightarrow> obj option res \<times> 's world" where
  "updateParentStatus X pc parent status w =
     (let K = peKube X; status' = mput ''observedGeneration'' (JInt (GetGeneration K parent)) (mrange status) in
      AtomicStatusUpdate (ceDyn (peC X)) (Namespace (ccParentClient (pcComposite pc)) (GetNamespace K parent)) parent
        (status_update status') w)"

section \<open>Labels of desired children\<close>

text \<open>The labels a child is checked with, and the child with the label that is added to it.\<close>

definition with_uid_label :: "kube \<Rightarrow> composite \<Rightarrow> obj \<Rightarrow> obj \<Rightarrow> strmap option \<Rightarrow> strmap \<times> obj" where
  "with_uid_label K P parent child childLabels =
     (if ccGenerateSelector P = Some True \<and> map_of (mrange childLabels) ''controller-uid'' = None
      then (let labels = mput ''controller-uid'' (GetUID K parent) (mrange childLabels)
            in (labels, SetLabels K child labels))
      else (mrange childLabels, child))"

fun enforce_group ::
  "kube \<Rightarrow> composite \<Rightarrow> obj \<Rightarrow> selector \<Rightarrow> obj option gomap \<Rightarrow> obj option gomap res" where
  "enforce_group K P parent selector [] = Inr []"
| "enforce_group K P parent selector ((name, None) # children) = Inl nil_deref"
| "enforce_group K P parent selector ((name, Some child) # children) =
     (let who = ''CompositeController '' @ composite_String P;
          what = GetKind K child @ '' '' @ ns_name K child in
      case NestedStringMap K child [''metadata'', ''labels''] of
        Inl err \<Rightarrow> Inl (Wrap (who @ '': invalid labels on desired child '' @ what) err)
      | Inr childLabels \<Rightarrow>
          (case with_uid_label K P parent child childLabels of
             (labels, child') \<Rightarrow>
               if \<not> selMatches selector labels
               then Inl (Msg (who @ '': labels on desired child '' @ what @ '' don't match parent selector''))
               else (case enforce_group K P parent selector children of
                       Inl err \<Rightarrow> Inl err
                     | Inr children' \<Rightarrow> Inr ((name, Some child') # children'))))"

fun enforce_labels :: "kube \<Rightarrow> composite \<Rightarrow> obj \<Rightarrow> selector \<Rightarrow> registry \<Rightarrow> registry res" where
  "enforce_labels K P parent selector [] = Inr []"
| "enforce_labels K P parent selector ((key, children) # m) =
     (case enforce_group K P parent selector children of
        Inl err \<Rightarrow> Inl err
      | Inr children' \<Rightarrow>
          (case enforce_labels K P parent selector m of
             Inl err \<Rightarrow> Inl err
           | Inr m' \<Rightarrow> Inr ((key, children') # m')))"

section \<open>Reconciling a parent\<close>

text \<open>
  The finalizer is removed if the response says so. A client that returns no object and no
  error leaves a nil parent, which the next step dereferences.
\<close>

definition finish_finalizer ::
  "'s penv \<Rightarrow> parent_controller \<Rightarrow> obj \<Rightarrow> bool \<Rightarrow> 's cworld \<Rightarrow> obj res \<times> 's cworld" where
  "finish_finalizer X pc parent finalized W =
     (let K = peKube X; P = pcComposite pc in
      if \<not> finalized then (Inr parent, W)
      else (case dyn (rc_RemoveFinalizer (ceDyn (peC X)) (Namespace (ccParentClient P) (GetNamespace K parent)) parent
                        (fName (ccFinalizer P))) W of
              (Inl err, W') \<Rightarrow>
                (Inl (Wrap (''CompositeController '' @ composite_String P @ '': can't remove finalizer for parent '' @
                   ns_name K parent) err), W')
            | (Inr None, W') \<Rightarrow> (Inl nil_deref, W')
            | (Inr (Some updated), W') \<Rightarrow> (Inr updated, W')))"

definition reconcile_children ::
  "'s penv \<Rightarrow> parent_controller \<Rightarrow> obj \<Rightarrow> registry \<Rightarrow> registry \<Rightarrow> 's cworld \<Rightarrow> gerr option res \<times> 's cworld" where
  "reconcile_children X pc parent observed desired W =
     (let K = peKube X; P = pcComposite pc in
      if GetDeletionTimestamp K parent = None \<or> ShouldFinalize K (ccFinalizer P) parent
      then (case dyn (ManageChildren (ceDyn (peC X)) (ceClients (peC X)) (strategy_Get (ccStrategy P)) parent
                        observed desired) W of
              (Inl p, W') \<Rightarrow> (Inl p, W')
            | (Inr None, W') \<Rightarrow> (Inr None, W')
            | (Inr (Some err), W') \<Rightarrow>
                (Inr (Some (Wrap (''CompositeController '' @ composite_String P @ '': can't reconcile children for '' @
                   ns_name K parent) err)), W'))
      else (Inr None, W))"

text \<open>The part of a pass after the hooks.\<close>

definition apply_response ::
  "'s penv \<Rightarrow> parent_controller \<Rightarrow> obj \<Rightarrow> registry \<Rightarrow> sync_response \<Rightarrow> 's cworld \<Rightarrow> gerr option \<times> 's cworld" where
  "apply_response X pc parent0 observed resp W =
     (let K = peKube X; P = pcComposite pc; desired0 = MakeAnyUnstructRegistryByReference K parent0 (rsChildren resp) in
      case finish_finalizer X pc parent0 (rsFinalized resp) W of
        (Inl err, W1) \<Rightarrow> (Some err, W1)
      | (Inr parent, W1) \<Rightarrow>
     (case makeSelector (peC X) P parent [] of
        Inl err \<Rightarrow> (Some err, W1)
      | Inr selector \<Rightarrow>
     (case enforce_labels K P parent selector desired0 of
        Inl err \<Rightarrow> (Some err, W1)
      | Inr desired \<Rightarrow>
     (case reconcile_children X pc parent observed desired W1 of
        (Inl p, W2) \<Rightarrow> (Some p, W2)
      | (Inr manageErr, W2) \<Rightarrow>
     (case dyn (updateParentStatus X pc parent (rsStatus resp)) W2 of
        (Inl err, W3) \<Rightarrow>
          (Some (Wrap (''CompositeController '' @ composite_String P @ '': can't update status for '' @
             ns_name K parent) err), W3)
      | (Inr updated, W3) \<Rightarrow> (manageErr, W3))))))"

definition syncParentObject ::
  "'s penv \<Rightarrow> parent_controller \<Rightarrow> obj \<Rightarrow> 's cworld qworld \<Rightarrow> gerr option \<times> 's cworld qworld" where
  "syncParentObject X pc parent0 Q =
     (let K = peKube X; P = pcComposite pc; C = peC X in
      case dyn (SyncObject (ceDyn C) (ccFinalizer P) (ccParentClient P) parent0) (qwWorld Q) of
        (Inl err, W1) \<Rightarrow>
          (Some (Wrap (''CompositeController '' @ composite_String P @ '': can't sync finalizer for '' @
             ns_name K parent0) err), Q\<lparr>qwWorld := W1\<rparr>)
      | (Inr None, W1) \<Rightarrow> (Some nil_deref, Q\<lparr>qwWorld := W1\<rparr>)
      | (Inr (Some parent), W1) \<Rightarrow>
     (case dyn (claimChildren X pc parent) W1 of
        (Inl err, W2) \<Rightarrow> (Some err, Q\<lparr>qwWorld := W2\<rparr>)
      | (Inr observed, W2) \<Rightarrow>
     (case syncRevisions C P parent observed W2 of
        (Inl err, W3) \<Rightarrow> (Some err, Q\<lparr>qwWorld := W3\<rparr>)
      | (Inr resp, W3) \<Rightarrow>
          (let Q' = enqueue (if rsResyncAfterSeconds resp > 0
                       then enqueueParentObjectAfter X parent (resync_delay (rsResyncAfterSeconds resp)) else []) Q
           in case apply_response X pc parent observed resp W3 of
                (err, W4) \<Rightarrow> (err, Q'\<lparr>qwWorld := W4\<rparr>)))))"

definition sync :: "'s penv \<Rightarrow> parent_controller \<Rightarrow> string \<Rightarrow> 's cworld qworld \<Rightarrow> gerr option \<times> 's cworld qworld" where
  "sync X pc key Q =
     (case peSplitKey X key of
        Inl err \<Rightarrow> (Some err, Q)
      | Inr (namespace, name) \<Rightarrow>
          (case Lister_Get (parent_lister X pc) namespace name of
             Inl err \<Rightarrow> if IsNotFound err then (None, Q) else (Some err, Q)
           | Inr parent \<Rightarrow> syncParentObject X pc parent Q))"

definition processNextWorkItem ::
  "'s penv \<Rightarrow> parent_controller \<Rightarrow> string option \<Rightarrow> 's cworld qworld \<Rightarrow> bool res \<times> 's cworld qworld" where
  "processNextWorkItem X pc item Q = work_item (sync X pc) item Q"

definition worker ::
  "'s penv \<Rightarrow> parent_controller \<Rightarrow> string option list \<Rightarrow> 's cworld qworld \<Rightarrow> unit res \<times> 's cworld qworld" where
  "worker X pc items Q = work (processNextWorkItem X pc) items Q"

end
