(* ===== verification/Decorator.thy ===== *)
theory Decorator
  imports Watched Hooks Selection ManageChildren
begin

text \<open>
  \<open>controller/decorator/controller.go\<close> with \<open>selector.go\<close> and \<open>hooks.go\<close>: a decorator
  controller, from its selectors and its construction, through the events of its parents and
  children and its queue, to the reconciliation of one parent. The discovery of the
  controller is the one its clients use. Goroutines, the wait for the caches and logging are left
  out; a panic is never wrapped.
\<close>

section \<open>Schema\<close>

record decorator_resource =
  drAPIVersion :: string
  drResource :: string
  drLabelSelector :: "label_selector option"
  drAnnotationSelector :: "annotation_selector option"

text \<open>The strategy of an attachment has only a method.\<close>

record decorator_attachment =
  daAPIVersion :: string
  daResource :: string
  daUpdateStrategy :: "string option"

record decorator_hooks =
  dhSync :: "hook option"
  dhFinalize :: "hook option"

record decorator_schema =
  dsName :: string
  dsResources :: "decorator_resource list"
  dsAttachments :: "decorator_attachment list"
  dsHooks :: "decorator_hooks option"
  dsResyncPeriodSeconds :: "int option"

text \<open>\<open>errors.Errorf\<close> with the text of an error; a panic passes.\<close>

definition errorf :: "string \<Rightarrow> gerr \<Rightarrow> gerr" where
  "errorf s err = (if is_panic err then err else Msg (s @ err_text err))"

section \<open>Selectors\<close>

record decorator_selector =
  dlLabels :: "selector gomap"
  dlAnnotations :: "selector gomap"

definition selectorMapKey :: "string \<Rightarrow> string \<Rightarrow> string" where
  "selectorMapKey apiGroup kind = kind @ ''.'' @ apiGroup"

definition label_selector_of :: "'a label_lib_scheme \<Rightarrow> string \<Rightarrow> label_selector option \<Rightarrow> selector res" where
  "label_selector_of L failed ls =
     (case ls of
        None \<Rightarrow> Inr everything_selector
      | Some s \<Rightarrow> (case LabelSelectorAsSelector L s of Inl err \<Rightarrow> Inl (Wrap failed err) | Inr sel \<Rightarrow> Inr sel))"

definition add_parent_selectors ::
  "'a label_lib_scheme \<Rightarrow> discovery \<Rightarrow> decorator_resource \<Rightarrow> decorator_selector \<Rightarrow> decorator_selector res" where
  "add_parent_selectors L d parent ds =
     (case GetAPIForAPIVersionAndResource d (drAPIVersion parent) (drResource parent) of
        None \<Rightarrow> Inl (Msg (''can't find parent resource '' @ quoted (drResource parent) @ '' in apiVersion '' @
                 quoted (drAPIVersion parent)))
      | Some resource \<Rightarrow>
          (let key = selectorMapKey (rGroup resource) (rKind resource);
               who = quoted (drResource parent) @ '' in apiVersion '' @ quoted (drAPIVersion parent) in
           case label_selector_of L (''can't convert label selector for parent resource '' @ who) (drLabelSelector parent) of
             Inl err \<Rightarrow> Inl err
           | Inr ls \<Rightarrow>
          (case label_selector_of L (''can't convert annotation selector for parent resource '' @ who)
                  (map_option (\<lambda>a. \<lparr>matchLabels = asMatchAnnotations a, matchExpressions = asMatchExpressions a\<rparr>)
                     (drAnnotationSelector parent)) of
             Inl err \<Rightarrow> Inl err
           | Inr as \<Rightarrow> Inr \<lparr>dlLabels = mput key ls (dlLabels ds), dlAnnotations = mput key as (dlAnnotations ds)\<rparr>)))"

fun add_all_selectors ::
  "'a label_lib_scheme \<Rightarrow> discovery \<Rightarrow> decorator_resource list \<Rightarrow> decorator_selector \<Rightarrow> decorator_selector res" where
  "add_all_selectors L d [] ds = Inr ds"
| "add_all_selectors L d (parent # parents) ds =
     (case add_parent_selectors L d parent ds of Inl err \<Rightarrow> Inl err | Inr ds' \<Rightarrow> add_all_selectors L d parents ds')"

definition newDecoratorSelector ::
  "'a label_lib_scheme \<Rightarrow> discovery \<Rightarrow> decorator_schema \<Rightarrow> decorator_selector res" where
  "newDecoratorSelector L d dc = add_all_selectors L d (dsResources dc) \<lparr>dlLabels = [], dlAnnotations = []\<rparr>"

definition decorator_Matches :: "kube \<Rightarrow> decorator_selector \<Rightarrow> obj \<Rightarrow> bool" where
  "decorator_Matches K ds x =
     (let apiGroup = fst (ParseAPIVersionToGroupVersion (GetAPIVersion K x));
          key = selectorMapKey apiGroup (GetKind K x) in
      case (map_of (dlLabels ds) key, map_of (dlAnnotations ds) key) of
        (Some ls, Some as) \<Rightarrow> selMatches ls (mrange (GetLabels K x)) \<and> selMatches as (mrange (GetAnnotations K x))
      | _ \<Rightarrow> False)"

section \<open>Update strategies\<close>

definition decorator_strategy_key :: "string \<Rightarrow> string \<Rightarrow> string" where
  "decorator_strategy_key apiGroup kind = kind @ ''.'' @ apiGroup"

definition decorator_strategy_get :: "string gomap \<Rightarrow> string \<Rightarrow> string \<Rightarrow> string option" where
  "decorator_strategy_get m apiGroup kind = map_of m (decorator_strategy_key apiGroup kind)"

definition decorator_strategy_Get :: "string gomap \<Rightarrow> string \<Rightarrow> string \<Rightarrow> string" where
  "decorator_strategy_Get m apiGroup kind =
     (case decorator_strategy_get m apiGroup kind of
        None \<Rightarrow> ''OnDelete''
      | Some method \<Rightarrow> if method = '''' then ''OnDelete'' else method)"

fun decorator_strategies :: "discovery \<Rightarrow> decorator_attachment list \<Rightarrow> string gomap \<Rightarrow> string gomap res" where
  "decorator_strategies d [] m = Inr m"
| "decorator_strategies d (child # children) m =
     (case daUpdateStrategy child of
        None \<Rightarrow> decorator_strategies d children m
      | Some method \<Rightarrow>
          if method = ''OnDelete'' then decorator_strategies d children m
          else (case GetAPIForAPIVersionAndResource d (daAPIVersion child) (daResource child) of
                  None \<Rightarrow> Inl (Msg (''can't find child resource '' @ quoted (daResource child) @ '' in '' @ daAPIVersion child))
                | Some resource \<Rightarrow>
                    decorator_strategies d children
                      (mput (decorator_strategy_key (fst (ParseAPIVersionToGroupVersion (daAPIVersion child)))
                               (rKind resource)) method m)))"

section \<open>The controller\<close>

datatype dc_handler = DecoratedParents | DecoratedChildren

type_synonym dc_factory = "dc_handler factory"

record decorator =
  dcSchema :: decorator_schema
  dcParentKinds :: "api_resource gomap"
  dcParentSelector :: decorator_selector
  dcUpdateStrategy :: "string gomap"
  dcParentInformers :: "resource_informer gomap"
  dcChildInformers :: "resource_informer gomap"
  dcFinalizer :: finalizer

definition decoratorControllerAnnotation :: string where
  "decoratorControllerAnnotation = ''metac.openebs.io/decorator-controller''"

fun parent_kinds :: "discovery \<Rightarrow> decorator_resource list \<Rightarrow> api_resource gomap \<Rightarrow> api_resource gomap res" where
  "parent_kinds d [] m = Inr m"
| "parent_kinds d (parent # parents) m =
     (case GetAPIForAPIVersionAndResource d (drAPIVersion parent) (drResource parent) of
        None \<Rightarrow> Inl (Msg (''can't find parent resource '' @ quoted (drResource parent) @ '' in apiVersion '' @
                 quoted (drAPIVersion parent)))
      | Some resource \<Rightarrow> parent_kinds d parents (ResourceRegistrar_Set (rGroup resource) (rKind resource) resource m))"

text \<open>The informers of the parents and then of the children; an error closes all of them.\<close>

definition subscribe_decorator ::
  "clientset \<Rightarrow> decorator_schema \<Rightarrow> 'h factory \<Rightarrow>
   (resource_informer gomap \<times> resource_informer gomap) res \<times> 'h factory" where
  "subscribe_decorator cs schema F =
     (let getClient = GetClientForAPIVersionAndResource (csParse cs) (csDiscovery cs);
          fail = (\<lambda>children parents err F.
            case close_all (map snd children @ map snd parents) F of
              Inl p \<Rightarrow> (Inl p, F)
            | Inr F' \<Rightarrow> (Inl err, F'))
      in case subscribe getClient (\<lambda>av r. errorf ''can't create informer for parent resource: '')
                (map (\<lambda>p. (drAPIVersion p, drResource p)) (dsResources schema)) [] F of
           (Some err, parents, F1) \<Rightarrow> fail [] parents err F1
         | (None, parents, F1) \<Rightarrow>
             (case subscribe getClient (\<lambda>av r. errorf ''can't create informer for child resource: '')
                     (map (\<lambda>c. (daAPIVersion c, daResource c)) (dsAttachments schema)) [] F1 of
                (Some err, children, F2) \<Rightarrow> fail children parents err F2
              | (None, children, F2) \<Rightarrow> (Inr (parents, children), F2)))"

definition newDecoratorController ::
  "'a label_lib_scheme \<Rightarrow> clientset \<Rightarrow> decorator_schema \<Rightarrow> 'h factory \<Rightarrow> decorator res \<times> 'h factory" where
  "newDecoratorController L cs schema F =
     (let d = csDiscovery cs in
      case dsHooks schema of
        None \<Rightarrow> (Inl nil_deref, F)
      | Some hooks \<Rightarrow>
     (case newDecoratorSelector L d schema of
        Inl err \<Rightarrow> (Inl err, F)
      | Inr selector \<Rightarrow>
     (case parent_kinds d (dsResources schema) [] of
        Inl err \<Rightarrow> (Inl err, F)
      | Inr kinds \<Rightarrow>
     (case decorator_strategies d (dsAttachments schema) [] of
        Inl err \<Rightarrow> (Inl err, F)
      | Inr strategies \<Rightarrow>
     (case subscribe_decorator cs schema F of
        (Inl err, F') \<Rightarrow> (Inl err, F')
      | (Inr (parents, children), F') \<Rightarrow>
          (Inr \<lparr>dcSchema = schema, dcParentKinds = kinds, dcParentSelector = selector, dcUpdateStrategy = strategies,
                dcParentInformers = parents, dcChildInformers = children,
                dcFinalizer = \<lparr>fName = ''metac.openebs.io/decoratorcontroller-'' @ dsName schema,
                               fEnabled = dhFinalize hooks \<noteq> None\<rparr>\<rparr>, F'))))))"

definition decorator_Start_handlers ::
  "(dc_handler \<Rightarrow> 'h) \<Rightarrow> (nat \<Rightarrow> indexer) \<Rightarrow> decorator \<Rightarrow> 'h factory \<Rightarrow> ('h \<times> event) list \<times> 'h factory" where
  "decorator_Start_handlers tag caches c F =
     (case listen caches (map_option resync_period (dsResyncPeriodSeconds (dcSchema c))) (tag DecoratedParents)
             (map snd (dcParentInformers c)) F of
        (evs, F1) \<Rightarrow>
          (case listen caches None (tag DecoratedChildren) (map snd (dcChildInformers c)) F1 of
             (evs', F2) \<Rightarrow> (evs @ evs', F2)))"

definition decorator_Stop :: "decorator \<Rightarrow> channel \<times> 'h factory \<Rightarrow> (channel \<times> 'h factory) res" where
  "decorator_Stop c s = stop_controller (map snd (dcChildInformers c) @ map snd (dcParentInformers c)) s"

section \<open>Hooks\<close>

record decorator_request =
  dqController :: decorator_schema
  dqObject :: obj
  dqAttachments :: registry
  dqFinalizing :: bool

record decorator_response =
  dpLabels :: "string option gomap"
  dpAnnotations :: "string option gomap"
  dpStatus :: "obj option"
  dpAttachments :: "obj list"
  dpResyncAfterSeconds :: rat
  dpFinalized :: bool

record 's denv =
  deDyn :: "'s env"
  deClients :: clientset
  deFactory :: dc_factory
  deCaches :: "nat \<Rightarrow> indexer"
  deHooks :: "(decorator_request, decorator_response) hook_io"

abbreviation deKube :: "'s denv \<Rightarrow> kube" where
  "deKube X \<equiv> kubeOf (deDyn X)"

definition decorator_callSyncHook :: "'s denv \<Rightarrow> decorator \<Rightarrow> decorator_request \<Rightarrow> decorator_response res" where
  "decorator_callSyncHook X c request =
     (let invoke = (\<lambda>schema finalizing failed.
            case InvokeHook (deHooks X) schema (request\<lparr>dqFinalizing := finalizing\<rparr>) of
              Inl err \<Rightarrow> Inl (wrapf failed err)
            | Inr response \<Rightarrow> Inr response);
          call_sync = (\<lambda>hooks. case dhSync hooks of
              None \<Rightarrow> Inl (Msg ''Sync hook not defined'')
            | Some schema \<Rightarrow> invoke schema False ''Sync hook failed'')
      in case dsHooks (dcSchema c) of
           None \<Rightarrow> Inl (Msg ''No hooks defined'')
         | Some hooks \<Rightarrow>
             (case dhFinalize hooks of
                None \<Rightarrow> call_sync hooks
              | Some schema \<Rightarrow>
                  if GetDeletionTimestamp (deKube X) (dqObject request) \<noteq> None \<or>
                     \<not> decorator_Matches (deKube X) (dcParentSelector c) (dqObject request)
                  then invoke schema True ''Finalize hook failed''
                  else call_sync hooks))"

section \<open>The queue and the events\<close>

definition parentQueueKey :: "kube \<Rightarrow> watch_item \<Rightarrow> string res" where
  "parentQueueKey K item = queue_key (Msg ''can't get key for object; expected *unstructured.Unstructured'') K item"

definition splitParentQueueKey :: "string \<Rightarrow> (string \<times> string \<times> string \<times> string) res" where
  "splitParentQueueKey key = split_key (Msg (''invalid parent key: '' @ quoted key)) key"

text \<open>A parent is of interest if it matches, or has the finalizer of the controller.\<close>

definition decorates :: "kube \<Rightarrow> decorator \<Rightarrow> obj \<Rightarrow> bool" where
  "decorates K c x = (decorator_Matches K (dcParentSelector c) x \<or> HasFinalizer K x (fName (dcFinalizer c)))"

definition decorator_enqueue :: "kube \<Rightarrow> decorator \<Rightarrow> watch_item \<Rightarrow> queue_op list" where
  "decorator_enqueue K c item =
     (let add = (case parentQueueKey K item of Inl err \<Rightarrow> [] | Inr key \<Rightarrow> [QAdd key]) in
      case item of
        WObject parent \<Rightarrow> if \<not> decorates K c parent then [] else add
      | _ \<Rightarrow> add)"

definition decorator_enqueueAfter :: "kube \<Rightarrow> watch_item \<Rightarrow> int \<Rightarrow> queue_op list" where
  "decorator_enqueueAfter K item delay = (case parentQueueKey K item of Inl err \<Rightarrow> [] | Inr key \<Rightarrow> [QAddAfter key delay])"

definition decorator_updateParent :: "kube \<Rightarrow> decorator \<Rightarrow> watch_item \<Rightarrow> watch_item \<Rightarrow> queue_op list" where
  "decorator_updateParent K c old cur = decorator_enqueue K c cur"

definition decorator_resolve :: "'s denv \<Rightarrow> decorator \<Rightarrow> string \<Rightarrow> owner_ref \<Rightarrow> obj option" where
  "decorator_resolve X c childNamespace controllerRef =
     (let K = deKube X; apiGroup = fst (ParseAPIVersionToGroupVersion (orAPIVersion controllerRef)) in
      case ResourceRegistrar_Get (dcParentKinds c) apiGroup (orKind controllerRef) of
        None \<Rightarrow> None
      | Some resource \<Rightarrow>
     (case ResourceInformerRegistrar_Get (dcParentInformers c) (rAPIVersion resource) (rName resource) of
        None \<Rightarrow> None
      | Some informer \<Rightarrow>
          (let parentNamespace = (if rNamespaced resource then childNamespace else '''') in
           case Lister_Get (Lister (deCaches X) (deFactory X) informer) parentNamespace (orName controllerRef) of
             Inl err \<Rightarrow> None
           | Inr parent \<Rightarrow>
               if GetUID K parent \<noteq> orUID controllerRef then None
               else if \<not> decorates K c parent then None else Some parent)))"

definition decorator_onChildDelete :: "'s denv \<Rightarrow> decorator \<Rightarrow> deleted \<Rightarrow> queue_op list" where
  "decorator_onChildDelete X c d =
     (case deleted_child d of
        None \<Rightarrow> []
      | Some child \<Rightarrow>
          (case GetControllerOf (deKube X) child of
             None \<Rightarrow> []
           | Some ref \<Rightarrow>
               (case decorator_resolve X c (GetNamespace (deKube X) child) ref of
                  None \<Rightarrow> []
                | Some parent \<Rightarrow> decorator_enqueue (deKube X) c (WObject parent))))"

definition decorator_onChildAdd :: "'s denv \<Rightarrow> decorator \<Rightarrow> obj \<Rightarrow> queue_op list" where
  "decorator_onChildAdd X c child =
     (if GetDeletionTimestamp (deKube X) child \<noteq> None then decorator_onChildDelete X c (DObject child)
      else (case GetControllerOf (deKube X) child of
              None \<Rightarrow> []
            | Some ref \<Rightarrow>
                (case decorator_resolve X c (GetNamespace (deKube X) child) ref of
                   None \<Rightarrow> []
                 | Some parent \<Rightarrow> decorator_enqueue (deKube X) c (WObject parent))))"

definition decorator_onChildUpdate :: "'s denv \<Rightarrow> decorator \<Rightarrow> obj \<Rightarrow> obj \<Rightarrow> queue_op list" where
  "decorator_onChildUpdate X c old cur =
     (if GetResourceVersion (deKube X) old = GetResourceVersion (deKube X) cur then []
      else decorator_onChildAdd X c cur)"

text \<open>The handlers \<open>Start\<close> installs.\<close>

fun decorator_event :: "'s denv \<Rightarrow> decorator \<Rightarrow> dc_handler \<times> event \<Rightarrow> queue_op list" where
  "decorator_event X c (DecoratedParents, OnAdd x) = decorator_enqueue (deKube X) c (WObject x)"
| "decorator_event X c (DecoratedParents, OnUpdate old cur) = decorator_updateParent (deKube X) c (WObject old) (WObject cur)"
| "decorator_event X c (DecoratedParents, OnDelete x) = decorator_enqueue (deKube X) c (WObject x)"
| "decorator_event X c (DecoratedChildren, OnAdd x) = decorator_onChildAdd X c x"
| "decorator_event X c (DecoratedChildren, OnUpdate old cur) = decorator_onChildUpdate X c old cur"
| "decorator_event X c (DecoratedChildren, OnDelete x) = decorator_onChildDelete X c (DObject x)"

section \<open>Children\<close>

text \<open>A key that a map of strings does not have reads as the empty string.\<close>

definition str_at :: "strmap option \<Rightarrow> string \<Rightarrow> string" where
  "str_at m k = (case map_of (mrange m) k of None \<Rightarrow> '''' | Some v \<Rightarrow> v)"

definition is_child_of :: "kube \<Rightarrow> decorator \<Rightarrow> obj \<Rightarrow> obj \<Rightarrow> bool" where
  "is_child_of K c parent x =
     (case GetControllerOf K x of
        None \<Rightarrow> False
      | Some ref \<Rightarrow> orUID ref = GetUID K parent \<and>
          str_at (GetAnnotations K x) decoratorControllerAnnotation = dsName (dcSchema c))"

fun children_of_kinds ::
  "'s denv \<Rightarrow> decorator \<Rightarrow> obj \<Rightarrow> decorator_attachment list \<Rightarrow> registry \<Rightarrow> registry res" where
  "children_of_kinds X c parent [] childMap = Inr childMap"
| "children_of_kinds X c parent (child # attachments) childMap =
     (let K = deKube X; ns = GetNamespace K parent; av = daAPIVersion child; r = daResource child in
      case ResourceInformerRegistrar_Get (dcChildInformers c) av r of
        None \<Rightarrow> Inl (Msg (''no informer for child resource '' @ quoted r @ '' in apiVersion '' @ quoted av))
      | Some ri \<Rightarrow>
     (let l = Lister (deCaches X) (deFactory X) ri in
      case (if ns \<noteq> '''' then Lister_ListNamespace l ns everything else Lister_List l everything) of
        Inl err \<Rightarrow> Inl (wrapf (''can't list children for resource '' @ quoted r @ '' in apiVersion '' @ quoted av) err)
      | Inr all \<Rightarrow>
     (case GetAPIForAPIVersionAndResource (csDiscovery (deClients X)) av r of
        None \<Rightarrow> Inl (Msg (''can't find resource '' @ quoted r @ '' in apiVersion '' @ quoted av))
      | Some resource \<Rightarrow>
          children_of_kinds X c parent attachments
            (fold (InsertByReference K parent) (filter (is_child_of K c parent) all) (Init av (rKind resource) childMap)))))"

definition getChildren :: "'s denv \<Rightarrow> decorator \<Rightarrow> obj \<Rightarrow> registry res" where
  "getChildren X c parent = children_of_kinds X c parent (dsAttachments (dcSchema c)) []"

text \<open>Every desired child is marked with the name of the controller; a nil child panics.\<close>

definition mark_child :: "kube \<Rightarrow> string \<Rightarrow> obj \<Rightarrow> obj" where
  "mark_child K name child =
     (let ann = GetAnnotations K child in
      if str_at ann decoratorControllerAnnotation = name then child
      else SetAnnotations K child (mput decoratorControllerAnnotation name (mrange ann)))"

fun mark_group :: "kube \<Rightarrow> string \<Rightarrow> obj option gomap \<Rightarrow> obj option gomap res" where
  "mark_group K name [] = Inr []"
| "mark_group K name ((n, None) # children) = Inl nil_deref"
| "mark_group K name ((n, Some child) # children) =
     (case mark_group K name children of
        Inl p \<Rightarrow> Inl p
      | Inr children' \<Rightarrow> Inr ((n, Some (mark_child K name child)) # children'))"

fun mark_children :: "kube \<Rightarrow> string \<Rightarrow> registry \<Rightarrow> registry res" where
  "mark_children K name [] = Inr []"
| "mark_children K name ((key, children) # m) =
     (case mark_group K name children of
        Inl p \<Rightarrow> Inl p
      | Inr children' \<Rightarrow>
          (case mark_children K name m of Inl p \<Rightarrow> Inl p | Inr m' \<Rightarrow> Inr ((key, children') # m')))"

section \<open>Reconciling a parent\<close>

definition decorator_updateStringMap :: "strmap \<Rightarrow> string option gomap \<Rightarrow> strmap \<times> bool" where
  "decorator_updateStringMap dest updates = update_entries updates (dest, False)"

definition parent_text :: "kube \<Rightarrow> obj \<Rightarrow> string" where
  "parent_text K parent = GetKind K parent @ '' '' @ GetNamespace K parent @ ''/'' @ GetName K parent"

definition decorator_answer :: "decorator_response \<Rightarrow> answer" where
  "decorator_answer resp = \<lparr>anLabels = dpLabels resp, anAnnotations = dpAnnotations resp, anStatus = dpStatus resp,
     anFinalized = dpFinalized resp\<rparr>"

definition update_parent ::
  "'s denv \<Rightarrow> decorator \<Rightarrow> resource_client \<Rightarrow> obj \<Rightarrow> decorator_response \<Rightarrow> 's world \<Rightarrow> gerr option \<times> 's world" where
  "update_parent X c client parent resp w =
     update_object (deDyn X) (wrapf (''can't update '' @ parent_text (deKube X) parent)) (errorf ''can't update status: '')
       (dcFinalizer c) client parent (decorator_answer resp) w"

definition manage_decorated ::
  "'s denv \<Rightarrow> decorator \<Rightarrow> obj \<Rightarrow> registry \<Rightarrow> registry \<Rightarrow> 's world \<Rightarrow> gerr option \<times> 's world" where
  "manage_decorated X c parent observed desired w =
     (let K = deKube X in
      if GetDeletionTimestamp K parent = None \<or> ShouldFinalize K (dcFinalizer c) parent
      then (case ManageChildren (deDyn X) (deClients X) (decorator_strategy_Get (dcUpdateStrategy c)) parent
                   observed desired w of
              (Inl p, w') \<Rightarrow> (Some p, w')
            | (Inr None, w') \<Rightarrow> (None, w')
            | (Inr (Some err), w') \<Rightarrow>
                (Some (wrapf (''can't reconcile children for '' @ parent_text K parent) err), w'))
      else (None, w))"

text \<open>The part of a pass after the response of the hook.\<close>

definition apply_decoration ::
  "'s denv \<Rightarrow> decorator \<Rightarrow> resource_client \<Rightarrow> obj \<Rightarrow> registry \<Rightarrow> decorator_response \<Rightarrow>
   's world qworld \<Rightarrow> gerr option \<times> 's world qworld" where
  "apply_decoration X c client parent observed resp Q =
     (let K = deKube X;
          desired0 = MakeAnyUnstructRegistryByReference K parent (dpAttachments resp);
          Q1 = enqueue (if dpResyncAfterSeconds resp > 0
            then decorator_enqueueAfter K (WObject parent) (resync_delay (dpResyncAfterSeconds resp)) else []) Q in
      case update_parent X c client parent resp (qwWorld Q1) of
        (Some err, w) \<Rightarrow> (Some err, Q1\<lparr>qwWorld := w\<rparr>)
      | (None, w) \<Rightarrow>
     (case mark_children K (dsName (dcSchema c)) desired0 of
        Inl p \<Rightarrow> (Some p, Q1\<lparr>qwWorld := w\<rparr>)
      | Inr desired \<Rightarrow>
          (case manage_decorated X c parent observed desired w of
             (err, w') \<Rightarrow> (err, Q1\<lparr>qwWorld := w'\<rparr>))))"

definition sync_decorated ::
  "'s denv \<Rightarrow> decorator \<Rightarrow> resource_client \<Rightarrow> obj \<Rightarrow> 's world qworld \<Rightarrow> gerr option \<times> 's world qworld" where
  "sync_decorated X c client parent Q =
     (case getChildren X c parent of
        Inl err \<Rightarrow> (Some err, Q)
      | Inr observed \<Rightarrow>
     (case decorator_callSyncHook X c \<lparr>dqController = dcSchema c, dqObject = parent, dqAttachments = observed,
             dqFinalizing = False\<rparr> of
        Inl err \<Rightarrow> (Some err, Q)
      | Inr resp \<Rightarrow> apply_decoration X c client parent observed resp Q))"

definition decorator_syncParent ::
  "'s denv \<Rightarrow> decorator \<Rightarrow> obj \<Rightarrow> 's world qworld \<Rightarrow> gerr option \<times> 's world qworld" where
  "decorator_syncParent X c parent0 Q =
     (let K = deKube X; cs = deClients X in
      if \<not> decorates K c parent0 then (None, Q)
      else (case GetClientForAPIVersionAndKind (csParse cs) (csDiscovery cs) (GetAPIVersion K parent0) (GetKind K parent0) of
              Inl err \<Rightarrow> (Some (wrapf (''can't get client for parent resource '' @ parent_text K parent0) err), Q)
            | Inr client \<Rightarrow>
           (case SyncObject (deDyn X) (dcFinalizer c) client parent0 (qwWorld Q) of
              (Inl err, w) \<Rightarrow> (Some (wrapf (''can't sync finalizer for '' @ parent_text K parent0) err), Q\<lparr>qwWorld := w\<rparr>)
            | (Inr None, w) \<Rightarrow> (Some nil_deref, Q\<lparr>qwWorld := w\<rparr>)
            | (Inr (Some parent), w) \<Rightarrow>
                if \<not> decorates K c parent then (None, Q\<lparr>qwWorld := w\<rparr>)
                else sync_decorated X c client parent (Q\<lparr>qwWorld := w\<rparr>))))"

definition decorator_sync ::
  "'s denv \<Rightarrow> decorator \<Rightarrow> string \<Rightarrow> 's world qworld \<Rightarrow> gerr option \<times> 's world qworld" where
  "decorator_sync X c key Q =
     (case splitParentQueueKey key of
        Inl err \<Rightarrow> (Some err, Q)
      | Inr (apiVersion, kind, namespace, name) \<Rightarrow>
     (case GetAPIForAPIVersionAndKind (csDiscovery (deClients X)) apiVersion kind of
        None \<Rightarrow> (Some (Msg (''can't find kind '' @ quoted kind @ '' in apiVersion '' @ quoted apiVersion)), Q)
      | Some resource \<Rightarrow>
     (case ResourceInformerRegistrar_Get (dcParentInformers c) apiVersion (rName resource) of
        None \<Rightarrow> (Some (Msg (''no informer for parent resource '' @ quoted (rName resource) @ '' in apiVersion '' @
                 quoted apiVersion)), Q)
      | Some informer \<Rightarrow>
     (case Lister_Get (Lister (deCaches X) (deFactory X) informer) namespace name of
        Inl err \<Rightarrow> if IsNotFound err then (None, Q) else (Some err, Q)
      | Inr parent \<Rightarrow> decorator_syncParent X c parent Q))))"

definition decorator_processNextWorkItem ::
  "'s denv \<Rightarrow> decorator \<Rightarrow> string option \<Rightarrow> 's world qworld \<Rightarrow> bool res \<times> 's world qworld" where
  "decorator_processNextWorkItem X c item Q = work_item (decorator_sync X c) item Q"

definition decorator_worker ::
  "'s denv \<Rightarrow> decorator \<Rightarrow> string option list \<Rightarrow> 's world qworld \<Rightarrow> unit res \<times> 's world qworld" where
  "decorator_worker X c items Q = work (decorator_processNextWorkItem X c) items Q"

end
