(* ===== verification/Meta.thy ===== *)
theory Meta
  imports MetaLoop Config Composite Decorator
begin

text \<open>
  The meta-controllers: \<open>controller/generic/metacontroller.go\<close>, in its two forms that take their
  configurations from files or from the cluster, \<open>controller/composite/metacontroller.go\<close> and
  \<open>controller/decorator/metacontroller.go\<close>. Listers, the key functions of client-go and the
  semantic equality of specifications are parameters. Logging, the wait for caches and
  goroutines are left out.
\<close>

section \<open>What the meta-controllers take from outside\<close>

text \<open>
  \<open>meKeyFunc\<close> is the key of an object of an event, which may be a tombstone; \<open>meList\<close> finds a
  configuration by namespace and name; \<open>meSame\<close> is the semantic equality of the specifications of
  two configurations.
\<close>

record 'cfg meta_env =
  meKeyFunc :: "'cfg \<Rightarrow> string res"
  meSplitKey :: "string \<Rightarrow> (string \<times> string) res"
  meList :: "string \<Rightarrow> string \<Rightarrow> 'cfg res"
  meSame :: "'cfg \<Rightarrow> 'cfg \<Rightarrow> bool"

text \<open>The queue of a meta-controller and the team of its controllers.\<close>

type_synonym ('c, 'h) meta_state = "('c, 'h) team qworld"

definition meta_enqueue :: "'cfg meta_env \<Rightarrow> 'cfg \<Rightarrow> queue_op list" where
  "meta_enqueue X cfg = (case meKeyFunc X cfg of Inl err \<Rightarrow> [] | Inr key \<Rightarrow> [QAdd key])"

definition meta_update :: "'cfg meta_env \<Rightarrow> 'cfg \<Rightarrow> 'cfg \<Rightarrow> queue_op list" where
  "meta_update X old cur = meta_enqueue X cur"

text \<open>The handlers of the informer of the configurations.\<close>

datatype 'cfg meta_event = ConfigAdded 'cfg | ConfigUpdated 'cfg 'cfg | ConfigDeleted 'cfg

fun meta_handle :: "'cfg meta_env \<Rightarrow> 'cfg meta_event \<Rightarrow> queue_op list" where
  "meta_handle X (ConfigAdded cfg) = meta_enqueue X cfg"
| "meta_handle X (ConfigUpdated old cur) = meta_update X old cur"
| "meta_handle X (ConfigDeleted cfg) = meta_enqueue X cfg"

definition on_team :: "(('c, 'h) team \<Rightarrow> 'r \<times> ('c, 'h) team) \<Rightarrow> ('c, 'h) meta_state \<Rightarrow> 'r \<times> ('c, 'h) meta_state" where
  "on_team f Q = (case f (qwWorld Q) of (r, T) \<Rightarrow> (r, Q\<lparr>qwWorld := T\<rparr>))"

section \<open>Generic controllers of the cluster\<close>

definition generic_managed ::
  "(watch_handler \<Rightarrow> 'h) \<Rightarrow> 'a selector_lib_scheme \<Rightarrow> clientset \<Rightarrow> (nat \<Rightarrow> indexer) \<Rightarrow> (generic_controller \<Rightarrow> generic_controller \<Rightarrow> bool) \<Rightarrow>
   (generic_controller, watch_controller, 'h) managed" where
  "generic_managed tag L cs caches same = \<lparr>mdKey = AsNamespaceNameKey, mdNew = NewWatchController L cs,
     mdStart = watch_Start_handlers tag caches, mdStop = watch_Stop, mdConfig = wcConfig, mdSame = same\<rparr>"

abbreviation crd_managed ::
  "(watch_handler \<Rightarrow> 'h) \<Rightarrow> 'a selector_lib_scheme \<Rightarrow> clientset \<Rightarrow> (nat \<Rightarrow> indexer) \<Rightarrow> generic_controller meta_env \<Rightarrow>
   (generic_controller, watch_controller, 'h) managed" where
  "crd_managed tag L cs caches X \<equiv> generic_managed tag L cs caches (meSame X)"

definition syncGenericController ::
  "(watch_handler \<Rightarrow> 'h) \<Rightarrow> 'a selector_lib_scheme \<Rightarrow> clientset \<Rightarrow> (nat \<Rightarrow> indexer) \<Rightarrow> generic_controller meta_env \<Rightarrow> generic_controller \<Rightarrow>
   (watch_controller, 'h) team \<Rightarrow> gerr option \<times> (watch_controller, 'h) team" where
  "syncGenericController tag L cs caches X gctl T = sync_controller (crd_managed tag L cs caches X) gctl T"

definition crd_sync ::
  "(watch_handler \<Rightarrow> 'h) \<Rightarrow> 'a selector_lib_scheme \<Rightarrow> clientset \<Rightarrow> (nat \<Rightarrow> indexer) \<Rightarrow> generic_controller meta_env \<Rightarrow> string \<Rightarrow>
   (watch_controller, 'h) team \<Rightarrow> gerr option \<times> (watch_controller, 'h) team" where
  "crd_sync tag L cs caches X key T =
     (case meSplitKey X key of
        Inl err \<Rightarrow> (Some err, T)
      | Inr (ns, name) \<Rightarrow> sync_listed (crd_managed tag L cs caches X) key (meList X ns name) T)"

definition crd_processNextWorkItem ::
  "(watch_handler \<Rightarrow> 'h) \<Rightarrow> 'a selector_lib_scheme \<Rightarrow> clientset \<Rightarrow> (nat \<Rightarrow> indexer) \<Rightarrow> generic_controller meta_env \<Rightarrow> string option \<Rightarrow>
   (watch_controller, 'h) meta_state \<Rightarrow> bool res \<times> (watch_controller, 'h) meta_state" where
  "crd_processNextWorkItem tag L cs caches X item Q = work_item (\<lambda>key. on_team (crd_sync tag L cs caches X key)) item Q"

definition crd_Stop ::
  "(watch_handler \<Rightarrow> 'h) \<Rightarrow> 'a selector_lib_scheme \<Rightarrow> clientset \<Rightarrow> (nat \<Rightarrow> indexer) \<Rightarrow> generic_controller meta_env \<Rightarrow>
   channel \<times> (watch_controller, 'h) team \<Rightarrow> (channel \<times> (watch_controller, 'h) team) res" where
  "crd_Stop tag L cs caches X s = stop_meta (crd_managed tag L cs caches X) s"

section \<open>Generic controllers of configuration files\<close>

text \<open>Durations are in nanoseconds. The error of the controller is a field of its own.\<close>

record config_meta =
  cmTeam :: "(watch_controller, watch_handler) team"
  ConfigPath :: string
  ConfigLoadFn :: "generic_controller list res option"
  Configs :: "generic_controller list"
  RetryIndefinitelyUntilSucceed :: "bool option"
  WaitTimeoutForStartAttempt :: int
  WaitIntervalBetweenRestarts :: int
  cmErr :: "gerr option"

type_synonym config_option = "config_meta \<Rightarrow> gerr option \<times> config_meta"

definition SetMetacConfigToRetryIndefinitelyForStart :: "bool option \<Rightarrow> config_option" where
  "SetMetacConfigToRetryIndefinitelyForStart enabled mc =
     (if enabled \<noteq> Some True then (None, mc)
      else (None, mc\<lparr>WaitIntervalBetweenRestarts := 60 * second, RetryIndefinitelyUntilSucceed := Some True\<rparr>))"

definition SetMetacConfigLoadFn :: "generic_controller list res option \<Rightarrow> config_option" where
  "SetMetacConfigLoadFn fn mc = (None, mc\<lparr>ConfigLoadFn := fn\<rparr>)"

definition SetMetacConfigPath :: "string \<Rightarrow> config_option" where
  "SetMetacConfigPath path mc = (None, mc\<lparr>ConfigPath := path\<rparr>)"

fun runOptions :: "config_option list \<Rightarrow> config_meta \<Rightarrow> config_meta" where
  "runOptions [] mc = mc"
| "runOptions (opt # opts) mc =
     (case opt mc of
        (Some err, mc') \<Rightarrow> mc'\<lparr>cmErr := Some err\<rparr>
      | (None, mc') \<Rightarrow> runOptions opts mc')"

text \<open>\<open>load\<close> loads the generic controllers of a path.\<close>

definition loadConfigsByPath ::
  "config_fs \<Rightarrow> yaml_lib \<Rightarrow> kube \<Rightarrow> (obj \<Rightarrow> generic_controller res) \<Rightarrow> string \<Rightarrow> generic_controller list res" where
  "loadConfigsByPath D Y K decode path =
     (case config_Load D Y path of Inl err \<Rightarrow> Inl err | Inr us \<Rightarrow> ListGenericControllers K decode us)"

definition loadConfigs :: "(string \<Rightarrow> generic_controller list res) \<Rightarrow> config_meta \<Rightarrow> config_meta" where
  "loadConfigs load mc =
     (let loaded = (\<lambda>r. case r of
            Inl err \<Rightarrow> mc\<lparr>Configs := [], cmErr := Some err\<rparr>
          | Inr configs \<Rightarrow> mc\<lparr>Configs := configs, cmErr := None\<rparr>)
      in if ConfigPath mc \<noteq> '''' then loaded (load (ConfigPath mc))
         else (case ConfigLoadFn mc of
                 None \<Rightarrow> mc\<lparr>cmErr := Some (Msg ''Can't load config: Either ConfigPath or ConfigLoadFn is required'')\<rparr>
               | Some r \<Rightarrow> loaded r))"

definition local_name :: string where
  "local_name = ''Local GenericController''"

fun find_duplicate :: "generic_controller list \<Rightarrow> string list \<Rightarrow> string option" where
  "find_duplicate [] seen = None"
| "find_duplicate (conf # configs) seen =
     (let key = AsNamespaceNameKey conf in if key \<in> set seen then Some key else find_duplicate configs (key # seen))"

definition isDuplicateConfig :: "config_meta \<Rightarrow> config_meta" where
  "isDuplicateConfig mc =
     (case find_duplicate (Configs mc) [] of
        None \<Rightarrow> mc
      | Some key \<Rightarrow> mc\<lparr>cmErr := Some (Msg (''Duplicate '' @ key @ '' was found: '' @ local_name))\<rparr>)"

text \<open>The first step that leaves an error ends the construction.\<close>

fun run_steps :: "(config_meta \<Rightarrow> config_meta) list \<Rightarrow> config_meta \<Rightarrow> config_meta res" where
  "run_steps [] mc = Inr mc"
| "run_steps (step # steps) mc =
     (let mc' = step mc in case cmErr mc' of Some err \<Rightarrow> Inl err | None \<Rightarrow> run_steps steps mc')"

definition NewConfigMetaController ::
  "(string \<Rightarrow> generic_controller list res) \<Rightarrow> watch_handler factory \<Rightarrow> config_option list \<Rightarrow> config_meta res" where
  "NewConfigMetaController load F opts =
     run_steps [runOptions opts, loadConfigs load, isDuplicateConfig]
       \<lparr>cmTeam = new_team F, ConfigPath = '''', ConfigLoadFn = None, Configs = [],
        RetryIndefinitelyUntilSucceed = None, WaitTimeoutForStartAttempt = 30 * 60 * second,
        WaitIntervalBetweenRestarts = second, cmErr = None\<rparr>"

text \<open>The options the server gives (\<open>server/server.go\<close>, \<open>ConfigServer.Start\<close>).\<close>

definition configOpts :: "generic_controller list res option \<Rightarrow> string \<Rightarrow> bool option \<Rightarrow> config_option list" where
  "configOpts fn path enabled =
     [SetMetacConfigLoadFn fn, SetMetacConfigPath path, SetMetacConfigToRetryIndefinitelyForStart enabled]"

text \<open>
  The loop of \<open>startWithRetries\<close>, with the time that has passed since its start. \<open>took\<close> is the time a
  round takes, from the state it leaves; it is the clock that the code reads. A panic ends the loop.
  The text of the error leaves out the duration.
\<close>

definition timed_out :: "config_meta \<Rightarrow> int \<Rightarrow> bool" where
  "timed_out mc now =
     (now > WaitTimeoutForStartAttempt mc \<and>
      (RetryIndefinitelyUntilSucceed mc = None \<or> RetryIndefinitelyUntilSucceed mc = Some False))"

definition timeout_error :: "bool res \<Rightarrow> gerr" where
  "timeout_error r = Msg (''Condition timed out: '' @ (case r of Inl err \<Rightarrow> err_text err | Inr d \<Rightarrow> ''<nil>'') @ '': '' @ local_name)"

partial_function (option) startWithRetries ::
  "config_meta \<Rightarrow> ('s \<Rightarrow> int) \<Rightarrow> ('s \<Rightarrow> bool res \<times> 's) \<Rightarrow> int \<Rightarrow> 's \<Rightarrow> (gerr option \<times> 's) option" where
  "startWithRetries mc took condition elapsed s =
     (case condition s of (r, s') \<Rightarrow>
      (let now = elapsed + took s' in
       if r = Inr True then Some (None, s')
       else if (case r of Inl err \<Rightarrow> is_panic err | Inr d \<Rightarrow> False) then Some (Some (projl r), s')
       else if timed_out mc now then Some (Some (timeout_error r), s')
       else startWithRetries mc took condition (now + WaitIntervalBetweenRestarts mc) s'))"

text \<open>One round: every configuration that does not have a controller yet gets one.\<close>

fun start_missing ::
  "(generic_controller, 'c, 'h) managed \<Rightarrow> generic_controller list \<Rightarrow> string list \<Rightarrow> ('c, 'h) team \<Rightarrow>
   string list res \<times> ('c, 'h) team" where
  "start_missing M [] errs T = (Inr errs, T)"
| "start_missing M (conf # configs) errs T =
     (let key = AsNamespaceNameKey conf in
      if map_of (tmControllers T) key \<noteq> None then start_missing M configs errs T
      else (case add_controller M conf T of
              (None, T') \<Rightarrow> start_missing M configs errs T'
            | (Some err, T') \<Rightarrow>
                if is_panic err then (Inl err, T')
                else start_missing M configs (errs @ [''Failed to init gctl '' @ key @ '': '' @ err_text err]) T'))"

definition startAllWatchControllers ::
  "(generic_controller, 'c, 'h) managed \<Rightarrow> generic_controller list \<Rightarrow> ('c, 'h) team \<Rightarrow> bool res \<times> ('c, 'h) team" where
  "startAllWatchControllers M configs T =
     (case start_missing M configs [] T of
        (Inl p, T') \<Rightarrow> (Inl p, T')
      | (Inr errs, T') \<Rightarrow>
          if errs = [] then (Inr True, T')
          else (Inl (Msg (''Failed to start all gctl controllers: '' @ show_nat (length errs) @ '' errors found: '' @
                  join '': '' errs @ '': '' @ local_name)), T'))"

text \<open>
  \<open>Start\<close> does not end if its retries do not; an error of theirs is fatal. \<open>Stop\<close> waits for
  the end of \<open>Start\<close> and then stops the controllers: \<open>None\<close> is a \<open>Stop\<close> that never returns.
\<close>

definition config_Start ::
  "(generic_controller, watch_controller, watch_handler) managed \<Rightarrow> ((watch_controller, watch_handler) team \<Rightarrow> int) \<Rightarrow>
   config_meta \<Rightarrow> (gerr option \<times> config_meta) option" where
  "config_Start M took mc =
     (case startWithRetries mc took (startAllWatchControllers M (Configs mc)) 0 (cmTeam mc) of
        None \<Rightarrow> None
      | Some (err, T) \<Rightarrow> Some (err, mc\<lparr>cmTeam := T\<rparr>))"

definition config_Stop ::
  "(generic_controller, watch_controller, watch_handler) managed \<Rightarrow> (gerr option \<times> config_meta) option \<Rightarrow>
   config_meta res option" where
  "config_Stop M started =
     (case started of
        None \<Rightarrow> None
      | Some (Some err, mc) \<Rightarrow> Some (Inl err)
      | Some (None, mc) \<Rightarrow>
          (case stop_all M (cmTeam mc) of
             Inl p \<Rightarrow> Some (Inl p)
           | Inr T \<Rightarrow> Some (Inr (mc\<lparr>cmTeam := T\<rparr>))))"

section \<open>Composite controllers\<close>

text \<open>A composite controller is kept with the configuration it was made from.\<close>

definition composite_managed ::
  "(cc_handler \<Rightarrow> 'h) \<Rightarrow> clientset \<Rightarrow> (nat \<Rightarrow> indexer) \<Rightarrow> composite_spec meta_env \<Rightarrow> (composite_spec, composite_spec \<times> parent_controller, 'h) managed" where
  "composite_managed tag cs caches X = \<lparr>mdKey = \<lambda>api. ccName (csComposite api),
     mdNew = \<lambda>api F. (case newParentController cs api F of (r, F') \<Rightarrow> (map_sum id (Pair api) r, F')),
     mdStart = \<lambda>(api, pc). Start_handlers tag caches pc, mdStop = \<lambda>(api, pc). parent_Stop pc, mdConfig = fst, mdSame = meSame X\<rparr>"

definition syncCompositeController ::
  "(cc_handler \<Rightarrow> 'h) \<Rightarrow> clientset \<Rightarrow> (nat \<Rightarrow> indexer) \<Rightarrow> composite_spec meta_env \<Rightarrow> composite_spec \<Rightarrow>
   (composite_spec \<times> parent_controller, 'h) team \<Rightarrow> gerr option \<times> (composite_spec \<times> parent_controller, 'h) team" where
  "syncCompositeController tag cs caches X api T = sync_controller (composite_managed tag cs caches X) api T"

definition composite_sync ::
  "(cc_handler \<Rightarrow> 'h) \<Rightarrow> clientset \<Rightarrow> (nat \<Rightarrow> indexer) \<Rightarrow> composite_spec meta_env \<Rightarrow> string \<Rightarrow>
   (composite_spec \<times> parent_controller, 'h) team \<Rightarrow> gerr option \<times> (composite_spec \<times> parent_controller, 'h) team" where
  "composite_sync tag cs caches X key T =
     (case meSplitKey X key of
        Inl err \<Rightarrow> (Some err, T)
      | Inr (ns, name) \<Rightarrow> sync_listed (composite_managed tag cs caches X) name (meList X '''' name) T)"

definition composite_meta_item ::
  "(cc_handler \<Rightarrow> 'h) \<Rightarrow> clientset \<Rightarrow> (nat \<Rightarrow> indexer) \<Rightarrow> composite_spec meta_env \<Rightarrow> string option \<Rightarrow>
   (composite_spec \<times> parent_controller, 'h) meta_state \<Rightarrow>
   bool res \<times> (composite_spec \<times> parent_controller, 'h) meta_state" where
  "composite_meta_item tag cs caches X item Q = work_item (\<lambda>key. on_team (composite_sync tag cs caches X key)) item Q"

definition composite_meta_Stop ::
  "(cc_handler \<Rightarrow> 'h) \<Rightarrow> clientset \<Rightarrow> (nat \<Rightarrow> indexer) \<Rightarrow> composite_spec meta_env \<Rightarrow>
   channel \<times> (composite_spec \<times> parent_controller, 'h) team \<Rightarrow>
   (channel \<times> (composite_spec \<times> parent_controller, 'h) team) res" where
  "composite_meta_Stop tag cs caches X s = stop_meta (composite_managed tag cs caches X) s"

section \<open>Decorator controllers\<close>

definition decorator_managed ::
  "(dc_handler \<Rightarrow> 'h) \<Rightarrow> 'a label_lib_scheme \<Rightarrow> clientset \<Rightarrow> (nat \<Rightarrow> indexer) \<Rightarrow> decorator_schema meta_env \<Rightarrow>
   (decorator_schema, decorator, 'h) managed" where
  "decorator_managed tag L cs caches X = \<lparr>mdKey = dsName, mdNew = newDecoratorController L cs,
     mdStart = decorator_Start_handlers tag caches, mdStop = decorator_Stop, mdConfig = dcSchema, mdSame = meSame X\<rparr>"

definition syncDecoratorController ::
  "(dc_handler \<Rightarrow> 'h) \<Rightarrow> 'a label_lib_scheme \<Rightarrow> clientset \<Rightarrow> (nat \<Rightarrow> indexer) \<Rightarrow> decorator_schema meta_env \<Rightarrow> decorator_schema \<Rightarrow>
   (decorator, 'h) team \<Rightarrow> gerr option \<times> (decorator, 'h) team" where
  "syncDecoratorController tag L cs caches X dc T = sync_controller (decorator_managed tag L cs caches X) dc T"

definition decorator_meta_sync ::
  "(dc_handler \<Rightarrow> 'h) \<Rightarrow> 'a label_lib_scheme \<Rightarrow> clientset \<Rightarrow> (nat \<Rightarrow> indexer) \<Rightarrow> decorator_schema meta_env \<Rightarrow> string \<Rightarrow>
   (decorator, 'h) team \<Rightarrow> gerr option \<times> (decorator, 'h) team" where
  "decorator_meta_sync tag L cs caches X key T =
     (case meSplitKey X key of
        Inl err \<Rightarrow> (Some err, T)
      | Inr (ns, name) \<Rightarrow> sync_listed (decorator_managed tag L cs caches X) name (meList X '''' name) T)"

definition decorator_meta_item ::
  "(dc_handler \<Rightarrow> 'h) \<Rightarrow> 'a label_lib_scheme \<Rightarrow> clientset \<Rightarrow> (nat \<Rightarrow> indexer) \<Rightarrow> decorator_schema meta_env \<Rightarrow> string option \<Rightarrow>
   (decorator, 'h) meta_state \<Rightarrow> bool res \<times> (decorator, 'h) meta_state" where
  "decorator_meta_item tag L cs caches X item Q = work_item (\<lambda>key. on_team (decorator_meta_sync tag L cs caches X key)) item Q"

definition decorator_meta_Stop ::
  "(dc_handler \<Rightarrow> 'h) \<Rightarrow> 'a label_lib_scheme \<Rightarrow> clientset \<Rightarrow> (nat \<Rightarrow> indexer) \<Rightarrow> decorator_schema meta_env \<Rightarrow>
   channel \<times> (decorator, 'h) team \<Rightarrow> (channel \<times> (decorator, 'h) team) res" where
  "decorator_meta_Stop tag L cs caches X s = stop_meta (decorator_managed tag L cs caches X) s"

end
