(* ===== verification/WatchPlan.thy ===== *)
theory WatchPlan
  imports WatchController StatesPlan
begin

text \<open>
  What a generic controller does: its queue keys and what becomes of those it cannot read, the
  update of labels, annotations and status, the agreement of its two strategy tables, the
  attachments it observes, the requests of a pass, and the informers it subscribes to.
\<close>

section \<open>Queue keys\<close>

lemma splitWatchQueueKey_iff:
  "splitWatchQueueKey key = Inr (av, kind, ns, n) \<longleftrightarrow>
   key = av @ '':'' @ kind @ '':'' @ ns @ '':'' @ n \<and>
   CHR '':'' \<notin> set av \<and> CHR '':'' \<notin> set kind \<and> CHR '':'' \<notin> set ns"
  unfolding splitWatchQueueKey_def by (rule split_key_iff)

text \<open>
  A queue key is read back as what it was made of. A key gives four parts exactly if it
  is those parts joined with colons and only the name holds further ones; so the key of a
  watch whose API version, kind and namespace hold none identifies it among such watches,
  whatever its name is.
\<close>
theorem watch_keys_round_trip:
  "(splitWatchQueueKey key = Inr (av, kind, ns, n) \<longleftrightarrow>
      key = av @ '':'' @ kind @ '':'' @ ns @ '':'' @ n \<and>
      CHR '':'' \<notin> set av \<and> CHR '':'' \<notin> set kind \<and> CHR '':'' \<notin> set ns) \<and>
   (\<exists>k. makeWatchQueueKey K (WObject x) = Inr k \<and>
      (splitWatchQueueKey k = Inr (GetAPIVersion K x, GetKind K x, GetNamespace K x, GetName K x) \<longleftrightarrow>
       CHR '':'' \<notin> set (GetAPIVersion K x @ GetKind K x @ GetNamespace K x)))"
  by (simp add: splitWatchQueueKey_iff makeWatchQueueKey_def queue_key_def)

text \<open>
  C39: A watch that was deleted while its informer was cut off is never finalized. Its event
  is a tombstone, whose key is made of namespace and name only. \<open>enqueueWatch\<close> queues that
  key as it is; as long as it has fewer than three colons no pass can read it, and every
  time the queue hands it out it is put back under the rate limit.
\<close>
theorem tombstones_are_retried:
  assumes "length (filter (\<lambda>c. c = CHR '':'') key) < 3"
  shows "enqueueWatch K mgr (WTombstone key) = Inr [QAdd key] \<and>
    watch_worker X mgr (replicate n (Some key)) Q =
      (Inr (), enqueue (concat (replicate n [QAddRateLimited key, QDone key])) Q)"
proof -
  have "length (splitN CHR '':'' (Suc 3) key) < 4" using splitN_few [OF assms] assms by linarith
  then have "\<nexists>p0 p1 p2 p3. splitN CHR '':'' 4 key = [p0, p1, p2, p3]" by auto
  then have "\<exists>err. splitWatchQueueKey key = Inl (Msg err)"
    by (auto simp: splitWatchQueueKey_def split_key_def split: list.splits)
  then obtain err where "syncWatch X mgr key Q = (Some (Msg err), Q)" for Q
    unfolding syncWatch_def by auto
  then have "watch_processNextWorkItem X mgr (Some key) Q =
      (Inr True, enqueue [QAddRateLimited key, QDone key] Q)" for Q
    by (simp add: watch_processNextWorkItem_def work_item_def)
  then have "watch_worker X mgr (replicate n (Some key)) Q =
      (Inr (), enqueue (concat (replicate n [QAddRateLimited key, QDone key])) Q)"
    by (induction n arbitrary: Q) (simp_all add: watch_worker_def enqueue_def)
  then show ?thesis by (simp add: enqueueWatch_def makeWatchQueueKey_def queue_key_def)
qed

section \<open>Labels, annotations and status\<close>

text \<open>
  \<open>updateStringMap\<close> gives each key the value the updates have for it, deletes those whose
  update is nil and leaves the others alone; it reports a change exactly if the map is another
  one afterwards, whatever the order in which the updates are visited.
\<close>
theorem updateStringMap_updates:
  assumes "distinct (mkeys updates)" and "updateStringMap dest updates = (dest', changed)"
  shows "case dest of
      None \<Rightarrow> dest' = None \<and> \<not> changed
    | Some m \<Rightarrow> \<exists>m'. dest' = Some m' \<and> changed = (map_of m' \<noteq> map_of m) \<and>
        (\<forall>k. map_of m' k = (case map_of updates k of None \<Rightarrow> map_of m k | Some v \<Rightarrow> v))"
proof (cases dest)
  case (Some m)
  obtain m' c where run: "update_entries updates (m, False) = (m', c)" by fastforce
  from update_entries_map [OF this assms(1)] have "map_of m' = updated_map m updates"
    "c = (map_of m' \<noteq> map_of m)" by simp_all
  moreover from this(1) have "map_of m' k = (case map_of updates k of None \<Rightarrow> map_of m k | Some v \<Rightarrow> v)" for k
    by (simp add: updated_map_def)
  moreover have "dest' = Some m'" "changed = c" using assms(2) Some run by (simp_all add: updateStringMap_def)
  ultimately show ?thesis using Some by simp
qed (use assms(2) in \<open>simp add: updateStringMap_def\<close>)

lemma updateStringMap_updates_witness:
  "\<exists>m'. updateStringMap (Some [(''a'', ''1''), (''b'', ''2'')]) [(''a'', None), (''c'', Some ''3'')] = (Some m', True) \<and>
    map_of m' ''a'' = None \<and> map_of m' ''b'' = Some ''2''"
proof -
  obtain d' c where run: "updateStringMap (Some [(''a'', ''1''), (''b'', ''2'')]) [(''a'', None), (''c'', Some ''3'')] = (d', c)"
    by fastforce
  have "distinct (mkeys [(''a'', None :: string option), (''c'', Some ''3'')])" by simp
  from updateStringMap_updates [OF this run] obtain m' where m': "d' = Some m'"
    "c = (map_of m' \<noteq> map_of [(''a'', ''1''), (''b'', ''2'')])"
    "\<forall>k. map_of m' k = (case map_of [(''a'', None), (''c'', Some ''3'')] k of
        None \<Rightarrow> map_of [(''a'', ''1''), (''b'', ''2'')] k | Some v \<Rightarrow> v)"
    by auto
  from m'(3) have "map_of m' ''a'' = None" "map_of m' ''b'' = Some ''2''" by simp_all
  moreover from this(1) have "map_of m' \<noteq> map_of [(''a'', ''1''), (''b'', ''2'')]" by (metis map_of_Cons_code(2) option.distinct(1))
  ultimately show ?thesis using run m'(1,2) by simp
qed

lemma update_watch_writes:
  assumes "kube_objects (weKube X)" and "meta_ok watch"
    and "distinct (mkeys (wsLabels resp))" and "distinct (mkeys (wsAnnotations resp))"
    and "update_watch X mgr client watch resp w = (r, w')"
  shows "\<exists>ts. calls w' = calls w @ ts \<and> length ts \<le> 2 \<and>
    (ts = [] \<longleftrightarrow> meta_unchanged (weKube X) watch (watch_answer resp) \<and> status_unchanged watch (watch_answer resp) \<and>
       \<not> (wsFinalized resp \<and> HasFinalizer (weKube X) watch (fName (wcFinalizer mgr)))) \<and>
    list_all (\<lambda>(q, a). object_write (weKube X) client watch (watch_answer resp) q) ts \<and>
    (r = None \<and> ts \<noteq> [] \<longrightarrow> list_all (\<lambda>(q, a). isOK a) ts \<and>
       last_write (weKube X) client (wcFinalizer mgr) watch (watch_answer resp) (fst (last ts)) \<and>
       (\<not> status_unchanged watch (watch_answer resp) \<and> HasSubresource (rcResource client) ''status'' \<longrightarrow>
          (\<exists>y a. (rc_UpdateStatus (Namespace client (GetNamespace (weKube X) watch)) y, a) \<in> set ts)))"
  using object_is_written [OF assms(1,2), of "watch_answer resp"] assms(3-5)
  by (simp add: update_watch_def watch_answer_def)

text \<open>
  C36: The watch is written exactly when the response of its hook changes its labels, annotations
  or status or ends its finalization. Whatever is written is what the response asks for:
  its labels and annotations merged in, its status unless it has none, and every other
  field as observed. Without an error all writes succeeded, a changed status was written through
  the status subresource where there is one, and the last write, a regular update, has the
  observed finalizers less the controller's own when the finalization has ended.
\<close>
theorem watch_is_written:
  assumes "kube_objects (weKube X)" and "meta_ok watch"
    and "distinct (mkeys (wsLabels resp))" and "distinct (mkeys (wsAnnotations resp))"
    and "update_watch X mgr client watch resp w = (r, w')"
  shows "\<exists>ts. calls w' = calls w @ ts \<and> length ts \<le> 2 \<and>
    (ts = [] \<longleftrightarrow> meta_unchanged (weKube X) watch (watch_answer resp) \<and> status_unchanged watch (watch_answer resp) \<and>
       \<not> (wsFinalized resp \<and> HasFinalizer (weKube X) watch (fName (wcFinalizer mgr)))) \<and>
    list_all (\<lambda>(q, a). object_write (weKube X) client watch (watch_answer resp) q) ts \<and>
    (r = None \<and> ts \<noteq> [] \<longrightarrow> list_all (\<lambda>(q, a). isOK a) ts \<and>
       last_write (weKube X) client (wcFinalizer mgr) watch (watch_answer resp) (fst (last ts)) \<and>
       (\<not> status_unchanged watch (watch_answer resp) \<and> HasSubresource (rcResource client) ''status'' \<longrightarrow>
          (\<exists>y a. (rc_UpdateStatus (Namespace client (GetNamespace (weKube X) watch)) y, a) \<in> set ts)))"
  by (rule update_watch_writes [OF assms])

section \<open>Observed attachments\<close>

text \<open>What the informer of an attachment resource lists, and which of it belongs to the watch.\<close>

definition listed :: "'s wenv \<Rightarrow> watch_controller \<Rightarrow> gctl_attachment \<Rightarrow> obj \<Rightarrow> bool" where
  "listed X mgr a x = (\<exists>ri xs. ResourceInformerRegistrar_Get (wcAttachmentInformers mgr) (grAPIVersion a) (grResource a) = Some ri \<and>
     Lister_List (Lister (weCaches X) (weFactory X) ri) everything = Inr xs \<and> x \<in> set xs)"

definition belongs :: "'s wenv \<Rightarrow> watch_controller \<Rightarrow> obj \<Rightarrow> obj \<Rightarrow> bool" where
  "belongs X mgr watch x =
     (MatchAttachmentAgainstWatch (weLib X) (weKube X) (wcAttachmentSelector mgr) (Some x) (Some watch) = Inr True)"

definition kind_key :: "'s wenv \<Rightarrow> gctl_attachment \<Rightarrow> string option" where
  "kind_key X a = map_option (\<lambda>api. makeKeyFromAPIVersionKind (grAPIVersion a) (rKind api))
     (GetAPIForAPIVersionAndResource (csDiscovery (weClients X)) (grAPIVersion a) (grResource a))"

lemma observe_objects_fold:
  "observe_objects X mgr watch xs m = Inr m' \<Longrightarrow> m' = fold (Insert (weKube X)) (filter (belongs X mgr watch) xs) m"
proof (induction xs arbitrary: m)
  case (Cons x xs)
  then obtain b where b: "MatchAttachmentAgainstWatch (weLib X) (weKube X) (wcAttachmentSelector mgr) (Some x) (Some watch) = Inr b"
    by (cases "MatchAttachmentAgainstWatch (weLib X) (weKube X) (wcAttachmentSelector mgr) (Some x) (Some watch)") auto
  then have "belongs X mgr watch x = b" by (simp add: belongs_def)
  with Cons b show ?case by (cases b) auto
qed simp

lemma observe_kinds_Cons:
  assumes "observe_kinds X mgr watch (a # as) m = Inr m'"
  obtains (missing) "kind_key X a = None" "observe_kinds X mgr watch as m = Inr m'"
  | (listed) key xs where "kind_key X a = Some key" "\<And>x. listed X mgr a x \<longleftrightarrow> x \<in> set xs"
      "observe_kinds X mgr watch as (fold (Insert (weKube X)) (filter (belongs X mgr watch) xs) (mput key [] m)) = Inr m'"
proof -
  from assms obtain ri xs where ri: "ResourceInformerRegistrar_Get (wcAttachmentInformers mgr) (grAPIVersion a) (grResource a) = Some ri"
    "Lister_List (Lister (weCaches X) (weFactory X) ri) everything = Inr xs"
    by (auto split: option.splits sum.splits)
  then have mem: "\<And>x. listed X mgr a x \<longleftrightarrow> x \<in> set xs" by (simp add: listed_def)
  show ?thesis
  proof (cases "GetAPIForAPIVersionAndResource (csDiscovery (weClients X)) (grAPIVersion a) (grResource a)")
    case None
    with assms ri missing show ?thesis by (simp add: kind_key_def)
  next
    case (Some api)
    with assms ri obtain m1 where m1: "observe_objects X mgr watch xs (Init (grAPIVersion a) (rKind api) m) = Inr m1"
      "observe_kinds X mgr watch as m1 = Inr m'" by (auto split: sum.splits)
    from observe_objects_fold [OF m1(1)] m1(2) Some mem listed show ?thesis by (simp add: kind_key_def Init_def)
  qed
qed

lemma fold_Insert_get:
  "reg_get (fold (Insert K) xs m) key n =
     (case find (\<lambda>x. object_key K x = key \<and> namespaceNameOrName K x = n) (rev xs) of
        Some x \<Rightarrow> Some (Some x) | None \<Rightarrow> reg_get m key n)"
  by (rule fold_put_get) (rule Insert_put)

lemma reg_get_reset: "reg_get (mput k [] m) key n = (if key = k then None else reg_get m key n)"
  by (simp add: reg_get_def)

lemma observe_kinds_get:
  assumes "observe_kinds X mgr watch as m = Inr m'" and "distinct (List.map_filter (kind_key X) as)"
    and "\<forall>a \<in> set as. \<forall>x. listed X mgr a x \<longrightarrow> kind_key X a \<in> {None, Some (object_key (weKube X) x)}"
    and "\<forall>a \<in> set as. \<forall>key n. kind_key X a = Some key \<longrightarrow> reg_get m key n = None"
  shows "(\<forall>key n. reg_get m' key n \<noteq> None \<longleftrightarrow> reg_get m key n \<noteq> None \<or>
      (\<exists>a \<in> set as. \<exists>x. kind_key X a = Some key \<and> listed X mgr a x \<and> belongs X mgr watch x \<and>
         namespaceNameOrName (weKube X) x = n)) \<and>
    (\<forall>key n v. reg_get m' key n = Some v \<longrightarrow> reg_get m key n = Some v \<or>
      (\<exists>a \<in> set as. \<exists>x. v = Some x \<and> kind_key X a = Some key \<and> listed X mgr a x \<and> belongs X mgr watch x \<and>
         namespaceNameOrName (weKube X) x = n))"
  using assms
proof (induction as arbitrary: m)
  case (Cons a as)
  from Cons.prems(1) show ?case
  proof (cases rule: observe_kinds_Cons)
    case missing
    with Cons.IH [OF missing(2)] Cons.prems(2-4) show ?thesis by (simp add: map_filter_simps)
  next
    case (listed key0 xs)
    let ?ys = "filter (belongs X mgr watch) xs" and ?K = "weKube X"
    let ?m = "fold (Insert ?K) ?ys (mput key0 [] m)"
    have key0: "reg_get m key0 n = None" for n using Cons.prems(4) listed(1) by simp
    have keys: "object_key ?K x = key0" if "x \<in> set xs" for x
      using Cons.prems(3) listed(1,2) that by auto
    have get: "reg_get ?m key n = (if key = key0
        then map_option Some (find (\<lambda>x. namespaceNameOrName ?K x = n) (rev ?ys)) else reg_get m key n)" for key n
    proof -
      have "find (\<lambda>x. object_key ?K x = key \<and> namespaceNameOrName ?K x = n) (rev ?ys) =
          (if key = key0 then find (\<lambda>x. namespaceNameOrName ?K x = n) (rev ?ys) else None)"
        using keys by (auto simp: find_None_iff intro!: find_cong)
      then show ?thesis by (simp add: fold_Insert_get reg_get_reset split: option.split)
    qed
    have fresh: "\<forall>a' \<in> set as. \<forall>key n. kind_key X a' = Some key \<longrightarrow> reg_get ?m key n = None"
    proof (intro ballI allI impI)
      fix a' key n assume a': "a' \<in> set as" "kind_key X a' = Some key"
      have "key \<in> set (List.map_filter (kind_key X) as)"
        using a' by (force simp: List.map_filter_def)
      then have "key \<noteq> key0" using Cons.prems(2) listed(1) by (auto simp: map_filter_simps)
      with get Cons.prems(4) a' show "reg_get ?m key n = None" by simp
    qed
    have "distinct (List.map_filter (kind_key X) as)"
      using Cons.prems(2) listed(1) by (simp add: map_filter_simps)
    note IH = Cons.IH [OF listed(3) this _ fresh]
    have first: "find (\<lambda>x. namespaceNameOrName ?K x = n) (rev ?ys) \<noteq> None \<longleftrightarrow>
        (\<exists>x. listed X mgr a x \<and> belongs X mgr watch x \<and> namespaceNameOrName ?K x = n)" for n
      using listed(2) by (auto simp: find_None_iff)
    have found: "\<exists>x. v = Some x \<and> listed X mgr a x \<and> belongs X mgr watch x \<and> namespaceNameOrName ?K x = n"
      if "map_option Some (find (\<lambda>x. namespaceNameOrName ?K x = n) (rev ?ys)) = Some v" for v n
      using that listed(2) by (auto dest!: find_SomeD)
    have old: "reg_get ?m key n \<noteq> None \<longleftrightarrow> reg_get m key n \<noteq> None \<or>
        kind_key X a = Some key \<and> (\<exists>x. listed X mgr a x \<and> belongs X mgr watch x \<and> namespaceNameOrName ?K x = n)" for key n
      using first key0 listed(1) by (auto simp: get)
    have new: "reg_get m key n = Some v \<or> kind_key X a = Some key \<and>
        (\<exists>x. v = Some x \<and> listed X mgr a x \<and> belongs X mgr watch x \<and> namespaceNameOrName ?K x = n)"
      if "reg_get ?m key n = Some v" for key n v
      using that found [of n v] listed(1) by (auto simp: get split: if_splits)
    have "\<forall>a\<in>set as. \<forall>x. listed X mgr a x \<longrightarrow> kind_key X a \<in> {None, Some (object_key ?K x)}"
      using Cons.prems(3) by simp
    note IH' = IH [OF this]
    show ?thesis
    proof (intro conjI allI impI)
      show "reg_get m' key n \<noteq> None \<longleftrightarrow> reg_get m key n \<noteq> None \<or>
          (\<exists>a \<in> set (a # as). \<exists>x. kind_key X a = Some key \<and> listed X mgr a x \<and> belongs X mgr watch x \<and>
             namespaceNameOrName ?K x = n)" for key n
        using IH' [THEN conjunct1, rule_format, of key n] old [of key n] by auto
      show "reg_get m key n = Some v \<or> (\<exists>a \<in> set (a # as). \<exists>x. v = Some x \<and> kind_key X a = Some key \<and>
          listed X mgr a x \<and> belongs X mgr watch x \<and> namespaceNameOrName ?K x = n)"
        if "reg_get m' key n = Some v" for key n v
        using IH' [THEN conjunct2, rule_format, OF that] new [of key n v] by auto
    qed
  qed
qed simp

lemma registry_List_mput: "set (registry_List (mput key g m)) \<subseteq> snd ` set g \<union> set (registry_List m)"
proof
  fix v assume "v \<in> set (registry_List (mput key g m))"
  then obtain k grp where mem: "(k, grp) \<in> set (mput key g m)" and v: "v \<in> snd ` set grp"
    unfolding registry_List_def by auto
  from mput_value_in [OF mem] show "v \<in> snd ` set g \<union> set (registry_List m)"
  proof
    assume "(k, grp) \<in> set m"
    with v have "v \<in> set (registry_List m)" unfolding registry_List_def by (auto intro!: bexI [of _ "(k, grp)"])
    then show ?thesis ..
  qed (use v in simp)
qed

lemma registry_List_Insert: "set (registry_List (Insert K x m)) \<subseteq> insert (Some x) (set (registry_List m))"
  using registry_List_put by (fastforce simp: Insert_put)

lemma registry_List_inserted: "set (registry_List (fold (Insert K) xs m)) \<subseteq> Some ` set xs \<union> set (registry_List m)"
proof (induction xs arbitrary: m)
  case (Cons x xs)
  have "set (registry_List (fold (Insert K) (x # xs) m)) \<subseteq> Some ` set xs \<union> set (registry_List (Insert K x m))"
    using Cons.IH [of "Insert K x m"] by simp
  also have "... \<subseteq> Some ` set xs \<union> insert (Some x) (set (registry_List m))"
    by (rule Un_mono [OF order_refl registry_List_Insert])
  finally show ?case by simp
qed simp

lemma observed_objects:
  assumes "getObservedAttachments X mgr watch = Inr obs"
  shows "set (registry_List obs) \<subseteq> {Some x |x. \<exists>a \<in> set (gcAttachments (wcConfig mgr)). listed X mgr a x \<and> belongs X mgr watch x}"
proof -
  let ?R = "\<lambda>as. {Some x |x. \<exists>a \<in> set as. listed X mgr a x \<and> belongs X mgr watch x}"
  have "set (registry_List m') \<subseteq> ?R as \<union> set (registry_List m)" if "observe_kinds X mgr watch as m = Inr m'" for as m m'
    using that
  proof (induction as arbitrary: m)
    case (Cons a as)
    have mono: "?R as \<subseteq> ?R (a # as)" by auto
    from Cons.prems show ?case
    proof (cases rule: observe_kinds_Cons)
      case missing
      from Cons.IH [OF missing(2)] mono show ?thesis by blast
    next
      case (listed key xs)
      let ?ys = "filter (belongs X mgr watch) xs"
      have ys: "Some ` set ?ys \<subseteq> ?R (a # as)" using listed(2) by auto
      have "set (registry_List (mput key [] m)) \<subseteq> set (registry_List m)" using registry_List_mput [of key "[]" m] by simp
      with ys have "Some ` set ?ys \<union> set (registry_List (mput key [] m)) \<subseteq> ?R (a # as) \<union> set (registry_List m)"
        by (rule Un_mono)
      with registry_List_inserted
      have "set (registry_List (fold (Insert (weKube X)) ?ys (mput key [] m))) \<subseteq> ?R (a # as) \<union> set (registry_List m)"
        by (rule order_trans)
      with mono have "?R as \<union> set (registry_List (fold (Insert (weKube X)) ?ys (mput key [] m))) \<subseteq>
          ?R (a # as) \<union> set (registry_List m)" by (intro Un_least) (rule le_supI1)
      with Cons.IH [OF listed(3)] show ?thesis by (rule order_trans)
    qed
  qed simp
  from this [OF assms [unfolded getObservedAttachments_def]] show ?thesis by (auto simp: registry_List_def)
qed

text \<open>
  C38: The registry given to the hook holds exactly the attachments of the watch. When no two
  attachment resources have the same API version and kind, and every informer lists
  objects of its own kind, there is an entry for a kind and a name exactly if an object of that
  kind and name is listed by the informer of an attachment resource and matches the selectors
  against the watch, and the entry is such an object. Resources that are not discovered
  are left out without an error.
\<close>
theorem attachments_are_observed:
  assumes "getObservedAttachments X mgr watch = Inr obs"
    and "distinct (List.map_filter (kind_key X) (gcAttachments (wcConfig mgr)))"
    and "\<forall>a \<in> set (gcAttachments (wcConfig mgr)). \<forall>x. listed X mgr a x \<longrightarrow>
      kind_key X a \<in> {None, Some (object_key (weKube X) x)}"
  shows "(reg_get obs key n \<noteq> None \<longleftrightarrow>
      (\<exists>a \<in> set (gcAttachments (wcConfig mgr)). \<exists>x. kind_key X a = Some key \<and> listed X mgr a x \<and>
         belongs X mgr watch x \<and> namespaceNameOrName (weKube X) x = n)) \<and>
    (\<forall>v. reg_get obs key n = Some v \<longrightarrow>
      (\<exists>a \<in> set (gcAttachments (wcConfig mgr)). \<exists>x. v = Some x \<and> kind_key X a = Some key \<and> listed X mgr a x \<and>
         belongs X mgr watch x \<and> namespaceNameOrName (weKube X) x = n))"
  using observe_kinds_get [OF assms(1) [unfolded getObservedAttachments_def] assms(2,3)]
  by (simp add: reg.get_empty)

section \<open>The requests of a pass\<close>

lemma reconcile_own:
  assumes "kube_lib (weKube X)" and "sound_objects observed" and "list_all meta_ok (wsAttachments resp)"
    and "wsExplicitUpdates resp = []" and "wsExplicitDeletes resp = []"
    and "gcUpdateAny (wcConfig mgr) \<noteq> Some True" and "gcDeleteAny (wcConfig mgr) \<noteq> Some True"
    and "calm (weClients X) (observed @ MakeAnyUnstructRegistry (weKube X) (wsAttachments resp))"
    and "reconcile_attachments X mgr watch observed req resp w = (r, w')"
  shows "\<exists>ts. calls w' = calls w @ ts \<and>
    list_all (\<lambda>(q, a). own_request (weKube X) (GetUID (weKube X) watch) observed q) ts \<and>
    (wsSkipReconcile resp \<or> gcReadOnly (wcConfig mgr) = Some True \<or> \<not> isReconcileAttachments (weKube X) mgr watch req resp
       \<longrightarrow> ts = [])"
proof (cases "wsSkipReconcile resp \<or> gcReadOnly (wcConfig mgr) = Some True \<or>
    \<not> isReconcileAttachments (weKube X) mgr watch req resp")
  case True
  with assms(9) have "w' = w" unfolding reconcile_attachments_def by (auto split: if_splits)
  then show ?thesis by simp
next
  case False
  let ?K = "weKube X" and ?desired = "MakeAnyUnstructRegistry (weKube X) (wsAttachments resp)"
  obtain strategies where st: "newAttachmentUpdateStrategyManager (csDiscovery (weClients X)) (gcAttachments (wcConfig mgr)) = Inr strategies"
    by (simp add: newAttachmentUpdateStrategyManager_def)
  let ?m = "attachment_states X mgr strategies watch observed req resp"
  have sel: "Observed ?m = observed" "Desired ?m = ?desired" "ExplicitUpdates ?m = []" "ExplicitDeletes ?m = []"
    "DynamicClientSet ?m = weClients X" "UpdateAny (cBase ?m) \<noteq> Some True" "DeleteAny (cBase ?m) \<noteq> Some True"
    "Watch (cBase ?m) = watch" "fresh ?m"
    using assms(4-7) by (simp_all add: attachment_states_def MakeAnyUnstructRegistry_def fresh_def)
  have desired: "sound_objects ?desired"
  proof -
    have "set (registry_List ?desired) \<subseteq> Some ` set (wsAttachments resp)"
      using registry_List_inserted [of ?K "wsAttachments resp" "[]"]
      by (simp add: MakeAnyUnstructRegistry_def registry_List_def)
    with assms(3) show ?thesis by (auto simp: list_all_iff)
  qed
  have "no_nil observed" "no_nil ?desired" using assms(2) desired by (auto simp: no_nil_def list_all_iff)
  with assms(8) Apply_total [of ?m "weDyn X" w] sel obtain err m' w1
    where run: "ClusterStates_Apply (weDyn X) ?m w = (Inr err, m', w1)"
    by (auto simp: no_nil_def registry_List_def)
  with assms(9) False st have "w' = w1" by (simp add: reconcile_attachments_def)
  moreover from Apply_own_requests [OF assms(1) sel(9) run] sel assms(2) desired obtain ts where
    "calls w1 = calls w @ ts" "list_all (\<lambda>(q, a). own_request ?K (GetUID ?K watch) observed q) ts"
    by auto
  ultimately show ?thesis using False by auto
qed

text \<open>
  C35: A pass over a watch of interest writes the watch and its own attachments and nothing
  else, when the controller may not update or delete any attachment and its hook asks for no
  explicit ones. First come the writes of the watch, as the response wants it. Then each
  attachment that is deleted or updated was observed with the watch's UID in its creation
  annotation, and each one created carries it; there are none at all if the hook skips
  the reconciliation, if the controller is read-only, or if the watch is being deleted and its
  finalization is over.
\<close>
theorem pass_touches_own:
  assumes "kube_objects (weKube X)" and "meta_ok watch"
    and "getObservedAttachments X mgr watch = Inr observed"
    and "\<forall>a \<in> set (gcAttachments (wcConfig mgr)). \<forall>x. listed X mgr a x \<longrightarrow> meta_ok x"
    and "watch_callSyncHook X mgr \<lparr>wrController = wcConfig mgr, wrWatch = watch, wrAttachments = observed,
        wrFinalizing = False\<rparr> = (Inr (Some resp), req)"
    and "distinct (mkeys (wsLabels resp))" and "distinct (mkeys (wsAnnotations resp))"
    and "list_all meta_ok (wsAttachments resp)"
    and "wsExplicitUpdates resp = []" and "wsExplicitDeletes resp = []"
    and "gcUpdateAny (wcConfig mgr) \<noteq> Some True" and "gcDeleteAny (wcConfig mgr) \<noteq> Some True"
    and "calm (weClients X) (observed @ MakeAnyUnstructRegistry (weKube X) (wsAttachments resp))"
    and "sync_concerned X mgr client watch Q = (r, Q')"
  shows "\<exists>ts us. calls (qwWorld Q') = calls (qwWorld Q) @ ts @ us \<and>
    list_all (\<lambda>(q, a). object_write (weKube X) client watch (watch_answer resp) q) ts \<and>
    list_all (\<lambda>(q, a). own_request (weKube X) (GetUID (weKube X) watch) observed q) us \<and>
    (wsSkipReconcile resp \<or> gcReadOnly (wcConfig mgr) = Some True \<or> \<not> isReconcileAttachments (weKube X) mgr watch req resp
       \<longrightarrow> us = [])"
proof -
  have kl: "kube_lib (weKube X)" using assms(1) by (simp add: kube_objects_def)
  have sound: "sound_objects observed"
    using observed_objects [OF assms(3)] assms(4) by (auto simp: list_all_iff)
  let ?Q = "enqueue (if wsResyncAfterSeconds resp > 0
      then enqueueWatchAfter (weKube X) (WObject watch) (resync_delay (wsResyncAfterSeconds resp)) else []) Q"
  have world: "qwWorld ?Q = qwWorld Q" by (simp add: enqueue_def)
  from assms(3,5,14) have run: "apply_watch_response X mgr client watch observed req resp Q = (r, Q')"
    by (simp add: sync_concerned_def)
  obtain r1 w1 where up: "update_watch X mgr client watch resp (qwWorld Q) = (r1, w1)" by fastforce
  from update_watch_writes [OF assms(1,2,6,7) up] obtain ts where ts: "calls w1 = calls (qwWorld Q) @ ts"
    "list_all (\<lambda>(q, a). object_write (weKube X) client watch (watch_answer resp) q) ts" by blast
  show ?thesis
  proof (cases r1)
    case (Some err)
    with run up world have "qwWorld Q' = w1" by (auto simp: apply_watch_response_def Let_def)
    with ts show ?thesis by (intro exI [of _ ts] exI [of _ "[]"]) simp
  next
    case None
    obtain r2 w2 where rec: "reconcile_attachments X mgr watch observed req resp w1 = (r2, w2)" by fastforce
    from reconcile_own [OF kl sound assms(8-13) rec] obtain us where us: "calls w2 = calls w1 @ us"
      "list_all (\<lambda>(q, a). own_request (weKube X) (GetUID (weKube X) watch) observed q) us"
      "wsSkipReconcile resp \<or> gcReadOnly (wcConfig mgr) = Some True \<or> \<not> isReconcileAttachments (weKube X) mgr watch req resp
         \<longrightarrow> us = []" by blast
    from None run up rec world have "qwWorld Q' = w2" by (auto simp: apply_watch_response_def Let_def)
    with ts us show ?thesis by (intro exI [of _ ts] exI [of _ us]) simp
  qed
qed

section \<open>Strategies\<close>

text \<open>
  The strategies that count: the last attachment of a group and kind whose method is not the
  default decides.
\<close>

definition strategy_entry :: "discovery \<Rightarrow> gctl_attachment \<Rightarrow> (string \<times> attachment_strategy) option" where
  "strategy_entry d a =
     (case (gaUpdateStrategy a, GetAPIForAPIVersionAndResource d (grAPIVersion a) (grResource a)) of
        (Some st, Some api) \<Rightarrow>
          if asMethod st \<noteq> ChildUpdateOnDelete
          then Some (rKind api @ ''.'' @ fst (ParseAPIVersionToGroupVersion (grAPIVersion a)), st) else None
      | _ \<Rightarrow> None)"

definition declared_method :: "discovery \<Rightarrow> gctl_attachment list \<Rightarrow> string \<Rightarrow> string \<Rightarrow> string" where
  "declared_method d as apiGroup kind =
     (case map_of (rev (List.map_filter (strategy_entry d) as)) (kind @ ''.'' @ apiGroup) of
        None \<Rightarrow> ChildUpdateOnDelete
      | Some st \<Rightarrow> if asMethod st = '''' then ChildUpdateOnDelete else asMethod st)"

lemma manager_strategies_map:
  "map_of (manager_strategies d ChildUpdateOnDelete as m) k =
   (case map_of (rev (List.map_filter (strategy_entry d) as)) k of None \<Rightarrow> map_of m k | Some st \<Rightarrow> Some st)"
proof (induction as arbitrary: m)
  case (Cons a as)
  show ?case
    by (cases "gaUpdateStrategy a"; cases "GetAPIForAPIVersionAndResource d (grAPIVersion a) (grResource a)")
      (auto simp: Cons.IH strategy_entry_def map_filter_simps makeUpdateStrategyKeyFromGK_def map_add_def
        split: option.splits)
qed (simp add: map_filter_simps)

lemma strategies_for_manager:
  "strategies_for_attachments d as m = Inr m' \<Longrightarrow> m' = manager_strategies d ChildUpdateOnDelete as m"
proof (induction as arbitrary: m)
  case (Cons a as)
  then show ?case
    by (cases "gaUpdateStrategy a"; cases "GetAPIForAPIVersionAndResource d (grAPIVersion a) (grResource a)")
      (auto simp: makeAttachmentUpdateStrategyKey_def makeUpdateStrategyKeyFromGK_def split: if_splits)
qed simp

text \<open>
  The table of strategies made with the controller and the manager made in every pass
  agree: for every group and kind both give the method of the last attachment declared
  for it with a method other than OnDelete, and OnDelete if there is none or it is empty.
\<close>
theorem strategies_agree:
  assumes "makeUpdateStrategyForAttachments d as = Inr m" and "newAttachmentUpdateStrategyManager d as = Inr mgr"
  shows "GetOrDefault m apiGroup kind = declared_method d as apiGroup kind \<and>
    GetStrategyByGKOrDefault mgr apiGroup kind = declared_method d as apiGroup kind"
proof -
  from assms(1) have m: "m = manager_strategies d ChildUpdateOnDelete as []"
    unfolding makeUpdateStrategyForAttachments_def by (rule strategies_for_manager)
  from assms(2) have mgr: "smStrategies mgr = manager_strategies d ChildUpdateOnDelete as []"
    "smDefaultMethod mgr = ChildUpdateOnDelete"
    by (auto simp: newAttachmentUpdateStrategyManager_def)
  show ?thesis
    by (simp add: GetOrDefault_def strategies_get_def makeAttachmentUpdateStrategyKey_def m
        GetStrategyByGKOrDefault_def getStrategyByGK_def makeUpdateStrategyKeyFromGK_def mgr
        manager_strategies_map declared_method_def split: option.split)
qed

section \<open>Subscriptions\<close>

definition watch_informers :: "watch_controller \<Rightarrow> resource_informer list" where
  "watch_informers mgr = map snd (wcAttachmentInformers mgr) @ map snd (wcWatchInformers mgr)"

lemma resource_keys_distinct:
  assumes "distinct rules" and "\<forall>(av, r) \<in> set rules. CHR ''.'' \<notin> set r"
  shows "distinct (map resource_key rules)"
proof -
  have "inj_on resource_key (set rules)"
  proof (rule inj_onI)
    fix x y assume "x \<in> set rules" "y \<in> set rules" "resource_key x = resource_key y"
    moreover from this assms(2) have "CHR ''.'' \<notin> set (snd x)" "CHR ''.'' \<notin> set (snd y)" by fastforce+
    ultimately show "x = y"
      using kind_prefix_unique [of "snd x" "snd y" "fst x" "fst y"]
      by (simp add: makeKeyFromAPIVersionResource_def prod_eq_iff)
  qed
  with assms(1) show ?thesis by (simp add: distinct_map)
qed

lemma subscribe_all_ok:
  assumes "pool_ok F opn" and "distinct (map resource_key (map (\<lambda>a. (grAPIVersion a, grResource a)) (gcAttachments config)))"
    and "subscribe_all cs config F = (res, F')"
  shows "case res of
      Inl err \<Rightarrow> pool_ok F' opn
    | Inr (ws, as) \<Rightarrow> let own = map snd as @ map snd ws in
        pool_ok F' (opn \<union> set own) \<and> set own \<inter> opn = {} \<and> distinct own \<and>
        length own = length (gcAttachments config) + 1"
proof -
  let ?get = "GetClientForAPIVersionAndResource (csParse cs) (csDiscovery cs)"
  let ?rules = "map (\<lambda>a. (grAPIVersion a, grResource a)) (gcAttachments config)"
  obtain wres F1 where w: "GetOrCreate ?get (grAPIVersion (gcWatch config)) (grResource (gcWatch config)) F = (wres, F1)"
    by fastforce
  show ?thesis
  proof (cases wres)
    case (Inl err)
    with w have "F1 = F" by (elim GetOrCreate_cases) auto
    with Inl w assms(1,3) show ?thesis by (auto simp: subscribe_all_def Let_def)
  next
    case (Inr ri)
    note fresh = GetOrCreate_fresh [OF assms(1) w [unfolded Inr]]
    obtain e infs F2 where sub: "subscribe_attachments ?get (config_String config) (gcAttachments config) [] F1 = (e, infs, F2)"
      by (metis prod_cases3)
    from subscribe_ok [OF sub [unfolded subscribe_attachments_def], of "insert ri opn"] fresh assms(2)
    have ok: "pool_ok F2 (insert ri opn \<union> set (map snd infs))" "distinct (map snd infs)"
      "snd ` set infs \<inter> insert ri opn = {}" "e = None \<longrightarrow> length infs = length (gcAttachments config)"
      by auto
    have own: "insert ri opn \<union> set (map snd infs) = opn \<union> set (map snd infs @ [ri])" by auto
    have dist: "distinct (map snd infs @ [ri])" "set (map snd infs @ [ri]) \<inter> opn = {}"
      using ok(2,3) fresh(1) by auto
    have single: "map snd (ResourceInformerRegistrar_Set av r ri []) = [ri]" for av r
      by (simp add: ResourceInformerRegistrar_Set_def)
    show ?thesis
    proof (cases e)
      case None
      with assms(3) w Inr sub have run: "F' = F2" "res = Inr
          (ResourceInformerRegistrar_Set (grAPIVersion (gcWatch config)) (grResource (gcWatch config)) ri [], infs)"
        by (simp_all add: subscribe_all_def Let_def)
      have "pool_ok F2 (opn \<union> set (map snd infs @ [ri]))" using ok(1) unfolding own .
      with dist ok(4) None have "let own = map snd infs @ [ri] in pool_ok F2 (opn \<union> set own) \<and> set own \<inter> opn = {} \<and>
          distinct own \<and> length own = length (gcAttachments config) + 1"
        unfolding Let_def by (intro conjI) simp_all
      then show ?thesis by (simp only: run single sum.case prod.case)
    next
      case (Some err)
      from close_all_ok [OF ok(1) [unfolded own] dist] obtain F3 where
        "close_all (map snd infs @ [ri]) F2 = Inr F3" "pool_ok F3 opn" by blast
      with Some assms(3) w Inr sub single show ?thesis by (auto simp: subscribe_all_def Let_def)
    qed
  qed
qed

lemma NewWatchController_ok:
  assumes "pool_ok F opn" and "\<forall>a \<in> set (gcAttachments config). CHR ''.'' \<notin> set (grResource a)"
    and "NewWatchController L cs config F = (res, F')"
  shows "case res of
      Inl err \<Rightarrow> pool_ok F' opn
    | Inr mgr \<Rightarrow> pool_ok F' (opn \<union> set (watch_informers mgr)) \<and> set (watch_informers mgr) \<inter> opn = {} \<and>
        distinct (watch_informers mgr) \<and> length (watch_informers mgr) = length (gcAttachments config) + 1"
proof (cases "F' = F \<and> \<not> isOK res")
  case True
  with assms(1) show ?thesis by (cases res) auto
next
  case False
  with assms(3) obtain hooks ws as api st where early: "gcHooks config = Some hooks"
    "makeAllSelectors L (Some (csDiscovery cs)) config = Inr (ws, as)"
    "GetAPIForAPIVersionAndResource (csDiscovery cs) (grAPIVersion (gcWatch config)) (grResource (gcWatch config)) = Some api"
    "makeUpdateStrategyForAttachments (csDiscovery cs) (gcAttachments config) = Inr st"
    by (auto simp: NewWatchController_def Let_def split: option.splits sum.splits)
  from early(2) have "register_all L (Some (csDiscovery cs)) (gcAttachments config) selection_init = Inr as"
    by (auto simp: makeAllSelectors_def NewSelectorForAttachments_def split: sum.splits)
  from register_all_distinct [OF this]
  have "distinct (map (\<lambda>a. (grAPIVersion a, grResource a)) (gcAttachments config))"
    by (simp add: complete_at_def selection_init_def)
  then have keys: "distinct (map resource_key (map (\<lambda>a. (grAPIVersion a, grResource a)) (gcAttachments config)))"
    by (rule resource_keys_distinct) (use assms(2) in auto)
  obtain sres F1 where sub: "subscribe_all cs config F = (sres, F1)" by fastforce
  note ok = subscribe_all_ok [OF assms(1) keys sub]
  show ?thesis
  proof (cases sres)
    case (Inl err)
    with assms(3) early sub have "res = Inl err" "F' = F1" by (simp_all add: NewWatchController_def Let_def)
    with ok Inl show ?thesis by simp
  next
    case (Inr infs)
    with assms(3) early sub obtain mgr where "res = Inr mgr" "F' = F1"
      "watch_informers mgr = map snd (snd infs) @ map snd (fst infs)"
      by (cases infs) (auto simp: NewWatchController_def Let_def watch_informers_def)
    with ok Inr show ?thesis by (simp add: Let_def case_prod_beta del: set_append distinct_append)
  qed
qed

text \<open>
  A generic controller gives back every informer it takes, whatever its attachments
  are: repeated resources are refused with its selectors, before the first subscription. A
  construction that fails leaves the factory as consistent as it was, with the same
  subscriptions in use; one that succeeds has one subscription of its own for the watch and
  for each attachment resource, and \<open>Stop\<close> leaves exactly those of the others.
\<close>
theorem watch_controller_returns_informers:
  assumes "pool_ok F opn" and "\<forall>a \<in> set (gcAttachments config). CHR ''.'' \<notin> set (grResource a)"
    and "NewWatchController L cs config F = (res, F')"
  shows "case res of
      Inl err \<Rightarrow> pool_ok F' opn
    | Inr mgr \<Rightarrow> pool_ok F' (opn \<union> set (watch_informers mgr)) \<and> set (watch_informers mgr) \<inter> opn = {} \<and>
        card (set (watch_informers mgr)) = length (gcAttachments config) + 1 \<and>
        (\<exists>F''. watch_Stop mgr (OpenChan, F') = Inr (ClosedChan, F'') \<and> pool_ok F'' opn)"
proof (cases res)
  case (Inr mgr)
  from NewWatchController_ok [OF assms] Inr have ok: "pool_ok F' (opn \<union> set (watch_informers mgr))"
    "set (watch_informers mgr) \<inter> opn = {}" "distinct (watch_informers mgr)"
    "length (watch_informers mgr) = length (gcAttachments config) + 1" by auto
  from stop_informers_ok [OF ok(1,3,2)] obtain F'' where "stop_informers (watch_informers mgr) F' = Inr F''"
    "pool_ok F'' opn" by blast
  moreover from ok(3,4) have "card (set (watch_informers mgr)) = length (gcAttachments config) + 1"
    using distinct_card by fastforce
  ultimately show ?thesis using ok(1,2) Inr
    by (simp add: watch_Stop_def stop_controller_def watch_informers_def del: set_append)
qed (use NewWatchController_ok [OF assms] in simp)

section \<open>The worker\<close>

lemma syncWatch_queue:
  assumes "syncWatch X mgr key Q = (r, Q')"
  shows "\<exists>mid. qwQueue Q' = qwQueue Q @ mid \<and> list_all is_delay mid"
proof -
  have after: "list_all is_delay (enqueueWatchAfter K item d)" for K item d
    by (auto simp: enqueueWatchAfter_def split: sum.splits)
  have resp: "\<exists>mid. qwQueue Q' = qwQueue Q @ mid \<and> list_all is_delay mid"
    if "apply_watch_response X mgr client watch observed req resp Q = (r, Q')" for client watch observed req resp Q r Q'
    using that after by (auto simp: apply_watch_response_def enqueue_def Let_def split: prod.splits option.splits if_splits)
  have conc: "\<exists>mid. qwQueue Q' = qwQueue Q @ mid \<and> list_all is_delay mid"
    if "sync_concerned X mgr client watch Q = (r, Q')" for client watch Q r Q'
    using that resp by (auto simp: sync_concerned_def Let_def split: sum.splits option.splits prod.splits)
  have "\<exists>mid. qwQueue Q' = qwQueue Q @ mid \<and> list_all is_delay mid"
    if "syncWatchObj X mgr watch Q = (r, Q')" for watch
    using that by (auto simp: syncWatchObj_def Let_def dest!: conc split: sum.splits bool.splits prod.splits option.splits)
  with assms show ?thesis by (auto simp: syncWatch_def split: sum.splits prod.splits option.splits if_splits)
qed

interpretation watch_loop: settling_worker "watch_processNextWorkItem X mgr" "syncWatch X mgr" qwQueue
  unfolding watch_processNextWorkItem_def by unfold_locales (rule work_item_settles [OF syncWatch_queue])

text \<open>
  A worker of a generic controller loses no key: as long as no pass panics, it works through all
  keys the queue hands out and settles each in their order, forgotten after a success, put
  back under the rate limit after an error, and marked as done; besides, a pass only adds
  delayed resyncs.
\<close>
theorem no_watch_key_is_lost:
  assumes "watch_worker X mgr (map Some keys) Q = (Inr (), Q')"
  shows "\<exists>ops. qwQueue Q' = qwQueue Q @ ops \<and>
    filter (\<lambda>op. \<not> is_delay op) ops =
      concat (map2 settling keys (outcomes (watch_processNextWorkItem X mgr) (syncWatch X mgr) keys Q))"
  using watch_loop.no_key_lost assms by (simp add: watch_worker_def)

section \<open>A controller of pods\<close>

text \<open>A controller that watches pods and keeps the pods \<open>a\<close> as attachments of each, in place.\<close>

definition watch_cluster :: clientset where
  "watch_cluster = \<lparr>csParse = core_gv, csDiscovery = pod_discovery\<rparr>"

definition pod_gctl :: generic_controller where
  "pod_gctl = \<lparr>gcNamespace = ''n'', gcName = ''g'', gcWatch = rule_resource (''v1'', ''pods''),
     gcAttachments = [(rule_attachment (''v1'', ''pods''))\<lparr>gaUpdateStrategy := Some \<lparr>asMethod = ''InPlace'', asPatch = None\<rparr>\<rparr>],
     gcHooks = Some \<lparr>ghSync = Some \<lparr>hkWebhook = None, hkInline = Some (Some ''f'')\<rparr>, ghFinalize = None\<rparr>,
     gcResyncPeriodSeconds = None, gcReadOnly = None, gcUpdateAny = None, gcDeleteAny = None, gcParameters = []\<rparr>"

definition pod_response :: watch_response where
  "pod_response = \<lparr>wsLabels = [(''tier'', Some ''x''), (''app'', None)], wsAnnotations = [], wsStatus = None,
     wsAttachments = [], wsExplicitUpdates = [], wsExplicitDeletes = [], wsResyncAfterSeconds = 0,
     wsSkipReconcile = False, wsFinalized = False\<rparr>"

definition pod_io :: "(watch_request, watch_response) hook_io" where
  "pod_io = \<lparr>marshalRequest = \<lambda>q. Inr '''', httpPost = \<lambda>url d body. Inl (Msg ''no host''),
     unmarshalResponse = \<lambda>s. Inl (Msg ''no response''), durationText = \<lambda>d. '''', webhookText = \<lambda>wh. '''',
     hookText = \<lambda>hk. ''''\<rparr>"

definition pod_wenv :: "wc_factory \<Rightarrow> server wenv" where
  "pod_wenv F = \<lparr>weDyn = std_env, weClients = watch_cluster, weLib = std_selectors, weFactory = F,
     weCaches = \<lambda>_. \<lparr>GetByKey = \<lambda>key. Inr (Some sel_pod), ListAll = \<lambda>_. Inr [sel_pod],
       ListAllByNamespace = \<lambda>_ _. Inr [sel_pod]\<rparr>,
     weHooks = pod_io, weInline = [(''f'', \<lambda>req. Inr pod_response)]\<rparr>"

definition watch_state :: "server world qworld" where
  "watch_state = \<lparr>qwWorld = \<lparr>srv = [([''v1'', ''pods'', '''', ''a''], sel_pod)], calls = []\<rparr>, qwQueue = []\<rparr>"

abbreviation pod_gctl_run :: "watch_controller res \<times> wc_factory" where
  "pod_gctl_run \<equiv> NewWatchController std_selectors watch_cluster pod_gctl (NewSharedInformerFactory 10)"

text \<open>The run is evaluated once; the witnesses take from it what they need.\<close>

lemma pod_gctl_evaluated:
  "case pod_gctl_run of (Inl e, F) \<Rightarrow> False | (Inr mgr, F) \<Rightarrow>
     (case getObservedAttachments (pod_wenv F) mgr sel_pod of Inl e \<Rightarrow> False | Inr obs \<Rightarrow>
        gcAttachments (wcConfig mgr) = gcAttachments pod_gctl \<and>
        gcUpdateAny (wcConfig mgr) = None \<and> gcDeleteAny (wcConfig mgr) = None \<and>
        calm watch_cluster (obs @ MakeAnyUnstructRegistry std_kube []) \<and> \<not> Option.is_none (reg_get obs ''Pod.v1'' ''a'') \<and>
        fst (watch_callSyncHook (pod_wenv F) mgr \<lparr>wrController = wcConfig mgr, wrWatch = sel_pod,
           wrAttachments = obs, wrFinalizing = False\<rparr>) = Inr (Some pod_response) \<and>
        fst (syncWatch (pod_wenv F) mgr ''v1:Pod::a'' watch_state) = None)"
  by code_simp

lemma pod_gctl_facts:
  obtains mgr F obs req where "pod_gctl_run = (Inr mgr, F)" "getObservedAttachments (pod_wenv F) mgr sel_pod = Inr obs"
    "gcAttachments (wcConfig mgr) = gcAttachments pod_gctl"
    "gcUpdateAny (wcConfig mgr) = None" "gcDeleteAny (wcConfig mgr) = None"
    "calm watch_cluster (obs @ MakeAnyUnstructRegistry std_kube [])" "reg_get obs ''Pod.v1'' ''a'' \<noteq> None"
    "watch_callSyncHook (pod_wenv F) mgr \<lparr>wrController = wcConfig mgr, wrWatch = sel_pod,
           wrAttachments = obs, wrFinalizing = False\<rparr> = (Inr (Some pod_response), req)"
    "fst (syncWatch (pod_wenv F) mgr ''v1:Pod::a'' watch_state) = None"
proof -
  obtain r F where run: "pod_gctl_run = (r, F)" by fastforce
  with pod_gctl_evaluated obtain mgr where mgr: "r = Inr mgr" by (cases r) simp_all
  with run pod_gctl_evaluated obtain obs where obs: "getObservedAttachments (pod_wenv F) mgr sel_pod = Inr obs"
    by (cases "getObservedAttachments (pod_wenv F) mgr sel_pod") simp_all
  obtain h req where h: "watch_callSyncHook (pod_wenv F) mgr \<lparr>wrController = wcConfig mgr, wrWatch = sel_pod,
      wrAttachments = obs, wrFinalizing = False\<rparr> = (h, req)" by fastforce
  show ?thesis
    by (rule that [of mgr F obs req]) (use run mgr obs h pod_gctl_evaluated in \<open>simp_all add: Option.is_none_def\<close>)
qed

lemma pod_wenv_sel [simp]: "weDyn (pod_wenv F) = std_env" "weClients (pod_wenv F) = watch_cluster"
  by (simp_all add: pod_wenv_def)

lemma pod_response_sel [simp]: "wsLabels pod_response = [(''tier'', Some ''x''), (''app'', None)]"
  "wsAnnotations pod_response = []" "wsAttachments pod_response = []" "wsExplicitUpdates pod_response = []"
  "wsExplicitDeletes pod_response = []"
  by (simp_all add: pod_response_def)

lemma pod_listed: "listed (pod_wenv F) mgr a x \<Longrightarrow> x = sel_pod"
  by (auto simp: listed_def pod_wenv_def Lister_def Lister_List_def)

lemma sel_pod_ok: "meta_ok sel_pod"
  by (simp add: meta_ok_def sel_pod_def)

lemma pod_kinds: "map (kind_key (pod_wenv F)) (gcAttachments pod_gctl) = [Some ''Pod.v1'']"
  "object_key std_kube sel_pod = ''Pod.v1''"
proof -
  have "map (\<lambda>a. map_option (\<lambda>api. makeKeyFromAPIVersionKind (grAPIVersion a) (rKind api))
     (GetAPIForAPIVersionAndResource (csDiscovery watch_cluster) (grAPIVersion a) (grResource a))) (gcAttachments pod_gctl) =
     [Some ''Pod.v1'']" by code_simp
  then show "map (kind_key (pod_wenv F)) (gcAttachments pod_gctl) = [Some ''Pod.v1'']"
    by (simp add: kind_key_def [abs_def])
qed code_simp

theorem tombstones_are_retried_witness:
  "\<forall>mgr F. enqueueWatch std_kube mgr (WTombstone ''ns/name'') = Inr [QAdd ''ns/name''] \<and>
   snd (watch_worker (pod_wenv F) mgr [Some ''ns/name'', Some ''ns/name''] watch_state) = enqueue
     [QAddRateLimited ''ns/name'', QDone ''ns/name'', QAddRateLimited ''ns/name'', QDone ''ns/name''] watch_state"
  using tombstones_are_retried [of "''ns/name''" std_kube _ _ 2 watch_state] by (simp add: numeral_2_eq_2)

theorem watch_is_written_witness:
  "\<exists>mgr F r w'. pod_gctl_run = (Inr mgr, F) \<and>
     update_watch (pod_wenv F) mgr pod_client sel_pod pod_response (qwWorld watch_state) = (r, w') \<and> calls w' \<noteq> []"
proof -
  obtain mgr F where new: "pod_gctl_run = (Inr mgr, F)" by (rule pod_gctl_facts)
  obtain r w' where run: "update_watch (pod_wenv F) mgr pod_client sel_pod pod_response (qwWorld watch_state) = (r, w')"
    by fastforce
  have "updated_map (mrange (GetLabels std_kube sel_pod)) (anLabels (watch_answer pod_response)) ''tier'' = Some ''x''"
    by (simp add: updated_map_def watch_answer_def)
  moreover have "map_of (mrange (GetLabels std_kube sel_pod)) ''tier'' = None" by code_simp
  ultimately have "\<not> meta_unchanged std_kube sel_pod (watch_answer pod_response)" unfolding meta_unchanged_def by (metis option.distinct(1))
  with watch_is_written [OF _ sel_pod_ok _ _ run] have "calls w' \<noteq> []"
    by (auto simp: std_objects.kube_objects_axioms watch_state_def)
  with new run show ?thesis by blast
qed

theorem attachments_are_observed_witness:
  "\<exists>mgr F obs. getObservedAttachments (pod_wenv F) mgr sel_pod = Inr obs \<and>
     (\<exists>x. reg_get obs ''Pod.v1'' ''a'' = Some (Some x) \<and> belongs (pod_wenv F) mgr sel_pod x)"
proof -
  obtain mgr F obs where f: "getObservedAttachments (pod_wenv F) mgr sel_pod = Inr obs"
    "gcAttachments (wcConfig mgr) = gcAttachments pod_gctl" "reg_get obs ''Pod.v1'' ''a'' \<noteq> None"
    by (rule pod_gctl_facts)
  have "distinct (List.map_filter (kind_key (pod_wenv F)) (gcAttachments (wcConfig mgr)))"
    using pod_kinds(1) by (auto simp: f(2) pod_gctl_def map_filter_simps)
  moreover have "\<forall>a \<in> set (gcAttachments (wcConfig mgr)). \<forall>x. listed (pod_wenv F) mgr a x \<longrightarrow>
      kind_key (pod_wenv F) a \<in> {None, Some (object_key (weKube (pod_wenv F)) x)}"
    using pod_kinds by (auto simp: f(2) pod_gctl_def dest!: pod_listed)
  ultimately show ?thesis using attachments_are_observed [OF f(1)] f(1,3) by fastforce
qed

theorem pass_touches_own_witness:
  "\<exists>mgr F r Q'. sync_concerned (pod_wenv F) mgr pod_client sel_pod watch_state = (r, Q') \<and>
     list_all (\<lambda>(q, a). object_write std_kube pod_client sel_pod (watch_answer pod_response) q \<or>
       (\<exists>obs. own_request std_kube ''''  obs q)) (calls (qwWorld Q'))"
proof -
  obtain mgr F obs req where f: "getObservedAttachments (pod_wenv F) mgr sel_pod = Inr obs"
    "gcUpdateAny (wcConfig mgr) = None" "gcDeleteAny (wcConfig mgr) = None"
    "calm watch_cluster (obs @ MakeAnyUnstructRegistry std_kube [])"
    "watch_callSyncHook (pod_wenv F) mgr \<lparr>wrController = wcConfig mgr, wrWatch = sel_pod,
           wrAttachments = obs, wrFinalizing = False\<rparr> = (Inr (Some pod_response), req)"
    by (rule pod_gctl_facts)
  obtain r Q' where run: "sync_concerned (pod_wenv F) mgr pod_client sel_pod watch_state = (r, Q')" by fastforce
  have uid: "GetUID std_kube sel_pod = ''''" by code_simp
  have listed: "\<forall>a \<in> set (gcAttachments (wcConfig mgr)). \<forall>x. listed (pod_wenv F) mgr a x \<longrightarrow> meta_ok x"
    using sel_pod_ok by (auto dest: pod_listed)
  have pr: "kube_objects (weKube (pod_wenv F))" "distinct (mkeys (wsLabels pod_response))"
    "distinct (mkeys (wsAnnotations pod_response))" "list_all meta_ok (wsAttachments pod_response)"
    "wsExplicitUpdates pod_response = []" "wsExplicitDeletes pod_response = []"
    "gcUpdateAny (wcConfig mgr) \<noteq> Some True" "gcDeleteAny (wcConfig mgr) \<noteq> Some True"
    "calm (weClients (pod_wenv F)) (obs @ MakeAnyUnstructRegistry (weKube (pod_wenv F)) (wsAttachments pod_response))"
    using f(2-4) std_objects.kube_objects_axioms by simp_all
  from pass_touches_own [OF pr(1) sel_pod_ok f(1) listed f(5) pr(2-9) run] obtain ts us where
    "calls (qwWorld Q') = ts @ us" "list_all (\<lambda>(q, a). object_write std_kube pod_client sel_pod (watch_answer pod_response) q) ts"
    "list_all (\<lambda>(q, a). own_request std_kube '''' obs q) us"
    by (auto simp: watch_state_def uid)
  with run show ?thesis by (intro exI [of _ mgr] exI [of _ F] exI [of _ r] exI [of _ Q']) (fastforce simp: list_all_iff)
qed

theorem strategies_agree_witness:
  "declared_method pod_discovery (gcAttachments pod_gctl) '''' ''Pod'' = ''InPlace''"
proof -
  obtain m where m: "makeUpdateStrategyForAttachments pod_discovery (gcAttachments pod_gctl) = Inr m"
  proof -
    have "isOK (makeUpdateStrategyForAttachments pod_discovery (gcAttachments pod_gctl))" by code_simp
    with that show ?thesis by (auto simp: isOK_iff)
  qed
  obtain mgr where mgr: "newAttachmentUpdateStrategyManager pod_discovery (gcAttachments pod_gctl) = Inr mgr"
    by (simp add: newAttachmentUpdateStrategyManager_def)
  have "case newAttachmentUpdateStrategyManager pod_discovery (gcAttachments pod_gctl) of Inl e \<Rightarrow> False
     | Inr mgr \<Rightarrow> GetStrategyByGKOrDefault mgr '''' ''Pod'' = ''InPlace''" by code_simp
  with strategies_agree [OF m mgr, of "''''" "''Pod''"] mgr show ?thesis by simp
qed

theorem watch_controller_returns_informers_witness:
  "\<exists>mgr F F''. pod_gctl_run = (Inr mgr, F) \<and> watch_Stop mgr (OpenChan, F) = Inr (ClosedChan, F'') \<and> pool_ok F'' {}"
proof -
  obtain mgr F where run: "pod_gctl_run = (Inr mgr, F)" by (rule pod_gctl_facts)
  have "\<forall>a \<in> set (gcAttachments pod_gctl). CHR ''.'' \<notin> set (grResource a)"
    by (simp add: pod_gctl_def rule_attachment_def rule_resource_def gctl_resource.defs)
  from watch_controller_returns_informers [OF pool_ok_new this run] run show ?thesis by auto
qed

theorem no_watch_key_is_lost_witness:
  "\<exists>mgr F Q'. watch_worker (pod_wenv F) mgr [Some ''v1:Pod::a''] watch_state = (Inr (), Q') \<and>
     QForget ''v1:Pod::a'' \<in> set (qwQueue Q')"
proof -
  let ?key = "''v1:Pod::a''"
  obtain mgr F where s: "fst (syncWatch (pod_wenv F) mgr ?key watch_state) = None" by (rule pod_gctl_facts)
  then obtain Q1 where s1: "syncWatch (pod_wenv F) mgr ?key watch_state = (None, Q1)" by (metis prod.collapse)
  then obtain Q' where run: "watch_worker (pod_wenv F) mgr (map Some [?key]) watch_state = (Inr (), Q')"
    by (simp add: watch_worker_def watch_processNextWorkItem_def work_item_def)
  from no_watch_key_is_lost [OF run] obtain ops where ops: "qwQueue Q' = qwQueue watch_state @ ops"
    "filter (\<lambda>op. \<not> is_delay op) ops = settling ?key True"
    by (auto simp: s1)
  then have "QForget ?key \<in> set (filter (\<lambda>op. \<not> is_delay op) ops)" by (simp add: settling_def)
  with ops(1) have "QForget ?key \<in> set (qwQueue Q')" by simp
  with run show ?thesis by (intro exI [of _ mgr] exI [of _ F] exI [of _ Q']) simp
qed

end
