(* ===== verification/RevisionsPlan.thy ===== *)
theory RevisionsPlan
  imports Revisions
begin

text \<open>
  What a pass over the revisions of a parent guarantees: the names of new revisions, patches
  and the parents made from them, the requests that reconcile the revisions, and the
  response that is made of the responses of all revisions.
\<close>

section \<open>Names\<close>

text \<open>
  C32: The name of a new revision never exceeds the 253 bytes Kubernetes allows. It is a
  prefix of \<open>resource.group\<close> of at most 212 bytes, cut only if needed, a dash, and the 40
  digits of the hash of the parent's UID and the patch; the group is \<open>core\<close> for the empty
  group.
\<close>
theorem revision_name_fits:
  "length (controllerRevisionName K r parent patchData) \<le> 253 \<and>
   (\<exists>p hash. controllerRevisionName K r parent patchData = p @ ''-'' @ hash \<and>
      p = take 212 (rName r @ ''.'' @ (if rGroup r = '''' then ''core'' else rGroup r)) \<and>
      hash = sha1_hex (GetUID K parent @ patchData) \<and> length hash = 40)"
  by (auto simp: controllerRevisionName_def controllerRevisionHash_def Let_def length_sha1_hex)

section \<open>Patches\<close>

lemma copy_fields_total: "\<exists>dest'. copy_fields src paths dest = Inr dest'"
proof (induction paths arbitrary: dest)
  case (Cons p paths)
  obtain f fs where "split_on CHR ''.'' p = f # fs"
    using split_on_nonempty by (meson neq_Nil_conv)
  with Cons show ?case by (auto simp: Let_def SetNestedField_def)
qed simp

lemma copy_fields_frame:
  assumes "copy_fields src paths dest = Inr dest'"
    and "\<forall>p \<in> set paths. diverge (split_on CHR ''.'' p) q"
  shows "GetNestedField dest' q = GetNestedField dest q"
  using assms
proof (induction paths arbitrary: dest)
  case (Cons p paths)
  then show ?case
    by (auto simp: Let_def Get_Set_other split: if_splits sum.splits)
qed simp

text \<open>The paths name different places: none is a prefix of another.\<close>

abbreviation independent :: "string list \<Rightarrow> bool" where
  "independent paths \<equiv> sorted_wrt (\<lambda>p q. diverge (split_on CHR ''.'' p) (split_on CHR ''.'' q)) paths"

lemma copy_fields_at:
  assumes "copy_fields src paths dest = Inr dest'" and "independent paths" and "p \<in> set paths"
  shows "GetNestedField dest' (split_on CHR ''.'' p) =
    (if GetNestedField src (split_on CHR ''.'' p) = JNull then GetNestedField dest (split_on CHR ''.'' p)
     else GetNestedField src (split_on CHR ''.'' p))"
  using assms
proof (induction paths arbitrary: dest)
  case (Cons q paths)
  let ?s = "split_on CHR ''.''"
  obtain d where d: "(if GetNestedField src (?s q) = JNull then d = dest
      else SetNestedField dest (GetNestedField src (?s q)) (?s q) = Inr d)"
    and rest: "copy_fields src paths d = Inr dest'"
    using Cons.prems(1) by (auto simp: Let_def split: if_splits sum.splits)
  have indep: "\<forall>q' \<in> set paths. diverge (?s q') (?s q)" "independent paths"
    using Cons.prems(2) by (auto simp: diverge_sym)
  show ?case
  proof (cases "p \<in> set paths")
    case True
    with indep have "diverge (?s q) (?s p)" by (simp add: diverge_sym)
    with d have "GetNestedField d (?s p) = GetNestedField dest (?s p)"
      by (auto simp: Get_Set_other split: if_splits)
    with Cons.IH [OF rest indep(2) True] show ?thesis by simp
  next
    case False
    with Cons.prems(3) have "p = q" by simp
    with copy_fields_frame [OF rest indep(1)] d show ?thesis
      by (auto simp: Get_Set_same split: if_splits)
  qed
qed simp

text \<open>
  C31: Patches round-trip. For field paths of which none is a prefix of another, taking the
  patch of a parent and applying it to a later parent cannot fail, and puts back the old
  value at each of the paths; everything away from the paths is left as it is. Only a path at
  which the old parent had nothing keeps the value of the later one.
\<close>
theorem patch_round_trip:
  assumes "independent paths"
  shows "\<exists>patch dest'. makePatch src paths = Inr patch \<and> applyPatch dest patch paths = Inr dest' \<and>
    (\<forall>p \<in> set paths. GetNestedField dest' (split_on CHR ''.'' p) =
       (if GetNestedField src (split_on CHR ''.'' p) = JNull then GetNestedField dest (split_on CHR ''.'' p)
        else GetNestedField src (split_on CHR ''.'' p))) \<and>
    (\<forall>q. (\<forall>p \<in> set paths. diverge (split_on CHR ''.'' p) q) \<longrightarrow>
       GetNestedField dest' q = GetNestedField dest q)"
proof -
  obtain patch where patch: "copy_fields src paths [] = Inr patch" using copy_fields_total by blast
  obtain dest' where dest': "copy_fields patch paths dest = Inr dest'" using copy_fields_total by blast
  have "GetNestedField patch (split_on CHR ''.'' p) = GetNestedField src (split_on CHR ''.'' p)"
    if "p \<in> set paths" for p
  proof -
    have "split_on CHR ''.'' p \<noteq> []" by simp
    then have "GetNestedField [] (split_on CHR ''.'' p) = JNull"
      by (cases "split_on CHR ''.'' p") (auto simp: GetNestedField_def index_def)
    with copy_fields_at [OF patch assms that] show ?thesis by simp
  qed
  with copy_fields_at [OF dest' assms] copy_fields_frame [OF dest'] patch dest' show ?thesis
    by (auto simp: makePatch_def applyPatch_def)
qed

theorem patch_round_trip_witness:
  "\<exists>patch dest'. makePatch [(''spec'', JObj [(''a'', JInt 1)])] [''spec.a'', ''spec.b''] = Inr patch \<and>
     applyPatch [(''spec'', JObj [(''a'', JInt 2), (''b'', JInt 3)])] patch [''spec.a'', ''spec.b''] = Inr dest' \<and>
     GetNestedField dest' [''spec'', ''a''] = JInt 1 \<and> GetNestedField dest' [''spec'', ''b''] = JInt 3"
  using patch_round_trip [of "[''spec.a'', ''spec.b'']" "[(''spec'', JObj [(''a'', JInt 1)])]"
      "[(''spec'', JObj [(''a'', JInt 2), (''b'', JInt 3)])]"]
  by (simp add: GetNestedField_def index_def) blast

section \<open>The requests for revisions\<close>

definition cr_did ::
  "'s cr_world \<Rightarrow> 's cr_world \<Rightarrow> cr_request list \<Rightarrow> gerr option \<Rightarrow> bool" where
  "cr_did W W' plan res =
     (\<exists>ts. crCalls W' = crCalls W @ ts \<and>
        (case res of
           None \<Rightarrow> map fst ts = plan \<and> list_all (\<lambda>(q, r). isOK r) ts
         | Some err \<Rightarrow> prefix (map fst ts) plan \<and> ts \<noteq> [] \<and> \<not> isOK (snd (last ts)) \<and>
             list_all (\<lambda>(q, r). isOK r) (butlast ts)))"

lemma crCalls_cr_call: "cr_call C q W = (resp, W') \<Longrightarrow> crCalls W' = crCalls W @ [(q, resp)]"
  by (auto simp: cr_call_def split: prod.splits)

lemma cr_did_none: "cr_did W W [] None"
  by (simp add: cr_did_def)

lemma cr_did_stop: "cr_call C q W = (Inl e, W') \<Longrightarrow> cr_did W W' (q # plan) (Some err)"
  by (auto simp: cr_did_def dest: crCalls_cr_call)

lemma cr_did_step:
  assumes "cr_call C q W = (Inr x, W1)" and "cr_did W1 W' plan res"
  shows "cr_did W W' (q # plan) res"
proof -
  from assms(2) obtain ts where "crCalls W' = crCalls W1 @ ts"
    "case res of None \<Rightarrow> map fst ts = plan \<and> list_all (\<lambda>(q, r). isOK r) ts
     | Some err \<Rightarrow> prefix (map fst ts) plan \<and> ts \<noteq> [] \<and> \<not> isOK (snd (last ts)) \<and>
         list_all (\<lambda>(q, r). isOK r) (butlast ts)"
    by (auto simp: cr_did_def)
  with crCalls_cr_call [OF assms(1)] show ?thesis unfolding cr_did_def
    by (intro exI [of _ "(q, Inr x) # ts"]) (auto split: option.splits)
qed

lemma cr_did_trans:
  assumes "cr_did W W1 plan1 None" and "cr_did W1 W' plan2 res"
  shows "cr_did W W' (plan1 @ plan2) res"
proof -
  from assms(1) obtain ts1 where "crCalls W1 = crCalls W @ ts1" "map fst ts1 = plan1"
    "list_all (\<lambda>(q, r). isOK r) ts1"
    by (auto simp: cr_did_def)
  moreover from assms(2) obtain ts where "crCalls W' = crCalls W1 @ ts"
    "case res of None \<Rightarrow> map fst ts = plan2 \<and> list_all (\<lambda>(q, r). isOK r) ts
     | Some err \<Rightarrow> prefix (map fst ts) plan2 \<and> ts \<noteq> [] \<and> \<not> isOK (snd (last ts)) \<and>
         list_all (\<lambda>(q, r). isOK r) (butlast ts)"
    by (auto simp: cr_did_def)
  ultimately show ?thesis unfolding cr_did_def
    by (intro exI [of _ "ts1 @ ts"]) (auto simp: butlast_append split: option.splits)
qed

lemma cr_did_longer: "cr_did W W' plan (Some e) \<Longrightarrow> cr_did W W' (plan @ plan') (Some e')"
  by (fastforce simp: cr_did_def)

text \<open>
  The plan: delete the observed revisions whose name is no longer wanted, each by its UID;
  then, for every desired one, nothing if it is what was observed, an update if an observed
  one has its name, and otherwise its creation with the parent as an owner.
\<close>

definition revision_write ::
  "owner_ref \<Rightarrow> controller_revision list \<Rightarrow> controller_revision \<Rightarrow> cr_request option" where
  "revision_write ownerRef observed r =
     (case find (\<lambda>o'. crName o' = crName r) (rev observed) of
        Some old \<Rightarrow> if old = r then None else Some (CRUpdate r)
      | None \<Rightarrow> Some (CRCreate (r\<lparr>crOwnerReferences := crOwnerReferences r @ [ownerRef]\<rparr>)))"

definition revision_plan ::
  "owner_ref \<Rightarrow> controller_revision list \<Rightarrow> controller_revision list \<Rightarrow> cr_request list" where
  "revision_plan ownerRef observed desired =
     map (\<lambda>r. CRDelete (crName r) (crUID r)) (filter (\<lambda>r. crName r \<notin> crName ` set desired) observed) @
     List.map_filter (revision_write ownerRef observed) desired"

lemma rev_map_last:
  "map_of (rev_map revisions) n = find (\<lambda>r. crName r = n) (rev revisions)"
proof -
  have "map_of (fold (\<lambda>r m. mput (crName r) r m) rs m) n =
      (case find (\<lambda>r. crName r = n) (rev rs) of Some r \<Rightarrow> Some r | None \<Rightarrow> map_of m n)" for rs m
    by (induction rs arbitrary: m) (auto simp: find_snoc split: option.splits)
  from this [of revisions "[]"] show ?thesis by (simp add: rev_map_def split: option.split)
qed

lemma rev_map_named: "map_of (rev_map revisions) n \<noteq> None \<longleftrightarrow> n \<in> crName ` set revisions"
  by (auto simp: rev_map_last find_None_iff)

lemma delete_revisions_did:
  "delete_revisions C t (rev_map desired) observed W = (res, W') \<Longrightarrow>
   cr_did W W' (map (\<lambda>r. CRDelete (crName r) (crUID r))
     (filter (\<lambda>r. crName r \<notin> crName ` set desired) observed)) res"
proof (induction observed arbitrary: W)
  case (Cons r observed)
  show ?case
  proof (cases "crName r \<in> crName ` set desired")
    case True
    then have "map_of (rev_map desired) (crName r) \<noteq> None" using rev_map_named by blast
    with True Cons show ?thesis by auto
  next
    case False
    then have "map_of (rev_map desired) (crName r) = None" using rev_map_named by blast
    with False Cons show ?thesis
      by (auto intro: cr_did_stop cr_did_step split: prod.splits sum.splits)
  qed
qed (simp add: cr_did_none)

lemma write_revisions_did:
  "write_revisions C t ownerRef (rev_map observed) desired W = (res, W') \<Longrightarrow>
   cr_did W W' (List.map_filter (revision_write ownerRef observed) desired) res"
proof (induction desired arbitrary: W)
  case (Cons r desired)
  then show ?case
    by (auto simp: rev_map_last revision_write_def map_filter_simps intro: cr_did_stop cr_did_step
        split: prod.splits sum.splits option.splits if_splits)
qed (simp add: cr_did_none map_filter_simps)

lemma manageRevisions_did:
  assumes "manageRevisions X P parent observed desired W = (res, W')"
  shows "cr_did W W' (revision_plan (MakeOwnerRef (ceKube X) parent) observed desired) res"
proof -
  let ?C = "ceRevisions X (GetNamespace (ceKube X) parent)"
  let ?t = "rKind (ccParentResource P) @ '' '' @ ns_name (ceKube X) parent"
  obtain e W1 where d: "delete_revisions ?C ?t (rev_map desired) observed W = (e, W1)" by fastforce
  show ?thesis
  proof (cases e)
    case None
    with assms d have "write_revisions ?C ?t (MakeOwnerRef (ceKube X) parent) (rev_map observed) desired W1 = (res, W')"
      by (simp add: manageRevisions_def Let_def)
    with delete_revisions_did [OF d] None show ?thesis
      unfolding revision_plan_def by (auto intro: cr_did_trans write_revisions_did)
  next
    case (Some err)
    with assms d have "res = Some err" "W' = W1" by (simp_all add: manageRevisions_def Let_def)
    with delete_revisions_did [OF d] Some show ?thesis
      unfolding revision_plan_def by (auto intro: cr_did_longer)
  qed
qed


definition revision_named :: "string \<Rightarrow> controller_revision" where
  "revision_named n = \<lparr>crAPIVersion = ''metac.openebs.io/v1alpha1'', crKind = ''ControllerRevision'',
     crNamespace = '''', crName = n, crUID = n @ ''-uid'', crDeletionTimestamp = None, crLabels = None,
     crAnnotations = None, crOwnerReferences = [], crParentPatch = '''', crChildren = []\<rparr>"

text \<open>A cluster in which every label selector is its \<open>matchLabels\<close>, and no revision is cached.\<close>

definition label_std :: label_lib where
  "label_std =
     \<lparr>AddLabelToSelector = \<lambda>s k v. s\<lparr>matchLabels := mput k v (matchLabels s)\<rparr>,
      LabelSelectorAsSelector = \<lambda>s. Inr
        \<lparr>selMatches = \<lambda>ls. list_all (\<lambda>(k, v). map_of ls k = Some v) (matchLabels s),
         selEmpty = (matchLabels s = [])\<rparr>,
      marshalField = \<lambda>_. Inr '''', unmarshalSelector = \<lambda>_ s. Inr s\<rparr>"

definition revisions_env :: "server cenv" where
  "revisions_env =
     \<lparr>ceDyn = std_env, ceClients = pod_cluster,
      ceRevisions = \<lambda>_. \<lparr>crKube = std_kube, crControllerOf = \<lambda>_. None,
        crExec = \<lambda>q s. (Inr (revision_named ''x''), s), crRetry = attempts 3\<rparr>,
      ceRevisionLister = \<lambda>_. Inr [], ceLabels = label_std,
      ceInvokeHook = \<lambda>req. Inr \<lparr>rsStatus = Some [], rsChildren = [], rsResyncAfterSeconds = 5,
        rsFinalized = False\<rparr>\<rparr>"

definition pod_composite :: composite where
  "pod_composite =
     \<lparr>ccNamespace = '''', ccName = ''c'', ccKind = ''CompositeController'', ccParentResource = pods ! 0, ccRevisionHistory = None,
      ccChildResources = [], ccGenerateSelector = Some True, ccHooks = Some (True, False),
      ccStrategy = pod_strategies, ccFinalizer = \<lparr>fName = ''f'', fEnabled = False\<rparr>,
      ccParentClient = pod_client\<rparr>"

lemma pod_composite_sel: "ccRevisionHistory pod_composite = None" "ccParentResource pod_composite = pods ! 0"
  by (simp_all add: pod_composite_def)

definition revisions_world :: "server cworld" where
  "revisions_world = \<lparr>crSrv = pod_world, crCalls = []\<rparr>"

lemma revisions_env_sel [simp]:
  "ceKube revisions_env = std_kube" "ceDyn revisions_env = std_env" "ceLabels revisions_env = label_std"
  "ceClients revisions_env = pod_cluster" "ceRevisionLister revisions_env ns = Inr []"
  "crExec (ceRevisions revisions_env ns) q s = (Inr (revision_named ''x''), s)"
  "crRetry (ceRevisions revisions_env ns) = attempts 3"
  by (simp_all add: revisions_env_def)


section \<open>The response of a pass\<close>

text \<open>The children an older revision claims and still wants, in the order of its claims.\<close>

definition wanted_children :: "parent_revision \<Rightarrow> obj list" where
  "wanted_children pr = concat (map (\<lambda>ck. List.map_filter (\<lambda>name.
     case FindByGroupKindName (prDesired pr) (rcAPIGroup ck) (rcKind ck) name of Inr x \<Rightarrow> x | Inl p \<Rightarrow> None)
     (rcNames ck)) (crChildren (prRevision pr)))"

lemma overwrite_names_fold:
  "overwrite_names K parent older g k names desired = Inr desired' \<Longrightarrow>
   desired' = fold (ReplaceByReference K parent) (List.map_filter (\<lambda>name.
     case FindByGroupKindName older g k name of Inr x \<Rightarrow> x | Inl p \<Rightarrow> None) names) desired"
  by (induction names arbitrary: desired)
    (auto simp: map_filter_simps split: sum.splits option.splits)

lemma overwrite_groups_fold:
  "overwrite_groups K parent older cks desired = Inr desired' \<Longrightarrow>
   desired' = fold (ReplaceByReference K parent) (concat (map (\<lambda>ck. List.map_filter (\<lambda>name.
     case FindByGroupKindName older (rcAPIGroup ck) (rcKind ck) name of Inr x \<Rightarrow> x | Inl p \<Rightarrow> None)
     (rcNames ck)) cks)) desired"
  by (induction cks arbitrary: desired) (auto split: sum.splits dest: overwrite_names_fold)

lemma overwrite_children_fold:
  "overwrite_children K parent prs desired = Inr desired' \<Longrightarrow>
   desired' = fold (ReplaceByReference K parent) (concat (map wanted_children prs)) desired"
  by (induction prs arbitrary: desired)
    (auto simp: wanted_children_def split: sum.splits dest: overwrite_groups_fold)

lemma fold_replace_get:
  "reg_get (fold (ReplaceByReference K r) xs m) key name =
   (if reg_get m key name = None then None
    else case find (\<lambda>x. object_key K x = key \<and> relativeName K r x = name) (rev xs) of
      Some x \<Rightarrow> Some (Some x) | None \<Rightarrow> reg_get m key name)"
  by (induction xs arbitrary: m) (auto simp: find_snoc ReplaceByReference_put split: option.splits)

definition delays :: "parent_revision list \<Rightarrow> rat set" where
  "delays prs = {d. d > 0 \<and> d \<in> rsResyncAfterSeconds ` prResult ` set prs}"

lemma finite_delays: "finite (delays prs)"
proof -
  have "delays prs \<subseteq> rsResyncAfterSeconds ` prResult ` set prs" by (auto simp: delays_def)
  then show ?thesis by (rule finite_subset) simp
qed

lemma min_resync_is_min:
  assumes "r \<ge> 0"
  shows "min_resync prs r =
    (let D = delays prs \<union> (if r = 0 then {} else {r}) in if D = {} then 0 else Min D)"
  using assms
proof (induction prs arbitrary: r)
  case Nil
  then show ?case by (simp add: min_resync_def delays_def)
next
  case (Cons pr prs)
  define d where "d = rsResyncAfterSeconds (prResult pr)"
  define r' where "r' = (if d > 0 \<and> (r = 0 \<or> d < r) then d else r)"
  have step: "min_resync (pr # prs) r = min_resync prs r'"
    by (auto simp: min_resync_def r'_def d_def Let_def)
  have del: "delays (pr # prs) = delays prs \<union> (if d > 0 then {d} else {})"
    by (auto simp: delays_def d_def)
  have "r' \<ge> 0" using Cons.prems by (auto simp: r'_def)
  note ih = Cons.IH [OF this]
  show ?case
  proof (cases "d > 0 \<and> r > 0")
    case False
    with Cons.prems have "delays prs \<union> (if r' = 0 then {} else {r'}) =
        delays (pr # prs) \<union> (if r = 0 then {} else {r})"
      by (auto simp: del r'_def)
    with ih step show ?thesis by simp
  next
    case True
    then have r': "r' = min d r" "r' \<noteq> 0" by (auto simp: r'_def)
    have "Min (delays prs \<union> {d, r}) = Min (delays prs \<union> {min d r})"
    proof (cases "delays prs = {}")
      case False
      then show ?thesis using finite_delays [of prs] by (simp add: Min_Un)
    qed simp
    with ih step r' True show ?thesis by (simp add: del Let_def insert_commute)
  qed
qed

text \<open>
  The response of a pass over several revisions takes the status from the latest one, the
  smallest positive delay of all as its delay (none if no delay is positive), and says
  finalized exactly if all do. Its children are, name by name, those the latest revision
  desires, each replaced by the last child under its name that an older revision still claims
  and desires; older revisions add no child.
\<close>
theorem pass_response:
  assumes "overwrite_children K parent (tl prs) (prDesired (prs ! 0)) = Inr desired"
  shows "aggregate_result prs desired =
      \<lparr>rsStatus = rsStatus (prResult (prs ! 0)), rsChildren = List.map_filter id (registry_List desired),
       rsResyncAfterSeconds = (if delays prs = {} then 0 else Min (delays prs)),
       rsFinalized = (\<forall>pr \<in> set prs. rsFinalized (prResult pr))\<rparr> \<and>
    (\<forall>key name. reg_get desired key name =
       (if reg_get (prDesired (prs ! 0)) key name = None then None
        else case find (\<lambda>x. object_key K x = key \<and> relativeName K parent x = name)
            (rev (concat (map wanted_children (tl prs)))) of
          Some x \<Rightarrow> Some (Some x)
        | None \<Rightarrow> reg_get (prDesired (prs ! 0)) key name))"
  using overwrite_children_fold [OF assms] min_resync_is_min [of 0 prs]
  by (simp add: aggregate_result_def all_finalized_def fold_replace_get list_all_iff Let_def)

theorem pass_response_witness:
  "\<exists>desired. overwrite_children std_kube [] (tl [pod_revision None, pod_revision None])
      (prDesired (pod_revision None)) = Inr desired \<and>
    reg_get desired ''Pod.v1'' ''a'' = Some (Some pod_v1) \<and>
    rsResyncAfterSeconds (aggregate_result [pod_revision None, pod_revision None] desired) = 0"
proof -
  obtain desired where run: "overwrite_children std_kube [] (tl [pod_revision None, pod_revision None])
      (prDesired ([pod_revision None, pod_revision None] ! 0)) = Inr desired"
    by (simp add: pod_revision_def pod_key)
  have "delays [pod_revision None, pod_revision None] = {}" by (simp add: delays_def pod_revision_def)
  moreover have "wanted_children (pod_revision None) = [pod_v1]"
    by (simp add: wanted_children_def pod_revision_def pod_key map_filter_simps)
  ultimately show ?thesis using pass_response [OF run] run
    by (auto simp: pod_revision_def reg_get_def group_of_def split: option.splits dest: find_SomeD)
qed

section \<open>One pass\<close>

lemma dyn_reads: "once_cr_reads \<lparr>Watched = p, WatchedKind = k, SelectorMatches = s, CanAdoptFunc = Some (dyn op)\<rparr>"
  by (auto simp: once_cr_reads_def dyn_def cr_reads_def split: prod.splits)

lemma claimRevisions_reads:
  assumes "conflict_retry (crRetry (ceRevisions X (GetNamespace (ceKube X) parent)))"
    and "claimRevisions X P parent W = (res, W')"
  shows "cr_reads W W'"
proof -
  have "cr_reads W W''"
    if "cr_BulkClaim (ceRevisions X (GetNamespace (ceKube X) parent))
       \<lparr>Watched = parent, WatchedKind = k, SelectorMatches = s,
        CanAdoptFunc = Some (dyn (canAdoptFunc X P parent))\<rparr> all (None, W) = ((claimed, errs), (once, W''))"
    for k s all claimed errs once W''
    using cr_BulkClaim_reads [OF assms(1) dyn_reads that] by simp
  with assms(2) show ?thesis
    by (auto simp: claimRevisions_def Let_def cr_reads_refl split: sum.splits prod.splits if_splits)
qed

lemma rolling_sync_cases:
  assumes "rolling_sync X P parent observed revisions W = (Inr resp, W')"
  obtains prs0 prs1 prs desired where "parent_revisions X P parent observed revisions = Inr prs0"
    and "syncRollingUpdate (ceKube X) (ccStrategy P) prs0 observed = Inr prs1"
    and "pruneParentRevisions prs1 = Inr prs"
    and "manageRevisions X P parent revisions (map prRevision prs) W = (None, W')"
    and "overwrite_children (ceKube X) parent (tl prs) (prDesired (prs ! 0)) = Inr desired"
    and "resp = aggregate_result prs desired"
  using assms by (auto simp: rolling_sync_def Let_def split: sum.splits prod.splits option.splits)



lemma pod_pass_claims:
  "claimRevisions revisions_env pod_composite pod_a revisions_world = (Inr [], revisions_world)"
  by (simp add: claimRevisions_def Let_def makeSelector_def base_selector_def label_std_def pod_composite_def
      GetGroupVersionKind_def GetGroupVersion_def pods_def pod_cluster_def core_gv_def cr_BulkClaim_def
      empty_label_selector_def)

definition pod_pass :: "controller_revision \<Rightarrow> parent_revision" where
  "pod_pass r = \<lparr>prParent = pod_a, prRevision = r,
     prResult = \<lparr>rsStatus = Some [], rsChildren = [], rsResyncAfterSeconds = 5, rsFinalized = False\<rparr>,
     prDesired = []\<rparr>"

lemma pod_pass_hook: "callSyncHook revisions_env pod_composite (NewSyncHookRequest pod_a []) = Inr (prResult (pod_pass r))"
  by (simp add: callSyncHook_def Execute_def NewSyncHookRequest_def revisions_env_def pod_composite_def pod_pass_def)

lemma pod_pass_revisions:
  "\<exists>r. crChildren r = [] \<and>
    parent_revisions revisions_env pod_composite pod_a [] [] = Inr [pod_pass r]"
proof -
  have patch: "makePatch pod_a [''spec''] = Inr []"
    by (simp add: makePatch_def pod_a_def GetNestedField_def index_def split_on.simps)
  have "\<exists>data. Marshal std_kube [] = Inr data" by (simp add: std_kube_def)
  then obtain r where r: "newControllerRevision std_kube (pods ! 0) pod_a [] = Inr r" "crChildren r = []"
    by (auto simp: newControllerRevision_def Let_def)
  have "prDesired (pod_pass r) = MakeAnyUnstructRegistryByReference std_kube pod_a (rsChildren (prResult (pod_pass r)))"
    by (simp add: pod_pass_def MakeAnyUnstructRegistryByReference_def)
  then have "call_hooks revisions_env pod_composite pod_a []
      [\<lparr>prParent = pod_a, prRevision = r, prResult = no_response, prDesired = []\<rparr>] = Inr [pod_pass r]"
    by (simp add: pod_pass_hook [of r]) (simp add: pod_pass_def)
  with r patch show ?thesis
    by (intro exI [of _ r]) (simp add: parent_revisions_def field_paths_def pod_composite_sel)
qed

lemma pod_pass_rollout:
  assumes "crChildren r = []"
  shows "\<exists>pr. syncRollingUpdate std_kube pod_strategies [pod_pass r] [] = Inr [pr] \<and>
    prDesired pr = [] \<and> prRevision pr = r"
proof -
  have claims: "syncRevisionClaims pod_strategies [pod_pass r] = Inr ([pod_pass r], [])"
    using assms by (simp add: syncRevisionClaims_def pod_pass_def with_children_def)
  have "\<exists>pr. with_condition c [pod_pass r] = Inr [pr] \<and> prDesired pr = [] \<and> prRevision pr = r" for c
    by (rule SetCondition_eq [of "[]" c]) (simp add: with_condition_def pod_pass_def)
  then show ?thesis by (simp add: syncRollingUpdate_def claims) (simp add: pod_pass_def)
qed


end
