(* ===== verification/CompositePlan.thy ===== *)
theory CompositePlan
  imports Composite RevisionsPlan Logs
begin

text \<open>
  What a composite controller guarantees: the calls of a pass and their order, the labels of
  the children it creates, the keys its events and its worker put into the queue, and the
  balance of its informer subscriptions.
\<close>

section \<open>The calls of the steps\<close>

abbreviation parent_finalizer_write :: "kube \<Rightarrow> composite \<Rightarrow> obj \<Rightarrow> request \<Rightarrow> bool" where
  "parent_finalizer_write K P \<equiv> finalizer_write K (ccParentClient P) (ccFinalizer P)"

lemma canAdopt_logs:
  assumes "canAdoptFunc C P p w = (e, w')"
  shows "logs is_read w w'"
  using assms unfolding canAdoptFunc_def ErrorOnDeletionTimestamp_def fresh_parent_def Let_def
  by (auto split: prod.splits sum.splits if_splits dest: logs_call [where P = is_read])

lemma children_manager_reads: "once_reads (children_manager X P p gvk sel)"
  using canAdopt_logs by (fastforce simp: once_reads_def children_manager_def logs_def list_all_iff)

text \<open>Adoption and release of a child of the parent \<open>p\<close>.\<close>

definition child_claim :: "'s penv \<Rightarrow> composite \<Rightarrow> obj \<Rightarrow> request \<Rightarrow> bool" where
  "child_claim X P p q =
     (\<exists>gvk sel c x. claim_write (peKube X) (children_manager X P p gvk sel) c x q)"

lemma claim_kinds_of_logs:
  assumes "conflict_retry (retryOf (ceDyn (peC X)))"
  shows "claim_kinds_of X pc p gvk sel rules m w = (r, w') \<Longrightarrow>
    logs (\<lambda>q. is_read q \<or> child_claim X (pcComposite pc) p q) w w'"
proof (induction rules arbitrary: m w)
  case (Cons rule rules)
  obtain av res st where rule: "rule = (av, res, st)" by (metis prod_cases3)
  have step: "logs (\<lambda>q. is_read q \<or> child_claim X (pcComposite pc) p q) w w1"
    if "BulkClaim (ceDyn (peC X)) (children_manager X (pcComposite pc) p gvk sel) c xs (None, w) = ((ch, er), (on, w1))"
    for c xs ch er on w1
  proof -
    from BulkClaim_log [OF assms children_manager_reads that] obtain ts where "calls w1 = calls w @ ts"
      "\<forall>(q, resp) \<in> set ts. is_read q \<or>
         (\<exists>x \<in> set xs. claim_write (peKube X) (children_manager X (pcComposite pc) p gvk sel) c x q)"
      by (auto simp: claim_log_def)
    then show ?thesis unfolding logs_def child_claim_def list_all_iff by blast
  qed
  show ?case
    using Cons.prems Cons.IH step logs_trans unfolding rule
    by (fastforce simp: Let_def split: sum.splits option.splits prod.splits if_splits)
qed simp

lemma claimChildren_logs:
  assumes "conflict_retry (retryOf (ceDyn (peC X)))" and "claimChildren X pc p w = (r, w')"
  shows "logs (\<lambda>q. is_read q \<or> child_claim X (pcComposite pc) p q) w w'"
  using assms(2) claim_kinds_of_logs [OF assms(1)]
  by (auto simp: claimChildren_def Let_def split: sum.splits)

text \<open>
  What is asked of the client for controller revisions: its retry is a retry on conflicts, and
  its calls are not calls of the dynamic client.
\<close>

definition revision_client_ok :: "'s cenv \<Rightarrow> bool" where
  "revision_client_ok C = (\<forall>ns. conflict_retry (crRetry (ceRevisions C ns)) \<and>
     (\<forall>q w r w'. crExec (ceRevisions C ns) q w = (r, w') \<longrightarrow> calls w' = calls w))"

abbreviation dyn_reads :: "'s cworld \<Rightarrow> 's cworld \<Rightarrow> bool" where
  "dyn_reads W W' \<equiv> logs is_read (crSrv W) (crSrv W')"

lemma cr_call_dyn:
  assumes "revision_client_ok C" and "cr_call (ceRevisions C ns) q W = (r, W')"
  shows "dyn_reads W W'"
proof -
  obtain s' where "crExec (ceRevisions C ns) q (crSrv W) = (r, s')" "crSrv W' = s'"
    using assms(2) by (auto simp: cr_call_def split: prod.splits)
  with assms(1) show ?thesis unfolding revision_client_ok_def by (metis logs_same)
qed

lemma updateWithRetries_dyn:
  assumes "revision_client_ok C" and "updateWithRetries (ceRevisions C ns) orig f W = (e, r, W')"
  shows "dyn_reads W W'"
proof -
  let ?C = "ceRevisions C ns"
  have retry: "conflict_retry (crRetry ?C)" using assms(1) by (simp add: revision_client_ok_def)
  have step: "dyn_reads W (snd s')" if "dyn_reads W (snd s)" "cr_attempt ?C orig f s = (e, s')" for s e s'
  proof -
    obtain resp W1 where c: "cr_call ?C (CRGet (crName orig)) (snd s) = (resp, W1)" by fastforce
    with that(2) have "snd s' = W1"
      by (cases s) (auto simp: cr_attempt_def split: sum.splits if_splits prod.splits bool.splits)
    with cr_call_dyn [OF assms(1) c] that(1) show ?thesis by (auto intro: logs_trans)
  qed
  have start: "dyn_reads W (snd (None :: controller_revision option, W))" by simp
  have run: "crRetry ?C (cr_attempt ?C orig f) (None, W) = (e, r, W')"
    using assms(2) by (simp add: updateWithRetries_def)
  obtain s1 where "dyn_reads W (snd s1)" "cr_attempt ?C orig f s1 = (e, r, W')"
    using conflict_retry.retry_last [where P = "\<lambda>s. dyn_reads W (snd s)", OF retry run start] step by blast
  with step [of s1 e "(r, W')"] show ?thesis by simp
qed

lemma cr_BulkClaim_dyn:
  assumes ok: "revision_client_ok C"
    and run: "cr_BulkClaim (ceRevisions C ns) \<lparr>Watched = p, WatchedKind = k, SelectorMatches = s,
        CanAdoptFunc = Some (dyn (canAdoptFunc C P p))\<rparr> all st = ((claimed, errs), st')"
  shows "dyn_reads (snd st) (snd st')"
proof (rule claim_all_inv [where I = "\<lambda>st'. dyn_reads (snd st) (snd st')"])
  let ?m = "\<lparr>Watched = p, WatchedKind = k, SelectorMatches = s, CanAdoptFunc = Some (dyn (canAdoptFunc C P p))\<rparr>"
  show "claim_all (claim_revision (ceRevisions C ns) ?m) all [] [] st = ((claimed, errs), st')"
    using run by (simp add: cr_BulkClaim_def)
  show "dyn_reads (snd st) (snd st)" by simp
  fix x s0 r s1
  assume "dyn_reads (snd st) (snd s0)" and claim: "claim_revision (ceRevisions C ns) ?m x s0 = (r, s1)"
  moreover have "dyn_reads (snd s0) (snd s1)"
    using claim unfolding claim_revision_def
  proof (cases rule: Claim_cases)
    case skip
    then show ?thesis by simp
  next
    case (release ref e)
    then show ?thesis using updateWithRetries_dyn [OF ok]
      by (cases s0) (auto simp: cr_release_def split: prod.splits option.splits)
  next
    case (adopt e)
    obtain e1 on W1 where can: "CanAdopt ?m s0 = (e1, on, W1)" by (metis prod_cases3)
    have "dyn_reads (snd s0) W1"
      using can canAdopt_logs [of C P p] by (auto simp: CanAdopt_def dyn_def split: prod.splits option.splits)
    with adopt can updateWithRetries_dyn [OF ok] show ?thesis
      by (auto simp: cr_adopt_def intro: logs_trans split: prod.splits option.splits)
  qed
  ultimately show "dyn_reads (snd st) (snd s1)" by (auto intro: logs_trans)
qed

lemma claimRevisions_dyn:
  assumes "revision_client_ok C" and "claimRevisions C P p W = (r, W')"
  shows "dyn_reads W W'"
  using assms(2) cr_BulkClaim_dyn [OF assms(1), where st = "(None, W)"]
  by (fastforce simp: claimRevisions_def Let_def split: sum.splits prod.splits if_splits)

lemma delete_revisions_dyn:
  "revision_client_ok C \<Longrightarrow> delete_revisions (ceRevisions C ns) t m rs W = (r, W') \<Longrightarrow> dyn_reads W W'"
proof (induction rs arbitrary: W)
  case (Cons x rs)
  then show ?case using cr_call_dyn [OF Cons.prems(1)]
    by (fastforce split: if_splits prod.splits sum.splits intro: logs_trans)
qed simp

lemma write_revisions_dyn:
  "revision_client_ok C \<Longrightarrow> write_revisions (ceRevisions C ns) t o' m rs W = (r, W') \<Longrightarrow> dyn_reads W W'"
proof (induction rs arbitrary: W)
  case (Cons x rs)
  have step: "dyn_reads W W'" if "cr_call (ceRevisions C ns) q W = (resp, W1)"
    "write_revisions (ceRevisions C ns) t o' m rs W1 = (r, W')" for q resp W1
    using that Cons.IH [OF Cons.prems(1)] cr_call_dyn [OF Cons.prems(1)] logs_trans by blast
  from Cons.prems(2) cr_call_dyn [OF Cons.prems(1)] Cons.IH [OF Cons.prems(1)] step show ?case
    by (auto split: option.splits if_splits prod.splits sum.splits)
qed simp

lemma manageRevisions_dyn:
  assumes "revision_client_ok C" and "manageRevisions C P p obs des W = (r, W')"
  shows "dyn_reads W W'"
  using assms(2) unfolding manageRevisions_def Let_def
  by (auto split: prod.splits option.splits)
    (metis delete_revisions_dyn [OF assms(1)] write_revisions_dyn [OF assms(1)] logs_trans)+

lemma syncRevisions_dyn:
  assumes "revision_client_ok C" and "syncRevisions C P p obs W = (r, W')"
  shows "dyn_reads W W'"
proof -
  have rolling: "dyn_reads W W'" if "rolling_sync C P p obs revs W = (r, W')" for revs W W'
    using that manageRevisions_dyn [OF assms(1)]
    by (auto simp: rolling_sync_def Let_def split: sum.splits prod.splits option.splits)
  from assms(2) show ?thesis unfolding syncRevisions_def Let_def
    by (auto split: if_splits prod.splits sum.splits)
      (metis rolling claimRevisions_dyn [OF assms(1)] logs_trans)+
qed

section \<open>Labels\<close>

text \<open>A desired child after the labels were checked.\<close>

definition labelled :: "kube \<Rightarrow> composite \<Rightarrow> obj \<Rightarrow> selector \<Rightarrow> obj option \<Rightarrow> obj option \<Rightarrow> bool" where
  "labelled K P parent selector x x' =
     (\<exists>child labels. x = Some child \<and> NestedStringMap K child [''metadata'', ''labels''] = Inr labels \<and>
        selMatches selector (fst (with_uid_label K P parent child labels)) \<and>
        x' = Some (snd (with_uid_label K P parent child labels)))"

lemma enforce_group_labelled:
  "enforce_group K P parent sel g = Inr g' \<Longrightarrow>
   list_all2 (\<lambda>(n, x) (n', x'). n' = n \<and> labelled K P parent sel x x') g g'"
proof (induction K P parent sel g arbitrary: g' rule: enforce_group.induct)
  case (3 K P parent sel name child children)
  then obtain labels lab child' children' where
    "NestedStringMap K child [''metadata'', ''labels''] = Inr labels"
    "with_uid_label K P parent child labels = (lab, child')" "selMatches sel lab"
    "enforce_group K P parent sel children = Inr children'" "g' = (name, Some child') # children'"
    by (auto simp: Let_def split: sum.splits prod.splits if_splits)
  with 3 show ?case by (auto simp: labelled_def)
qed simp_all

lemma enforce_labels_labelled:
  "enforce_labels K P parent sel m = Inr m' \<Longrightarrow>
   list_all2 (\<lambda>(key, g) (key', g'). key' = key \<and>
     list_all2 (\<lambda>(n, x) (n', x'). n' = n \<and> labelled K P parent sel x x') g g') m m'"
  by (induction m arbitrary: m') (auto split: sum.splits dest: enforce_group_labelled)

lemma map_of_list_all2:
  assumes "list_all2 (\<lambda>(n, x) (n', x'). n' = n \<and> R x x') g g'"
  shows "rel_option R (map_of g n) (map_of g' n)"
  using assms by (induction rule: list_all2_induct) auto

lemma enforce_labels_get:
  assumes "enforce_labels K P parent sel m = Inr m'"
  shows "rel_option (labelled K P parent sel) (reg_get m key n) (reg_get m' key n)"
proof -
  have "rel_option (\<lambda>g g'. list_all2 (\<lambda>(n, x) (n', x'). n' = n \<and> labelled K P parent sel x x') g g')
      (map_of m key) (map_of m' key)"
    by (rule map_of_list_all2) (rule enforce_labels_labelled [OF assms])
  then show ?thesis
    by (cases "map_of m key"; cases "map_of m' key")
      (auto simp: reg_get_def group_of_def intro: map_of_list_all2)
qed

section \<open>A pass\<close>

text \<open>Whether the children of a parent are managed at all.\<close>

definition manages :: "kube \<Rightarrow> composite \<Rightarrow> obj \<Rightarrow> bool" where
  "manages K P p = (GetDeletionTimestamp K p = None \<or> ShouldFinalize K (ccFinalizer P) p)"

definition children_plan :: "'s penv \<Rightarrow> composite \<Rightarrow> obj \<Rightarrow> registry \<Rightarrow> registry \<Rightarrow> request list" where
  "children_plan X P p observed desired =
     registry_requests (ceClients (peC X)) (\<lambda>client key objects.
       group_deletes (peKube X) client (group_of desired key) objects) observed @
     registry_requests (ceClients (peC X)) (\<lambda>client key objects.
       group_updates (peKube X) client (strategy_Get (ccStrategy P)) p (group_of observed key) objects) desired"

lemma reconcile_children_did:
  assumes "reconcile_children X pc p observed desired W = (Inr err, W')"
  shows "did (crSrv W) (crSrv W')
    (if manages (peKube X) (pcComposite pc) p then children_plan X (pcComposite pc) p observed desired else [])
    (err = None)"
proof (cases "manages (peKube X) (pcComposite pc) p")
  case True
  with assms obtain r w' where
    "ManageChildren (ceDyn (peC X)) (ceClients (peC X)) (strategy_Get (ccStrategy (pcComposite pc))) p
       observed desired (crSrv W) = (Inr r, w')" and eq: "crSrv W' = w'" "err = None \<longleftrightarrow> r = None"
    by (auto simp: reconcile_children_def manages_def dyn_def Let_def split: prod.splits sum.splits option.splits)
  from ManageChildren_did [OF this(1)] True eq show ?thesis by (simp add: children_plan_def)
next
  case False
  with assms show ?thesis
    by (auto simp: reconcile_children_def manages_def did_none split: if_splits)
qed

lemma finish_finalizer_logs:
  assumes "conflict_retry (retryOf (ceDyn (peC X)))" and "finish_finalizer X pc p fin W = (r, W')"
  shows "logs (\<lambda>q. is_read q \<or> parent_finalizer_write (peKube X) (pcComposite pc) p q) (crSrv W) (crSrv W')"
proof (cases fin)
  case True
  obtain r1 w1 where rm: "rc_RemoveFinalizer (ceDyn (peC X)) (Namespace (ccParentClient (pcComposite pc)) (GetNamespace (peKube X) p)) p
      (fName (ccFinalizer (pcComposite pc))) (crSrv W) = (r1, w1)" by fastforce
  with assms(2) True have "crSrv W' = w1"
    by (auto simp: finish_finalizer_def dyn_def Let_def split: sum.splits option.splits)
  with rc_RemoveFinalizer_logs [OF assms(1) rm] show ?thesis by simp
qed (use assms(2) in \<open>simp add: finish_finalizer_def\<close>)

definition final_status :: "kube \<Rightarrow> obj \<Rightarrow> obj option \<Rightarrow> obj" where
  "final_status K p status = mput ''observedGeneration'' (JInt (GetGeneration K p)) (mrange status)"

definition parent_at :: "'s penv \<Rightarrow> composite \<Rightarrow> obj \<Rightarrow> resource_client" where
  "parent_at X P p = Namespace (ccParentClient P) (GetNamespace (peKube X) p)"

text \<open>A pass that ends without an error went through all its steps.\<close>

lemma syncParentObject_ok:
  assumes "syncParentObject X pc p0 Q = (None, Q')"
  obtains p1 W1 observed W2 resp W3 p W4 selector desired W5 updated W6 where
    "dyn (SyncObject (ceDyn (peC X)) (ccFinalizer (pcComposite pc)) (ccParentClient (pcComposite pc)) p0) (qwWorld Q)
       = (Inr (Some p1), W1)"
    "dyn (claimChildren X pc p1) W1 = (Inr observed, W2)"
    "syncRevisions (peC X) (pcComposite pc) p1 observed W2 = (Inr resp, W3)"
    "finish_finalizer X pc p1 (rsFinalized resp) W3 = (Inr p, W4)"
    "makeSelector (peC X) (pcComposite pc) p [] = Inr selector"
    "enforce_labels (peKube X) (pcComposite pc) p selector
       (MakeAnyUnstructRegistryByReference (peKube X) p1 (rsChildren resp)) = Inr desired"
    "reconcile_children X pc p observed desired W4 = (Inr None, W5)"
    "dyn (updateParentStatus X pc p (rsStatus resp)) W5 = (Inr updated, W6)" "qwWorld Q' = W6"
  using assms
  by (fastforce simp: syncParentObject_def apply_response_def enqueue_def Let_def
      split: prod.splits sum.splits option.splits)

text \<open>
  The calls \<open>ts\<close> bring about a status: they only read, or write a live object with this status
  and no other change, and the status was found in a live object or its write accepted.
\<close>

definition status_written ::
  "'s penv \<Rightarrow> composite \<Rightarrow> obj \<Rightarrow> obj \<Rightarrow> (request \<times> obj res) list \<Rightarrow> bool" where
  "status_written X P p status ts =
     (let K = peKube X; rc = parent_at X P p; put = (\<lambda>x. status_write rc (mput ''status'' (JObj status) x)) in
      list_all (\<lambda>(q, r). is_read q \<or> (\<exists>current. GetUID K current = GetUID K p \<and> q = put current)) ts \<and>
      (\<exists>current. (rc_Get rc (GetName K p), Inr current) \<in> set ts \<and> GetUID K current = GetUID K p \<and>
        (deep_equal (index current ''status'') (JObj status) \<or> (\<exists>y. (put current, Inr y) \<in> set ts))))"

lemma updateParentStatus_outcome:
  assumes "conflict_retry (retryOf (ceDyn (peC X)))"
    and "updateParentStatus X pc p status w = (Inr updated, w')"
  shows "\<exists>after. calls w' = calls w @ after \<and>
    status_written X (pcComposite pc) p (final_status (peKube X) p status) after"
proof -
  let ?K = "peKube X"
  define st rc where "st = final_status ?K p status" and "rc = parent_at X (pcComposite pc) p"
  have "AtomicStatusUpdate (ceDyn (peC X)) rc p (status_update st) w = (Inr updated, w')"
    using assms(2) by (simp add: updateParentStatus_def Let_def st_def rc_def final_status_def parent_at_def)
  from AtomicStatusUpdate_log [OF assms(1) this] obtain after where after: "calls w' = calls w @ after"
    "list_all (\<lambda>(q, resp). is_read q \<or> live_write ?K (status_write rc) p (status_update st) q) after"
    "update_outcome (rc_Get rc (GetName ?K p)) (status_write rc) ?K p (status_update st) after updated"
    by auto
  have "list_all (\<lambda>(q, r). is_read q \<or> (\<exists>current. GetUID ?K current = GetUID ?K p \<and>
      q = status_write rc (mput ''status'' (JObj st) current))) after"
    using after(2) by (fastforce simp: list_all_iff live_write_def status_update_def split: if_splits)
  moreover have "\<exists>current. (rc_Get rc (GetName ?K p), Inr current) \<in> set after \<and> GetUID ?K current = GetUID ?K p \<and>
      (deep_equal (index current ''status'') (JObj st) \<or>
       (\<exists>y. (status_write rc (mput ''status'' (JObj st) current), Inr y) \<in> set after))"
    using after(3) by (auto simp: update_outcome_def status_update_def split: if_splits)
  ultimately show ?thesis using after(1)
    by (intro exI [of _ after]) (simp add: status_written_def Let_def st_def rc_def)
qed


section \<open>A controller of pods\<close>

definition plain_composite :: composite where
  "plain_composite = pod_composite\<lparr>ccStrategy := []\<rparr>"

definition pod_controller :: parent_controller where
  "pod_controller = \<lparr>pcComposite = plain_composite, pcResyncPeriodSeconds = None,
     pcParentInformer = \<lparr>riShared = 0, riWrapper = 0\<rparr>, pcChildInformers = []\<rparr>"

definition pod_penv :: "server penv" where
  "pod_penv = \<lparr>peC = revisions_env,
     peFactory = snd (GetOrCreate (\<lambda>_ _. Inr pod_client) ''v1'' ''pods'' (NewSharedInformerFactory 10)),
     peCaches = \<lambda>_. \<lparr>GetByKey = \<lambda>key. Inr (if key = ''a'' then Some pod_a else None), ListAll = \<lambda>_. Inr [pod_a],
       ListAllByNamespace = \<lambda>_ _. Inr [pod_a]\<rparr>,
     peKeyFunc = \<lambda>x. Inr (GetName std_kube x), peSplitKey = \<lambda>key. Inr ('''', key)\<rparr>"

definition pod_state :: "server cworld qworld" where
  "pod_state = \<lparr>qwWorld = revisions_world, qwQueue = []\<rparr>"

lemma plain_sel [simp]: "ccFinalizer plain_composite = \<lparr>fName = ''f'', fEnabled = False\<rparr>"
  "ccParentClient plain_composite = pod_client" "ccStrategy plain_composite = []"
  "ccChildResources plain_composite = []" "ccParentResource plain_composite = pods ! 0"
  "ccGenerateSelector plain_composite = Some True" "ccHooks plain_composite = Some (True, False)"
  by (simp_all add: plain_composite_def pod_composite_def)

lemma pod_penv_sel [simp]: "peC pod_penv = revisions_env" "pcComposite pod_controller = plain_composite"
  "pcChildInformers pod_controller = []" "peKeyFunc pod_penv x = Inr (GetName std_kube x)"
  "peSplitKey pod_penv key = Inr ('''', key)"
  by (simp_all add: pod_penv_def pod_controller_def)

lemma pod_finalizer: "SyncObject std_env \<lparr>fName = ''f'', fEnabled = False\<rparr> pod_client pod_a w = (Inr (Some pod_a), w)"
  by (simp add: SyncObject_def HasFinalizer_def std_kube_sel std_read_def pod_a_def)

lemma pod_selector: "\<exists>s. makeSelector revisions_env plain_composite pod_a [] = Inr s"
  by (simp add: makeSelector_def base_selector_def label_std_def)

lemma pod_status:
  "\<exists>r w'. updateParentStatus pod_penv pod_controller pod_a st pod_world = (Inr r, w')"
proof -
  let ?st = "mput ''observedGeneration'' (JInt (GetGeneration std_kube pod_a)) (mrange st)"
  have client: "Namespace pod_client (GetNamespace std_kube pod_a) = pod_client"
    by (simp add: Namespace_def pod_client_def pods_def pod_a_fields)
  have put: "status_update ?st pod_a = (True, pod_a @ [(''status'', JObj ?st)])"
    by (simp add: status_update_def pod_a_def index_def)
  have same: "GetName std_kube (pod_a @ [(''status'', JObj ?st)]) = ''a''"
    "GetResourceVersion std_kube (pod_a @ [(''status'', JObj ?st)]) = GetResourceVersion std_kube pod_a"
    by (simp_all add: std_kube_sel std_read_def pod_a_def)
  obtain r w' where att: "update_attempt std_env pod_client (status_write pod_client) pod_a (status_update ?st) (None, pod_world)
      = (None, r, w')"
    using same put by (simp add: update_attempt_def call_def pod_world_def rc_requests pod_client_def pods_def
      pod_a_fields status_write_def HasSubresource_def std_store_def)
  have "retryOf std_env f s = attempts 3 f s" for f s by (simp add: std_env_def)
  with att show ?thesis
    by (simp add: updateParentStatus_def AtomicStatusUpdate_def Let_def client numeral_3_eq_3 is_conflict_def)
qed

lemma pod_answer: "ceInvokeHook revisions_env req =
    Inr \<lparr>rsStatus = Some [], rsChildren = [], rsResyncAfterSeconds = 5, rsFinalized = False\<rparr>"
  by (simp add: revisions_env_def)

lemma pod_pass: "\<exists>Q'. syncParentObject pod_penv pod_controller pod_a pod_state = (None, Q')"
proof -
  obtain s where sel: "makeSelector revisions_env plain_composite pod_a [] = Inr s" using pod_selector by blast
  obtain r w' where status: "updateParentStatus pod_penv pod_controller pod_a (Some []) pod_world = (Inr r, w')"
    using pod_status by blast
  obtain g where gvk: "GetGroupVersionKind (csParse pod_cluster) (pods ! 0) = Inr g"
    by (simp add: GetGroupVersionKind_def GetGroupVersion_def pods_def pod_cluster_def core_gv_def)
  have claim: "dyn (claimChildren pod_penv pod_controller pod_a) revisions_world = (Inr [], revisions_world)"
    by (simp add: claimChildren_def dyn_def revisions_world_def gvk sel)
  have hooks: "syncRevisions revisions_env plain_composite pod_a [] revisions_world =
      (Inr \<lparr>rsStatus = Some [], rsChildren = [], rsResyncAfterSeconds = 5, rsFinalized = False\<rparr>, revisions_world)"
    by (simp add: syncRevisions_def anyRolling_def single_sync_def callSyncHook_def Execute_def NewSyncHookRequest_def
        pod_a_fields pod_answer)
  have rec: "reconcile_children pod_penv pod_controller pod_a [] [] revisions_world = (Inr None, revisions_world)"
    by (simp add: reconcile_children_def pod_a_fields dyn_def ManageChildren_def NewAggregate_def revisions_world_def)
  have fin: "dyn (SyncObject std_env (ccFinalizer plain_composite) (ccParentClient plain_composite) pod_a) revisions_world
      = (Inr (Some pod_a), revisions_world)"
    by (simp add: dyn_def pod_finalizer revisions_world_def)
  have "dyn (updateParentStatus pod_penv pod_controller pod_a (Some [])) revisions_world =
      (Inr r, revisions_world\<lparr>crSrv := w'\<rparr>)"
    by (simp add: dyn_def status revisions_world_def)
  then show ?thesis
    using claim hooks rec fin sel
    by (simp add: syncParentObject_def pod_state_def apply_response_def finish_finalizer_def
        MakeAnyUnstructRegistryByReference_def Let_def)
qed

lemma revisions_env_ok: "revision_client_ok revisions_env"
  using default_backoff.conflict_retry_axioms by (auto simp: revision_client_ok_def)


section \<open>Events and the queue\<close>

text \<open>
  The parents a child that was added or changed concerns: its controller, if the cache has the
  one its reference means, or else every parent that could adopt it, unless it is being deleted.
\<close>

definition concerned :: "'s penv \<Rightarrow> parent_controller \<Rightarrow> obj \<Rightarrow> obj set" where
  "concerned X pc x =
     (case GetControllerOf (peKube X) x of
        Some ref \<Rightarrow> set_option (resolveControllerRef X pc (GetNamespace (peKube X) x) ref)
      | None \<Rightarrow> if GetDeletionTimestamp (peKube X) x = None then set (findPotentialParents X pc x) else {})"

definition keys_of :: "'s penv \<Rightarrow> obj set \<Rightarrow> queue_op set" where
  "keys_of X ps = {QAdd key |key p. p \<in> ps \<and> peKeyFunc X p = Inr key}"

lemma enqueue_keys: "set (enqueueParentObject X p) = keys_of X {p}"
  by (auto simp: enqueueParentObject_def keys_of_def split: sum.splits)

lemma keys_of_empty [simp]: "keys_of X {} = {}"
  by (simp add: keys_of_def)

lemma keys_of_Union: "(\<Union>p \<in> ps. keys_of X {p}) = keys_of X ps"
  by (auto simp: keys_of_def)

lemma onChildDelete_keys:
  "set (onChildDelete X pc (DObject x)) =
   (if GetControllerOf (peKube X) x = None then {} else keys_of X (concerned X pc x))"
  by (cases "GetControllerOf (peKube X) x"; cases "resolveControllerRef X pc (GetNamespace (peKube X) x)
        (the (GetControllerOf (peKube X) x))")
    (auto simp: onChildDelete_def deleted_child_def concerned_def enqueue_keys)

lemma onChildAdd_keys: "set (onChildAdd X pc x) = keys_of X (concerned X pc x)"
proof (cases "GetControllerOf (peKube X) x")
  case None
  then show ?thesis
    by (auto simp: onChildAdd_def onChildDelete_keys concerned_def enqueue_keys keys_of_Union)
next
  case (Some ref)
  then show ?thesis
    by (cases "resolveControllerRef X pc (GetNamespace (peKube X) x) ref")
      (auto simp: onChildAdd_def onChildDelete_def deleted_child_def concerned_def enqueue_keys)
qed

lemma resolveControllerRef_SomeD:
  assumes "resolveControllerRef X pc ns ref = Some p"
  shows "GetUID (peKube X) p = orUID ref \<and> orKind ref = rKind (ccParentResource (pcComposite pc)) \<and>
    fst (ParseAPIVersionToGroupVersion (orAPIVersion ref)) = rGroup (ccParentResource (pcComposite pc))"
  using assms by (auto simp: resolveControllerRef_def Let_def split: if_splits sum.splits)

lemma findPotentialParents_memD:
  assumes "p \<in> set (findPotentialParents X pc x)"
  shows "\<exists>sel. makeSelector (peC X) (pcComposite pc) p [] = Inr sel \<and> \<not> selEmpty sel \<and>
    selMatches sel (mrange (GetLabels (peKube X) x))"
proof -
  from assms have "case makeSelector (peC X) (pcComposite pc) p [] of Inl err \<Rightarrow> False
      | Inr selector \<Rightarrow> \<not> selEmpty selector \<and> selMatches selector (mrange (GetLabels (peKube X) x))"
    unfolding findPotentialParents_def Let_def
    by (cases "if rNamespaced (ccParentResource (pcComposite pc))
          then Lister_ListNamespace (parent_lister X pc) (GetNamespace (peKube X) x) everything
          else Lister_List (parent_lister X pc) everything") simp_all
  then show ?thesis by (cases "makeSelector (peC X) (pcComposite pc) p []") simp_all
qed

text \<open>
  C18: An event of a child wakes exactly the parents it concerns. An added child, and one with a
  new resource version, wakes its controller or, if it has none and is not being deleted, all
  parents whose non-empty selector matches it; an update without a new version wakes no one,
  and a deleted child only its controller. The controller is the one the reference means, by
  group, kind and UID: an object that took the name of a deleted parent is not woken.
\<close>
theorem child_events_wake:
  "set (handle_event X pc (ChildHandlers, OnAdd x)) = keys_of X (concerned X pc x) \<and>
   set (handle_event X pc (ChildHandlers, OnUpdate old x)) =
     (if GetResourceVersion (peKube X) old = GetResourceVersion (peKube X) x then {}
      else keys_of X (concerned X pc x)) \<and>
   set (handle_event X pc (ChildHandlers, OnDelete x)) =
     (if GetControllerOf (peKube X) x = None then {} else keys_of X (concerned X pc x)) \<and>
   concerned X pc x \<subseteq> {p. case GetControllerOf (peKube X) x of
      Some ref \<Rightarrow> GetUID (peKube X) p = orUID ref \<and> orKind ref = rKind (ccParentResource (pcComposite pc)) \<and>
        fst (ParseAPIVersionToGroupVersion (orAPIVersion ref)) = rGroup (ccParentResource (pcComposite pc))
    | None \<Rightarrow> \<exists>sel. makeSelector (peC X) (pcComposite pc) p [] = Inr sel \<and> \<not> selEmpty sel \<and>
        selMatches sel (mrange (GetLabels (peKube X) x))}"
proof -
  have "concerned X pc x \<subseteq> {p. case GetControllerOf (peKube X) x of
      Some ref \<Rightarrow> GetUID (peKube X) p = orUID ref \<and> orKind ref = rKind (ccParentResource (pcComposite pc)) \<and>
        fst (ParseAPIVersionToGroupVersion (orAPIVersion ref)) = rGroup (ccParentResource (pcComposite pc))
    | None \<Rightarrow> \<exists>sel. makeSelector (peC X) (pcComposite pc) p [] = Inr sel \<and> \<not> selEmpty sel \<and>
        selMatches sel (mrange (GetLabels (peKube X) x))}"
  proof (cases "GetControllerOf (peKube X) x")
    case None
    have "concerned X pc x \<subseteq> set (findPotentialParents X pc x)" using None by (simp add: concerned_def)
    with findPotentialParents_memD [of _ X pc x] None show ?thesis by auto
  next
    case (Some ref)
    with resolveControllerRef_SomeD [of X pc "GetNamespace (peKube X) x" ref] show ?thesis
      by (auto simp: concerned_def)
  qed
  then show ?thesis by (simp add: onChildUpdate_def onChildAdd_keys onChildDelete_keys)
qed

lemma sync_queue:
  assumes "sync X pc key Q = (r, Q')"
  shows "\<exists>mid. qwQueue Q' = qwQueue Q @ mid \<and> list_all is_delay mid"
proof -
  have "list_all is_delay (enqueueParentObjectAfter X p d)" for p d
    by (auto simp: enqueueParentObjectAfter_def split: sum.splits)
  with assms show ?thesis
    by (auto simp: sync_def syncParentObject_def enqueue_def Let_def split: sum.splits prod.splits option.splits if_splits)
qed

interpretation parent_worker: settling_worker "processNextWorkItem X pc" "sync X pc" qwQueue
  unfolding processNextWorkItem_def by unfold_locales (rule work_item_settles [OF sync_queue])

text \<open>
  C17: A worker loses no key. As long as no pass panics, it works through all the keys the
  queue hands out and settles each, in their order: the key of a pass that succeeded is
  forgotten, the key of one that failed is added again under the rate limit, and both are
  marked as done. Besides, a pass only ever adds delayed resyncs to the queue.
\<close>
theorem no_key_is_lost:
  assumes "worker X pc (map Some keys) Q = (Inr (), Q')"
  shows "\<exists>ops. qwQueue Q' = qwQueue Q @ ops \<and>
    filter (\<lambda>op. \<not> is_delay op) ops =
      concat (map2 settling keys (outcomes (processNextWorkItem X pc) (sync X pc) keys Q))"
  using parent_worker.no_key_lost assms by (simp add: worker_def)

lemma pod_sync: "\<exists>Q'. sync pod_penv pod_controller ''a'' pod_state = (None, Q')"
proof -
  have "Lister_Get (parent_lister pod_penv pod_controller) '''' ''a'' = Inr pod_a"
    by (simp add: Lister_Get_def parent_lister_def Lister_def pod_penv_def lister_key_def)
  with pod_pass show ?thesis by (simp add: sync_def)
qed

theorem no_key_is_lost_witness:
  "\<exists>Q'. worker pod_penv pod_controller [Some ''a''] pod_state = (Inr (), Q') \<and> QForget ''a'' \<in> set (qwQueue Q')"
proof -
  obtain Q1 where s: "sync pod_penv pod_controller ''a'' pod_state = (None, Q1)" using pod_sync by blast
  then obtain Q' where run: "worker pod_penv pod_controller (map Some [''a'']) pod_state = (Inr (), Q')"
    by (simp add: worker_def processNextWorkItem_def work_item_def)
  from no_key_is_lost [OF run] obtain ops where "qwQueue Q' = qwQueue pod_state @ ops"
    "filter (\<lambda>op. \<not> is_delay op) ops = settling ''a'' True"
    by (auto simp: s)
  then have "QForget ''a'' \<in> set (filter (\<lambda>op. \<not> is_delay op) ops)" by (simp add: settling_def)
  with run \<open>qwQueue Q' = qwQueue pod_state @ ops\<close> show ?thesis by auto
qed

section \<open>Subscriptions of a controller\<close>

abbreviation rule_key :: "child_rule \<Rightarrow> string" where
  "rule_key rule \<equiv> makeKeyFromAPIVersionResource (fst rule) (fst (snd rule))"

lemma subscribe_children_ok:
  assumes "subscribe_children getClient rules infs F = (e, infs', F')"
    and "pool_ok F (opn \<union> set (map snd infs))" and "distinct (map snd infs)" and "snd ` set infs \<inter> opn = {}"
    and "distinct (map rule_key rules)" and "fst ` set infs \<inter> rule_key ` set rules = {}"
  shows "pool_ok F' (opn \<union> set (map snd infs')) \<and> distinct (map snd infs') \<and> snd ` set infs' \<inter> opn = {} \<and>
    (e = None \<longrightarrow> length infs' = length infs + length rules)"
proof -
  let ?rules = "map (\<lambda>(apiVersion, resource, st). (apiVersion, resource)) rules"
  have keys: "map resource_key ?rules = map rule_key rules" by (simp add: case_prod_beta')
  have "distinct (map resource_key ?rules)" unfolding keys by (rule assms(5))
  moreover have "fst ` set infs \<inter> resource_key ` set ?rules = {}"
    using assms(6) arg_cong [OF keys, of set] by (simp only: set_map)
  ultimately have "pool_ok F' (opn \<union> set (map snd infs')) \<and> distinct (map snd infs') \<and> snd ` set infs' \<inter> opn = {} \<and>
      (e = None \<longrightarrow> length infs' = length infs + length ?rules)"
    by (rule subscribe_ok [OF assms(1) [unfolded subscribe_children_def] assms(2-4)])
  then show ?thesis unfolding length_map .
qed

definition own_informers :: "parent_controller \<Rightarrow> resource_informer list" where
  "own_informers pc = map snd (pcChildInformers pc) @ [pcParentInformer pc]"

lemma newParentController_ok:
  assumes "pool_ok F opn" and "distinct (map rule_key (ccChildResources (csComposite api)))"
    and "newParentController cs api F = (res, F')"
  shows "case res of
      Inl err \<Rightarrow> pool_ok F' opn
    | Inr pc \<Rightarrow> pool_ok F' (opn \<union> set (own_informers pc)) \<and> set (own_informers pc) \<inter> opn = {} \<and>
        distinct (own_informers pc) \<and> length (own_informers pc) = length (ccChildResources (csComposite api)) + 1"
proof -
  let ?rules = "ccChildResources (csComposite api)"
  let ?get = "GetClientForAPIVersionAndResource (csParse cs) (csDiscovery cs)"
  obtain av r where api: "csParentAPI api = (av, r)" by fastforce
  show ?thesis
  proof (cases "\<exists>client m. ?get av r = Inr client \<and> makeUpdateStrategyMap (csDiscovery cs) ?rules [] = Inr m")
    case False
    with assms(1,3) api show ?thesis
      by (auto simp: newParentController_def Let_def split: sum.splits)
  next
    case True
    then obtain client m where early: "?get av r = Inr client" "makeUpdateStrategyMap (csDiscovery cs) ?rules [] = Inr m"
      by blast
    obtain pres F1 where parent: "GetOrCreate ?get av r F = (pres, F1)" by fastforce
    show ?thesis
    proof (cases pres)
      case (Inl err)
      with parent have "F1 = F" by (elim GetOrCreate_cases) auto
      with Inl parent early assms(1,3) api show ?thesis by (auto simp: newParentController_def Let_def)
    next
      case (Inr ri)
      note fresh = GetOrCreate_fresh [OF assms(1) parent [unfolded Inr]]
      obtain e infs F2 where sub: "subscribe_children ?get ?rules [] F1 = (e, infs, F2)" by (metis prod_cases3)
      from subscribe_children_ok [OF sub, of "insert ri opn"] fresh assms(2)
      have ok: "pool_ok F2 (insert ri opn \<union> set (map snd infs))" "distinct (map snd infs)"
        "snd ` set infs \<inter> insert ri opn = {}" "e = None \<longrightarrow> length infs = length ?rules"
        by auto
      have own: "insert ri opn \<union> set (map snd infs) = opn \<union> set (map snd infs @ [ri])" by auto
      have dist: "distinct (map snd infs @ [ri])" "set (map snd infs @ [ri]) \<inter> opn = {}"
        using ok(2,3) fresh(1) by auto
      show ?thesis
      proof (cases e)
        case None
        with assms(3) api early parent Inr sub ok own dist show ?thesis
          by (auto simp: newParentController_def Let_def own_informers_def)
      next
        case (Some err)
        from close_all_ok [OF ok(1) [unfolded own] dist] obtain F3 where
          "close_all (map snd infs @ [ri]) F2 = Inr F3" "pool_ok F3 opn" by blast
        with Some assms(3) api early parent Inr sub show ?thesis
          by (auto simp: newParentController_def Let_def)
      qed
    qed
  qed
qed

text \<open>
  A controller gives back every informer it takes. When the child resources of the
  controller are distinct, a construction that fails leaves the factory as consistent as it was, with
  the same subscriptions in use; one that succeeds has a subscription of its own for the
  parent and for each child resource, none of them in use before, and \<open>Stop\<close> never panics the
  first time and leaves exactly the subscriptions of the others.
\<close>
theorem controller_returns_informers:
  assumes "pool_ok F opn" and "distinct (map rule_key (ccChildResources (csComposite api)))"
    and "newParentController cs api F = (res, F')"
  shows "case res of
      Inl err \<Rightarrow> pool_ok F' opn
    | Inr pc \<Rightarrow> pool_ok F' (opn \<union> set (own_informers pc)) \<and> set (own_informers pc) \<inter> opn = {} \<and>
        card (set (own_informers pc)) = length (ccChildResources (csComposite api)) + 1 \<and>
        (\<exists>F''. parent_Stop pc (OpenChan, F') = Inr (ClosedChan, F'') \<and> pool_ok F'' opn)"
proof (cases res)
  case (Inr pc)
  from newParentController_ok [OF assms] Inr have ok: "pool_ok F' (opn \<union> set (own_informers pc))"
    "set (own_informers pc) \<inter> opn = {}" "distinct (own_informers pc)"
    "length (own_informers pc) = length (ccChildResources (csComposite api)) + 1" by auto
  from stop_informers_ok [OF ok(1,3,2)] obtain F'' where "stop_informers (own_informers pc) F' = Inr F''"
    "pool_ok F'' opn" by blast
  moreover from ok(3,4) have "card (set (own_informers pc)) = length (ccChildResources (csComposite api)) + 1"
    using distinct_card by fastforce
  ultimately show ?thesis using ok(1,2) Inr by (simp add: parent_Stop_def stop_controller_def own_informers_def del: set_append)
qed (use newParentController_ok [OF assms] in simp)

definition pods_api :: "nat \<Rightarrow> composite_spec" where
  "pods_api n = \<lparr>csComposite = plain_composite\<lparr>ccChildResources := replicate n (''v1'', ''pods'', None)\<rparr>,
     csParentAPI = (''v1'', ''pods''), csHasFinalize = False, csResyncPeriodSeconds = None\<rparr>"

lemma pods_client: "GetClientForAPIVersionAndResource (csParse pod_cluster) (csDiscovery pod_cluster) ''v1'' ''pods'' = Inr pod_client"
  by (simp add: pod_cluster_def GetClientForAPIVersionAndResource_def GetAPIForAPIVersionAndResource_def
      getClientForAPIResource_def GetGroupVersionResource_def GetGroupVersion_def core_gv_def
      NewAPIResourceDiscoverer_def lookupResource_def deref_def pods_def pod_client_def)

lemma pods_strategies: "makeUpdateStrategyMap d (replicate n (''v1'', ''pods'', None)) [] = Inr []"
  by (induction n) auto

lemmas pods_run = newParentController_def subscribe_children_def pods_api_def pods_client pods_strategies GetOrCreate_def newResourceInformer_def
  NewSharedInformerFactory_def resourceKey_def ResourceInformerRegistrar_Set_def makeKeyFromAPIVersionResource_def
  ref_count_def Let_def

lemma pods_controller:
  "\<exists>pc F'. newParentController pod_cluster (pods_api 1) (NewSharedInformerFactory 10 :: cc_factory) = (Inr pc, F')"
  by (simp add: pods_run)

theorem controller_returns_informers_witness:
  "\<exists>pc F' F''. newParentController pod_cluster (pods_api 1) (NewSharedInformerFactory 10 :: cc_factory) = (Inr pc, F') \<and>
    parent_Stop pc (OpenChan, F') = Inr (ClosedChan, F'') \<and> pool_ok F'' {}"
proof -
  obtain pc F' where run: "newParentController pod_cluster (pods_api 1) (NewSharedInformerFactory 10 :: cc_factory) = (Inr pc, F')"
    using pods_controller by blast
  have "distinct (map rule_key (ccChildResources (csComposite (pods_api 1))))" by (simp add: pods_api_def)
  from controller_returns_informers [OF pool_ok_new this run] run show ?thesis by auto
qed

text \<open>
  The condition is needed: with the same child resource twice, the first subscription is lost when
  the second one takes its place in the map, and its informer keeps running after \<open>Stop\<close>.
\<close>

theorem repeated_resource_leaks:
  "\<exists>pc F' F''. newParentController pod_cluster (pods_api 2) (NewSharedInformerFactory 10 :: cc_factory) = (Inr pc, F') \<and>
    parent_Stop pc (OpenChan, F') = Inr (ClosedChan, F'') \<and> running F'' 0"
  by (simp add: pods_run numeral_2_eq_2 parent_Stop_def stop_controller_def RemoveEventHandlers_def with_informer_def Close_def closeFn_def
      running_def newSharedResourceInformer_def)

end
