(* ===== verification/DecoratorPlan.thy ===== *)
theory DecoratorPlan
  imports Decorator StatesPlan
begin

text \<open>
  What a decorator controller does: the children it observes, the requests of a pass, the
  informers it subscribes to, and what its worker promises.
\<close>

section \<open>Observed children\<close>

lemma children_of_kinds_own:
  "children_of_kinds X c parent as m = Inr m' \<Longrightarrow>
   set (registry_List m) \<subseteq> {Some x |x. is_child_of (deKube X) c parent x} \<Longrightarrow>
   set (registry_List m') \<subseteq> {Some x |x. is_child_of (deKube X) c parent x}"
proof (induction as arbitrary: m)
  case (Cons a as)
  let ?R = "{Some x |x. is_child_of (deKube X) c parent x}"
  have ins: "set (registry_List (fold (InsertByReference (deKube X) parent) xs m)) \<subseteq> ?R"
    if "set (registry_List m) \<subseteq> ?R" "list_all (is_child_of (deKube X) c parent) xs" for xs m
    using that
  proof (induction xs arbitrary: m)
    case (Cons x xs)
    have "set (registry_List (InsertByReference (deKube X) parent x m)) \<subseteq> ?R"
    proof
      fix v assume "v \<in> set (registry_List (InsertByReference (deKube X) parent x m))"
      from registry_List_put [OF this [unfolded InsertByReference_put]] Cons.prems show "v \<in> ?R" by auto
    qed
    from Cons.IH [OF this] Cons.prems(2) show ?case by simp
  qed simp
  have reset: "set (registry_List (Init av k m)) \<subseteq> ?R" for av k
  proof
    fix v assume "v \<in> set (registry_List (Init av k m))"
    then obtain key grp where mem: "(key, grp) \<in> set (Init av k m)" and v: "v \<in> snd ` set grp"
      unfolding registry_List_def by auto
    from mput_value_in [OF mem [unfolded Init_def]] v have "(key, grp) \<in> set m" by auto
    with v have "v \<in> set (registry_List m)" unfolding registry_List_def by (auto intro!: bexI [of _ "(key, grp)"])
    with Cons.prems(2) show "v \<in> ?R" by blast
  qed
  have filt: "list_all P (filter P xs)" for P and xs :: "obj list" by (simp add: list_all_iff)
  from Cons.prems(1) obtain av k all where
    "children_of_kinds X c parent as (fold (InsertByReference (deKube X) parent)
       (filter (is_child_of (deKube X) c parent) all) (Init av k m)) = Inr m'"
    by (auto simp: Let_def split: option.splits sum.splits)
  from Cons.IH [OF this ins [OF reset filt]] show ?case .
qed simp

lemma observed_children_own:
  assumes "getChildren X c parent = Inr observed" and "Some x \<in> set (registry_List observed)"
  shows "is_child_of (deKube X) c parent x"
  using children_of_kinds_own [OF assms(1) [unfolded getChildren_def]] assms(2) by (auto simp: registry_List_def)

lemma observed_children_there:
  assumes "getChildren X c parent = Inr observed" and "Some x \<in> set (registry_List observed) \<or> None \<in> set (registry_List observed)"
  shows "None \<notin> set (registry_List observed)"
  using children_of_kinds_own [OF assms(1) [unfolded getChildren_def]] by (auto simp: registry_List_def)

section \<open>Desired children\<close>

text \<open>The desired children of a response, marked.\<close>

lemma mark_group_mem:
  "mark_group K name grp = Inr grp' \<Longrightarrow> (n, v) \<in> set grp' \<Longrightarrow>
   \<exists>x. v = Some (mark_child K name x) \<and> (n, Some x) \<in> set grp"
  by (induction K name grp arbitrary: grp' rule: mark_group.induct) (fastforce split: sum.splits)+

lemma mark_children_mem:
  "mark_children K name m = Inr m' \<Longrightarrow> (key, grp') \<in> set m' \<Longrightarrow> (n, v) \<in> set grp' \<Longrightarrow>
   \<exists>x. v = Some (mark_child K name x) \<and> Some x \<in> set (registry_List m)"
proof (induction K name m arbitrary: m' rule: mark_children.induct)
  case (2 K name key0 children m)
  then obtain children' m1 where c: "mark_group K name children = Inr children'" "mark_children K name m = Inr m1"
    "m' = (key0, children') # m1"
    by (auto split: sum.splits)
  show ?case
  proof (cases "(key, grp') \<in> set m1")
    case True
    from "2.IH" [OF c(1) c(2) True "2.prems"(3)] obtain x
      where "v = Some (mark_child K name x)" "Some x \<in> set (registry_List m)" by blast
    moreover have "set (registry_List m) \<subseteq> set (registry_List ((key0, children) # m))"
      by (auto simp: registry_List_def)
    ultimately show ?thesis by blast
  next
    case False
    with "2.prems"(2) c(3) have "grp' = children'" by auto
    with mark_group_mem [OF c(1)] "2.prems"(3) obtain x where "v = Some (mark_child K name x)" "(n, Some x) \<in> set children"
      by blast
    then have "v = Some (mark_child K name x) \<and> Some x \<in> snd ` set children" by force
    then show ?thesis unfolding registry_List_def by auto
  qed
qed simp

lemma desired_mem:
  assumes "Some x \<in> set (registry_List (MakeAnyUnstructRegistryByReference K parent xs))"
  shows "x \<in> set xs"
proof -
  have "v \<in> set (registry_List (fold (InsertByReference K parent) xs m)) \<Longrightarrow> v \<in> Some ` set xs \<or> v \<in> set (registry_List m)" for v m
  proof (induction xs arbitrary: m)
    case (Cons y ys)
    from Cons.IH [of "InsertByReference K parent y m"] Cons.prems
      registry_List_put [of v "object_key K y" "relativeName K parent y" "Some y" m]
    show ?case by (auto simp: InsertByReference_put)
  qed simp
  from this [of "Some x" "[]"] assms show ?thesis
    by (auto simp: MakeAnyUnstructRegistryByReference_def registry_List_def)
qed

section \<open>The requests of a pass\<close>

text \<open>
  A request for a child of the parent: one it deletes under its own UID or updates, or a new one
  which the next pass will observe as a child.
\<close>

fun own_child_request :: "kube \<Rightarrow> decorator \<Rightarrow> obj \<Rightarrow> request \<Rightarrow> bool" where
  "own_child_request K c parent (ReqDelete av r ns n uid policy) =
     (\<exists>x. is_child_of K c parent x \<and> uid = Some (GetUID K x))"
| "own_child_request K c parent (ReqUpdate av r ns y) =
     (\<exists>x. is_child_of K c parent x \<and> same_field K y x [''metadata'', ''uid''])"
| "own_child_request K c parent (ReqCreate av r ns y) = is_child_of K c parent y"
| "own_child_request K c parent q = False"

lemma mark_child_marked:
  assumes "kube_lib K" and "meta_ok x"
  shows "str_at (GetAnnotations K (mark_child K name x)) decoratorControllerAnnotation = name \<and>
    meta_ok (mark_child K name x) \<and> GetOwnerReferences K (mark_child K name x) = GetOwnerReferences K x"
  using assms kube_lib.get_set_annotations [OF assms] kube_lib.meta_ok_setters(1) [OF assms]
    kube_lib.owners_set_annotations [OF assms(1)]
  by (auto simp: mark_child_def Let_def str_at_def)

lemma created_is_child:
  assumes "kube_lib K" and "meta_ok x" and "GetControllerOf K x = None"
    and "SetLastApplied K (mark_child K (dsName (dcSchema c)) x) (mark_child K (dsName (dcSchema c)) x) = Inr y"
  shows "is_child_of K c parent (SetOwnerReferences K y (GetOwnerReferences K y @ [MakeOwnerRef K parent]))"
proof -
  let ?x = "mark_child K (dsName (dcSchema c)) x"
  let ?y = "SetOwnerReferences K y (GetOwnerReferences K y @ [MakeOwnerRef K parent])"
  note marked = mark_child_marked [OF assms(1,2), of "dsName (dcSchema c)"]
  have "lastAppliedAnnotation \<noteq> decoratorControllerAnnotation"
    by (simp add: lastAppliedAnnotation_def decoratorControllerAnnotation_def)
  then have y: "str_at (GetAnnotations K y) decoratorControllerAnnotation = dsName (dcSchema c) \<and> meta_ok y \<and>
      GetOwnerReferences K y = GetOwnerReferences K x"
    using marked assms(4) kube_lib.get_set_annotations [OF assms(1)] kube_lib.meta_ok_setters(1) [OF assms(1)]
      kube_lib.owners_set_annotations [OF assms(1)]
    by (auto simp: SetLastApplied_def SetLastAppliedByAnnKey_def str_at_def Let_def split: if_splits sum.splits option.splits)
  have "GetOwnerReferences K ?y = GetOwnerReferences K x @ [MakeOwnerRef K parent]"
    using kube_lib.get_set_owners [OF assms(1)] y by simp
  moreover have "find (\<lambda>r. orController r = Some True) (GetOwnerReferences K x) = None"
    using assms(3) kube_lib.controller_of [OF assms(1)] by simp
  ultimately have "GetControllerOf K ?y = Some (MakeOwnerRef K parent)"
    using kube_lib.controller_of [OF assms(1), of ?y] by (simp add: find_snoc MakeOwnerRef_def)
  then show ?thesis using y kube_lib.annotations_set_owners [OF assms(1)]
    by (simp add: is_child_of_def MakeOwnerRef_def)
qed

lemma entry_listed: "entry (group_of m key) n = Some x \<Longrightarrow> Some x \<in> set (registry_List m)"
proof -
  assume "entry (group_of m key) n = Some x"
  then obtain grp where "map_of m key = Some grp" "map_of grp n = Some (Some x)"
    by (auto simp: entry_def group_of_def split: option.splits)
  then have "(key, grp) \<in> set m" "(n, Some x) \<in> set grp" by (auto dest: map_of_SomeD)
  then show ?thesis by (force simp: registry_List_def)
qed

lemma registry_requests_all:
  assumes "\<And>client key objects. (key, objects) \<in> set m \<Longrightarrow> list_all P (reqs client key objects)"
  shows "list_all P (registry_requests cs reqs m)"
proof -
  have "P q" if "(key, objects) \<in> set m" "q \<in> set (reqs client key objects)" for q key objects client
    using assms [OF that(1)] that(2) by (simp add: list_all_iff)
  then show ?thesis by (auto simp: registry_requests_def list_all_iff split: sum.splits)
qed

text \<open>The requests to manage children that are marked, among those observed.\<close>

lemma deletes_own:
  assumes "\<And>x. Some x \<in> set (registry_List observed) \<Longrightarrow> is_child_of K c parent x" and "(key, objects) \<in> set observed"
  shows "list_all (own_child_request K c parent) (group_deletes K client (group_of desired key) objects)"
proof -
  have "is_child_of K c parent x" if "(n, Some x) \<in> set objects" for n x
    using that assms(2) by (intro assms(1)) (force simp: registry_List_def)
  then show ?thesis
    by (fastforce simp: group_deletes_def list_all_iff delete_request_def rc_Delete_def)
qed

lemma child_requests_own:
  assumes "kube_lib K" and "\<And>x. Some x \<in> set (registry_List observed) \<Longrightarrow> is_child_of K c parent x"
    and "meta_ok x" and "GetControllerOf K x = None"
  shows "list_all (own_child_request K c parent)
    (child_requests K client st parent (group_of observed key) n (mark_child K (dsName (dcSchema c)) x))"
proof (cases "entry (group_of observed key) n")
  case None
  then show ?thesis using created_is_child [OF assms(1,3,4)]
    by (auto simp: child_requests_def Let_def rc_Create_def split: sum.splits)
next
  case (Some old)
  then have own: "is_child_of K c parent old" by (intro assms(2) entry_listed)
  have "same_field K m old [''metadata'', ''uid'']"
    if "fst (Apply_Merge K empty_apply old y) = Inr m" for m y
  proof -
    from that obtain a' y' where "apply_merge K (GetLastApplied K) (SetLastApplied K) (\<lambda>l. l)
        (empty_apply\<lparr>GetLastAppliedFn := Some (GetLastApplied K), SetLastAppliedFn := Some (SetLastApplied K),
           SanitizeLastAppliedFn := Some (\<lambda>l. l)\<rparr>) old y = (Inr m, a', y')"
      by (auto simp: Apply_Merge_def empty_apply_def Let_def fst_def split: prod.splits)
    from apply_merge_system_fields [OF assms(1) records_default [OF assms(1)] this] show ?thesis
      by (simp add: list_all_iff objectMetaSystemFields_def)
  qed
  with own Some show ?thesis
    by (auto simp: child_requests_def Let_def rc_Update_def delete_request_def rc_Delete_def split: sum.splits)
qed

lemma updates_own:
  assumes "kube_lib K" and "\<And>x. Some x \<in> set (registry_List observed) \<Longrightarrow> is_child_of K c parent x"
    and "\<And>n v. (n, v) \<in> set objects \<Longrightarrow> \<exists>x. v = Some (mark_child K (dsName (dcSchema c)) x) \<and> meta_ok x \<and> GetControllerOf K x = None"
  shows "list_all (own_child_request K c parent) (group_updates K client st parent (group_of observed key) objects)"
proof -
  have "list_all (own_child_request K c parent) (child_requests K client st parent (group_of observed key) n (the v))"
    if "(n, v) \<in> set objects" for n v
    using assms(3) [OF that] child_requests_own [OF assms(1,2)] by auto
  then show ?thesis by (fastforce simp: group_updates_def list_all_iff)
qed

text \<open>The reconciliation of children collects its errors; only a panic ends it early.\<close>

lemma manage_groups_panics:
  "manage_groups cs job m errs w = (Inl p, w') \<Longrightarrow>
   (\<And>client key objects w p w'. job client key objects w = (Inl p, w') \<Longrightarrow> is_panic p) \<Longrightarrow> is_panic p"
proof (induction m arbitrary: errs w)
  case (Cons g m)
  obtain key objects where "g = (key, objects)" by fastforce
  with Cons.prems Cons.IH [OF _ Cons.prems(2)] show ?case
    by (auto simp: ParseKeyToAPIVersionKind_def split: sum.splits prod.splits if_splits list.splits)
qed simp

lemma ManageChildren_panics:
  assumes "ManageChildren E cs st parent observed desired w = (Inl p, w')"
  shows "is_panic p"
proof -
  have del: "deleteChildren E client parent desired observed errs w = (Inl p, w') \<Longrightarrow> is_panic p"
    for client desired observed errs w p w'
    by (induction E client parent desired observed errs w rule: deleteChildren.induct)
      (auto simp: Let_def split: if_splits sum.splits prod.splits)
  have upd: "updateChildren E client st parent observed desired errs w = (Inl p, w') \<Longrightarrow> is_panic p"
    for client observed desired errs w p w'
    by (induction E client st parent observed desired errs w rule: updateChildren.induct)
      (auto split: prod.splits)
  from assms show ?thesis
    by (auto simp: ManageChildren_def split: sum.splits prod.splits
        intro: manage_groups_panics [OF _ del] manage_groups_panics [OF _ upd])
qed

text \<open>Whether the children of a parent are managed at all.\<close>

definition decorator_manages :: "kube \<Rightarrow> decorator \<Rightarrow> obj \<Rightarrow> bool" where
  "decorator_manages K c parent = (GetDeletionTimestamp K parent = None \<or> ShouldFinalize K (dcFinalizer c) parent)"

abbreviation is_panicking :: "gerr option \<Rightarrow> bool" where
  "is_panicking r \<equiv> (case r of None \<Rightarrow> False | Some err \<Rightarrow> is_panic err)"

lemma manage_decorated_own:
  assumes "kube_lib (deKube X)" and "getChildren X c parent = Inr observed"
    and "\<forall>x \<in> set xs. meta_ok x \<and> GetControllerOf (deKube X) x = None"
    and "mark_children (deKube X) (dsName (dcSchema c)) (MakeAnyUnstructRegistryByReference (deKube X) parent xs) = Inr desired"
    and "manage_decorated X c parent observed desired w = (r, w')" and "\<not> is_panicking r"
  shows "\<exists>us. calls w' = calls w @ us \<and> list_all (\<lambda>(q, a). own_child_request (deKube X) c parent q) us \<and>
    (r = None \<longrightarrow> list_all (\<lambda>(q, a). isOK a) us) \<and> (\<not> decorator_manages (deKube X) c parent \<longrightarrow> us = [])"
proof (cases "decorator_manages (deKube X) c parent")
  case False
  with assms(5) show ?thesis
    by (intro exI [of _ "[]"]) (auto simp: manage_decorated_def decorator_manages_def Let_def split: if_splits)
next
  case True
  let ?K = "deKube X" and ?st = "decorator_strategy_Get (dcUpdateStrategy c)"
  from assms(5,6) True obtain r1 where run:
    "ManageChildren (deDyn X) (deClients X) ?st parent observed desired w = (Inr r1, w')" "r = None \<longrightarrow> r1 = None"
    by (auto simp: manage_decorated_def decorator_manages_def Let_def dest: ManageChildren_panics split: prod.splits sum.splits option.splits)
  have obs: "is_child_of ?K c parent x" if "Some x \<in> set (registry_List observed)" for x
    using observed_children_own [OF assms(2) that] .
  have des: "\<exists>x. v = Some (mark_child ?K (dsName (dcSchema c)) x) \<and> meta_ok x \<and> GetControllerOf ?K x = None"
    if "(key, objects) \<in> set desired" "(n, v) \<in> set objects" for key objects n v
    using mark_children_mem [OF assms(4) that] desired_mem [of _ ?K parent xs] assms(3) by blast
  let ?del = "registry_requests (deClients X) (\<lambda>client key objects.
      group_deletes ?K client (group_of desired key) objects) observed"
  let ?upd = "registry_requests (deClients X) (\<lambda>client key objects.
      group_updates ?K client ?st parent (group_of observed key) objects) desired"
  have "list_all (own_child_request ?K c parent) ?del"
    by (intro registry_requests_all deletes_own [OF obs])
  moreover have "list_all (own_child_request ?K c parent) ?upd"
    by (intro registry_requests_all updates_own [OF assms(1) obs] des)
  ultimately have own: "list_all (own_child_request ?K c parent) (?del @ ?upd)" by simp
  from ManageChildren_did [OF run(1)] obtain us where us: "calls w' = calls w @ us" "map fst us = ?del @ ?upd"
    "r1 = None \<longrightarrow> list_all (\<lambda>(q, a). isOK a) us"
    by (auto simp: did_with_def)
  from own us(2) have "list_all (own_child_request ?K c parent) (map fst us)" by simp
  then have "list_all (\<lambda>(q, a). own_child_request ?K c parent q) us" by (auto simp: list_all_iff)
  with us(1,3) run(2) True show ?thesis by blast
qed

text \<open>
  C37: A pass over a decorated parent writes the parent and its own children and nothing else,
  given that the hook answers with children that have no controller yet. First come the writes of the parent, as the response
  wants it. Then each child it deletes, under its own UID, or updates was observed with the parent as
  its controller and with the name of this decorator in its annotation; what it creates carries
  both, so that the next pass observes it. A parent that is being deleted and not to
  be finalized has its children left alone, and a pass without an error had all its requests accepted.
\<close>
theorem decorator_touches_own:
  assumes "kube_objects (deKube X)" and "meta_ok parent"
    and "getChildren X c parent = Inr observed"
    and "decorator_callSyncHook X c \<lparr>dqController = dcSchema c, dqObject = parent, dqAttachments = observed,
        dqFinalizing = False\<rparr> = Inr resp"
    and "distinct (mkeys (dpLabels resp))" and "distinct (mkeys (dpAnnotations resp))"
    and "\<forall>x \<in> set (dpAttachments resp). meta_ok x \<and> GetControllerOf (deKube X) x = None"
    and "sync_decorated X c client parent Q = (r, Q')" and "\<not> is_panicking r"
  shows "\<exists>ts us. calls (qwWorld Q') = calls (qwWorld Q) @ ts @ us \<and>
    list_all (\<lambda>(q, a). object_write (deKube X) client parent (decorator_answer resp) q) ts \<and>
    list_all (\<lambda>(q, a). own_child_request (deKube X) c parent q) us \<and>
    (\<not> decorator_manages (deKube X) c parent \<longrightarrow> us = []) \<and>
    (r = None \<longrightarrow> list_all (\<lambda>(q, a). isOK a) (ts @ us))"
proof -
  have kl: "kube_lib (deKube X)" using assms(1) by (simp add: kube_objects_def)
  from assms(3,4,8) have run: "apply_decoration X c client parent observed resp Q = (r, Q')"
    by (simp add: sync_decorated_def)
  obtain r1 w1 where up: "update_parent X c client parent resp (qwWorld Q) = (r1, w1)" by fastforce
  then have upd: "update_object (deDyn X) (wrapf (''can't update '' @ parent_text (deKube X) parent))
      (errorf ''can't update status: '') (dcFinalizer c) client parent (decorator_answer resp) (qwWorld Q) = (r1, w1)"
    by (simp add: update_parent_def)
  have keys: "distinct (mkeys (anLabels (decorator_answer resp)))" "distinct (mkeys (anAnnotations (decorator_answer resp)))"
    using assms(5,6) by (simp_all add: decorator_answer_def)
  from object_is_written [OF assms(1,2) keys upd] obtain ts where ts: "calls w1 = calls (qwWorld Q) @ ts"
    "list_all (\<lambda>(q, a). object_write (deKube X) client parent (decorator_answer resp) q) ts"
    "r1 = None \<longrightarrow> list_all (\<lambda>(q, a). isOK a) ts"
    by fastforce
  have early: ?thesis if "qwWorld Q' = w1" "r \<noteq> None"
    by (rule exI [of _ ts], rule exI [of _ "[]"]) (use that ts in auto)
  show ?thesis
  proof (cases r1)
    case (Some err)
    with run up have "qwWorld Q' = w1" "r \<noteq> None" by (auto simp: apply_decoration_def enqueue_def Let_def)
    with early show ?thesis by blast
  next
    case None
    show ?thesis
    proof (cases "mark_children (deKube X) (dsName (dcSchema c))
        (MakeAnyUnstructRegistryByReference (deKube X) parent (dpAttachments resp))")
      case (Inl p)
      with run up None have "qwWorld Q' = w1" "r \<noteq> None" by (auto simp: apply_decoration_def enqueue_def Let_def)
      with early show ?thesis by blast
    next
      case (Inr desired)
      obtain r2 w2 where man: "manage_decorated X c parent observed desired w1 = (r2, w2)" by fastforce
      with run up None Inr have res: "qwWorld Q' = w2" "r = r2" by (auto simp: apply_decoration_def enqueue_def Let_def)
      from manage_decorated_own [OF kl assms(3,7) Inr man] assms(9) res obtain us where us: "calls w2 = calls w1 @ us"
        "list_all (\<lambda>(q, a). own_child_request (deKube X) c parent q) us"
        "r = None \<longrightarrow> list_all (\<lambda>(q, a). isOK a) us" "\<not> decorator_manages (deKube X) c parent \<longrightarrow> us = []"
        by blast
      show ?thesis
        by (rule exI [of _ ts], rule exI [of _ us]) (use us ts None res(1) in simp)
    qed
  qed
qed

section \<open>Subscriptions\<close>

definition decorator_informers :: "decorator \<Rightarrow> resource_informer list" where
  "decorator_informers c = map snd (dcChildInformers c) @ map snd (dcParentInformers c)"

abbreviation parent_rules :: "decorator_schema \<Rightarrow> (string \<times> string) list" where
  "parent_rules schema \<equiv> map (\<lambda>p. (drAPIVersion p, drResource p)) (dsResources schema)"

abbreviation child_rules :: "decorator_schema \<Rightarrow> (string \<times> string) list" where
  "child_rules schema \<equiv> map (\<lambda>a. (daAPIVersion a, daResource a)) (dsAttachments schema)"

lemma subscribe_decorator_ok:
  assumes "pool_ok F opn" and "distinct (map resource_key (parent_rules schema))"
    and "distinct (map resource_key (child_rules schema))" and "subscribe_decorator cs schema F = (res, F')"
  shows "case res of
      Inl err \<Rightarrow> pool_ok F' opn
    | Inr (ps, as) \<Rightarrow> let own = map snd as @ map snd ps in
        pool_ok F' (opn \<union> set own) \<and> set own \<inter> opn = {} \<and> distinct own \<and>
        length own = length (dsResources schema) + length (dsAttachments schema)"
proof -
  let ?get = "GetClientForAPIVersionAndResource (csParse cs) (csDiscovery cs)"
  obtain e1 ps F1 where p: "subscribe ?get (\<lambda>av r. errorf ''can't create informer for parent resource: '')
      (parent_rules schema) [] F = (e1, ps, F1)" by (rule prod_cases3)
  have "pool_ok F (opn \<union> set (map snd ([] :: resource_informer gomap)))" "distinct (map snd ([] :: resource_informer gomap))"
    "snd ` set ([] :: resource_informer gomap) \<inter> opn = {}"
    "fst ` set ([] :: resource_informer gomap) \<inter> resource_key ` set (parent_rules schema) = {}"
    using assms(1) by simp_all
  from subscribe_ok [OF p this(1,2,3) assms(2) this(4)] have ps: "pool_ok F1 (opn \<union> set (map snd ps))" "distinct (map snd ps)"
    "snd ` set ps \<inter> opn = {}" "e1 = None \<longrightarrow> length ps = length (dsResources schema)"
    by (simp_all del: set_map)
  show ?thesis
  proof (cases e1)
    case (Some err)
    from close_all_ok [OF ps(1,2)] ps(3) obtain F2 where "close_all (map snd ps) F1 = Inr F2" "pool_ok F2 opn" by auto
    with p Some assms(4) show ?thesis by (auto simp: subscribe_decorator_def Let_def)
  next
    case None
    obtain e2 as F2 where a: "subscribe ?get (\<lambda>av r. errorf ''can't create informer for child resource: '')
        (child_rules schema) [] F1 = (e2, as, F2)" by (rule prod_cases3)
    have "pool_ok F1 ((opn \<union> set (map snd ps)) \<union> set (map snd ([] :: resource_informer gomap)))"
      "distinct (map snd ([] :: resource_informer gomap))"
      "snd ` set ([] :: resource_informer gomap) \<inter> (opn \<union> set (map snd ps)) = {}"
      "fst ` set ([] :: resource_informer gomap) \<inter> resource_key ` set (child_rules schema) = {}"
      using ps(1) by simp_all
    from subscribe_ok [OF a this(1,2,3) assms(3) this(4)] have as: "pool_ok F2 (opn \<union> set (map snd ps) \<union> set (map snd as))" "distinct (map snd as)"
      "snd ` set as \<inter> (opn \<union> set (map snd ps)) = {}" "e2 = None \<longrightarrow> length as = length (dsAttachments schema)"
      by (simp_all del: set_map)
    let ?own = "map snd as @ map snd ps"
    have own: "opn \<union> set (map snd ps) \<union> set (map snd as) = opn \<union> set ?own" by auto
    have dist: "distinct ?own" "set ?own \<inter> opn = {}" using ps(2,3) as(2,3) by auto
    show ?thesis
    proof (cases e2)
      case (Some err)
      from close_all_ok [OF as(1) [unfolded own] dist] obtain F3 where
        "close_all ?own F2 = Inr F3" "pool_ok F3 opn" by blast
      with p None a Some assms(4) show ?thesis by (auto simp: subscribe_decorator_def Let_def)
    next
      case None
      with p \<open>e1 = None\<close> a assms(4) have run: "F' = F2" "res = Inr (ps, as)"
        by (simp_all add: subscribe_decorator_def Let_def)
      have "pool_ok F2 (opn \<union> set ?own)" using as(1) unfolding own .
      with dist ps(4) as(4) None \<open>e1 = None\<close> show ?thesis
        by (simp only: run sum.case prod.case Let_def) simp
    qed
  qed
qed

lemma newDecoratorController_ok:
  assumes "pool_ok F opn" and "distinct (map resource_key (parent_rules schema))"
    and "distinct (map resource_key (child_rules schema))" and "newDecoratorController L cs schema F = (res, F')"
  shows "case res of
      Inl err \<Rightarrow> pool_ok F' opn
    | Inr c \<Rightarrow> pool_ok F' (opn \<union> set (decorator_informers c)) \<and> set (decorator_informers c) \<inter> opn = {} \<and>
        distinct (decorator_informers c) \<and>
        length (decorator_informers c) = length (dsResources schema) + length (dsAttachments schema)"
proof (cases "F' = F \<and> \<not> isOK res")
  case True
  with assms(1) show ?thesis by (cases res) auto
next
  case False
  with assms(4) obtain hooks sel kinds st where early: "dsHooks schema = Some hooks"
    "newDecoratorSelector L (csDiscovery cs) schema = Inr sel"
    "parent_kinds (csDiscovery cs) (dsResources schema) [] = Inr kinds"
    "decorator_strategies (csDiscovery cs) (dsAttachments schema) [] = Inr st"
    by (auto simp: newDecoratorController_def Let_def split: option.splits sum.splits)
  obtain sres F1 where sub: "subscribe_decorator cs schema F = (sres, F1)" by fastforce
  note ok = subscribe_decorator_ok [OF assms(1-3) sub]
  show ?thesis
  proof (cases sres)
    case (Inl err)
    with assms(4) early sub have "res = Inl err" "F' = F1" by (simp_all add: newDecoratorController_def Let_def)
    with ok Inl show ?thesis by simp
  next
    case (Inr infs)
    with assms(4) early sub obtain c where "res = Inr c" "F' = F1"
      "decorator_informers c = map snd (snd infs) @ map snd (fst infs)"
      by (cases infs) (auto simp: newDecoratorController_def Let_def decorator_informers_def)
    with ok Inr show ?thesis by (simp add: Let_def case_prod_beta del: set_append distinct_append)
  qed
qed

text \<open>
  A decorator controller whose resources are not repeated gives back every informer it takes.
  A construction that fails closes those it had opened, of the parents and of the children, and leaves the
  factory with the subscriptions of the others; one that succeeds has one subscription of its own
  for each resource, and \<open>Stop\<close> leaves exactly those of the others.
\<close>
theorem decorator_returns_informers:
  assumes "pool_ok F opn" and "distinct (map resource_key (parent_rules schema))"
    and "distinct (map resource_key (child_rules schema))" and "newDecoratorController L cs schema F = (res, F')"
  shows "case res of
      Inl err \<Rightarrow> pool_ok F' opn
    | Inr c \<Rightarrow> pool_ok F' (opn \<union> set (decorator_informers c)) \<and> set (decorator_informers c) \<inter> opn = {} \<and>
        card (set (decorator_informers c)) = length (dsResources schema) + length (dsAttachments schema) \<and>
        (\<exists>F''. decorator_Stop c (OpenChan, F') = Inr (ClosedChan, F'') \<and> pool_ok F'' opn)"
proof (cases res)
  case (Inr c)
  from newDecoratorController_ok [OF assms] Inr have ok: "pool_ok F' (opn \<union> set (decorator_informers c))"
    "set (decorator_informers c) \<inter> opn = {}" "distinct (decorator_informers c)"
    "length (decorator_informers c) = length (dsResources schema) + length (dsAttachments schema)" by auto
  from stop_informers_ok [OF ok(1,3,2)] obtain F'' where "stop_informers (decorator_informers c) F' = Inr F''"
    "pool_ok F'' opn" by blast
  moreover from ok(3,4) have "card (set (decorator_informers c)) = length (dsResources schema) + length (dsAttachments schema)"
    using distinct_card by fastforce
  ultimately show ?thesis using ok(1,2) Inr
    by (simp add: decorator_Stop_def stop_controller_def decorator_informers_def del: set_append)
qed (use newDecoratorController_ok [OF assms] in simp)

section \<open>The worker\<close>

lemma decorator_sync_queue:
  assumes "decorator_sync X c key Q = (r, Q')"
  shows "\<exists>mid. qwQueue Q' = qwQueue Q @ mid \<and> list_all is_delay mid"
proof -
  have after: "list_all is_delay (decorator_enqueueAfter K item d)" for K item d
    by (auto simp: decorator_enqueueAfter_def split: sum.splits)
  have resp: "\<exists>mid. qwQueue Q' = qwQueue Q @ mid \<and> list_all is_delay mid"
    if "apply_decoration X c client parent observed resp Q = (r, Q')" for client parent observed resp Q r Q'
    using that after by (auto simp: apply_decoration_def enqueue_def Let_def split: prod.splits option.splits sum.splits if_splits)
  have conc: "\<exists>mid. qwQueue Q' = qwQueue Q @ mid \<and> list_all is_delay mid"
    if "sync_decorated X c client parent Q = (r, Q')" for client parent Q r Q'
    using that resp by (auto simp: sync_decorated_def Let_def split: sum.splits option.splits prod.splits)
  have "\<exists>mid. qwQueue Q' = qwQueue Q @ mid \<and> list_all is_delay mid"
    if "decorator_syncParent X c parent Q = (r, Q')" for parent
    using that by (auto simp: decorator_syncParent_def Let_def dest!: conc split: sum.splits bool.splits prod.splits option.splits if_splits)
  with assms show ?thesis by (auto simp: decorator_sync_def split: sum.splits prod.splits option.splits if_splits)
qed

interpretation decorator_loop: settling_worker "decorator_processNextWorkItem X c" "decorator_sync X c" qwQueue
  unfolding decorator_processNextWorkItem_def by unfold_locales (rule work_item_settles [OF decorator_sync_queue])

text \<open>
  A worker of a decorator controller settles every key that the queue hands out, in order: forgotten
  after a pass without an error, put back under the rate limit after one with an error.
\<close>
theorem no_parent_key_is_lost:
  assumes "decorator_worker X c (map Some keys) Q = (Inr (), Q')"
  shows "\<exists>ops. qwQueue Q' = qwQueue Q @ ops \<and>
    filter (\<lambda>op. \<not> is_delay op) ops =
      concat (map2 settling keys (outcomes (decorator_processNextWorkItem X c) (decorator_sync X c) keys Q))"
  using decorator_loop.no_key_lost assms by (simp add: decorator_worker_def)

section \<open>A decorator of pods\<close>

text \<open>A decorator of pods whose attachments are pods too; its hook asks for the pod \<open>b\<close>.\<close>

definition deco_cluster :: clientset where
  "deco_cluster = \<lparr>csParse = core_gv, csDiscovery = pod_discovery\<rparr>"

definition deco_schema :: decorator_schema where
  "deco_schema = \<lparr>dsName = ''d'',
     dsResources = [\<lparr>drAPIVersion = ''v1'', drResource = ''pods'', drLabelSelector = None, drAnnotationSelector = None\<rparr>],
     dsAttachments = [\<lparr>daAPIVersion = ''v1'', daResource = ''pods'', daUpdateStrategy = Some ''InPlace''\<rparr>],
     dsHooks = Some \<lparr>dhSync = Some \<lparr>hkWebhook = Some \<lparr>whURL = Some ''u'', whTimeout = None, whPath = None,
        whService = None\<rparr>, hkInline = None\<rparr>, dhFinalize = None\<rparr>,
     dsResyncPeriodSeconds = None\<rparr>"

definition deco_child :: obj where
  "deco_child = [(''apiVersion'', JStr ''v1''), (''kind'', JStr ''Pod''), (''metadata'', JObj [(''name'', JStr ''b'')])]"

definition deco_response :: decorator_response where
  "deco_response = \<lparr>dpLabels = [(''tier'', Some ''x'')], dpAnnotations = [], dpStatus = None,
     dpAttachments = [deco_child], dpResyncAfterSeconds = 0, dpFinalized = False\<rparr>"

definition deco_io :: "(decorator_request, decorator_response) hook_io" where
  "deco_io = \<lparr>marshalRequest = \<lambda>q. Inr '''', httpPost = \<lambda>url d body. Inr (200, Inr ''''),
     unmarshalResponse = \<lambda>s. Inr deco_response, durationText = \<lambda>d. '''', webhookText = \<lambda>wh. '''',
     hookText = \<lambda>hk. ''''\<rparr>"

definition deco_env :: "dc_factory \<Rightarrow> server denv" where
  "deco_env F = \<lparr>deDyn = std_env, deClients = deco_cluster, deFactory = F,
     deCaches = \<lambda>_. \<lparr>GetByKey = \<lambda>key. Inr (Some sel_pod), ListAll = \<lambda>_. Inr [sel_pod],
       ListAllByNamespace = \<lambda>_ _. Inr [sel_pod]\<rparr>, deHooks = deco_io\<rparr>"

definition deco_client :: resource_client where
  "deco_client = \<lparr>rcResource = complete ''v1'' ('''', ''v1'') (pods ! 0), rcNamespace = ''''\<rparr>"

definition deco_state :: "server world qworld" where
  "deco_state = \<lparr>qwWorld = \<lparr>srv = [([''v1'', ''pods'', '''', ''a''], sel_pod)], calls = []\<rparr>, qwQueue = []\<rparr>"

abbreviation deco_run :: "decorator res \<times> dc_factory" where
  "deco_run \<equiv> newDecoratorController std_selectors deco_cluster deco_schema (NewSharedInformerFactory 10)"

lemma deco_evaluated:
  "case deco_run of (Inl e, F) \<Rightarrow> False | (Inr c, F) \<Rightarrow>
     (case getChildren (deco_env F) c sel_pod of Inl e \<Rightarrow> False | Inr obs \<Rightarrow>
        decorator_callSyncHook (deco_env F) c \<lparr>dqController = dcSchema c, dqObject = sel_pod, dqAttachments = obs,
          dqFinalizing = False\<rparr> = Inr deco_response \<and>
        fst (sync_decorated (deco_env F) c deco_client sel_pod deco_state) = None \<and>
        length (calls (qwWorld (snd (sync_decorated (deco_env F) c deco_client sel_pod deco_state)))) = 2 \<and>
        fst (decorator_sync (deco_env F) c ''v1:Pod::a'' deco_state) = None)"
  by code_simp

lemma deco_facts:
  obtains c F obs Q' where "deco_run = (Inr c, F)" "getChildren (deco_env F) c sel_pod = Inr obs"
    "decorator_callSyncHook (deco_env F) c \<lparr>dqController = dcSchema c, dqObject = sel_pod, dqAttachments = obs,
       dqFinalizing = False\<rparr> = Inr deco_response"
    "sync_decorated (deco_env F) c deco_client sel_pod deco_state = (None, Q')" "length (calls (qwWorld Q')) = 2"
    "fst (decorator_sync (deco_env F) c ''v1:Pod::a'' deco_state) = None"
proof -
  obtain r F where run: "deco_run = (r, F)" by fastforce
  with deco_evaluated obtain c where c: "r = Inr c" by (cases r) simp_all
  with run deco_evaluated obtain obs where obs: "getChildren (deco_env F) c sel_pod = Inr obs"
    by (cases "getChildren (deco_env F) c sel_pod") simp_all
  obtain r' Q' where Q': "sync_decorated (deco_env F) c deco_client sel_pod deco_state = (r', Q')" by fastforce
  show ?thesis
    by (rule that [of c F obs Q']) (use run c obs Q' deco_evaluated in simp_all)
qed

theorem decorator_touches_own_witness:
  "\<exists>c F Q'. deco_run = (Inr c, F) \<and> sync_decorated (deco_env F) c deco_client sel_pod deco_state = (None, Q') \<and>
     calls (qwWorld Q') \<noteq> [] \<and> list_all (\<lambda>(q, a). isOK a \<and> (own_child_request std_kube c sel_pod q \<or>
       object_write std_kube deco_client sel_pod (decorator_answer deco_response) q)) (calls (qwWorld Q'))"
proof -
  obtain c F obs Q' where f: "deco_run = (Inr c, F)" "getChildren (deco_env F) c sel_pod = Inr obs"
    "decorator_callSyncHook (deco_env F) c \<lparr>dqController = dcSchema c, dqObject = sel_pod, dqAttachments = obs,
       dqFinalizing = False\<rparr> = Inr deco_response"
    "sync_decorated (deco_env F) c deco_client sel_pod deco_state = (None, Q')" "length (calls (qwWorld Q')) = 2"
    by (rule deco_facts)
  have K: "kube_objects (deKube (deco_env F))" using std_objects.kube_objects_axioms by (simp add: deco_env_def)
  have ok: "meta_ok sel_pod" by (simp add: meta_ok_def sel_pod_def)
  have keys: "distinct (mkeys (dpLabels deco_response))" "distinct (mkeys (dpAnnotations deco_response))"
    by (simp_all add: deco_response_def)
  have "GetControllerOf std_kube deco_child = None" by code_simp
  then have new: "\<forall>x \<in> set (dpAttachments deco_response). meta_ok x \<and> GetControllerOf (deKube (deco_env F)) x = None"
    by (simp add: deco_response_def meta_ok_def deco_child_def deco_env_def)
  from decorator_touches_own [OF K ok f(2,3) keys new f(4)] obtain ts us where
    "calls (qwWorld Q') = ts @ us"
    "list_all (\<lambda>(q, a). object_write std_kube deco_client sel_pod (decorator_answer deco_response) q) ts"
    "list_all (\<lambda>(q, a). own_child_request std_kube c sel_pod q) us" "list_all (\<lambda>(q, a). isOK a) (ts @ us)"
    by (auto simp: deco_state_def deco_env_def)
  with f(1,4,5) show ?thesis by (intro exI [of _ c] exI [of _ F] exI [of _ Q']) (fastforce simp: list_all_iff)
qed

theorem decorator_returns_informers_witness:
  "\<exists>c F F''. deco_run = (Inr c, F) \<and> decorator_Stop c (OpenChan, F) = Inr (ClosedChan, F'') \<and> pool_ok F'' {}"
proof -
  obtain c F where run: "deco_run = (Inr c, F)" by (rule deco_facts)
  have "distinct (map resource_key (parent_rules deco_schema))" "distinct (map resource_key (child_rules deco_schema))"
    by (simp_all add: deco_schema_def)
  from decorator_returns_informers [OF pool_ok_new this run] run show ?thesis by auto
qed

theorem no_parent_key_is_lost_witness:
  "\<exists>c F Q'. decorator_worker (deco_env F) c [Some ''v1:Pod::a''] deco_state = (Inr (), Q') \<and>
     QForget ''v1:Pod::a'' \<in> set (qwQueue Q')"
proof -
  let ?key = "''v1:Pod::a''"
  obtain c F where s: "fst (decorator_sync (deco_env F) c ?key deco_state) = None" by (rule deco_facts)
  then obtain Q1 where s1: "decorator_sync (deco_env F) c ?key deco_state = (None, Q1)" by (metis prod.collapse)
  then obtain Q' where run: "decorator_worker (deco_env F) c (map Some [?key]) deco_state = (Inr (), Q')"
    by (simp add: decorator_worker_def decorator_processNextWorkItem_def work_item_def)
  from no_parent_key_is_lost [OF run] obtain ops where ops: "qwQueue Q' = qwQueue deco_state @ ops"
    "filter (\<lambda>op. \<not> is_delay op) ops = settling ?key True"
    by (auto simp: s1)
  then have "QForget ?key \<in> set (filter (\<lambda>op. \<not> is_delay op) ops)" by (simp add: settling_def)
  with ops(1) have "QForget ?key \<in> set (qwQueue Q')" by simp
  with run show ?thesis by (intro exI [of _ c] exI [of _ F] exI [of _ Q']) simp
qed

end
