(* ===== verification/MetaPlan.thy ===== *)
theory MetaPlan
  imports Meta WatchPlan CompositePlan DecoratorPlan
begin

text \<open>
  What the meta-controllers promise: they run what is listed, lose no subscription, and start what is
  configured in files as long as they may try.
\<close>

section \<open>The controllers of the model\<close>

definition dotless :: "generic_controller \<Rightarrow> bool" where
  "dotless gctl = (\<forall>a \<in> set (gcAttachments gctl). CHR ''.'' \<notin> set (grResource a))"

lemma NewWatchController_config: "NewWatchController L cs config F = (Inr mgr, F') \<Longrightarrow> wcConfig mgr = config"
  by (auto simp: NewWatchController_def Let_def split: option.splits sum.splits prod.splits)

interpretation generic_team: managed_controllers "generic_managed (tag :: watch_handler \<Rightarrow> 'h) L cs caches same" watch_informers dotless
proof unfold_locales
  fix F opn cfg c F'
  assume "pool_ok F opn" "dotless cfg" "mdNew (generic_managed tag L cs caches same) cfg F = (Inr c, F')"
  with NewWatchController_ok [of F opn cfg L cs "Inr c" F'] NewWatchController_config
  show "pool_ok F' (opn \<union> set (watch_informers c)) \<and> set (watch_informers c) \<inter> opn = {} \<and>
      distinct (watch_informers c) \<and> mdConfig (generic_managed tag L cs caches same) c = cfg"
    by (simp add: generic_managed_def dotless_def)
next
  fix F opn cfg err F'
  assume "pool_ok F opn" "dotless cfg" "mdNew (generic_managed tag L cs caches same) cfg F = (Inl err, F')"
  with NewWatchController_ok [of F opn cfg L cs "Inl err" F'] show "pool_ok F' opn"
    by (simp add: generic_managed_def dotless_def)
next
  fix F opn c evs F'
  assume "pool_ok F opn" "mdStart (generic_managed tag L cs caches same) c F = (evs, F')"
  then show "pool_ok F' opn" by (auto simp: generic_managed_def watch_Start_handlers_def intro: listen_ok)
next
  fix F :: "'h factory" and opn c
  assume "pool_ok F (opn \<union> set (watch_informers c))" "distinct (watch_informers c)" "set (watch_informers c) \<inter> opn = {}"
  from stop_informers_ok [OF this]
  show "\<exists>F'. mdStop (generic_managed tag L cs caches same) c (OpenChan, F) = Inr (ClosedChan, F') \<and> pool_ok F' opn"
    by (auto simp: generic_managed_def watch_Stop_def stop_controller_def watch_informers_def)
qed

definition rules_distinct :: "composite_spec \<Rightarrow> bool" where
  "rules_distinct api = distinct (map rule_key (ccChildResources (csComposite api)))"

definition composite_informers :: "composite_spec \<times> parent_controller \<Rightarrow> resource_informer list" where
  "composite_informers apc = own_informers (snd apc)"

lemma composite_new:
  "mdNew (composite_managed tag cs caches X) api F = (Inr c, F') \<longleftrightarrow>
     (\<exists>pc. newParentController cs api F = (Inr pc, F') \<and> c = (api, pc))"
  "mdNew (composite_managed tag cs caches X) api F = (Inl err, F') \<longleftrightarrow> newParentController cs api F = (Inl err, F')"
  by (cases "fst (newParentController cs api F)"; auto simp: composite_managed_def split: prod.splits)+

lemma Start_handlers_listen:
  "Start_handlers tag caches pc F =
   (case listen caches (map_option resync_period (pcResyncPeriodSeconds pc)) (tag ParentHandlers) [pcParentInformer pc] F of
      (evs, F1) \<Rightarrow> (case listen caches None (tag ChildHandlers) (map snd (pcChildInformers pc)) F1 of (evs', F2) \<Rightarrow> (evs @ evs', F2)))"
  by (auto simp: Start_handlers_def split: option.splits prod.splits)

interpretation composite_team: managed_controllers "composite_managed (tag :: cc_handler \<Rightarrow> 'h) cs caches X" composite_informers rules_distinct
proof unfold_locales
  fix F opn cfg c F'
  assume a: "pool_ok F opn" "rules_distinct cfg" "mdNew (composite_managed tag cs caches X) cfg F = (Inr c, F')"
  then obtain pc where "newParentController cs cfg F = (Inr pc, F')" "c = (cfg, pc)"
    by (auto simp: composite_new)
  with newParentController_ok [of F opn cfg cs "Inr pc" F'] a(1,2)
  show "pool_ok F' (opn \<union> set (composite_informers c)) \<and> set (composite_informers c) \<inter> opn = {} \<and>
      distinct (composite_informers c) \<and> mdConfig (composite_managed tag cs caches X) c = cfg"
    by (simp add: composite_managed_def rules_distinct_def composite_informers_def)
next
  fix F opn cfg err F'
  assume a: "pool_ok F opn" "rules_distinct cfg" "mdNew (composite_managed tag cs caches X) cfg F = (Inl err, F')"
  then have "newParentController cs cfg F = (Inl err, F')"
    by (auto simp: composite_new)
  with newParentController_ok [of F opn cfg cs "Inl err" F'] a(1,2) show "pool_ok F' opn"
    by (simp add: rules_distinct_def)
next
  fix F opn c evs F'
  assume "pool_ok F opn" "mdStart (composite_managed tag cs caches X) c F = (evs, F')"
  then show "pool_ok F' opn"
    by (cases c) (auto simp: composite_managed_def Start_handlers_listen dest!: listen_ok split: prod.splits simp del: listen.simps)
next
  fix F :: "'h factory" and opn c
  assume "pool_ok F (opn \<union> set (composite_informers c))" "distinct (composite_informers c)" "set (composite_informers c) \<inter> opn = {}"
  from stop_informers_ok [OF this]
  show "\<exists>F'. mdStop (composite_managed tag cs caches X) c (OpenChan, F) = Inr (ClosedChan, F') \<and> pool_ok F' opn"
    by (cases c) (auto simp: composite_managed_def parent_Stop_def stop_controller_def composite_informers_def own_informers_def)
qed

definition resources_distinct :: "decorator_schema \<Rightarrow> bool" where
  "resources_distinct dc = (distinct (map resource_key (parent_rules dc)) \<and> distinct (map resource_key (child_rules dc)))"

lemma newDecoratorController_schema: "newDecoratorController L cs schema F = (Inr c, F') \<Longrightarrow> dcSchema c = schema"
  by (auto simp: newDecoratorController_def Let_def split: option.splits sum.splits prod.splits)

interpretation decorator_team: managed_controllers "decorator_managed (tag :: dc_handler \<Rightarrow> 'h) L cs caches X" decorator_informers resources_distinct
proof unfold_locales
  fix F opn cfg c F'
  assume "pool_ok F opn" "resources_distinct cfg" "mdNew (decorator_managed tag L cs caches X) cfg F = (Inr c, F')"
  with newDecoratorController_ok [of F opn cfg L cs "Inr c" F'] newDecoratorController_schema
  show "pool_ok F' (opn \<union> set (decorator_informers c)) \<and> set (decorator_informers c) \<inter> opn = {} \<and>
      distinct (decorator_informers c) \<and> mdConfig (decorator_managed tag L cs caches X) c = cfg"
    by (simp add: decorator_managed_def resources_distinct_def)
next
  fix F opn cfg err F'
  assume "pool_ok F opn" "resources_distinct cfg" "mdNew (decorator_managed tag L cs caches X) cfg F = (Inl err, F')"
  with newDecoratorController_ok [of F opn cfg L cs "Inl err" F'] show "pool_ok F' opn"
    by (simp add: decorator_managed_def resources_distinct_def)
next
  fix F opn c evs F'
  assume "pool_ok F opn" "mdStart (decorator_managed tag L cs caches X) c F = (evs, F')"
  then show "pool_ok F' opn"
    by (auto simp: decorator_managed_def decorator_Start_handlers_def dest: listen_ok split: prod.splits)
next
  fix F :: "'h factory" and opn c
  assume "pool_ok F (opn \<union> set (decorator_informers c))" "distinct (decorator_informers c)" "set (decorator_informers c) \<inter> opn = {}"
  from stop_informers_ok [OF this]
  show "\<exists>F'. mdStop (decorator_managed tag L cs caches X) c (OpenChan, F) = Inr (ClosedChan, F') \<and> pool_ok F' opn"
    by (auto simp: decorator_managed_def decorator_Stop_def stop_controller_def decorator_informers_def)
qed

section \<open>Syncs\<close>

text \<open>
  What the queue hands out and the lister finds, for generic controllers: a key is built from a
  namespace and a name, and the lister finds a configuration by its own.
\<close>

definition lists_generic :: "generic_controller meta_env \<Rightarrow> string \<Rightarrow> bool" where
  "lists_generic X key =
     (\<forall>ns name. meSplitKey X key = Inr (ns, name) \<longrightarrow> key = GenericControllerKey ns name \<and>
        (\<forall>gctl. meList X ns name = Inr gctl \<longrightarrow> gcNamespace gctl = ns \<and> gcName gctl = name \<and> dotless gctl))"

inductive crd_step ::
  "(watch_handler \<Rightarrow> 'h) \<Rightarrow> 'a selector_lib_scheme \<Rightarrow> clientset \<Rightarrow> (nat \<Rightarrow> indexer) \<Rightarrow> (generic_controller \<Rightarrow> generic_controller \<Rightarrow> bool) \<Rightarrow>
   (watch_controller, 'h) team \<Rightarrow> (watch_controller, 'h) team \<Rightarrow> bool"
  for tag L cs caches same where
  crd: "meSame X = same \<Longrightarrow> lists_generic X key \<Longrightarrow> crd_sync tag L cs caches X key T = (r, T') \<Longrightarrow> crd_step tag L cs caches same T T'"

inductive_cases crd_stepE: "crd_step tag L cs caches same T T'"

lemma crd_step_meta:
  assumes "crd_step tag L cs caches same T T'"
  shows "(meta_step (generic_managed tag L cs caches same) dotless)\<^sup>*\<^sup>* T T'"
  using assms
proof (rule crd_stepE)
  fix X key r
  assume X: "meSame X = same" "lists_generic X key" "crd_sync tag L cs caches X key T = (r, T')"
  show ?thesis
  proof (cases "meSplitKey X key")
    case (Inl err)
    with X(3) show ?thesis by (simp add: crd_sync_def)
  next
    case (Inr p)
    obtain ns name where p: "p = (ns, name)" by fastforce
    have "meta_step (generic_managed tag L cs caches same) dotless T T'"
    proof (rule meta_step.intros)
      show "sync_listed (generic_managed tag L cs caches same) key (meList X ns name) T = (r, T')"
        using X(1,3) Inr p by (simp add: crd_sync_def)
      show "dotless gctl \<and> mdKey (generic_managed tag L cs caches same) gctl = key" if "meList X ns name = Inr gctl" for gctl
        using X(2) Inr p that by (auto simp: lists_generic_def generic_managed_def AsNamespaceNameKey_def)
    qed
    then show ?thesis by simp
  qed
qed

text \<open>
  However the generic controllers of the cluster come, change and go, their meta-controller loses
  no subscription. After any syncs of any keys, successful or not, every controller that runs does so under
  the key of its own configuration and has not been stopped, no two of them share a subscription, and the
  factory's subscriptions are exactly theirs and those of others. \<open>Stop\<close> then stops every
  one of them without a panic, and what is left are the subscriptions of the others.
\<close>
theorem generic_controllers_leak_nothing:
  assumes "pool_ok F opn" and "(crd_step tag L cs caches (meSame X))\<^sup>*\<^sup>* (new_team F) T"
  shows "team_ok (crd_managed tag L cs caches X) watch_informers opn T \<and>
    (\<exists>T'. crd_Stop tag L cs caches X (OpenChan, T) = Inr (ClosedChan, T') \<and> pool_ok (tmFactory T') opn \<and>
      list_all (\<lambda>(key, c, ch). ch = ClosedChan) (tmControllers T'))"
proof -
  from assms(2) have "(meta_step (crd_managed tag L cs caches X) dotless)\<^sup>*\<^sup>* (new_team F) T"
    by (induction rule: rtranclp_induct) (auto dest: crd_step_meta)
  from generic_team.steps_ok [OF this team_ok_new [OF assms(1)]]
  have ok: "team_ok (crd_managed tag L cs caches X) watch_informers opn T" .
  from generic_team.stop_all_ok [OF this] ok show ?thesis by (auto simp: crd_Stop_def stop_meta_def)
qed

text \<open>
  C22: A sync of a composite controller makes what runs agree with what is listed, and
  touches no other controller. If none is listed under the name, none runs there; a listed one runs afterwards
  with the listed specification, or was running with one that is semantically equal and is left
  alone; if it cannot be started, the old one has been stopped all the same and the error makes the queue try
  again; any other error of the lister changes nothing.
\<close>
theorem composite_follows_listing:
  assumes "team_ok (composite_managed tag cs caches X) composite_informers opn T"
    and "meSplitKey X key = Inr (ns, name)"
    and "\<forall>api. meList X '''' name = Inr api \<longrightarrow> ccName (csComposite api) = name \<and> rules_distinct api"
    and "composite_sync tag cs caches X key T = (r, T')"
  shows "team_ok (composite_managed tag cs caches X) composite_informers opn T' \<and>
    (\<forall>k. k \<noteq> name \<longrightarrow> map_of (tmControllers T') k = map_of (tmControllers T) k) \<and>
    (case (meList X '''' name, r) of
       (Inl err, None) \<Rightarrow> IsNotFound err \<and> configured (composite_managed tag cs caches X) T' name = None
     | (Inl err, Some e) \<Rightarrow> e = err \<and> \<not> IsNotFound err \<and> T' = T
     | (Inr api, None) \<Rightarrow> \<exists>api'. configured (composite_managed tag cs caches X) T' name = Some api' \<and>
         (api' = api \<or> T' = T \<and> meSame X api api')
     | (Inr api, Some e) \<Rightarrow> configured (composite_managed tag cs caches X) T' name = None)"
proof -
  have same: "mdSame (composite_managed tag cs caches X) = meSame X" by (simp add: composite_managed_def)
  from assms(2,4) have run: "sync_listed (composite_managed tag cs caches X) name (meList X '''' name) T = (r, T')"
    by (simp add: composite_sync_def)
  have "rules_distinct api \<and> mdKey (composite_managed tag cs caches X) api = name" if "meList X '''' name = Inr api" for api
    using assms(3) that by (simp add: composite_managed_def)
  from composite_team.sync_ok [OF assms(1) this run] show ?thesis unfolding same .
qed

text \<open>
  C23: The decorator controllers converge to what is listed. When the keys of all that are listed or run have
  been synced without an error, in whatever order and however often, and the listing did not change in
  the meantime, then for every key there runs a controller with the listed specification, or one
  semantically equal to it, and none where nothing is listed.
\<close>
theorem decorators_converge:
  assumes "team_ok (decorator_managed tag L cs caches X) decorator_informers opn T"
    and "\<forall>key \<in> set keys. meSplitKey X key = Inr ('''', key)"
    and "\<forall>key dc. meList X '''' key = Inr dc \<longrightarrow> dsName dc = key \<and> resources_distinct dc"
    and "\<forall>key. key \<notin> set keys \<longrightarrow> configured (decorator_managed tag L cs caches X) T key = None \<and>
      (\<exists>err. meList X '''' key = Inl err \<and> IsNotFound err)"
    and "run_syncs (decorator_meta_sync tag L cs caches X) keys T = ([], T')"
  shows "as_listed (decorator_managed tag L cs caches X) (meList X '''') T' key"
proof -
  let ?M = "decorator_managed tag L cs caches X"
  have "run_syncs (decorator_meta_sync tag L cs caches X) keys T = sync_keys ?M (meList X '''') keys T"
    by (rule run_syncs_cong) (use assms(2) in \<open>simp add: decorator_meta_sync_def\<close>)
  with assms(5) have run: "sync_keys ?M (meList X '''') keys T = ([], T')" by simp
  have "resources_distinct dc \<and> mdKey ?M dc = k" if "meList X '''' k = Inr dc" for k dc
    using assms(3) that by (simp add: decorator_managed_def)
  note ok = decorator_team.sync_keys_ok [OF this assms(1) run]
  show ?thesis
  proof (cases "key \<in> set keys")
    case False
    with ok have "configured ?M T' key = configured ?M T key" by blast
    with False assms(4) show ?thesis by (auto simp: as_listed_def)
  qed (use ok in blast)
qed

section \<open>Starting with retries\<close>

text \<open>What a run of the retries leaves behind, if it ends.\<close>

lemma retries_invariant:
  "startWithRetries mc took condition elapsed s = Some y \<Longrightarrow>
   (\<forall>s r s'. I s \<longrightarrow> condition s = (r, s') \<longrightarrow> I s') \<longrightarrow> I s \<longrightarrow>
   I (snd y) \<and> (fst y = None \<longrightarrow> (\<exists>s0. I s0 \<and> condition s0 = (Inr True, snd y)))"
proof (induction mc took condition elapsed s y rule: startWithRetries.raw_induct [rotated, consumes 1, case_names 1])
  case (1 rec mc took condition elapsed s y)
  show ?case
  proof (intro impI)
    assume step: "\<forall>s r s'. I s \<longrightarrow> condition s = (r, s') \<longrightarrow> I s'" and I: "I s"
    obtain r s' where c: "condition s = (r, s')" by fastforce
    with I step have I': "I s'" by blast
    show "I (snd y) \<and> (fst y = None \<longrightarrow> (\<exists>s0. I s0 \<and> condition s0 = (Inr True, snd y)))"
    proof (cases "r = Inr True \<or> (case r of Inl err \<Rightarrow> is_panic err | Inr d \<Rightarrow> False) \<or> timed_out mc (elapsed + took s')")
      case True
      with 1(2) c have "y = (None, s') \<and> r = Inr True \<or> (\<exists>err. y = (Some err, s'))"
        by (auto simp: Let_def split: if_splits)
      with I I' c show ?thesis by auto
    next
      case False
      with 1(2) c have "rec mc took condition (elapsed + took s' + WaitIntervalBetweenRestarts mc) s' = Some y"
        by (simp add: Let_def)
      with 1(1) step I' show ?thesis by blast
    qed
  qed
qed

text \<open>A run that may not time out and whose condition never holds does not end.\<close>

lemma retries_forever:
  assumes "\<And>s r s'. I s \<Longrightarrow> condition s = (r, s') \<Longrightarrow> I s' \<and> r \<noteq> Inr True \<and> (\<forall>err. r = Inl err \<longrightarrow> \<not> is_panic err)"
    and "RetryIndefinitelyUntilSucceed mc = Some True" and "I s"
  shows "startWithRetries mc took condition elapsed s = None"
proof (rule ccontr)
  assume "startWithRetries mc took condition elapsed s \<noteq> None"
  then obtain y where "startWithRetries mc took condition elapsed s = Some y" by blast
  then have "RetryIndefinitelyUntilSucceed mc = Some True \<longrightarrow>
    (\<forall>s r s'. I s \<longrightarrow> condition s = (r, s') \<longrightarrow> I s' \<and> r \<noteq> Inr True \<and> (\<forall>err. r = Inl err \<longrightarrow> \<not> is_panic err)) \<longrightarrow> \<not> I s"
  proof (induction mc took condition elapsed s y rule: startWithRetries.raw_induct [rotated, consumes 1, case_names 1])
    case (1 rec mc took condition elapsed s y)
    show ?case
    proof (intro impI notI)
      assume forever: "RetryIndefinitelyUntilSucceed mc = Some True" and I: "I s"
        and step: "\<forall>s r s'. I s \<longrightarrow> condition s = (r, s') \<longrightarrow> I s' \<and> r \<noteq> Inr True \<and> (\<forall>err. r = Inl err \<longrightarrow> \<not> is_panic err)"
      obtain r s' where c: "condition s = (r, s')" by fastforce
      with I step have r: "I s'" "r \<noteq> Inr True" "\<not> (case r of Inl err \<Rightarrow> is_panic err | Inr d \<Rightarrow> False)"
        by (auto split: sum.splits)
      with 1(2) c forever have "rec mc took condition (elapsed + took s' + WaitIntervalBetweenRestarts mc) s' = Some y"
        by (simp add: Let_def timed_out_def)
      with 1(1) forever step r(1) show False by blast
    qed
  qed
  with assms show False by blast
qed

text \<open>A run that may time out ends, after a bounded number of rounds.\<close>

lemma retries_end:
  assumes "RetryIndefinitelyUntilSucceed mc \<noteq> Some True" and "0 < WaitIntervalBetweenRestarts mc" and "\<And>s. 0 \<le> took s"
  shows "\<exists>n r. startWithRetries mc took condition elapsed s = Some (r, ((snd \<circ> condition) ^^ Suc n) s) \<and>
    int n * WaitIntervalBetweenRestarts mc \<le> max 0 (WaitTimeoutForStartAttempt mc + WaitIntervalBetweenRestarts mc - elapsed)"
proof (induction "nat (WaitTimeoutForStartAttempt mc + WaitIntervalBetweenRestarts mc - elapsed)" arbitrary: elapsed s rule: less_induct)
  case less
  let ?i = "WaitIntervalBetweenRestarts mc" and ?t = "WaitTimeoutForStartAttempt mc"
  obtain r s' where c: "condition s = (r, s')" by fastforce
  let ?now = "elapsed + took s'"
  show ?case
  proof (cases "r = Inr True \<or> (case r of Inl err \<Rightarrow> is_panic err | Inr d \<Rightarrow> False) \<or> timed_out mc ?now")
    case True
    have "\<exists>e. startWithRetries mc took condition elapsed s = Some (e, s')"
      using True by (subst startWithRetries.simps) (auto simp: c Let_def split: if_splits)
    then obtain e where "startWithRetries mc took condition elapsed s = Some (e, ((snd \<circ> condition) ^^ Suc 0) s)"
      by (auto simp: c)
    then show ?thesis by (intro exI [of _ 0] exI [of _ e]) simp
  next
    case False
    then have next_round: "startWithRetries mc took condition elapsed s = startWithRetries mc took condition (?now + ?i) s'"
      by (subst startWithRetries.simps) (simp add: c Let_def)
    have now: "?now \<le> ?t" using False assms(1) by (cases "RetryIndefinitelyUntilSucceed mc") (auto simp: timed_out_def)
    have "nat (?t + ?i - (?now + ?i)) < nat (?t + ?i - elapsed)" using now assms(2) assms(3) [of s'] by linarith
    from less.hyps [OF this, of s'] obtain n e where n:
      "startWithRetries mc took condition (?now + ?i) s' = Some (e, ((snd \<circ> condition) ^^ Suc n) s')"
      "int n * ?i \<le> max 0 (?t + ?i - (?now + ?i))" by blast
    have "((snd \<circ> condition) ^^ Suc n) s' = ((snd \<circ> condition) ^^ Suc (Suc n)) s"
      by (simp only: funpow_Suc_right) (simp add: c)
    moreover have "int (Suc n) * ?i \<le> max 0 (?t + ?i - elapsed)"
    proof -
      have "int (Suc n) * ?i = int n * ?i + ?i" by (simp add: algebra_simps)
      with n(2) now assms(3) [of s'] show ?thesis by linarith
    qed
    ultimately show ?thesis using next_round n(1) by (intro exI [of _ "Suc n"] exI [of _ e]) simp
  qed
qed

section \<open>Controllers of configuration files\<close>

lemma find_duplicate_None:
  "find_duplicate configs seen = None \<longleftrightarrow>
   distinct (map AsNamespaceNameKey configs) \<and> AsNamespaceNameKey ` set configs \<inter> set seen = {}"
  by (induction configs arbitrary: seen) (auto simp: Let_def)

lemma NewConfigMetaController_cases:
  assumes "NewConfigMetaController load F (configOpts fn path enabled) = Inr mc"
  obtains configs where "(if path \<noteq> '''' then load path else the fn) = Inr configs" "find_duplicate configs [] = None"
    "mc = \<lparr>cmTeam = new_team F, ConfigPath = path, ConfigLoadFn = fn, Configs = configs,
       RetryIndefinitelyUntilSucceed = (if enabled = Some True then Some True else None),
       WaitTimeoutForStartAttempt = 30 * 60 * second,
       WaitIntervalBetweenRestarts = (if enabled = Some True then 60 * second else second), cmErr = None\<rparr>"
proof -
  let ?mc = "\<lambda>configs err. \<lparr>cmTeam = new_team F, ConfigPath = path, ConfigLoadFn = fn, Configs = configs,
       RetryIndefinitelyUntilSucceed = (if enabled = Some True then Some True else None),
       WaitTimeoutForStartAttempt = 30 * 60 * second,
       WaitIntervalBetweenRestarts = (if enabled = Some True then 60 * second else second), cmErr = err\<rparr>"
  have "runOptions (configOpts fn path enabled)
      \<lparr>cmTeam = new_team F, ConfigPath = '''', ConfigLoadFn = None, Configs = [],
        RetryIndefinitelyUntilSucceed = None, WaitTimeoutForStartAttempt = 30 * 60 * second,
        WaitIntervalBetweenRestarts = second, cmErr = None\<rparr> = ?mc [] None"
    by (simp add: configOpts_def SetMetacConfigLoadFn_def SetMetacConfigPath_def SetMetacConfigToRetryIndefinitelyForStart_def)
  with assms have run: "run_steps [loadConfigs load, isDuplicateConfig] (?mc [] None) = Inr mc"
    by (simp add: NewConfigMetaController_def Let_def)
  then obtain configs where loaded: "(if path \<noteq> '''' then load path else the fn) = Inr configs"
    "loadConfigs load (?mc [] None) = ?mc configs None"
    by (cases "path = ''''"; cases fn; cases "load path"; cases "the fn") (simp_all add: loadConfigs_def Let_def)
  from loaded(2) run have "find_duplicate configs [] = None" "mc = ?mc configs None"
    by (auto simp: Let_def isDuplicateConfig_def split: option.splits)
  with loaded(1) show ?thesis by (rule that)
qed

lemma NewConfigMetaController_fields:
  assumes "NewConfigMetaController load F (configOpts fn path enabled) = Inr mc"
  shows "cmTeam mc = new_team F" "distinct (map AsNamespaceNameKey (Configs mc))"
    "RetryIndefinitelyUntilSucceed mc = (if enabled = Some True then Some True else None)"
    "WaitTimeoutForStartAttempt mc = 30 * 60 * second"
    "WaitIntervalBetweenRestarts mc = (if enabled = Some True then 60 * second else second)"
  by (rule NewConfigMetaController_cases [OF assms]; simp add: find_duplicate_None)+

text \<open>The controllers that run are those of configurations of the list.\<close>

definition runs_configured ::
  "(generic_controller, watch_controller, watch_handler) managed \<Rightarrow> resource_informer set \<Rightarrow> generic_controller list \<Rightarrow>
   (watch_controller, watch_handler) team \<Rightarrow> bool" where
  "runs_configured M opn configs T =
     (team_ok M watch_informers opn T \<and> (\<forall>key gctl. configured M T key = Some gctl \<longrightarrow> gctl \<in> set configs))"

abbreviation has_key :: "('c, 'h) team \<Rightarrow> string \<Rightarrow> bool" where
  "has_key T key \<equiv> map_of (tmControllers T) key \<noteq> None"

lemma add_generic:
  assumes "add_controller (generic_managed tag L cs caches same) conf T = (r, T')" and "dotless conf"
    and "\<not> has_key T (AsNamespaceNameKey conf)" and "runs_configured (generic_managed tag L cs caches same) opn configs T"
    and "conf \<in> set configs"
  shows "runs_configured (generic_managed tag L cs caches same) opn configs T' \<and>
    (\<forall>key. has_key T' key \<longleftrightarrow> has_key T key \<or> r = None \<and> key = AsNamespaceNameKey conf)"
proof -
  let ?M = "generic_managed tag L cs caches same"
  have key: "mdKey ?M conf = AsNamespaceNameKey conf" by (simp add: generic_managed_def)
  from assms(4) have ok: "team_ok ?M watch_informers opn T" by (simp add: runs_configured_def)
  have "map_of (tmControllers T) (mdKey ?M conf) = None" using assms(3) key by (simp del: not_None_eq)
  from generic_team.add_ok [OF ok assms(2) this assms(1), unfolded key]
  have T': "team_ok ?M watch_informers opn T'"
    "case r of None \<Rightarrow> \<exists>c. tmControllers T' = tmControllers T @ [(AsNamespaceNameKey conf, c, OpenChan)] \<and> mdConfig ?M c = conf
     | Some err \<Rightarrow> tmControllers T' = tmControllers T" by auto
  show ?thesis
  proof (cases r)
    case None
    with T'(2) obtain c where c: "tmControllers T' = tmControllers T @ [(AsNamespaceNameKey conf, c, OpenChan)]"
      "mdConfig ?M c = conf" by auto
    have "configured ?M T' key = (case configured ?M T key of Some gctl \<Rightarrow> Some gctl
        | None \<Rightarrow> if key = AsNamespaceNameKey conf then Some conf else None)" for key
      by (auto simp: configured_def c map_add_def split: option.splits)
    with assms(4,5) T'(1) have "runs_configured ?M opn configs T'"
      by (auto simp: runs_configured_def split: option.splits if_splits)
    then show ?thesis using None c(1) by (auto simp: map_add_def split: option.splits)
  next
    case (Some err)
    with T' assms(4) show ?thesis by (simp add: runs_configured_def configured_def)
  qed
qed

lemma start_missing_ok:
  assumes "\<forall>conf \<in> set configs. dotless conf"
  shows "start_missing (generic_managed tag L cs caches same) confs errs T = (r, T') \<Longrightarrow>
    set confs \<subseteq> set configs \<Longrightarrow> runs_configured (generic_managed tag L cs caches same) opn configs T \<Longrightarrow>
    runs_configured (generic_managed tag L cs caches same) opn configs T' \<and> (\<forall>key. has_key T key \<longrightarrow> has_key T' key) \<and>
    (\<forall>errs'. r = Inr errs' \<longrightarrow> prefix errs errs' \<and>
       (errs' = errs \<longrightarrow> (\<forall>conf \<in> set confs. has_key T' (AsNamespaceNameKey conf))))"
proof (induction confs arbitrary: errs T)
  case (Cons conf confs)
  let ?M = "generic_managed tag L cs caches same"
  let ?key = "AsNamespaceNameKey conf"
  show ?case
  proof (cases "has_key T ?key")
    case True
    with Cons.prems have "start_missing ?M confs errs T = (r, T')" by (simp add: Let_def)
    from Cons.IH [OF this] Cons.prems True show ?thesis by auto
  next
    case False
    obtain r1 T1 where add: "add_controller ?M conf T = (r1, T1)" by fastforce
    have T1: "runs_configured ?M opn configs T1" "\<forall>key. has_key T1 key \<longleftrightarrow> has_key T key \<or> r1 = None \<and> key = ?key"
      using add_generic [OF add _ False Cons.prems(3)] assms Cons.prems(2) by auto
    show ?thesis
    proof (cases "\<exists>err. r1 = Some err \<and> is_panic err")
      case True
      with Cons.prems(1) False add have "T' = T1" "\<forall>errs'. r \<noteq> Inr errs'" by (auto simp: Let_def)
      with T1 show ?thesis by auto
    next
      case no_panic: False
      obtain errs1 where rest: "start_missing ?M confs errs1 T1 = (r, T')" "r1 = None \<and> errs1 = errs \<or> errs1 \<noteq> errs \<and> prefix errs errs1"
        using Cons.prems(1) False add no_panic by (auto simp: Let_def split: option.splits if_splits)
      from Cons.IH [OF rest(1) _ T1(1)] Cons.prems(2) have IH: "runs_configured ?M opn configs T'"
        "\<forall>key. has_key T1 key \<longrightarrow> has_key T' key"
        "\<forall>errs'. r = Inr errs' \<longrightarrow> prefix errs1 errs' \<and> (errs' = errs1 \<longrightarrow> (\<forall>conf \<in> set confs. has_key T' (AsNamespaceNameKey conf)))"
        by auto
      have "prefix errs errs' \<and> (errs' = errs \<longrightarrow> errs1 = errs \<and> r1 = None)" if "r = Inr errs'" for errs'
        using IH(3) that rest(2) by (auto simp: prefix_def)
      with IH T1(2) show ?thesis by auto
    qed
  qed
qed auto

lemma start_all_ok:
  assumes "\<forall>conf \<in> set configs. dotless conf"
    and "startAllWatchControllers (generic_managed tag L cs caches same) configs T = (r, T')"
    and "runs_configured (generic_managed tag L cs caches same) opn configs T"
  shows "runs_configured (generic_managed tag L cs caches same) opn configs T' \<and>
    (r = Inr True \<longrightarrow> (\<forall>conf \<in> set configs. has_key T' (AsNamespaceNameKey conf)))"
proof -
  obtain r1 where "start_missing (generic_managed tag L cs caches same) configs [] T = (r1, T')" "r = Inr True \<longrightarrow> r1 = Inr []"
    using assms(2) by (auto simp: startAllWatchControllers_def split: prod.splits sum.splits if_splits)
  with start_missing_ok [OF assms(1) this(1) subset_refl assms(3)] show ?thesis by auto
qed

text \<open>What a start that succeeds leaves: a controller for every configuration.\<close>

lemma configured_team:
  assumes "NewConfigMetaController load F (configOpts fn path enabled) = Inr mc" and "pool_ok F opn"
    and "\<forall>gctl \<in> set (Configs mc). dotless gctl"
    and "config_Start (generic_managed tag L cs caches same) took mc = Some (None, mc')"
  shows "runs_configured (generic_managed tag L cs caches same) opn (Configs mc) (cmTeam mc') \<and>
    (\<forall>gctl \<in> set (Configs mc). has_key (cmTeam mc') (AsNamespaceNameKey gctl))"
proof -
  let ?M = "generic_managed tag L cs caches same" and ?configs = "Configs mc"
  note fields = NewConfigMetaController_fields [OF assms(1)]
  obtain T where start: "startWithRetries mc took (startAllWatchControllers ?M ?configs) 0 (new_team F) = Some (None, T)"
    "mc' = mc\<lparr>cmTeam := T\<rparr>"
    using assms(4) fields(1) by (auto simp: config_Start_def split: option.splits)
  have step: "\<forall>s r s'. runs_configured ?M opn ?configs s \<longrightarrow> startAllWatchControllers ?M ?configs s = (r, s') \<longrightarrow>
      runs_configured ?M opn ?configs s'"
    using start_all_ok [OF assms(3)] by blast
  have "runs_configured ?M opn ?configs (new_team F)"
    using team_ok_new [OF assms(2)] by (simp add: runs_configured_def configured_def new_team_def)
  with retries_invariant [OF start(1), of "runs_configured ?M opn ?configs"] step obtain T0 where T0:
    "runs_configured ?M opn ?configs T" "runs_configured ?M opn ?configs T0"
    "startAllWatchControllers ?M ?configs T0 = (Inr True, T)"
    by auto
  with start_all_ok [OF assms(3) T0(3,2)] start(2) show ?thesis by simp
qed


text \<open>
  C25: Unless it may retry indefinitely, the start of the configured controllers ends: after 1802
  rounds at the latest, whatever time each of them takes, either with all controllers or with an
  error. The bound is the timeout of thirty minutes over the interval of one second, and the
  round that finds the timeout exceeded.
\<close>
theorem config_start_ends:
  assumes "NewConfigMetaController load F (configOpts fn path enabled) = Inr mc" and "enabled \<noteq> Some True"
    and "\<And>T. 0 \<le> took T"
  shows "\<exists>n err. n \<le> 1801 \<and> config_Start M took mc =
    Some (err, mc\<lparr>cmTeam := ((snd \<circ> startAllWatchControllers M (Configs mc)) ^^ Suc n) (new_team F)\<rparr>)"
proof -
  note fields = NewConfigMetaController_fields [OF assms(1)]
  have sec: "second = 1000000000" by (simp add: second_def)
  have "RetryIndefinitelyUntilSucceed mc \<noteq> Some True" "0 < WaitIntervalBetweenRestarts mc"
    using fields(3,5) assms(2) by (simp_all add: sec)
  from retries_end [OF this, where took = took and condition = "startAllWatchControllers M (Configs mc)" and elapsed = 0 and s = "new_team F"] assms(3) obtain n r where
    run: "startWithRetries mc took (startAllWatchControllers M (Configs mc)) 0 (new_team F) =
       Some (r, ((snd \<circ> startAllWatchControllers M (Configs mc)) ^^ Suc n) (new_team F))"
    and n: "int n * WaitIntervalBetweenRestarts mc \<le> max 0 (WaitTimeoutForStartAttempt mc + WaitIntervalBetweenRestarts mc - 0)"
    by blast
  from n have "n \<le> 1801" using fields(4,5) assms(2) by (simp add: sec)
  then show ?thesis by (intro exI [of _ n] exI [of _ r] conjI) (simp_all only: config_Start_def fields(1) run option.case prod.case)
qed

text \<open>
  C26: A meta-controller that may retry indefinitely hangs on one configuration that can never be
  started: its start never ends, and as \<open>Stop\<close> waits for that, it never returns either and the controllers that were started
  are not stopped. Nothing tells the retries to end.
\<close>
theorem config_stop_hangs:
  assumes "NewConfigMetaController load F (configOpts fn path (Some True)) = Inr mc"
    and "conf \<in> set (Configs mc)" and "\<And>F. \<not> isOK (fst (mdNew M conf F))" and "mdKey M = AsNamespaceNameKey"
    and "\<And>gctl F err F'. gctl \<in> set (Configs mc) \<Longrightarrow> mdNew M gctl F = (Inl err, F') \<Longrightarrow> \<not> is_panic err"
  shows "config_Start M took mc = None \<and> config_Stop M (config_Start M took mc) = None"
proof -
  note fields = NewConfigMetaController_fields [OF assms(1)]
  let ?key = "AsNamespaceNameKey conf"
  have absent: "map_of (tmControllers T') ?key = None" if "add_controller M gctl T = (r, T')"
      "map_of (tmControllers T) ?key = None" "gctl \<in> set (Configs mc)" for gctl T r T'
  proof (cases "AsNamespaceNameKey gctl = ?key")
    case True
    with fields(2) assms(2) that(3) have "gctl = conf" by (auto simp: distinct_map dest: inj_onD)
    with assms(3) [of "tmFactory T"] that(1,2) show ?thesis
      by (auto simp: add_controller_def Let_def split: prod.splits sum.splits)
  next
    case False
    with that(1,2) show ?thesis
      by (auto simp: add_controller_def Let_def assms(4) split: prod.splits sum.splits)
  qed
  have start: "start_missing M confs errs T = (r, T') \<Longrightarrow> set confs \<subseteq> set (Configs mc) \<Longrightarrow>
      map_of (tmControllers T) ?key = None \<Longrightarrow>
      map_of (tmControllers T') ?key = None \<and> (\<exists>errs'. r = Inr errs' \<and> (errs \<noteq> [] \<or> conf \<in> set confs \<longrightarrow> errs' \<noteq> []))" for confs errs T r T'
  proof (induction confs arbitrary: errs T)
    case (Cons gctl confs)
    obtain r1 T1 where add: "add_controller M gctl T = (r1, T1)" by fastforce
    have gctl: "gctl \<in> set (Configs mc)" using Cons.prems(2) by simp
    have T1: "map_of (tmControllers T1) ?key = None" by (rule absent [OF add Cons.prems(3) gctl])
    have no_panic: "\<not> is_panic err" if "r1 = Some err" for err
      using add that assms(5) [OF gctl] by (auto simp: add_controller_def Let_def split: prod.splits sum.splits)
    have fails: "r1 \<noteq> None" if "gctl = conf"
      using add that assms(3) [of "tmFactory T"] by (auto simp: add_controller_def Let_def split: prod.splits sum.splits)
    show ?case
    proof (cases "has_key T (AsNamespaceNameKey gctl)")
      case True
      with Cons.prems(3) have "gctl \<noteq> conf" by auto
      moreover from True Cons.prems(1) have "start_missing M confs errs T = (r, T')" by (simp add: Let_def)
      ultimately show ?thesis using Cons.IH [of errs T] Cons.prems(2,3) by auto
    next
      case False
      with Cons.prems(1) add no_panic obtain errs1 where "start_missing M confs errs1 T1 = (r, T')"
        "errs \<noteq> [] \<or> r1 \<noteq> None \<longrightarrow> errs1 \<noteq> []"
        by (auto simp: Let_def split: option.splits if_splits)
      with Cons.IH [of errs1 T1] Cons.prems(2) T1 fails show ?thesis by auto
    qed
  qed auto
  have "startWithRetries mc took (startAllWatchControllers M (Configs mc)) 0 (new_team F) = None"
  proof (rule retries_forever [where I = "\<lambda>T. map_of (tmControllers T) ?key = None"])
    fix T r T'
    assume "map_of (tmControllers T) ?key = None" "startAllWatchControllers M (Configs mc) T = (r, T')"
    moreover obtain r1 T1 where "start_missing M (Configs mc) [] T = (r1, T1)" by fastforce
    ultimately show "map_of (tmControllers T') ?key = None \<and> r \<noteq> Inr True \<and> (\<forall>err. r = Inl err \<longrightarrow> \<not> is_panic err)"
      using start [of "Configs mc" "[]" T r1 T1] assms(2) by (auto simp: startAllWatchControllers_def)
  qed (use fields(3) in \<open>simp_all add: new_team_def\<close>)
  then show ?thesis by (simp add: config_Start_def config_Stop_def fields(1))
qed

text \<open>
  A path is loaded completely or not at all: the configurations are the generic controllers, decoded,
  among the objects of the files of the directory whose names end in .yaml or .json, in the order of the directory and
  of each file; a file that cannot be read or parsed, or an object that cannot be decoded, fails the whole.
\<close>
theorem files_are_configurations:
  assumes "loadConfigsByPath D Y K decode path = Inr gctls"
  shows "\<exists>files uss. ReadDir D path = Inr files \<and> files \<noteq> [] \<and>
    map Inr uss = map (file_objects D Y path) (filter is_config files) \<and>
    map Inr gctls = map decode (filter (\<lambda>u. GetKind K u = ''GenericController'') (concat uss))"
proof -
  from assms obtain files us where files: "ReadDir D path = Inr files" "files \<noteq> []" "load_files D Y path files [] = Inr us"
    "ListGenericControllers K decode us = Inr gctls"
    by (auto simp: loadConfigsByPath_def config_Load_def split: sum.splits if_splits)
  from load_files_all [OF files(3)] obtain uss where "map Inr uss = map (file_objects D Y path) (filter is_config files)"
    "us = concat uss" by auto
  with files ListGenericControllers_all [OF files(4)] show ?thesis by auto
qed

section \<open>Examples\<close>

text \<open>Listings of one configuration each, and caches that hold one pod.\<close>

definition one_pod :: "nat \<Rightarrow> indexer" where
  "one_pod = (\<lambda>_. \<lparr>GetByKey = \<lambda>key. Inr (Some sel_pod), ListAll = \<lambda>_. Inr [sel_pod],
     ListAllByNamespace = \<lambda>_ _. Inr [sel_pod]\<rparr>)"

definition gctl_listing :: "generic_controller meta_env" where
  "gctl_listing = \<lparr>meKeyFunc = \<lambda>gctl. Inr (AsNamespaceNameKey gctl), meSplitKey = \<lambda>key. Inr (''n'', ''g''),
     meList = \<lambda>ns name. Inr pod_gctl, meSame = (=)\<rparr>"

definition listed_at :: "string \<Rightarrow> 'cfg \<Rightarrow> ('cfg \<Rightarrow> 'cfg \<Rightarrow> bool) \<Rightarrow> 'cfg meta_env" where
  "listed_at key cfg same = \<lparr>meKeyFunc = \<lambda>cfg. Inr key, meSplitKey = \<lambda>key. Inr ('''', key),
     meList = \<lambda>ns name. (if name = key then Inr cfg else Inl (Api (NotFound name))), meSame = same\<rparr>"

lemma listed_at_sel [simp]:
  "meSplitKey (listed_at key cfg same) k = Inr ('''', k)" "meSame (listed_at key cfg same) = same"
  "meList (listed_at key cfg same) ns name = (if name = key then Inr cfg else Inl (Api (NotFound name)))"
  by (simp_all add: listed_at_def)

abbreviation "no_informers \<equiv> NewSharedInformerFactory 10"

abbreviation "gctl_managed \<equiv> generic_managed (\<lambda>h. h) std_selectors watch_cluster one_pod (=)"

lemma pod_gctl_dotless: "dotless pod_gctl"
  by (simp add: dotless_def pod_gctl_def rule_attachment_def rule_resource_def gctl_resource.defs)

theorem generic_controllers_leak_nothing_witness:
  "\<exists>T T'. crd_sync (\<lambda>h. h) std_selectors watch_cluster one_pod gctl_listing ''n/g'' (new_team no_informers) = (None, T) \<and>
     mkeys (tmControllers T) = [''n/g''] \<and>
     crd_Stop (\<lambda>h. h) std_selectors watch_cluster one_pod gctl_listing (OpenChan, T) = Inr (ClosedChan, T') \<and> pool_ok (tmFactory T') {}"
proof -
  let ?s = "crd_sync (\<lambda>h. h) std_selectors watch_cluster one_pod gctl_listing ''n/g'' (new_team no_informers)"
  have "fst ?s = None \<and> mkeys (tmControllers (snd ?s)) = [''n/g'']" by code_simp
  then obtain T where T: "?s = (None, T)" "mkeys (tmControllers T) = [''n/g'']" by (metis prod.collapse)
  have "lists_generic gctl_listing ''n/g''"
    using pod_gctl_dotless by (simp add: lists_generic_def gctl_listing_def GenericControllerKey_def pod_gctl_def)
  from crd_step.crd [OF refl this T(1)]
  have "(crd_step (\<lambda>h. h) std_selectors watch_cluster one_pod (meSame gctl_listing))\<^sup>*\<^sup>* (new_team no_informers) T" by simp
  from generic_controllers_leak_nothing [OF pool_ok_new this] obtain T' where
    "crd_Stop (\<lambda>h. h) std_selectors watch_cluster one_pod gctl_listing (OpenChan, T) = Inr (ClosedChan, T')" "pool_ok (tmFactory T') {}"
    by blast
  with T show ?thesis by (intro exI [of _ T] exI [of _ T']) simp
qed

theorem composite_follows_listing_witness:
  "\<exists>T. composite_sync (\<lambda>h. h) pod_cluster one_pod (listed_at ''c'' (pods_api 1) (\<lambda>a b. True)) ''c'' (new_team no_informers) = (None, T) \<and>
     configured (composite_managed (\<lambda>h. h) pod_cluster one_pod (listed_at ''c'' (pods_api 1) (\<lambda>a b. True))) T ''c'' \<noteq> None"
proof -
  let ?X = "listed_at ''c'' (pods_api 1) (\<lambda>a b. True)"
  let ?M = "composite_managed (\<lambda>h. h) pod_cluster one_pod ?X"
  obtain pc F where new: "newParentController pod_cluster (pods_api 1) (no_informers :: cc_factory) = (Inr pc, F)"
    using pods_controller by blast
  have split: "meSplitKey ?X ''c'' = Inr ('''', ''c'')" and found: "meList ?X '''' ''c'' = Inr (pods_api 1)"
    by (simp_all add: listed_at_def)
  obtain evs F' where start: "Start_handlers (\<lambda>h. h) one_pod pc F = (evs, F')" by fastforce
  obtain T where s: "composite_sync (\<lambda>h. h) pod_cluster one_pod ?X ''c'' (new_team no_informers) = (None, T)"
    using new start
    by (auto simp: composite_sync_def sync_listed_def sync_controller_def add_controller_def new_team_def
        composite_managed_def Let_def)
  have ok: "team_ok ?M composite_informers {} (new_team no_informers)" by (rule team_ok_new [OF pool_ok_new])
  have name: "ccName (csComposite (pods_api 1)) = ''c''" by code_simp
  have "rules_distinct (pods_api 1)" by (simp add: rules_distinct_def pods_api_def)
  with name found have "\<forall>api. meList ?X '''' ''c'' = Inr api \<longrightarrow> ccName (csComposite api) = ''c'' \<and> rules_distinct api" by simp
  from composite_follows_listing [OF ok split this s] found s show ?thesis by auto
qed

theorem decorators_converge_witness:
  "\<exists>T. run_syncs (decorator_meta_sync (\<lambda>h. h) std_selectors deco_cluster one_pod (listed_at ''d'' deco_schema (=))) [''d'', ''gone'', ''d'']
       (new_team no_informers) = ([], T) \<and>
     configured (decorator_managed (\<lambda>h. h) std_selectors deco_cluster one_pod (listed_at ''d'' deco_schema (=))) T ''d'' = Some deco_schema"
proof -
  let ?X = "listed_at ''d'' deco_schema (=)" and ?keys = "[''d'', ''gone'', ''d'']"
  let ?M = "decorator_managed (\<lambda>h. h) std_selectors deco_cluster one_pod ?X"
  let ?s = "run_syncs (decorator_meta_sync (\<lambda>h. h) std_selectors deco_cluster one_pod ?X) ?keys (new_team no_informers)"
  have "fst ?s = []" by code_simp
  then obtain T where s: "?s = ([], T)" by (metis prod.collapse)
  have ok: "team_ok ?M decorator_informers {} (new_team no_informers)" by (rule team_ok_new [OF pool_ok_new])
  have split: "\<forall>key \<in> set ?keys. meSplitKey ?X key = Inr ('''', key)" by (simp add: listed_at_def)
  have found: "\<forall>key dc. meList ?X '''' key = Inr dc \<longrightarrow> dsName dc = key \<and> resources_distinct dc"
    by (simp add: listed_at_def deco_schema_def resources_distinct_def)
  have gone: "\<forall>key. key \<notin> set ?keys \<longrightarrow> configured ?M (new_team no_informers) key = None \<and>
      (\<exists>err. meList ?X '''' key = Inl err \<and> IsNotFound err)"
    by (simp add: listed_at_def configured_def new_team_def)
  from decorators_converge [OF ok split found gone s, of "''d''"] s show ?thesis
    by (auto simp: as_listed_def listed_at_def decorator_managed_def)
qed

text \<open>
  Files with one configuration, and one more configuration whose watch resource is never
  discovered.
\<close>

definition bad_gctl :: generic_controller where
  "bad_gctl = pod_gctl\<lparr>gcName := ''bad'', gcWatch := rule_resource (''v1'', ''nodes'')\<rparr>"

abbreviation config_made :: "generic_controller list \<Rightarrow> bool option \<Rightarrow> config_meta res" where
  "config_made configs enabled \<equiv> NewConfigMetaController (\<lambda>path. Inr configs) no_informers (configOpts None ''p'' enabled)"

lemma bad_gctl_fails: "\<exists>err. \<not> is_panic err \<and> (\<forall>F. NewWatchController std_selectors watch_cluster bad_gctl F = (Inl err, F))"
proof -
  have "gcHooks bad_gctl \<noteq> None" by (simp add: bad_gctl_def pod_gctl_def)
  moreover have "case makeAllSelectors std_selectors (Some (csDiscovery watch_cluster)) bad_gctl of Inl err \<Rightarrow> \<not> is_panic err | Inr r \<Rightarrow>
      Option.is_none (GetAPIForAPIVersionAndResource (csDiscovery watch_cluster) (grAPIVersion (gcWatch bad_gctl)) (grResource (gcWatch bad_gctl)))"
    by code_simp
  ultimately show ?thesis
    by (auto simp: NewWatchController_def Let_def Option.is_none_def split: sum.splits option.splits)
qed

lemma made_ok: "\<exists>mc. config_made [pod_gctl] enabled = Inr mc \<and> Configs mc = [pod_gctl]"
  by (simp add: NewConfigMetaController_def configOpts_def SetMetacConfigLoadFn_def SetMetacConfigPath_def
      SetMetacConfigToRetryIndefinitelyForStart_def loadConfigs_def isDuplicateConfig_def Let_def)


theorem config_start_ends_witness:
  "\<exists>mc n r. config_made [pod_gctl] None = Inr mc \<and> n \<le> (1801 :: nat) \<and> config_Start gctl_managed (\<lambda>_. 5) mc = Some r"
proof -
  obtain mc where mc: "config_made [pod_gctl] None = Inr mc" using made_ok by blast
  have "None \<noteq> Some True" "\<And>T. 0 \<le> (\<lambda>_ :: (watch_controller, watch_handler) team. 5 :: int) T" by simp_all
  from config_start_ends [OF mc this] mc show ?thesis by blast
qed

theorem config_stop_hangs_witness:
  "\<exists>mc. config_made [bad_gctl] (Some True) = Inr mc \<and> config_Stop gctl_managed (config_Start gctl_managed (\<lambda>_. 5) mc) = None"
proof -
  obtain mc where mc: "config_made [bad_gctl] (Some True) = Inr mc" "Configs mc = [bad_gctl]"
    by (simp add: NewConfigMetaController_def configOpts_def SetMetacConfigLoadFn_def SetMetacConfigPath_def
        SetMetacConfigToRetryIndefinitelyForStart_def loadConfigs_def isDuplicateConfig_def Let_def)
  obtain err where err: "\<not> is_panic err" "\<And>F :: watch_handler factory. NewWatchController std_selectors watch_cluster bad_gctl F = (Inl err, F)"
    using bad_gctl_fails by blast
  have "bad_gctl \<in> set (Configs mc)" by (simp add: mc(2))
  moreover have "\<not> isOK (fst (mdNew gctl_managed bad_gctl F))" for F by (simp add: generic_managed_def err(2))
  moreover have "mdKey gctl_managed = AsNamespaceNameKey" by (simp add: generic_managed_def)
  moreover have "\<not> is_panic e" if "gctl \<in> set (Configs mc)" "mdNew gctl_managed gctl F = (Inl e, F')" for gctl F e F'
    using that err by (simp add: mc(2) generic_managed_def)
  ultimately have "config_Start gctl_managed (\<lambda>_. 5) mc = None \<and> config_Stop gctl_managed (config_Start gctl_managed (\<lambda>_. 5) mc) = None"
    by (rule config_stop_hangs [OF mc(1)])
  with mc(1) show ?thesis by blast
qed

theorem files_are_configurations_witness:
  "\<exists>D Y. loadConfigsByPath D Y std_kube (\<lambda>u. Inr pod_gctl) ''p'' = Inr [pod_gctl] \<and>
     ReadDir D ''p'' = Inr [(''x.yaml'', False), (''x.txt'', False), (''d.yaml'', True)] \<and>
     filter is_config [(''x.yaml'', False), (''x.txt'', False), (''d.yaml'', True)] = [(''x.yaml'', False)]"
proof -
  let ?u = "[(''kind'', JStr ''GenericController'')] :: obj"
  let ?files = "[(''x.yaml'', False), (''x.txt'', False), (''d.yaml'', True)]"
  define D where "D = \<lparr>ReadDir = \<lambda>path. Inr ?files, ReadFile = \<lambda>path. Inr ''a''\<rparr>"
  define Y where "Y = \<lparr>goyaml_Unmarshal = \<lambda>s. Inr ?u, goyaml_Marshal = \<lambda>ul. Inr '''', yaml_ToJSON = Inr, UnmarshalJSON = \<lambda>s. Inr ?u,
    IsList = \<lambda>u. False, EachListItem = \<lambda>u. Inr []\<rparr>"
  have "case loadConfigsByPath \<lparr>ReadDir = \<lambda>path. Inr ?files, ReadFile = \<lambda>path. Inr ''a''\<rparr>
      \<lparr>goyaml_Unmarshal = \<lambda>s. Inr ?u, goyaml_Marshal = \<lambda>ul. Inr '''', yaml_ToJSON = Inr, UnmarshalJSON = \<lambda>s. Inr ?u,
       IsList = \<lambda>u. False, EachListItem = \<lambda>u. Inr []\<rparr> std_kube (\<lambda>u. Inr pod_gctl) ''p'' of
      Inr gctls \<Rightarrow> gctls = [pod_gctl] | Inl e \<Rightarrow> False" by code_simp
  then have loaded: "loadConfigsByPath D Y std_kube (\<lambda>u. Inr pod_gctl) ''p'' = Inr [pod_gctl]"
    by (simp add: D_def Y_def split: sum.splits)
  from files_are_configurations [OF this] have "ReadDir D ''p'' = Inr ?files" by (auto simp: D_def)
  moreover have "filter is_config ?files = [(''x.yaml'', False)]" by code_simp
  ultimately show ?thesis using loaded by blast
qed

end
