(* ===== verification/Server.thy ===== *)
theory Server
  imports MetaPlan
begin

text \<open>
  The server (\<open>server/server.go\<close>): the meta-controllers of composite, decorator and generic
  controllers, which share one factory of informers, and how they are stopped. The clients are
  given, as results of their constructors; the informers of the configurations, the refresh of
  the discovery and the waits for the workers are left out.
\<close>

section \<open>The state of a server\<close>

text \<open>The handlers the shared informers call are those of all three kinds of controllers.\<close>

datatype metac_handler =
  CompositeHandler cc_handler
| DecoratorHandler dc_handler
| GenericHandler watch_handler

text \<open>
  A meta-controller without its factory: its controllers with their stop channels, what they
  were told, and its own stop channel.
\<close>

record ('c, 'h) crew =
  crControllers :: "('c \<times> channel) gomap"
  crTold :: "(string \<times> 'h \<times> event) list"
  crStop :: channel

record crd_server =
  srComposite :: "(composite_spec \<times> parent_controller, metac_handler) crew"
  srDecorator :: "(decorator, metac_handler) crew"
  srGeneric :: "(watch_controller, metac_handler) crew"
  srFactory :: "metac_handler factory"

text \<open>The constructors of the meta-controllers and their \<open>Start\<close>, which makes the stop channel.\<close>

definition started_crew :: "('c, 'h) crew" where
  "started_crew = \<lparr>crControllers = [], crTold = [], crStop = OpenChan\<rparr>"

text \<open>\<open>New\<close> of \<open>dynamic/clientset\<close>, given what it calls.\<close>

definition clientset_New :: "unit res \<Rightarrow> clientset \<Rightarrow> clientset res" where
  "clientset_New dynamicClient cs =
     (case dynamicClient of
        Inl err \<Rightarrow> Inl (wrapf ''Failed to create dynamic clientset'' err)
      | Inr u \<Rightarrow> Inr cs)"

definition crd_server_name :: string where
  "crd_server_name = ''CRD Metac Server''"

text \<open>\<open>SchemeGroupVersion\<close> as \<open>%s\<close> prints it.\<close>

definition scheme_group_version :: string where
  "scheme_group_version = ''metac.openebs.io/v1alpha1''"

definition CRDServer_Start :: "unit res \<Rightarrow> clientset res \<Rightarrow> int \<Rightarrow> (clientset \<times> crd_server) res" where
  "CRDServer_Start metaClientset dynamicClientset informerRelist =
     (case metaClientset of
        Inl err \<Rightarrow> Inl (wrapf (''Failed to start '' @ crd_server_name @ '': Can't create clientset: '' @ scheme_group_version) err)
      | Inr u \<Rightarrow>
          (case dynamicClientset of
             Inl err \<Rightarrow> Inl (wrapf (''Failed to start '' @ crd_server_name @ '': Can't create dynamic clientset: '' @
                 scheme_group_version) err)
           | Inr cs \<Rightarrow> Inr (cs,
               \<lparr>srComposite = started_crew, srDecorator = started_crew, srGeneric = started_crew,
                srFactory = NewSharedInformerFactory informerRelist\<rparr>)))"


section \<open>Syncs\<close>

text \<open>A sync of one kind works on its own controllers and on the shared factory.\<close>

definition crew_team :: "('c, 'h) crew \<Rightarrow> 'h factory \<Rightarrow> ('c, 'h) team" where
  "crew_team C F = \<lparr>tmControllers = crControllers C, tmFactory = F, tmTold = crTold C\<rparr>"

definition sync_crew ::
  "(('c, 'h) team \<Rightarrow> gerr option \<times> ('c, 'h) team) \<Rightarrow> ('c, 'h) crew \<Rightarrow> 'h factory \<Rightarrow>
   gerr option \<times> ('c, 'h) crew \<times> 'h factory" where
  "sync_crew step C F =
     (case step (crew_team C F) of
        (r, T) \<Rightarrow> (r, C\<lparr>crControllers := tmControllers T, crTold := tmTold T\<rparr>, tmFactory T))"

definition server_composite_sync ::
  "clientset \<Rightarrow> (nat \<Rightarrow> indexer) \<Rightarrow> composite_spec meta_env \<Rightarrow> string \<Rightarrow> crd_server \<Rightarrow> gerr option \<times> crd_server" where
  "server_composite_sync cs caches X key S =
     (case sync_crew (composite_sync CompositeHandler cs caches X key) (srComposite S) (srFactory S) of
        (r, C, F) \<Rightarrow> (r, S\<lparr>srComposite := C, srFactory := F\<rparr>))"

definition server_decorator_sync ::
  "'a label_lib_scheme \<Rightarrow> clientset \<Rightarrow> (nat \<Rightarrow> indexer) \<Rightarrow> decorator_schema meta_env \<Rightarrow> string \<Rightarrow> crd_server \<Rightarrow>
   gerr option \<times> crd_server" where
  "server_decorator_sync L cs caches X key S =
     (case sync_crew (decorator_meta_sync DecoratorHandler L cs caches X key) (srDecorator S) (srFactory S) of
        (r, C, F) \<Rightarrow> (r, S\<lparr>srDecorator := C, srFactory := F\<rparr>))"

definition server_generic_sync ::
  "'a selector_lib_scheme \<Rightarrow> clientset \<Rightarrow> (nat \<Rightarrow> indexer) \<Rightarrow> generic_controller meta_env \<Rightarrow> string \<Rightarrow> crd_server \<Rightarrow>
   gerr option \<times> crd_server" where
  "server_generic_sync L cs caches X key S =
     (case sync_crew (crd_sync GenericHandler L cs caches X key) (srGeneric S) (srFactory S) of
        (r, C, F) \<Rightarrow> (r, S\<lparr>srGeneric := C, srFactory := F\<rparr>))"

section \<open>Stopping\<close>

text \<open>
  The stop function stops the meta-controllers in goroutines, and each of them stops its
  controllers in goroutines. Such a goroutine is the rest of its program, with the stop channel of
  its controller; a schedule says which goroutine has the next turn, and a turn of one that is done
  does nothing. What happens between two turns of a goroutine is up to the others, so that
  every interleaving is a schedule.
\<close>

datatype stop_op =
  CloseStopCh
| DropHandlers resource_informer
| GiveBack resource_informer

definition stop_program :: "resource_informer list \<Rightarrow> stop_op list" where
  "stop_program ris = CloseStopCh # concat (map (\<lambda>ri. [DropHandlers ri, GiveBack ri]) ris)"

definition close_channel :: "channel \<Rightarrow> channel res" where
  "close_channel ch =
     (case ch of
        NilChan \<Rightarrow> Inl (Panic ''close of nil channel'')
      | ClosedChan \<Rightarrow> Inl (Panic ''close of closed channel'')
      | OpenChan \<Rightarrow> Inr ClosedChan)"

fun exec_stop :: "stop_op \<Rightarrow> channel \<times> 'h factory \<Rightarrow> (channel \<times> 'h factory) res" where
  "exec_stop CloseStopCh (ch, F) = (case close_channel ch of Inl p \<Rightarrow> Inl p | Inr ch' \<Rightarrow> Inr (ch', F))"
| "exec_stop (DropHandlers ri) (ch, F) = Inr (ch, RemoveEventHandlers ri F)"
| "exec_stop (GiveBack ri) (ch, F) = (case Close ri F of Inl p \<Rightarrow> Inl p | Inr F' \<Rightarrow> Inr (ch, F'))"

type_synonym goroutine = "channel \<times> stop_op list"

fun run_goroutines :: "nat list \<Rightarrow> goroutine list \<Rightarrow> 'h factory \<Rightarrow> (goroutine list \<times> 'h factory) res" where
  "run_goroutines [] gs F = Inr (gs, F)"
| "run_goroutines (i # sched) gs F =
     (if i < length gs
      then (case gs ! i of
              (ch, []) \<Rightarrow> run_goroutines sched gs F
            | (ch, op # ops) \<Rightarrow>
                (case exec_stop op (ch, F) of
                   Inl p \<Rightarrow> Inl p
                 | Inr (ch', F') \<Rightarrow> run_goroutines sched (gs[i := (ch', ops)]) F'))
      else run_goroutines sched gs F)"

definition crew_goroutines :: "('c \<Rightarrow> resource_informer list) \<Rightarrow> ('c, 'h) crew \<Rightarrow> goroutine list" where
  "crew_goroutines own C = map (\<lambda>(key, c, ch). (ch, stop_program (own c))) (crControllers C)"

definition server_goroutines :: "crd_server \<Rightarrow> goroutine list" where
  "server_goroutines S =
     crew_goroutines composite_informers (srComposite S) @ crew_goroutines decorator_informers (srDecorator S) @
     crew_goroutines watch_informers (srGeneric S)"

text \<open>
  The function that \<open>Start\<close> returns. The meta-controllers close their own channels first; in the code one of
  them may already stop its controllers while another one does, which no schedule below excludes, as
  these channels are their own. It returns when all goroutines are done.
\<close>

definition stop_crew :: "('c, 'h) crew \<Rightarrow> ('c, 'h) crew res" where
  "stop_crew C = (case close_channel (crStop C) of Inl p \<Rightarrow> Inl p | Inr ch \<Rightarrow> Inr (C\<lparr>crStop := ch\<rparr>))"

definition CRDServer_Stop :: "nat list \<Rightarrow> crd_server \<Rightarrow> (goroutine list \<times> crd_server) res" where
  "CRDServer_Stop sched S =
     (case stop_crew (srComposite S) of
        Inl p \<Rightarrow> Inl p
      | Inr cc \<Rightarrow>
          (case stop_crew (srDecorator S) of
             Inl p \<Rightarrow> Inl p
           | Inr dc \<Rightarrow>
               (case stop_crew (srGeneric S) of
                  Inl p \<Rightarrow> Inl p
                | Inr gc \<Rightarrow>
                    (case run_goroutines sched (server_goroutines S) (srFactory S) of
                       Inl p \<Rightarrow> Inl p
                     | Inr (gs, F) \<Rightarrow>
                         Inr (gs, S\<lparr>srComposite := cc, srDecorator := dc, srGeneric := gc, srFactory := F\<rparr>)))))"

definition has_returned :: "goroutine list \<Rightarrow> bool" where
  "has_returned gs = list_all (\<lambda>(ch, ops). ops = []) gs"

section \<open>The server of configuration files\<close>

text \<open>
  \<open>load\<close> loads the configurations of a path. The controllers are started in a goroutine, which is
  \<open>config_Start\<close> of what this returns; its result, which is \<open>None\<close> if it does not end, is what
  the stop function waits for.
\<close>

definition ConfigServer_Start ::
  "clientset res \<Rightarrow> int \<Rightarrow> (string \<Rightarrow> generic_controller list res) \<Rightarrow> generic_controller list res option \<Rightarrow> string \<Rightarrow>
   bool option \<Rightarrow> (clientset \<times> config_meta) res" where
  "ConfigServer_Start dynamicClientset informerRelist load fn path enabled =
     (case dynamicClientset of
        Inl err \<Rightarrow> Inl err
      | Inr cs \<Rightarrow>
          (case NewConfigMetaController load (NewSharedInformerFactory informerRelist) (configOpts fn path enabled) of
             Inl err \<Rightarrow> Inl err
           | Inr mc \<Rightarrow> Inr (cs, mc)))"

definition config_goroutines :: "config_meta \<Rightarrow> goroutine list" where
  "config_goroutines mc = map (\<lambda>(key, c, ch). (ch, stop_program (watch_informers c))) (tmControllers (cmTeam mc))"

definition ConfigServer_Stop ::
  "nat list \<Rightarrow> (gerr option \<times> config_meta) option \<Rightarrow> (goroutine list \<times> config_meta) res option" where
  "ConfigServer_Stop sched started =
     (case started of
        None \<Rightarrow> None
      | Some (Some err, mc) \<Rightarrow> Some (Inl err)
      | Some (None, mc) \<Rightarrow>
          (case run_goroutines sched (config_goroutines mc) (tmFactory (cmTeam mc)) of
             Inl p \<Rightarrow> Some (Inl p)
           | Inr (gs, F) \<Rightarrow> Some (Inr (gs, mc\<lparr>cmTeam := (cmTeam mc)\<lparr>tmFactory := F\<rparr>\<rparr>))))"

section \<open>Programs of goroutines\<close>

text \<open>The program of a goroutine is the \<open>Stop\<close> of its controller, when it runs alone.\<close>

lemma run_drops:
  "run_goroutines (replicate (2 * length ris) 0) [(ch, concat (map (\<lambda>ri. [DropHandlers ri, GiveBack ri]) ris))] F =
   map_sum id (\<lambda>F'. ([(ch, [])], F')) (stop_informers ris F)"
  by (induction ris arbitrary: F) (simp_all split: sum.splits)

lemma stop_program_is_Stop:
  "run_goroutines (replicate (length (stop_program ris)) 0) [(ch, stop_program ris)] F =
   map_sum id (\<lambda>(ch', F'). ([(ch', [])], F')) (stop_controller ris (ch, F))"
proof -
  have "length (concat (map (\<lambda>ri. [DropHandlers ri, GiveBack ri]) ris)) = 2 * length ris"
    by (induction ris) simp_all
  then show ?thesis
    by (cases ch) (simp_all add: stop_program_def stop_controller_def close_channel_def run_drops split: sum.splits)
qed


section \<open>What the server keeps\<close>

definition crew_ok :: "('c \<Rightarrow> string) \<Rightarrow> ('c \<Rightarrow> resource_informer list) \<Rightarrow> ('c, 'h) crew \<Rightarrow> bool" where
  "crew_ok key_of own C =
     (distinct (mkeys (crControllers C)) \<and>
      list_all (\<lambda>(key, c, ch). ch = OpenChan \<and> key_of c = key) (crControllers C) \<and>
      distinct (owned own (crControllers C)) \<and> crStop C = OpenChan)"

definition server_informers :: "crd_server \<Rightarrow> resource_informer list" where
  "server_informers S =
     owned composite_informers (crControllers (srComposite S)) @
     owned decorator_informers (crControllers (srDecorator S)) @
     owned watch_informers (crControllers (srGeneric S))"

definition server_ok :: "crd_server \<Rightarrow> bool" where
  "server_ok S =
     (crew_ok (\<lambda>c. ccName (csComposite (fst c))) composite_informers (srComposite S) \<and>
      crew_ok (\<lambda>c. dsName (dcSchema c)) decorator_informers (srDecorator S) \<and>
      crew_ok (\<lambda>c. AsNamespaceNameKey (wcConfig c)) watch_informers (srGeneric S) \<and>
      distinct (server_informers S) \<and> pool_ok (srFactory S) (set (server_informers S)))"

text \<open>
  The listers find configurations by their names; a configuration has every resource once.
\<close>

definition lists_composite :: "composite_spec meta_env \<Rightarrow> string \<Rightarrow> bool" where
  "lists_composite X key =
     (\<forall>ns name api. meSplitKey X key = Inr (ns, name) \<longrightarrow> meList X '''' name = Inr api \<longrightarrow>
        ccName (csComposite api) = name \<and> rules_distinct api)"

definition lists_decorator :: "decorator_schema meta_env \<Rightarrow> string \<Rightarrow> bool" where
  "lists_decorator X key =
     (\<forall>ns name dc. meSplitKey X key = Inr (ns, name) \<longrightarrow> meList X '''' name = Inr dc \<longrightarrow>
        dsName dc = name \<and> resources_distinct dc)"

text \<open>
  The steps of a server: a sync of any kind and any key. What is listed, discovered and cached may be
  different in every step.
\<close>

inductive server_step :: "'a selector_lib_scheme \<Rightarrow> crd_server \<Rightarrow> crd_server \<Rightarrow> bool" for L where
  composite: "lists_composite X key \<Longrightarrow> server_composite_sync cs caches X key S = (r, S') \<Longrightarrow> server_step L S S'"
| decorator: "lists_decorator X key \<Longrightarrow> server_decorator_sync L cs caches X key S = (r, S') \<Longrightarrow> server_step L S S'"
| generic: "lists_generic X key \<Longrightarrow> server_generic_sync L cs caches X key S = (r, S') \<Longrightarrow> server_step L S S'"

inductive_cases server_stepE: "server_step L S S'"

lemma team_ok_crew:
  "crStop C = OpenChan \<Longrightarrow> team_ok M own opn (crew_team C F) \<longleftrightarrow>
     crew_ok (\<lambda>c. mdKey M (mdConfig M c)) own C \<and> set (owned own (crControllers C)) \<inter> opn = {} \<and>
     pool_ok F (opn \<union> set (owned own (crControllers C)))"
  by (auto simp: team_ok_def crew_ok_def crew_team_def)

context managed_controllers
begin

text \<open>\<open>others\<close> are the subscriptions of the other kinds.\<close>

lemma crew_sync:
  assumes run: "sync_crew (sync_listed M key found) C F = (r, C', F')"
    and found: "\<And>cfg. found = Inr cfg \<Longrightarrow> valid cfg \<and> mdKey M cfg = key"
    and key_of: "\<And>c. mdKey M (mdConfig M c) = key_of c"
    and ok: "crew_ok key_of own C" "distinct (owned own (crControllers C) @ others)"
      "pool_ok F (set (owned own (crControllers C) @ others))"
  shows "crew_ok key_of own C' \<and> distinct (owned own (crControllers C') @ others) \<and>
    pool_ok F' (set (owned own (crControllers C') @ others))"
proof -
  have ch: "crStop C = OpenChan" using ok(1) by (simp add: crew_ok_def)
  with ok have "team_ok M own (set others) (crew_team C F)"
    by (simp add: team_ok_crew key_of Un_commute)
  moreover obtain T' where sync: "sync_listed M key found (crew_team C F) = (r, T')"
    and C': "C' = C\<lparr>crControllers := tmControllers T', crTold := tmTold T'\<rparr>" "F' = tmFactory T'"
    using run by (auto simp: sync_crew_def split: prod.splits)
  ultimately have "team_ok M own (set others) T'" using sync_ok found by blast
  moreover have "T' = crew_team C' F'" by (simp add: C' crew_team_def)
  moreover have "crStop C' = OpenChan" by (simp add: C' ch)
  ultimately show ?thesis using ok(2) by (simp add: team_ok_crew key_of Un_commute crew_ok_def)
qed

end

lemma sync_crew_nothing: "sync_crew (\<lambda>T. (r, T)) C F = (r, C, F)"
  by (simp add: sync_crew_def crew_team_def)

lemma server_new_ok: "CRDServer_Start mc dc relist = Inr (cs, S) \<Longrightarrow> server_ok S"
  by (auto simp: CRDServer_Start_def server_ok_def started_crew_def crew_ok_def server_informers_def pool_ok_new
      split: sum.splits)

text \<open>Every sync is a \<open>sync_listed\<close> of its controllers, or fails on its key.\<close>

lemma composite_crew_sync:
  assumes "sync_crew (composite_sync CompositeHandler cs caches X key) C F = (r, C', F')" and "lists_composite X key"
    and "crew_ok (\<lambda>c. ccName (csComposite (fst c))) composite_informers C"
    and "distinct (owned composite_informers (crControllers C) @ others)"
    and "pool_ok F (set (owned composite_informers (crControllers C) @ others))"
  shows "crew_ok (\<lambda>c. ccName (csComposite (fst c))) composite_informers C' \<and>
    distinct (owned composite_informers (crControllers C') @ others) \<and>
    pool_ok F' (set (owned composite_informers (crControllers C') @ others))"
proof (cases "meSplitKey X key")
  case (Inl err)
  then have "composite_sync CompositeHandler cs caches X key = (\<lambda>T. (Some err, T))"
    by (simp add: composite_sync_def fun_eq_iff)
  with assms show ?thesis by (simp add: sync_crew_nothing)
next
  case (Inr p)
  obtain ns name where p: "p = (ns, name)" by fastforce
  let ?M = "composite_managed CompositeHandler cs caches X :: (_, _, metac_handler) managed"
  have "composite_sync CompositeHandler cs caches X key = sync_listed ?M name (meList X '''' name)"
    by (simp add: composite_sync_def Inr p fun_eq_iff)
  then have "sync_crew (sync_listed ?M name (meList X '''' name)) C F = (r, C', F')"
    using assms(1) by simp
  then show ?thesis
    by (rule composite_team.crew_sync [OF _ _ _ assms(3-5)])
      (use assms(2) Inr p in \<open>auto simp: lists_composite_def composite_managed_def\<close>)
qed

lemma decorator_crew_sync:
  assumes "sync_crew (decorator_meta_sync DecoratorHandler L cs caches X key) C F = (r, C', F')" and "lists_decorator X key"
    and "crew_ok (\<lambda>c. dsName (dcSchema c)) decorator_informers C"
    and "distinct (owned decorator_informers (crControllers C) @ others)"
    and "pool_ok F (set (owned decorator_informers (crControllers C) @ others))"
  shows "crew_ok (\<lambda>c. dsName (dcSchema c)) decorator_informers C' \<and>
    distinct (owned decorator_informers (crControllers C') @ others) \<and>
    pool_ok F' (set (owned decorator_informers (crControllers C') @ others))"
proof (cases "meSplitKey X key")
  case (Inl err)
  then have "decorator_meta_sync DecoratorHandler L cs caches X key = (\<lambda>T. (Some err, T))"
    by (simp add: decorator_meta_sync_def fun_eq_iff)
  with assms show ?thesis by (simp add: sync_crew_nothing)
next
  case (Inr p)
  obtain ns name where p: "p = (ns, name)" by fastforce
  let ?M = "decorator_managed DecoratorHandler L cs caches X :: (_, _, metac_handler) managed"
  have "decorator_meta_sync DecoratorHandler L cs caches X key = sync_listed ?M name (meList X '''' name)"
    by (simp add: decorator_meta_sync_def Inr p fun_eq_iff)
  then have "sync_crew (sync_listed ?M name (meList X '''' name)) C F = (r, C', F')"
    using assms(1) by simp
  then show ?thesis
    by (rule decorator_team.crew_sync [OF _ _ _ assms(3-5)])
      (use assms(2) Inr p in \<open>auto simp: lists_decorator_def decorator_managed_def\<close>)
qed

lemma generic_crew_sync:
  assumes "sync_crew (crd_sync GenericHandler L cs caches X key) C F = (r, C', F')" and "lists_generic X key"
    and "crew_ok (\<lambda>c. AsNamespaceNameKey (wcConfig c)) watch_informers C"
    and "distinct (owned watch_informers (crControllers C) @ others)"
    and "pool_ok F (set (owned watch_informers (crControllers C) @ others))"
  shows "crew_ok (\<lambda>c. AsNamespaceNameKey (wcConfig c)) watch_informers C' \<and>
    distinct (owned watch_informers (crControllers C') @ others) \<and>
    pool_ok F' (set (owned watch_informers (crControllers C') @ others))"
proof (cases "meSplitKey X key")
  case (Inl err)
  then have "crd_sync GenericHandler L cs caches X key = (\<lambda>T. (Some err, T))"
    by (simp add: crd_sync_def fun_eq_iff)
  with assms show ?thesis by (simp add: sync_crew_nothing)
next
  case (Inr p)
  obtain ns name where p: "p = (ns, name)" by fastforce
  let ?M = "crd_managed GenericHandler L cs caches X :: (_, _, metac_handler) managed"
  have "crd_sync GenericHandler L cs caches X key = sync_listed ?M key (meList X ns name)"
    by (simp add: crd_sync_def Inr p fun_eq_iff)
  then have "sync_crew (sync_listed ?M key (meList X ns name)) C F = (r, C', F')"
    using assms(1) by simp
  then show ?thesis
    by (rule generic_team.crew_sync [OF _ _ _ assms(3-5)])
      (use assms(2) Inr p in \<open>auto simp: lists_generic_def generic_managed_def AsNamespaceNameKey_def\<close>)
qed

lemma server_step_ok:
  assumes "server_step L S S'" and "server_ok S"
  shows "server_ok S'"
  using assms(1)
proof (rule server_stepE)
  fix X key cs caches r
  assume X: "lists_composite X key" and sync: "server_composite_sync cs caches X key S = (r, S')"
  from sync obtain C F where run: "sync_crew (composite_sync CompositeHandler cs caches X key) (srComposite S) (srFactory S) = (r, C, F)"
    and S': "S' = S\<lparr>srComposite := C, srFactory := F\<rparr>"
    by (auto simp: server_composite_sync_def split: prod.splits)
  from composite_crew_sync [OF run X, where others = "owned decorator_informers (crControllers (srDecorator S)) @
      owned watch_informers (crControllers (srGeneric S))"] assms(2)
  show ?thesis by (simp add: server_ok_def server_informers_def S')
next
  fix X key cs caches r
  assume X: "lists_decorator X key" and sync: "server_decorator_sync L cs caches X key S = (r, S')"
  from sync obtain C F where run: "sync_crew (decorator_meta_sync DecoratorHandler L cs caches X key) (srDecorator S) (srFactory S) = (r, C, F)"
    and S': "S' = S\<lparr>srDecorator := C, srFactory := F\<rparr>"
    by (auto simp: server_decorator_sync_def split: prod.splits)
  from decorator_crew_sync [OF run X, where others = "owned composite_informers (crControllers (srComposite S)) @
      owned watch_informers (crControllers (srGeneric S))"] assms(2)
  show ?thesis by (auto simp: server_ok_def server_informers_def S' Un_ac)
next
  fix X key cs caches r
  assume X: "lists_generic X key" and sync: "server_generic_sync L cs caches X key S = (r, S')"
  from sync obtain C F where run: "sync_crew (crd_sync GenericHandler L cs caches X key) (srGeneric S) (srFactory S) = (r, C, F)"
    and S': "S' = S\<lparr>srGeneric := C, srFactory := F\<rparr>"
    by (auto simp: server_generic_sync_def split: prod.splits)
  from generic_crew_sync [OF run X, where others = "owned composite_informers (crControllers (srComposite S)) @
      owned decorator_informers (crControllers (srDecorator S))"] assms(2)
  show ?thesis by (auto simp: server_ok_def server_informers_def S' Un_ac)
qed

lemma server_steps_ok: "(server_step L)\<^sup>*\<^sup>* S S' \<Longrightarrow> server_ok S \<Longrightarrow> server_ok S'"
  by (induction rule: rtranclp_induct) (auto dest: server_step_ok)


section \<open>Any interleaving\<close>

text \<open>The subscriptions a goroutine has not given back yet.\<close>

fun pending :: "stop_op list \<Rightarrow> resource_informer list" where
  "pending [] = []"
| "pending (GiveBack ri # ops) = ri # pending ops"
| "pending (CloseStopCh # ops) = pending ops"
| "pending (DropHandlers ri # ops) = pending ops"

fun goroutine_ok :: "goroutine \<Rightarrow> bool" where
  "goroutine_ok (ch, CloseStopCh # ops) = (ch = OpenChan \<and> CloseStopCh \<notin> set ops)"
| "goroutine_ok (ch, ops) = (ch = ClosedChan \<and> CloseStopCh \<notin> set ops)"

definition all_pending :: "goroutine list \<Rightarrow> resource_informer list" where
  "all_pending gs = concat (map (pending \<circ> snd) gs)"

lemma pending_program: "pending (stop_program ris) = ris"
  by (induction ris) (simp_all add: stop_program_def)

lemma program_ok: "goroutine_ok (OpenChan, stop_program ris)"
  by (auto simp: stop_program_def)

text \<open>A turn of a goroutine never panics, and gives back what it has to.\<close>

lemma turn_ok:
  assumes "goroutine_ok (ch, op # ops)" and "pool_ok F (set (pending (op # ops) @ others))"
    and "distinct (pending (op # ops) @ others)"
  shows "\<exists>ch' F'. exec_stop op (ch, F) = Inr (ch', F') \<and> goroutine_ok (ch', ops) \<and>
    pool_ok F' (set (pending ops @ others)) \<and> distinct (pending ops @ others)"
proof (cases op)
  case CloseStopCh
  with assms have "goroutine_ok (ClosedChan, ops)" by (cases ops rule: list.exhaust; cases "hd ops") auto
  with CloseStopCh assms show ?thesis by (simp add: close_channel_def)
next
  case (DropHandlers ri)
  with assms have "goroutine_ok (ch, ops)" by (cases ops rule: list.exhaust; cases "hd ops") auto
  with DropHandlers assms RemoveEventHandlers_ok show ?thesis by auto
next
  case (GiveBack ri)
  with assms(1) have ch: "goroutine_ok (ch, ops)" by (cases ops rule: list.exhaust; cases "hd ops") auto
  obtain F' where F': "Close ri F = Inr F'" "pool_ok F' (set (pending (op # ops) @ others) - {ri})"
    by (rule Close_total [OF assms(2), of ri]) (auto simp: GiveBack)
  moreover have "set (pending (op # ops) @ others) - {ri} = set (pending ops @ others)"
    using assms(3) by (auto simp: GiveBack)
  ultimately show ?thesis using ch assms(3) by (simp add: GiveBack)
qed

lemma run_goroutines_ok:
  "list_all goroutine_ok gs \<Longrightarrow> distinct (all_pending gs) \<Longrightarrow> pool_ok F (set (all_pending gs)) \<Longrightarrow>
   \<exists>gs' F'. run_goroutines sched gs F = Inr (gs', F') \<and> list_all goroutine_ok gs' \<and> pool_ok F' (set (all_pending gs')) \<and>
     length gs' = length gs \<and> (\<forall>j < length gs. length (snd (gs' ! j)) = length (snd (gs ! j)) - count_list sched j)"
proof (induction sched arbitrary: gs F)
  case (Cons i sched)
  show ?case
  proof (cases "i < length gs \<and> snd (gs ! i) \<noteq> []")
    case False
    then have "run_goroutines (i # sched) gs F = run_goroutines sched gs F"
      by (cases "gs ! i") (auto split: list.splits)
    moreover have "length (snd (gs ! j)) - count_list (i # sched) j = length (snd (gs ! j)) - count_list sched j"
      if "j < length gs" for j using False that by auto
    ultimately show ?thesis using Cons.IH [OF Cons.prems] by simp
  next
    case True
    obtain ch op ops where g: "gs ! i = (ch, op # ops)" using True by (cases "gs ! i") (auto simp: neq_Nil_conv)
    define as where "as = take i gs"
    define bs where "bs = drop (Suc i) gs"
    have "gs = take i gs @ gs ! i # drop (Suc i) gs" using True by (intro id_take_nth_drop) simp
    then have gs: "gs = as @ (ch, op # ops) # bs" by (simp only: as_def bs_def g)
    have as: "length as = i" using True by (simp add: as_def)
    let ?others = "all_pending (as @ bs)"
    have ok: "goroutine_ok (ch, op # ops)" "pool_ok F (set (pending (op # ops) @ ?others))"
      "distinct (pending (op # ops) @ ?others)"
      using Cons.prems by (auto simp: gs all_pending_def Un_ac)
    from turn_ok [OF ok] obtain ch' F1 where turn: "exec_stop op (ch, F) = Inr (ch', F1)" "goroutine_ok (ch', ops)"
      "pool_ok F1 (set (pending ops @ ?others))" "distinct (pending ops @ ?others)" by blast
    let ?gs = "gs[i := (ch', ops)]"
    have eq: "?gs = as @ (ch', ops) # bs" by (simp add: gs flip: as)
    have "list_all goroutine_ok ?gs" "distinct (all_pending ?gs)" "pool_ok F1 (set (all_pending ?gs))"
      unfolding eq using Cons.prems(1) turn(2-4) by (auto simp: gs all_pending_def Un_ac)
    from Cons.IH [OF this] obtain gs' F' where run: "run_goroutines sched ?gs F1 = Inr (gs', F')"
      "list_all goroutine_ok gs'" "pool_ok F' (set (all_pending gs'))" "length gs' = length gs"
      "\<forall>j < length gs. length (snd (gs' ! j)) = length (snd (?gs ! j)) - count_list sched j" by auto
    moreover have "run_goroutines (i # sched) gs F = Inr (gs', F')" using True g turn(1) run(1) by simp
    moreover have "length (snd (?gs ! j)) - count_list sched j = length (snd (gs ! j)) - count_list (i # sched) j"
      if "j < length gs" for j using that g by (cases "j = i") auto
    ultimately show ?thesis by auto
  qed
qed simp

lemma crew_goroutines_ok:
  "crew_ok key_of own C \<Longrightarrow> list_all goroutine_ok (crew_goroutines own C) \<and>
     all_pending (crew_goroutines own C) = owned own (crControllers C)"
  by (auto simp: crew_ok_def crew_goroutines_def all_pending_def owned_def list_all_iff pending_program program_ok
      intro!: arg_cong [where f = concat])

lemma server_goroutines_ok:
  assumes "server_ok S"
  shows "list_all goroutine_ok (server_goroutines S)" "all_pending (server_goroutines S) = server_informers S"
proof -
  from assms have "crew_ok (\<lambda>c. ccName (csComposite (fst c))) composite_informers (srComposite S)"
    "crew_ok (\<lambda>c. dsName (dcSchema c)) decorator_informers (srDecorator S)"
    "crew_ok (\<lambda>c. AsNamespaceNameKey (wcConfig c)) watch_informers (srGeneric S)" by (simp_all add: server_ok_def)
  note facts = this [THEN crew_goroutines_ok]
  then show "list_all goroutine_ok (server_goroutines S)" by (simp add: server_goroutines_def)
  from facts show "all_pending (server_goroutines S) = server_informers S"
    by (simp add: server_goroutines_def server_informers_def all_pending_def)
qed

text \<open>With no subscription, no informer runs.\<close>

lemma pool_ok_running: "pool_ok F opn \<Longrightarrow> running F i \<longleftrightarrow> (\<exists>ri \<in> opn. riShared ri = i)"
proof
  assume ok: "pool_ok F opn" and "running F i"
  then have "shared_at F (siKey (faInformers F ! i)) = Some i" using pool_okD(6) [OF ok] by (simp add: running_def)
  from pool_okD(4) [OF ok this] show "\<exists>ri \<in> opn. riShared ri = i" by (auto simp: subscribers_def)
next
  assume ok: "pool_ok F opn" and "\<exists>ri \<in> opn. riShared ri = i"
  with open_subscription(1,2) [OF ok] show "running F i" by (auto simp: running_def)
qed

text \<open>
  Goroutines that hold exactly the subscriptions in use never panic, and leave nothing when each has had
  its turns.
\<close>

definition enough_turns :: "nat list \<Rightarrow> goroutine list \<Rightarrow> bool" where
  "enough_turns sched gs = (\<forall>j < length gs. length (snd (gs ! j)) \<le> count_list sched j)"

definition all_closed :: "goroutine list \<Rightarrow> 'h factory \<Rightarrow> bool" where
  "all_closed gs F =
     (has_returned gs \<and> list_all (\<lambda>(ch, ops). ch = ClosedChan) gs \<and> (\<forall>i. \<not> running F i) \<and>
      (\<forall>k. map_of (faRefCount F) k = None))"

lemma goroutines_stop:
  assumes "list_all goroutine_ok gs0" and "distinct (all_pending gs0)" and "pool_ok F0 (set (all_pending gs0))"
  shows "\<exists>gs F. run_goroutines sched gs0 F0 = Inr (gs, F) \<and> (enough_turns sched gs0 \<longrightarrow> all_closed gs F)"
proof -
  from run_goroutines_ok [OF assms, of sched] obtain gs F where
    run: "run_goroutines sched gs0 F0 = Inr (gs, F)" "list_all goroutine_ok gs" "pool_ok F (set (all_pending gs))"
      "length gs = length gs0" "\<forall>j < length gs0. length (snd (gs ! j)) = length (snd (gs0 ! j)) - count_list sched j"
    by blast
  have "all_closed gs F" if turns: "enough_turns sched gs0"
  proof -
    have empty: "snd g = []" if "g \<in> set gs" for g
      using that run(4,5) turns by (auto simp: in_set_conv_nth enough_turns_def)
    then have "pool_ok F {}" using run(3) by (simp add: all_pending_def)
    note idle = this pool_ok_running [OF this]
    have "fst g = ClosedChan" if "g \<in> set gs" for g
    proof -
      have "goroutine_ok g" using that run(2) by (simp add: list_all_iff)
      with empty [OF that] show ?thesis by (cases g) simp
    qed
    moreover have "map_of (faRefCount F) k = None" for k
      using pool_okD(4,5) [OF idle(1), of k] by (cases "shared_at F k") (auto simp: subscribers_def)
    ultimately show ?thesis using empty idle(2) by (auto simp: all_closed_def has_returned_def list_all_iff)
  qed
  with run(1) show ?thesis by blast
qed

text \<open>The same for the server of configuration files, once its start has succeeded.\<close>

lemma config_server_stops:
  assumes "ConfigServer_Start dynamicClientset relist load fn path enabled = Inr (cs, mc)"
    and "\<forall>gctl \<in> set (Configs mc). dotless gctl"
    and "config_Start (generic_managed (\<lambda>h. h) L cs caches same) took mc = Some (None, mc')"
  shows "\<exists>gs mc''. ConfigServer_Stop sched (Some (None, mc')) = Some (Inr (gs, mc'')) \<and>
    (enough_turns sched (config_goroutines mc') \<longrightarrow> all_closed gs (tmFactory (cmTeam mc'')))"
proof -
  from assms(1) have new: "NewConfigMetaController load (NewSharedInformerFactory relist) (configOpts fn path enabled) = Inr mc"
    by (auto simp: ConfigServer_Start_def split: sum.splits)
  from configured_team [OF new pool_ok_new assms(2,3)]
  have ok: "team_ok (generic_managed (\<lambda>h. h) L cs caches same) watch_informers {} (cmTeam mc')"
    by (simp add: runs_configured_def)
  let ?C = "\<lparr>crControllers = tmControllers (cmTeam mc'), crTold = tmTold (cmTeam mc'), crStop = OpenChan\<rparr>"
  have eq: "config_goroutines mc' = crew_goroutines watch_informers ?C" by (simp add: config_goroutines_def crew_goroutines_def)
  have crew: "crew_ok (\<lambda>c. AsNamespaceNameKey (wcConfig c)) watch_informers ?C"
    "pool_ok (tmFactory (cmTeam mc')) (set (owned watch_informers (crControllers ?C)))"
    using ok by (auto simp: team_ok_def crew_ok_def generic_managed_def)
  note gs0 = crew_goroutines_ok [OF crew(1), folded eq]
  have "distinct (all_pending (config_goroutines mc'))" using gs0 crew(1) by (simp add: crew_ok_def)
  with goroutines_stop [of "config_goroutines mc'" "tmFactory (cmTeam mc')" sched] gs0 crew(2) obtain gs F where
    "run_goroutines sched (config_goroutines mc') (tmFactory (cmTeam mc')) = Inr (gs, F)"
    "enough_turns sched (config_goroutines mc') \<longrightarrow> all_closed gs F" by auto
  then show ?thesis by (auto simp: ConfigServer_Stop_def)
qed

section \<open>Properties\<close>

text \<open>
  C20: The meta-controllers of a server share one factory of informers and do not get into each other's way. After any
  syncs of composite, decorator and generic controllers in any order, successful or not, every controller
  that runs does so under the key of its configuration and is not stopped, no two controllers, of whatever kind, hold
  the same subscription, and exactly those shared informers run that some controller subscribes to.
\<close>
theorem server_runs_what_is_used:
  assumes "CRDServer_Start metaClientset dynamicClientset relist = Inr (cs, S0)" and "(server_step L)\<^sup>*\<^sup>* S0 S"
  shows "server_ok S \<and> (\<forall>i. running (srFactory S) i \<longleftrightarrow> (\<exists>ri \<in> set (server_informers S). riShared ri = i))"
proof -
  from server_steps_ok [OF assms(2) server_new_ok [OF assms(1)]] have ok: "server_ok S" .
  then have "pool_ok (srFactory S) (set (server_informers S))" by (simp add: server_ok_def)
  from ok pool_ok_running [OF this] show ?thesis by blast
qed

text \<open>
  C21: Stopping a server is safe under every interleaving of its goroutines. Whatever the schedule, no goroutine
  panics, neither on a channel that is closed twice nor on an informer; after it has had a turn for each of its operations
  a goroutine is done, so that the stop function returns; and then every controller has closed
  its stop channel, no informer runs, and the factory counts no subscription.
\<close>
theorem server_stops_in_any_order:
  assumes "CRDServer_Start metaClientset dynamicClientset relist = Inr (cs, S0)" and "(server_step L)\<^sup>*\<^sup>* S0 S"
  shows "\<exists>gs S'. CRDServer_Stop sched S = Inr (gs, S') \<and>
    ((\<forall>j < length (server_goroutines S). length (snd (server_goroutines S ! j)) \<le> count_list sched j) \<longrightarrow>
      has_returned gs \<and> list_all (\<lambda>(ch, ops). ch = ClosedChan) gs \<and> (\<forall>i. \<not> running (srFactory S') i) \<and>
      (\<forall>k. map_of (faRefCount (srFactory S')) k = None))"
proof -
  from server_steps_ok [OF assms(2) server_new_ok [OF assms(1)]] have ok: "server_ok S" .
  then have "distinct (server_informers S)" "pool_ok (srFactory S) (set (server_informers S))" by (simp_all add: server_ok_def)
  with goroutines_stop [OF server_goroutines_ok(1) [OF ok]] server_goroutines_ok(2) [OF ok] obtain gs F where
    run: "run_goroutines sched (server_goroutines S) (srFactory S) = Inr (gs, F)"
      "enough_turns sched (server_goroutines S) \<longrightarrow> all_closed gs F" by metis
  have "\<exists>S'. CRDServer_Stop sched S = Inr (gs, S') \<and> srFactory S' = F"
    using ok run(1) by (simp add: CRDServer_Stop_def stop_crew_def close_channel_def server_ok_def crew_ok_def)
  with run(2) show ?thesis unfolding enough_turns_def all_closed_def by blast
qed

section \<open>Examples\<close>

text \<open>A server that starts one controller of each kind; all of them share one informer of pods.\<close>

definition empty_server :: crd_server where
  "empty_server = \<lparr>srComposite = started_crew, srDecorator = started_crew, srGeneric = started_crew, srFactory = no_informers\<rparr>"

definition composite_server :: crd_server where
  "composite_server = snd (server_composite_sync pod_cluster one_pod (listed_at ''c'' (pods_api 1) (\<lambda>a b. True)) ''c'' empty_server)"

definition decorator_server :: crd_server where
  "decorator_server = snd (server_decorator_sync std_selectors deco_cluster one_pod (listed_at ''d'' deco_schema (=)) ''d'' composite_server)"

definition busy_server :: crd_server where
  "busy_server = snd (server_generic_sync std_selectors watch_cluster one_pod gctl_listing ''n/g'' decorator_server)"

lemma server_started: "CRDServer_Start (Inr ()) (Inr cs) 10 = Inr (cs, empty_server)"
  by (simp add: CRDServer_Start_def empty_server_def)

lemma busy_reached: "(server_step std_selectors)\<^sup>*\<^sup>* empty_server busy_server"
proof -
  have "rules_distinct (pods_api 1)" by (simp add: rules_distinct_def pods_api_def)
  moreover have "ccName (csComposite (pods_api 1)) = ''c''" by code_simp
  ultimately have "lists_composite (listed_at ''c'' (pods_api 1) (\<lambda>a b. True)) ''c''" by (simp add: lists_composite_def)
  note one = server_step.composite [OF this surjective_pairing, of std_selectors empty_server pod_cluster one_pod, folded composite_server_def]
  have "lists_decorator (listed_at ''d'' deco_schema (=)) ''d''"
    by (simp add: lists_decorator_def deco_schema_def resources_distinct_def)
  note two = server_step.decorator [OF this surjective_pairing, of std_selectors composite_server deco_cluster one_pod, folded decorator_server_def]
  have "lists_generic gctl_listing ''n/g''"
    using pod_gctl_dotless by (simp add: lists_generic_def gctl_listing_def GenericControllerKey_def pod_gctl_def)
  note three = server_step.generic [OF this surjective_pairing, of std_selectors decorator_server watch_cluster one_pod, folded busy_server_def]
  from one two three show ?thesis by (meson converse_rtranclp_into_rtranclp rtranclp.rtrancl_refl)
qed

lemma busy_server_runs:
  "mkeys (crControllers (srComposite busy_server)) = [''c''] \<and> mkeys (crControllers (srDecorator busy_server)) = [''d''] \<and>
   mkeys (crControllers (srGeneric busy_server)) = [''n/g'']"
  by code_simp

lemma busy_server_informers: "length (server_informers busy_server) = 6"
  by code_simp

lemma busy_server_programs: "map (length \<circ> snd) (server_goroutines busy_server) = [5, 5, 5]"
  by code_simp

theorem server_runs_what_is_used_witness:
  "server_ok busy_server \<and> length (server_informers busy_server) = 6 \<and> running (srFactory busy_server) 0 \<and>
   faRefCount (srFactory busy_server) = [(''pods.v1'', 6)]"
proof -
  have "faRefCount (srFactory busy_server) = [(''pods.v1'', 6)]" by code_simp
  moreover have "map riShared (server_informers busy_server) = [0, 0, 0, 0, 0, 0]" by code_simp
  then have "0 \<in> set (map riShared (server_informers busy_server))" by simp
  then have "\<exists>ri \<in> set (server_informers busy_server). riShared ri = 0" by auto
  moreover note server_runs_what_is_used [OF server_started busy_reached] busy_server_informers
  ultimately show ?thesis by blast
qed

theorem server_stops_in_any_order_witness:
  "\<exists>gs S'. CRDServer_Stop (concat (replicate 5 [2, 0, 1])) busy_server = Inr (gs, S') \<and>
     has_returned gs \<and> length gs = 3 \<and> (\<forall>i. \<not> running (srFactory S') i)"
proof -
  let ?sched = "concat (replicate 5 [2, 0, 1]) :: nat list"
  have len: "length (server_goroutines busy_server) = 3"
    using arg_cong [OF busy_server_programs, of length] by simp
  have "length (snd (server_goroutines busy_server ! j)) \<le> count_list ?sched j" if "j < 3" for j
  proof -
    have "(map (length \<circ> snd) (server_goroutines busy_server)) ! j = length (snd (server_goroutines busy_server ! j))"
      using that len by simp
    moreover from that consider "j = 0" | "j = 1" | "j = 2" by linarith
    then have "[5, 5, 5] ! j \<le> count_list ?sched j" by cases (simp_all add: numeral_eq_Suc)
    ultimately show ?thesis by (simp add: busy_server_programs)
  qed
  with server_stops_in_any_order [OF server_started busy_reached, of ?sched] len obtain gs S' where
    "CRDServer_Stop ?sched busy_server = Inr (gs, S')" "has_returned gs" "\<forall>i. \<not> running (srFactory S') i"
    by (metis (no_types, lifting))
  moreover have "case CRDServer_Stop ?sched busy_server of Inr (gs, S') \<Rightarrow> length gs = 3 | Inl p \<Rightarrow> False" by code_simp
  ultimately show ?thesis by auto
qed

end
