(* ===== verification/Spec2Isabelle.thy ===== *)
theory Spec2Isabelle
  imports StatesPlan Server
begin

text \<open>
  A model of metac, a Kubernetes operator written in Go that runs controllers which are declared as
  resources or in files. A declaration names resources to watch, resources to keep as children
  or attachments of what is watched, and hooks that answer with the desired state.

  \<^bold>\<open>How the program is put together.\<close> The server starts meta-controllers. A meta-controller
  lists declarations and keeps one controller running for each: a generic controller
  (\<open>controller/generic\<close>), a composite controller (\<open>controller/composite\<close>) or a decorator controller
  (\<open>controller/decorator\<close>). A controller subscribes to shared informers (\<open>dynamic/informer\<close>), which
  tell it of events; events become keys in its queue; its worker takes a key, reads the object
  from a cache, collects the children or attachments it has, asks its hook, writes the object, and
  reconciles the children with the answer (\<open>controller/common\<close>) through dynamic clients
  (\<open>dynamic/clientset\<close>) of resources that are discovered at the server (\<open>dynamic/discovery\<close>). A
  reconciled object is a three-way merge (\<open>dynamic/apply\<close>) of what is observed, what was
  applied last, which is kept in an annotation, and what is desired.

  \<^bold>\<open>Theories and sources\<close>, in the order in which they build on each other:

  \<^item> \<open>Prelude\<close>: Go's errors, maps and strings, and the locale \<open>keyed_store\<close> of stores with a key made
    of two strings. \<open>Values\<close>: untyped values, with \<open>third_party/kubernetes/unstructured.go\<close>.
    \<open>KubeLib\<close>: what the code uses of the Kubernetes libraries as a record of functions, with its
    documented laws as the locale \<open>kube_lib\<close> and a concrete instance.
  \<^item> \<open>ThreeWayMerge\<close>: \<open>dynamic/apply/apply.go\<close>. \<open>Registry\<close>: \<open>controller/common/common.go\<close>, the maps of
    objects by kind and name, of resources and of informers. \<open>Discovery\<close>:
    \<open>dynamic/discovery/discovery.go\<close>. \<open>Objects\<close>: \<open>dynamic/object\<close>.
  \<^item> \<open>Client\<close>: \<open>dynamic/clientset/clientset.go\<close> and \<open>controller/common/finalizer\<close>, over a world that
    holds the state of the server and the log of all calls. \<open>Claims\<close>: \<open>dynamic/controllerref\<close> and
    \<open>third_party/kubernetes/controller_ref_manager.go\<close>, adoption and release.
    \<open>Logs\<close>: which calls these operations make.
  \<^item> \<open>ManageChildren\<close>: \<open>controller/common/manage_children.go\<close>, for composite and decorator
    controllers. \<open>StatesController\<close>, \<open>StatesPlan\<close>: \<open>controller/common/controller.go\<close>, the cluster
    states controller, for generic controllers.
  \<^item> \<open>Informers\<close>: \<open>dynamic/informer\<close> and \<open>dynamic/lister\<close>, the shared informers and their counting.
    \<open>ControllerLoop\<close>: queue, worker, subscriptions and stopping, which the code repeats in each
    controller; the locale \<open>settling_worker\<close> is the contract of a worker.
  \<^item> \<open>Rollout\<close>, \<open>Sha1\<close>, \<open>Revisions\<close>, \<open>RevisionsPlan\<close>: \<open>controller/composite/rolling_update.go\<close>,
    \<open>controller_revision.go\<close> and \<open>hooks.go\<close>. \<open>Composite\<close>, \<open>CompositePlan\<close>: its \<open>controller.go\<close>.
  \<^item> \<open>Selectors\<close>: \<open>controller/common/selector\<close> and \<open>apis/metacontroller/v1alpha1/selector.go\<close>.
    \<open>Selection\<close>: \<open>controller/generic/selector.go\<close>. \<open>Hooks\<close>: \<open>hooks\<close> and
    \<open>controller/common/invoke_hook.go\<close>, with the inline hooks of \<open>controller/generic/inlinehook.go\<close>.
  \<^item> \<open>Watched\<close>: what generic and decorator controllers have in common, the queue keys and the update of
    the watched object. \<open>WatchController\<close>, \<open>WatchPlan\<close>: \<open>controller/generic/controller.go\<close>,
    \<open>updatestrategy.go\<close>, \<open>hooks.go\<close> and \<open>options.go\<close>. \<open>Decorator\<close>, \<open>DecoratorPlan\<close>:
    \<open>controller/decorator/controller.go\<close>, \<open>selector.go\<close> and \<open>hooks.go\<close>.
  \<^item> \<open>Config\<close>: \<open>config/config.go\<close> and \<open>third_party/kubernetes/yaml.go\<close>. \<open>MetaLoop\<close>, \<open>Meta\<close>, \<open>MetaPlan\<close>:
    \<open>metacontroller.go\<close> of the three kinds of controllers. \<open>MetaLoop\<close> holds what the three repeat, over a
    record of what a meta-controller calls of its controllers, and their contract as the locale
    \<open>managed_controllers\<close>, which is interpreted for each kind. \<open>Server\<close>: \<open>server/server.go\<close>, the three
    meta-controllers on one shared factory of informers, and the goroutines of the stop functions.

  A definition has the name of the Go function it models, with a prefix of its controller where
  several have the same name. A state is a record and is passed through; a result that can fail is a
  sum, a panic is an error of its own kind that is never wrapped; a Go map is the list of its
  entries in the order of one iteration, so that theorems hold for every order. Requests to the server go
  through a world whose log of requests and answers the properties talk about.

  \<^bold>\<open>What is shown.\<close>

  \<^item> The merge: it is total, keeps values well formed, lets the desired state win and removes what was
    applied and is no longer desired; merging again changes nothing; the last applied state
    can be read back; system fields and the status are those observed.
  \<^item> Reconciliation: the requests of a pass are exactly a plan that is computed from what is observed and
    desired (\<open>ManageChildren\<close>, \<open>StatesPlan\<close>, \<open>RevisionsPlan\<close>), and a pass touches only what it
    owns (\<open>StatesPlan\<close>, \<open>WatchPlan\<close>, \<open>DecoratorPlan\<close>, \<open>Claims\<close>).
  \<^item> Composite controllers: a rollout moves one child at a time and waits for those moved before; the
    revisions are persisted before the response counts; a pass does its steps in order.
  \<^item> Queues: a worker settles every key it takes, and events of children wake their parents.
  \<^item> Informers: an informer runs exactly as long as someone is subscribed. Each controller gives back what it
    took, whether its construction fails or it is stopped; so do the meta-controllers over any sequence
    of syncs. After successful syncs exactly what is listed runs. In a server with all three kinds, exactly
    those informers run that some controller uses, and its stop function closes all of them without
    a panic in every interleaving of its goroutines.
  \<^item> The start from files ends within the bound that follows from its timeout, unless it may retry
    indefinitely; then one bad configuration makes it, and \<open>Stop\<close>, hang.

  Where the code does something else than it means to, a theorem states what it does.

  \<^bold>\<open>Bounds and termination.\<close> Recursions over values end by their size. Retries after a conflict
  are a parameter that is some number of attempts; the library's default backoff, four
  attempts, is an instance. \<open>startWithRetries\<close> is a partial function over the time that has passed: a
  result \<open>None\<close> is a run that never ends, and the bound of 1802 rounds is the timeout of thirty minutes
  over the interval of one second.
  Integers are unbounded; the values they model (counts, generations, seconds) stay far below
  64 bits. Numbers with a fraction in the answers of hooks are rationals.

  \<^bold>\<open>Parameters.\<close> What is not in the repository is an argument: the accessors of unstructured objects
  (\<open>kube\<close>, laws in \<open>kube_lib\<close> and \<open>kube_objects\<close>), the server (\<open>execOf\<close>), retries on conflict
  (\<open>conflict_retry\<close>), label selectors (\<open>label_laws\<close>), the caches of informers, the HTTP calls
  and the encoding of hooks, key functions and listers, the file system, and the YAML library.
  Each has a concrete instance on which the witnesses are evaluated.

  \<^bold>\<open>Not modelled.\<close> Locks, the waits for caches, and goroutines except those of the stop functions: operations are
  sequences, in any order where the code leaves it open, and a \<open>Stop\<close> that waits for a worker comes after the
  worker's last tick.
  Logging, metrics and the exact text that formatting verbs give. The command line (\<open>start\<close>, \<open>main.go\<close>), which
  only reads flags and starts and stops a server. Generated clients, deep copies and the registration of
  types.
  Values are immutable here; where the code changes an object in place and the change is seen
  later, the changed object is passed on.
\<close>

end
